(* ===== verification/Prelude.thy ===== *)
theory Prelude
  imports Complex_Main "HOL-Library.Char_ord" "HOL-Library.List_Lexorder" "HOL-Library.Product_Lexorder" "HOL-Library.Sublist"
    "HOL-Library.Multiset"
begin

text \<open>
  What the component theories share: the model of Go's \<open>error\<close> values, the parts of the
  packages \<open>fmt\<close>, \<open>errors\<close>, \<open>strings\<close> and \<open>time\<close> that the code uses, the
  regular expressions of the validators as predicates on byte strings, and generic lemmas.
  A Go string is a list of bytes, so it is a \<^typ>\<open>string\<close> here. The functions of
  package \<open>strings\<close> that depend on Unicode tables (\<open>ToLower\<close>, \<open>TrimSpace\<close>) are
  modelled on ASCII bytes and leave the other bytes alone.
\<close>

named_theorems verdict_simps \<open>unfolding rules of the verdict computation\<close>
named_theorems kube_simps \<open>equations of the client operations\<close>
named_theorems frame_simps \<open>what an operation leaves unchanged\<close>

section \<open>Errors\<close>

text \<open>
  \<open>fmt.Errorf (f, args)\<close> and \<open>fmt.Sprintf (f, args)\<close> are kept symbolically: the format
  and its arguments. \<open>AErr\<close> is an argument formatted with \<open>%w\<close>, which the error wraps;
  \<open>AText\<close> is an error formatted with \<open>%v\<close>, which it does not. The other constructors
  are the sentinel errors of \<open>pkg/safety/errors.go\<close>, the classes of API errors that the
  code tests for, the error of a cancelled context, and \<open>sdk.ChaosError\<close>.
\<close>

datatype goErr =
    Errorf string "fmtArg list"
  | ErrHolderMismatch
  | ErrLockNotFound
  | ErrLockContention
  | ApiNotFound
  | ApiAlreadyExists
  | ApiConflict
  | ApiOther string
  | CtxErr
  | ChaosError string string
and fmtArg =
    AStr string
  | AInt int
  | ADur int
  | ABool bool
  | ARat rat
  | AStrs "string list"
  | AErr goErr
  | AText goErr

text \<open>\<open>errors.Is\<close>: equal to the target, or one of the wrapped errors is.\<close>

fun errorsIs :: "goErr \<Rightarrow> goErr \<Rightarrow> bool"
  and argsIs :: "fmtArg list \<Rightarrow> goErr \<Rightarrow> bool" where
  "errorsIs (Errorf f as) t = (Errorf f as = t \<or> argsIs as t)"
| "errorsIs e t = (e = t)"
| "argsIs [] t = False"
| "argsIs (AErr e # as) t = (errorsIs e t \<or> argsIs as t)"
| "argsIs (a # as) t = argsIs as t"

text \<open>\<open>apierrors.IsNotFound\<close> and \<open>apierrors.IsAlreadyExists\<close> look through wrapping too.\<close>

definition isNotFound :: "goErr \<Rightarrow> bool" where
  "isNotFound e = errorsIs e ApiNotFound"

definition isAlreadyExists :: "goErr \<Rightarrow> bool" where
  "isAlreadyExists e = errorsIs e ApiAlreadyExists"

lemma isNotFound_simps [simp]:
  "isNotFound ApiNotFound" "\<not> isNotFound ApiAlreadyExists" "\<not> isNotFound ApiConflict"
  "\<not> isNotFound (ApiOther m)" "\<not> isNotFound (ChaosError p m)" "\<not> isNotFound CtxErr"
  by (simp_all add: isNotFound_def)

lemma isAlreadyExists_simps [simp]:
  "isAlreadyExists ApiAlreadyExists" "\<not> isAlreadyExists ApiNotFound"
  "\<not> isAlreadyExists ApiConflict" "\<not> isAlreadyExists (ApiOther m)"
  "\<not> isAlreadyExists (ChaosError p m)"
  by (simp_all add: isAlreadyExists_def)

text \<open>A user-visible message: \<open>Msg '''' []\<close> is the empty string of an unset field.\<close>

datatype message = Msg string "fmtArg list"

abbreviation noMessage :: message where
  "noMessage \<equiv> Msg '''' []"

text \<open>
  A Go function whose only result is an \<open>error\<close> returns \<^typ>\<open>goErr option\<close>, \<open>None\<close>
  for \<open>nil\<close>. \<open>failIf\<close> is \<open>if cond { return err }\<close>, and \<open>firstErr\<close> is a sequence of
  such checks, which returns at the first that fails.
\<close>

definition failIf :: "bool \<Rightarrow> goErr \<Rightarrow> goErr option" where
  "failIf c e = (if c then Some e else None)"

fun firstErr :: "goErr option list \<Rightarrow> goErr option" where
  "firstErr [] = None"
| "firstErr (None # es) = firstErr es"
| "firstErr (Some e # es) = Some e"

lemma failIf_simps [simp]:
  "failIf True e = Some e" "failIf False e = None"
  "failIf c e = None \<longleftrightarrow> \<not> c" "failIf c e = Some e' \<longleftrightarrow> c \<and> e' = e"
  by (auto simp: failIf_def)

lemma firstErr_Cons: "firstErr (x # xs) = (case x of None \<Rightarrow> firstErr xs | Some e \<Rightarrow> Some e)"
  by (cases x) auto

lemma firstErr_None [simp]: "firstErr (x # xs) = None \<longleftrightarrow> x = None \<and> firstErr xs = None"
  by (cases x) auto

lemma firstErr_None_iff: "firstErr xs = None \<longleftrightarrow> (\<forall>x\<in>set xs. x = None)"
  by (induction xs) auto

lemma firstErr_map_None:
  "firstErr (map f xs) = None \<longleftrightarrow> (\<forall>x\<in>set xs. f x = None)"
  by (simp add: firstErr_None_iff)

text \<open>Annotating an error, \<open>fmt.Errorf("...: %w", err)\<close>, keeps \<open>nil\<close> as it is.\<close>

definition wrapErr :: "string \<Rightarrow> fmtArg list \<Rightarrow> goErr option \<Rightarrow> goErr option" where
  "wrapErr f as r = map_option (\<lambda>e. Errorf f (as @ [AErr e])) r"

lemma wrapErr_None [simp]: "wrapErr f as r = None \<longleftrightarrow> r = None"
  by (simp add: wrapErr_def)

lemma wrapErr_simps [simp]: "wrapErr f as None = None"
  by (simp add: wrapErr_def)

section \<open>Package strings\<close>

fun hasPrefix :: "string \<Rightarrow> string \<Rightarrow> bool" where
  "hasPrefix s [] = True"
| "hasPrefix [] (p # ps) = False"
| "hasPrefix (c # s) (p # ps) = (c = p \<and> hasPrefix s ps)"

lemma hasPrefix_prefix: "hasPrefix s p \<longleftrightarrow> prefix p s"
  by (induction s p rule: hasPrefix.induct) auto

lemma hasPrefix_append [simp]: "hasPrefix (p @ s) p"
  by (simp add: hasPrefix_prefix)

definition hasSuffix :: "string \<Rightarrow> string \<Rightarrow> bool" where
  "hasSuffix s p = hasPrefix (rev s) (rev p)"

lemma hasSuffix_suffix: "hasSuffix s p \<longleftrightarrow> suffix p s"
  by (simp add: hasSuffix_def hasPrefix_prefix suffix_to_prefix)

fun strContains :: "string \<Rightarrow> string \<Rightarrow> bool" where
  "strContains [] p = (p = [])"
| "strContains (c # s) p = (hasPrefix (c # s) p \<or> strContains s p)"

lemma strContains_sublist: "strContains s p \<longleftrightarrow> sublist p s"
  by (induction s) (auto simp: hasPrefix_prefix sublist_Cons_right)

text \<open>\<open>strings.Split(s, sep)\<close> for a separator of one byte.\<close>

fun splitOn :: "char \<Rightarrow> string \<Rightarrow> string list" where
  "splitOn d [] = [[]]"
| "splitOn d (c # s) =
     (if c = d then [] # splitOn d s
      else (case splitOn d s of [] \<Rightarrow> [[c]] | x # xs \<Rightarrow> (c # x) # xs))"

lemma splitOn_not_Nil [simp]: "splitOn d s \<noteq> []"
  by (induction s) (auto split: list.splits)

text \<open>\<open>strings.Join(parts, sep)\<close> for a separator of one byte.\<close>

fun joinWith :: "char \<Rightarrow> string list \<Rightarrow> string" where
  "joinWith d [] = []"
| "joinWith d [x] = x"
| "joinWith d (x # y # xs) = x @ d # joinWith d (y # xs)"

lemma joinWith_Cons: "xs \<noteq> [] \<Longrightarrow> joinWith d (x # xs) = x @ d # joinWith d xs"
  by (cases xs) auto

lemma joinWith_push: "xs \<noteq> [] \<Longrightarrow> joinWith d ((c # hd xs) # tl xs) = c # joinWith d xs"
  by (cases xs; cases "tl xs") auto

lemma joinWith_splitOn [simp]: "joinWith d (splitOn d s) = s"
proof (induction s)
  case Nil
  then show ?case by simp
next
  case (Cons c s)
  have ne: "splitOn d s \<noteq> []" by simp
  show ?case
  proof (cases "c = d")
    case True
    then show ?thesis using Cons.IH ne by (simp add: joinWith_Cons)
  next
    case False
    then have "joinWith d (splitOn d (c # s)) = c # joinWith d (splitOn d s)"
      using joinWith_push [OF ne] by (auto split: list.split)
    then show ?thesis using Cons.IH by simp
  qed
qed

lemma splitOn_append_sep:
  "d \<notin> set x \<Longrightarrow> splitOn d (x @ d # s) = x # splitOn d s"
  by (induction x) auto

lemma splitOn_no_sep: "d \<notin> set x \<Longrightarrow> splitOn d x = [x]"
  by (induction x) auto

lemma splitOn_joinWith:
  "xs \<noteq> [] \<Longrightarrow> \<forall>x\<in>set xs. d \<notin> set x \<Longrightarrow> splitOn d (joinWith d xs) = xs"
  by (induction d xs rule: joinWith.induct)
     (auto simp: splitOn_append_sep splitOn_no_sep)

lemma splitOn_no_sep_in: "x \<in> set (splitOn d s) \<Longrightarrow> d \<notin> set x"
  by (induction s arbitrary: x) (auto split: if_splits list.splits)

text \<open>\<open>strings.SplitN(s, sep, 2)\<close>: the text before and after the first separator.\<close>

fun splitFirst :: "char \<Rightarrow> string \<Rightarrow> string \<times> string option" where
  "splitFirst d [] = ([], None)"
| "splitFirst d (c # s) =
     (if c = d then ([], Some s)
      else (case splitFirst d s of (a, b) \<Rightarrow> (c # a, b)))"

definition isSpace :: "char \<Rightarrow> bool" where
  "isSpace c = (c = CHR '' '' \<or> c = CHR 0x09 \<or> c = CHR 0x0A \<or> c = CHR 0x0B \<or> c = CHR 0x0C
     \<or> c = CHR 0x0D)"

definition trimSpace :: "string \<Rightarrow> string" where
  "trimSpace s = rev (dropWhile isSpace (rev (dropWhile isSpace s)))"

text \<open>\<open>strings.TrimRight(s, cutset)\<close>.\<close>

definition trimRight :: "string \<Rightarrow> string \<Rightarrow> string" where
  "trimRight s cutset = rev (dropWhile (\<lambda>c. c \<in> set cutset) (rev s))"

lemma length_trimRight: "length (trimRight s cutset) \<le> length s"
  unfolding trimRight_def by (metis length_dropWhile_le length_rev)

lemma trimRight_Cons: "c \<notin> set cutset \<Longrightarrow> trimRight (c # s) cutset = c # trimRight s cutset"
  by (simp add: trimRight_def dropWhile_append)

lemma last_trimRight: "trimRight s cutset \<noteq> [] \<Longrightarrow> last (trimRight s cutset) \<notin> set cutset"
  unfolding trimRight_def using hd_dropWhile [of "\<lambda>c. c \<in> set cutset" "rev s"] by (auto simp: last_rev)

lemma set_trimRight: "set (trimRight s cutset) \<subseteq> set s"
  unfolding trimRight_def by (metis set_dropWhileD set_rev subsetI)

definition isLower :: "char \<Rightarrow> bool" where
  "isLower c = (97 \<le> (of_char c :: nat) \<and> (of_char c :: nat) \<le> 122)"

definition isUpper :: "char \<Rightarrow> bool" where
  "isUpper c = (65 \<le> (of_char c :: nat) \<and> (of_char c :: nat) \<le> 90)"

definition isDigit :: "char \<Rightarrow> bool" where
  "isDigit c = (48 \<le> (of_char c :: nat) \<and> (of_char c :: nat) \<le> 57)"

definition lowerChar :: "char \<Rightarrow> char" where
  "lowerChar c = (if isUpper c then char_of ((of_char c :: nat) + 32) else c)"

definition toLower :: "string \<Rightarrow> string" where
  "toLower s = map lowerChar s"

lemma length_toLower [simp]: "length (toLower s) = length s"
  by (simp add: toLower_def)

section \<open>The validators' regular expressions\<close>

text \<open>
  \<open>^A(B*A)?$\<close>, the shape of all name patterns: one edge byte, or an edge byte, middle
  bytes and a last edge byte.
\<close>

definition edgePattern :: "(char \<Rightarrow> bool) \<Rightarrow> (char \<Rightarrow> bool) \<Rightarrow> string \<Rightarrow> bool" where
  "edgePattern edge mid s = (case s of [] \<Rightarrow> False
     | c # cs \<Rightarrow> edge c \<and> (cs = [] \<or> list_all mid (butlast cs) \<and> edge (last cs)))"

lemma edgePattern_nonempty: "edgePattern edge mid s \<Longrightarrow> s \<noteq> []"
  by (auto simp: edgePattern_def)

lemma edgePattern_chars:
  assumes "edgePattern edge mid s" and "\<And>c. edge c \<Longrightarrow> mid c" and "c \<in> set s"
  shows "mid c"
proof -
  obtain d ds where s: "s = d # ds" and d: "edge d"
    and ds: "ds = [] \<or> list_all mid (butlast ds) \<and> edge (last ds)"
    using assms(1) by (auto simp: edgePattern_def split: list.splits)
  show ?thesis
  proof (cases "ds = []")
    case True
    then show ?thesis using s d assms by simp
  next
    case False
    then have "set ds = set (butlast ds) \<union> {last ds}"
      by (metis Un_insert_right append_butlast_last_id list.simps(15) set_append sup_bot_right
          empty_set)
    then show ?thesis using False s d ds assms by (auto simp: list_all_iff)
  qed
qed

text \<open>\<open>^A B*$\<close>, the shape of field names.\<close>

definition headPattern :: "(char \<Rightarrow> bool) \<Rightarrow> (char \<Rightarrow> bool) \<Rightarrow> string \<Rightarrow> bool" where
  "headPattern h t s = (case s of [] \<Rightarrow> False | c # cs \<Rightarrow> h c \<and> list_all t cs)"

section \<open>Maps with string keys\<close>

type_synonym strmap = "string \<rightharpoonup> string"

text \<open>\<open>m[k]\<close> of a Go map: the zero value for a key that is not there.\<close>

definition mget :: "strmap \<Rightarrow> string \<Rightarrow> string" where
  "mget m k = (case m k of None \<Rightarrow> '''' | Some v \<Rightarrow> v)"

lemma mget_simps [simp]:
  "mget (m(k \<mapsto> v)) k = v" "k \<noteq> k' \<Longrightarrow> mget (m(k \<mapsto> v)) k' = mget m k'"
  "mget Map.empty k = ''''"
  by (simp_all add: mget_def)

section \<open>Durations\<close>

text \<open>
  A \<open>time.Duration\<close> counts nanoseconds in an \<open>int64\<close>; it is an \<^typ>\<open>int\<close> here, and the
  bounds that keep it inside the machine range are lemmas where the code multiplies or adds.
\<close>

type_synonym duration = int
type_synonym timestamp = int

definition second :: duration where
  "second = 1000000000"

definition millisecond :: duration where
  "millisecond = 1000000"

definition int64_max :: int where
  "int64_max = 9223372036854775807"

definition int32_max :: int where
  "int32_max = 2147483647"

end
