(* ===== verification/ApiTypes.thy ===== *)
theory ApiTypes
  imports Prelude
begin

text \<open>
  The custom resource \<open>ChaosExperiment\<close>, \<open>api/v1alpha1/types.go\<close>: its spec and status as
  records with one field per struct field, its string enumerations as datatypes with a
  constructor for every other string, and the package's own functions on them. Times and
  durations are nanoseconds. Type and object metadata are reduced to what the code reads or
  writes: name, namespace, generation, deletion timestamp and finalizers.
\<close>

section \<open>Enumerations\<close>

datatype injectionType =
    PodKill | NetworkPartition | CRDMutation | ConfigDrift | WebhookDisrupt | RBACRevoke
  | FinalizerBlock | ClientFault | OwnerRefOrphan | QuotaExhaustion | WebhookLatency
  | NamespaceDeletion | LabelStomping | SecretDeletion | DeploymentScaleZero
  | LeaderElectionDisrupt | CrashLoopInject | ImageCorrupt | ResourceDeletion | PDBBlock
  | OtherInjection string

fun injectionTypeName :: "injectionType \<Rightarrow> string" where
  "injectionTypeName PodKill = ''PodKill''"
| "injectionTypeName NetworkPartition = ''NetworkPartition''"
| "injectionTypeName CRDMutation = ''CRDMutation''"
| "injectionTypeName ConfigDrift = ''ConfigDrift''"
| "injectionTypeName WebhookDisrupt = ''WebhookDisrupt''"
| "injectionTypeName RBACRevoke = ''RBACRevoke''"
| "injectionTypeName FinalizerBlock = ''FinalizerBlock''"
| "injectionTypeName ClientFault = ''ClientFault''"
| "injectionTypeName OwnerRefOrphan = ''OwnerRefOrphan''"
| "injectionTypeName QuotaExhaustion = ''QuotaExhaustion''"
| "injectionTypeName WebhookLatency = ''WebhookLatency''"
| "injectionTypeName NamespaceDeletion = ''NamespaceDeletion''"
| "injectionTypeName LabelStomping = ''LabelStomping''"
| "injectionTypeName SecretDeletion = ''SecretDeletion''"
| "injectionTypeName DeploymentScaleZero = ''DeploymentScaleZero''"
| "injectionTypeName LeaderElectionDisrupt = ''LeaderElectionDisrupt''"
| "injectionTypeName CrashLoopInject = ''CrashLoopInject''"
| "injectionTypeName ImageCorrupt = ''ImageCorrupt''"
| "injectionTypeName ResourceDeletion = ''ResourceDeletion''"
| "injectionTypeName PDBBlock = ''PDBBlock''"
| "injectionTypeName (OtherInjection s) = s"

text \<open>The keys of the Go map \<open>validInjectionTypes\<close>, in the order of the source.\<close>

definition validInjectionTypes :: "injectionType list" where
  "validInjectionTypes =
     [PodKill, NetworkPartition, CRDMutation, ConfigDrift, WebhookDisrupt, RBACRevoke,
      FinalizerBlock, ClientFault, OwnerRefOrphan, QuotaExhaustion, WebhookLatency,
      NamespaceDeletion, LabelStomping, SecretDeletion, DeploymentScaleZero,
      LeaderElectionDisrupt, CrashLoopInject, ImageCorrupt, ResourceDeletion, PDBBlock]"

text \<open>The type that a string denotes: the constant of that name if there is one.\<close>

definition injectionTypeOf :: "string \<Rightarrow> injectionType" where
  "injectionTypeOf s = (case find (\<lambda>t. injectionTypeName t = s) validInjectionTypes of
     Some t \<Rightarrow> t | None \<Rightarrow> OtherInjection s)"

text \<open>
  \<open>ValidInjectionTypes\<close> collects the keys of a map, whose order Go leaves open, and sorts
  them by name; the names are distinct, so the result does not depend on that order.
\<close>

definition sortInjectionTypes :: "injectionType list \<Rightarrow> injectionType list" where
  "sortInjectionTypes keys = sort_key injectionTypeName keys"

definition ValidInjectionTypes :: "injectionType list" where
  "ValidInjectionTypes = sortInjectionTypes validInjectionTypes"

definition ValidateInjectionType :: "injectionType \<Rightarrow> goErr option" where
  "ValidateInjectionType t =
     failIf (t \<notin> set validInjectionTypes)
       (Errorf ''unknown injection type %q; valid types: %v''
          [AStr (injectionTypeName t), AStrs (map injectionTypeName ValidInjectionTypes)])"

datatype dangerLevel =
    DangerUnset | DangerLevelLow | DangerLevelMedium | DangerLevelHigh | OtherDanger string

fun dangerLevelName :: "dangerLevel \<Rightarrow> string" where
  "dangerLevelName DangerUnset = ''''"
| "dangerLevelName DangerLevelLow = ''low''"
| "dangerLevelName DangerLevelMedium = ''medium''"
| "dangerLevelName DangerLevelHigh = ''high''"
| "dangerLevelName (OtherDanger s) = s"

definition validDangerLevels :: "dangerLevel list" where
  "validDangerLevels = [DangerLevelLow, DangerLevelMedium, DangerLevelHigh]"

definition ValidDangerLevels :: "dangerLevel list" where
  "ValidDangerLevels = sort_key dangerLevelName validDangerLevels"

definition ValidateDangerLevel :: "dangerLevel \<Rightarrow> goErr option" where
  "ValidateDangerLevel d =
     (if d = DangerUnset then None
      else failIf (d \<notin> set validDangerLevels)
        (Errorf ''unknown danger level %q; valid levels: %v''
           [AStr (dangerLevelName d), AStrs (map dangerLevelName ValidDangerLevels)]))"

datatype checkType =
    CheckUnset | CheckConditionTrue | CheckResourceExists | CheckFieldEquals | OtherCheck string

datatype experimentPhase =
    PhaseUnset | PhasePending | PhaseSteadyStatePre | PhaseInjecting | PhaseObserving
  | PhaseSteadyStatePost | PhaseEvaluating | PhaseComplete | PhaseAborted | OtherPhase string

datatype verdict = VerdictUnset | Resilient | Degraded | Failed | Inconclusive

datatype conditionType =
    ConditionSteadyStateEstablished | ConditionFaultInjected | ConditionRecoveryObserved
  | ConditionComplete | OtherCondition string

datatype conditionStatus = ConditionTrue | ConditionFalse | ConditionUnknown

section \<open>Spec\<close>

record targetSpec =
  tgtOperator :: string
  tgtComponent :: string
  tgtResource :: string

record steadyStateCheck =
  chkType :: checkType
  chkAPIVersion :: string
  chkKind :: string
  chkName :: string
  chkNamespace :: string
  chkConditionType :: string
  chkFieldPath :: string
  chkExpectedValue :: string

record steadyStateSpec =
  ssChecks :: "steadyStateCheck list"
  ssTimeout :: duration

record injectionSpec =
  injType :: injectionType
  injParams :: strmap
  injCount :: int
  injTTL :: duration
  injDanger :: dangerLevel

record blastRadiusSpec =
  brMaxPodsAffected :: int
  brAllowedNamespaces :: "string list"
  brForbiddenResources :: "string list"
  brAllowDangerous :: bool
  brDryRun :: bool

record hypothesisSpec =
  hypDescription :: string
  hypRecoveryTimeout :: duration

record experimentSpec =
  spTarget :: targetSpec
  spSteadyState :: steadyStateSpec
  spInjection :: injectionSpec
  spBlastRadius :: blastRadiusSpec
  spHypothesis :: hypothesisSpec
  spTier :: int

section \<open>Status\<close>

record checkDetail =
  cdCheck :: steadyStateCheck
  cdPassed :: bool
  cdValue :: message
  cdError :: "goErr option"

record checkResult =
  crPassed :: bool
  crChecksRun :: int
  crChecksPassed :: int
  crDetails :: "checkDetail list"
  crTimestamp :: timestamp

record injectionEvent =
  ieTimestamp :: timestamp
  ieType :: injectionType
  ieTarget :: string
  ieAction :: string
  ieDetails :: strmap

record evaluationSummary =
  esVerdict :: verdict
  esConfidence :: message
  esRecoveryTime :: duration
  esReconcileCycles :: int
  esDeviations :: "message list"

record condition =
  condType :: conditionType
  condStatus :: conditionStatus
  condReason :: string
  condMessage :: message
  condLastTransitionTime :: timestamp
  condObservedGeneration :: int

record experimentStatus =
  stPhase :: experimentPhase
  stVerdict :: verdict
  stObservedGeneration :: int
  stMessage :: message
  stStartTime :: "timestamp option"
  stEndTime :: "timestamp option"
  stInjectionStartedAt :: "timestamp option"
  stFaultRevertedAt :: "timestamp option"
  stPostCheckStartedAt :: "timestamp option"
  stPostCheckCycles :: int
  stSteadyStatePre :: "checkResult option"
  stSteadyStatePost :: "checkResult option"
  stInjectionLog :: "injectionEvent list"
  stEvaluationResult :: "evaluationSummary option"
  stCleanupError :: "goErr option"
  stConditions :: "condition list"

record chaosExperiment =
  exName :: string
  exNamespace :: string
  exGeneration :: int
  exDeleting :: bool
  exFinalizers :: "string list"
  exSpec :: experimentSpec
  exStatus :: experimentStatus

section \<open>Constants and methods\<close>

definition DefaultRecoveryTimeout :: duration where
  "DefaultRecoveryTimeout = 60 * second"

definition MaxRecoveryTimeout :: duration where
  "MaxRecoveryTimeout = 3600 * second"

definition MaxInjectionTTL :: duration where
  "MaxInjectionTTL = 3600 * second"

definition MinTier :: int where "MinTier = 1"

definition MaxTier :: int where "MaxTier = 6"

definition DefaultNamespace :: string where
  "DefaultNamespace = ''default''"

definition ResolvedRecoveryTimeout :: "chaosExperiment \<Rightarrow> duration" where
  "ResolvedRecoveryTimeout e =
     (if hypRecoveryTimeout (spHypothesis (exSpec e)) > 0
      then hypRecoveryTimeout (spHypothesis (exSpec e))
      else DefaultRecoveryTimeout)"

section \<open>Lemmas\<close>

lemma second_pos [simp]: "0 < second"
  by (simp add: second_def)

lemma DefaultRecoveryTimeout_pos [simp]: "0 < DefaultRecoveryTimeout"
  by (simp add: DefaultRecoveryTimeout_def)

lemma ResolvedRecoveryTimeout_pos [simp]: "0 < ResolvedRecoveryTimeout e"
  by (simp add: ResolvedRecoveryTimeout_def)

lemma ResolvedRecoveryTimeout_le:
  "hypRecoveryTimeout (spHypothesis (exSpec e)) \<le> MaxRecoveryTimeout \<Longrightarrow>
   ResolvedRecoveryTimeout e \<le> MaxRecoveryTimeout"
  by (simp add: ResolvedRecoveryTimeout_def DefaultRecoveryTimeout_def MaxRecoveryTimeout_def
      second_def)

lemma ResolvedRecoveryTimeout_status [simp]:
  "ResolvedRecoveryTimeout (e\<lparr>exStatus := s\<rparr>) = ResolvedRecoveryTimeout e"
  "ResolvedRecoveryTimeout (e\<lparr>exFinalizers := f\<rparr>) = ResolvedRecoveryTimeout e"
  "ResolvedRecoveryTimeout (e\<lparr>exGeneration := g\<rparr>) = ResolvedRecoveryTimeout e"
  by (simp_all add: ResolvedRecoveryTimeout_def)

lemma distinct_injectionTypeNames: "distinct (map injectionTypeName validInjectionTypes)"
  by (simp add: validInjectionTypes_def)

lemma injectionTypeName_inj_valid: "inj_on injectionTypeName (set validInjectionTypes)"
  using distinct_injectionTypeNames by (simp add: distinct_map)

lemma find_key_Some:
  "inj_on f (set xs) \<Longrightarrow> x \<in> set xs \<Longrightarrow> find (\<lambda>y. f y = f x) xs = Some x"
  by (induction xs) (auto simp: inj_on_def)

lemma injectionTypeOf_name:
  "t \<in> set validInjectionTypes \<Longrightarrow> injectionTypeOf (injectionTypeName t) = t"
  by (simp add: injectionTypeOf_def find_key_Some [OF injectionTypeName_inj_valid])

lemma injectionTypeName_Of: "injectionTypeName (injectionTypeOf s) = s"
  by (auto simp: injectionTypeOf_def find_Some_iff split: option.splits)

lemma ValidateInjectionType_None [simp]:
  "ValidateInjectionType t = None \<longleftrightarrow> t \<in> set validInjectionTypes"
  by (simp add: ValidateInjectionType_def)

lemma ValidateInjectionType_ctor: "ValidateInjectionType t = None \<longleftrightarrow> (\<forall>s. t \<noteq> OtherInjection s)"
  by (cases t) (simp_all add: validInjectionTypes_def)

lemma sortInjectionTypes_order_irrelevant:
  assumes "set keys = set validInjectionTypes" and "distinct keys"
  shows "sortInjectionTypes keys = ValidInjectionTypes"
proof -
  have d: "distinct validInjectionTypes"
    using distinct_injectionTypeNames by (simp add: distinct_map)
  have m: "mset keys = mset (sort_key injectionTypeName validInjectionTypes)"
    using assms d by (simp add: set_eq_iff_mset_eq_distinct)
  have inj: "inj_on injectionTypeName (set keys)"
    using injectionTypeName_inj_valid assms by simp
  have "sort_key injectionTypeName keys = sort_key injectionTypeName validInjectionTypes"
    using m inj by (intro sort_key_inj_key_eq) auto
  then show ?thesis by (simp add: sortInjectionTypes_def ValidInjectionTypes_def)
qed

text \<open>The status of an experiment that no controller has seen.\<close>

definition freshStatus :: experimentStatus where
  "freshStatus = \<lparr>stPhase = PhaseUnset, stVerdict = VerdictUnset, stObservedGeneration = 0,
     stMessage = noMessage, stStartTime = None, stEndTime = None, stInjectionStartedAt = None,
     stFaultRevertedAt = None, stPostCheckStartedAt = None, stPostCheckCycles = 0,
     stSteadyStatePre = None, stSteadyStatePost = None, stInjectionLog = [],
     stEvaluationResult = None, stCleanupError = None, stConditions = []\<rparr>"

end
