(* ===== verification/Knowledge.thy ===== *)
theory Knowledge
  imports ApiTypes
begin

text \<open>
  The operator knowledge of \<open>pkg/model\<close>: the data model (\<open>knowledge.go\<close>), its validation
  (\<open>validate.go\<close>) and the dependency graph between components (\<open>graph.go\<close>). A value of Go's
  type \<open>any\<close> that was decoded from YAML or JSON is a \<open>json\<close>; the values of \<open>ExpectedSpec\<close>
  are listed in the order in which the code happens to iterate over the map.
\<close>

section \<open>Data\<close>

datatype json =
    JNull | JBool bool | JInt int | JFloat string | JStr string
  | JArr "json list" | JObj "(string \<times> json) list"

record managedResource =
  mrAPIVersion :: string
  mrKind :: string
  mrName :: string
  mrNamespace :: string
  mrLabels :: strmap
  mrOwnerRef :: string
  mrExpectedSpec :: "(string \<times> json) list"

record webhookSpec =
  whName :: string
  whType :: string
  whPath :: string

record componentModel =
  cmName :: string
  cmController :: string
  cmManagedResources :: "managedResource list"
  cmDependencies :: "string list"
  cmSteadyState :: steadyStateSpec
  cmWebhooks :: "webhookSpec list"
  cmFinalizers :: "string list"

record operatorMeta =
  omName :: string
  omNamespace :: string
  omRepository :: string
  omVersion :: string
  omPlatform :: string
  omOLMChannel :: string

record recoveryExpectations =
  rxReconcileTimeout :: duration
  rxMaxReconcileCycles :: int

record operatorKnowledge =
  okOperator :: operatorMeta
  okComponents :: "componentModel list"
  okRecovery :: recoveryExpectations

definition GetComponent :: "operatorKnowledge \<Rightarrow> string \<Rightarrow> componentModel option" where
  "GetComponent k name = find (\<lambda>c. cmName c = name) (okComponents k)"

section \<open>Validation\<close>

definition errIf :: "bool \<Rightarrow> message \<Rightarrow> message list" where
  "errIf c m = (if c then [m] else [])"

lemma errIf_Nil [simp]: "errIf c m = [] \<longleftrightarrow> \<not> c"
  by (simp add: errIf_def)

text \<open>
  The loops over components, resources and webhooks carry the index and the map of the keys
  seen so far.
\<close>

definition resourceKey :: "managedResource \<Rightarrow> string" where
  "resourceKey mr = mrKind mr @ ''/'' @ mrNamespace mr @ ''/'' @ mrName mr"

fun validateResources :: "int \<Rightarrow> int \<Rightarrow> string set \<Rightarrow> managedResource list \<Rightarrow> message list" where
  "validateResources i j resourceKeys [] = []"
| "validateResources i j resourceKeys (mr # mrs) =
     (let named = mrKind mr \<noteq> '''' \<and> mrName mr \<noteq> '''';
          idx = [AInt i, AInt j]
      in errIf (mrAPIVersion mr = '''')
           (Msg ''components[%d].managedResources[%d].apiVersion is required'' idx)
       @ errIf (mrKind mr = '''') (Msg ''components[%d].managedResources[%d].kind is required'' idx)
       @ errIf (mrName mr = '''') (Msg ''components[%d].managedResources[%d].name is required'' idx)
       @ errIf (named \<and> resourceKey mr \<in> resourceKeys)
           (Msg ''components[%d]: duplicate managedResource %s/%s''
              [AInt i, AStr (mrKind mr), AStr (mrName mr)])
       @ validateResources i (j + 1)
           (if named then insert (resourceKey mr) resourceKeys else resourceKeys) mrs)"

fun validateWebhooks :: "int \<Rightarrow> int \<Rightarrow> webhookSpec list \<Rightarrow> message list" where
  "validateWebhooks i j [] = []"
| "validateWebhooks i j (wh # whs) =
     (let idx = [AInt i, AInt j] in
       errIf (whName wh = '''') (Msg ''components[%d].webhooks[%d].name is required'' idx)
     @ (if whType wh = '''' then [Msg ''components[%d].webhooks[%d].type is required'' idx]
        else errIf (whType wh \<noteq> ''validating'' \<and> whType wh \<noteq> ''mutating'')
          (Msg ''components[%d].webhooks[%d].type must be \"validating\" or \"mutating\", got %q''
             (idx @ [AStr (whType wh)])))
     @ errIf (whPath wh = '''') (Msg ''components[%d].webhooks[%d].path is required'' idx)
     @ validateWebhooks i (j + 1) whs)"

fun validateComponents :: "int \<Rightarrow> string set \<Rightarrow> componentModel list \<Rightarrow> message list" where
  "validateComponents i componentNames [] = []"
| "validateComponents i componentNames (cm # cms) =
     (if cmName cm = '''' then [Msg ''components[%d].name is required'' [AInt i]]
      else errIf (cmName cm \<in> componentNames)
        (Msg ''components[%d]: duplicate component name %q'' [AInt i, AStr (cmName cm)]))
     @ errIf (cmController cm = '''') (Msg ''components[%d].controller is required'' [AInt i])
     @ errIf (cmManagedResources cm = [])
         (Msg ''components[%d] must have at least one managedResource'' [AInt i])
     @ validateResources i 0 {} (cmManagedResources cm)
     @ validateWebhooks i 0 (cmWebhooks cm)
     @ validateComponents (i + 1)
         (if cmName cm = '''' then componentNames else insert (cmName cm) componentNames) cms"

fun validateSelfReferences :: "int \<Rightarrow> componentModel list \<Rightarrow> message list" where
  "validateSelfReferences i [] = []"
| "validateSelfReferences i (cm # cms) =
     map (\<lambda>dep. Msg ''components[%d].dependencies: self-referential dependency %q''
            [AInt i, AStr dep]) (filter (\<lambda>dep. dep = cmName cm) (cmDependencies cm))
     @ validateSelfReferences (i + 1) cms"

definition ValidateKnowledge :: "operatorKnowledge option \<Rightarrow> message list" where
  "ValidateKnowledge ko =
     (case ko of
        None \<Rightarrow> [Msg ''knowledge must not be nil'' []]
      | Some k \<Rightarrow>
          errIf (omName (okOperator k) = '''') (Msg ''operator.name is required'' [])
        @ errIf (omNamespace (okOperator k) = '''') (Msg ''operator.namespace is required'' [])
        @ errIf (okComponents k = []) (Msg ''at least one component is required'' [])
        @ validateComponents 0 {} (okComponents k)
        @ validateSelfReferences 0 (okComponents k)
        @ errIf (rxReconcileTimeout (okRecovery k) \<le> 0)
            (Msg ''recovery.reconcileTimeout must be greater than 0'' [])
        @ errIf (rxMaxReconcileCycles (okRecovery k) \<le> 0)
            (Msg ''recovery.maxReconcileCycles must be greater than 0'' []))"

text \<open>What a knowledge model that passes looks like.\<close>

definition wfResource :: "managedResource \<Rightarrow> bool" where
  "wfResource mr = (mrAPIVersion mr \<noteq> '''' \<and> mrKind mr \<noteq> '''' \<and> mrName mr \<noteq> '''')"

definition wfWebhook :: "webhookSpec \<Rightarrow> bool" where
  "wfWebhook wh = (whName wh \<noteq> '''' \<and> whPath wh \<noteq> '''' \<and>
     (whType wh = ''validating'' \<or> whType wh = ''mutating''))"

definition wfComponent :: "componentModel \<Rightarrow> bool" where
  "wfComponent c = (cmName c \<noteq> '''' \<and> cmController c \<noteq> '''' \<and> cmManagedResources c \<noteq> [] \<and>
     list_all wfResource (cmManagedResources c) \<and>
     distinct (map resourceKey (cmManagedResources c)) \<and>
     list_all wfWebhook (cmWebhooks c) \<and> cmName c \<notin> set (cmDependencies c))"

definition wfKnowledge :: "operatorKnowledge \<Rightarrow> bool" where
  "wfKnowledge k = (omName (okOperator k) \<noteq> '''' \<and> omNamespace (okOperator k) \<noteq> '''' \<and>
     okComponents k \<noteq> [] \<and> list_all wfComponent (okComponents k) \<and>
     distinct (map cmName (okComponents k)) \<and>
     0 < rxReconcileTimeout (okRecovery k) \<and> 0 < rxMaxReconcileCycles (okRecovery k))"

lemma validateResources_Nil:
  "validateResources i j seen mrs = [] \<longleftrightarrow>
     list_all wfResource mrs \<and> distinct (map resourceKey mrs) \<and>
     resourceKey ` set mrs \<inter> seen = {}"
proof (induction mrs arbitrary: j seen)
  case Nil
  then show ?case by simp
next
  case (Cons mr mrs)
  show ?case
    by (cases "wfResource mr")
       (auto simp add: Let_def Cons.IH wfResource_def)
qed

lemma validateWebhooks_Nil: "validateWebhooks i j whs = [] \<longleftrightarrow> list_all wfWebhook whs"
  by (induction whs arbitrary: j) (auto simp: wfWebhook_def Let_def)

definition wfComponentLocal :: "componentModel \<Rightarrow> bool" where
  "wfComponentLocal c = (cmName c \<noteq> '''' \<and> cmController c \<noteq> '''' \<and>
     cmManagedResources c \<noteq> [] \<and> list_all wfResource (cmManagedResources c) \<and>
     distinct (map resourceKey (cmManagedResources c)) \<and> list_all wfWebhook (cmWebhooks c))"

lemma wfComponent_local:
  "wfComponent c \<longleftrightarrow> wfComponentLocal c \<and> cmName c \<notin> set (cmDependencies c)"
  by (auto simp: wfComponent_def wfComponentLocal_def)

lemma validateComponents_Nil:
  "validateComponents i seen cs = [] \<longleftrightarrow>
     list_all wfComponentLocal cs \<and> distinct (map cmName cs) \<and> cmName ` set cs \<inter> seen = {}"
proof (induction cs arbitrary: i seen)
  case Nil
  then show ?case by simp
next
  case (Cons c cs)
  show ?case
    by (cases "wfComponentLocal c")
       (auto simp: Cons.IH wfComponentLocal_def validateResources_Nil validateWebhooks_Nil)
qed

lemma validateSelfReferences_Nil:
  "validateSelfReferences i cs = [] \<longleftrightarrow> (\<forall>c\<in>set cs. cmName c \<notin> set (cmDependencies c))"
  by (induction cs arbitrary: i) (auto simp: filter_empty_conv)

text \<open>C15. \<open>ValidateKnowledge\<close> accepts exactly the well-formed knowledge models: required names
  present, component names distinct, every component with a controller and at least one managed
  resource, resources complete and distinct by kind, namespace and name, webhooks complete and of a
  known type, no component depending on itself, and positive recovery bounds.\<close>

theorem ValidateKnowledge_iff:
  "(ValidateKnowledge (Some k) = []) = wfKnowledge k"
proof -
  have "list_all wfComponent (okComponents k) \<longleftrightarrow> list_all wfComponentLocal (okComponents k) \<and>
      (\<forall>c\<in>set (okComponents k). cmName c \<notin> set (cmDependencies c))"
    by (auto simp: list_all_iff wfComponent_local)
  then show ?thesis
    by (auto simp: ValidateKnowledge_def wfKnowledge_def validateComponents_Nil
        validateSelfReferences_Nil)
qed

lemma GetComponent_Some: "GetComponent k n = Some c \<Longrightarrow> c \<in> set (okComponents k) \<and> cmName c = n"
  by (auto simp: GetComponent_def find_Some_iff)

lemma GetComponent_None: "GetComponent k n = None \<longleftrightarrow> n \<notin> cmName ` set (okComponents k)"
  by (auto simp: GetComponent_def find_None_iff)

section \<open>Dependency graph\<close>

record componentRef =
  rfOperator :: string
  rfComponent :: string

record resolvedComponent =
  rcRef :: componentRef
  rcComponent :: componentModel
  rcNamespace :: string

record dependencyGraph =
  dgComponents :: "componentRef \<rightharpoonup> resolvedComponent"
  dgEdges :: "componentRef \<Rightarrow> componentRef list"

definition refOf :: "operatorKnowledge \<Rightarrow> componentModel \<Rightarrow> componentRef" where
  "refOf m c = \<lparr>rfOperator = omName (okOperator m), rfComponent = cmName c\<rparr>"

text \<open>The first loop: index all components; a later one replaces one of the same name.\<close>

definition indexComponents :: "operatorKnowledge list \<Rightarrow> componentRef \<rightharpoonup> resolvedComponent" where
  "indexComponents models =
     fold (\<lambda>m ix. fold (\<lambda>c ix. ix(refOf m c \<mapsto>
              \<lparr>rcRef = refOf m c, rcComponent = c, rcNamespace = omNamespace (okOperator m)\<rparr>))
            (okComponents m) ix) models Map.empty"

text \<open>The targets of one declared dependency, by the two rules; no target is a warning.\<close>

definition resolveDependency ::
  "operatorKnowledge list \<Rightarrow> (componentRef \<rightharpoonup> resolvedComponent) \<Rightarrow> operatorKnowledge \<Rightarrow> string \<Rightarrow>
   componentRef list" where
  "resolveDependency models ix m dep =
     (let target = \<lparr>rfOperator = omName (okOperator m), rfComponent = dep\<rparr> in
      if ix target \<noteq> None then [target]
      else concat (map (\<lambda>other. map (refOf other) (okComponents other))
                     (filter (\<lambda>other. omName (okOperator other) = dep) models)))"

text \<open>Edges with deduplication: \<open>edgeSet\<close> holds the pairs that were added.\<close>

definition addEdge ::
  "componentRef \<times> componentRef \<Rightarrow>
   (componentRef \<Rightarrow> componentRef list) \<times> (componentRef \<times> componentRef) set \<Rightarrow>
   (componentRef \<Rightarrow> componentRef list) \<times> (componentRef \<times> componentRef) set" where
  "addEdge key es =
     (case es of (edges, edgeSet) \<Rightarrow>
       if key \<in> edgeSet then (edges, edgeSet)
       else (edges(fst key := edges (fst key) @ [snd key]), insert key edgeSet))"

definition declaredEdges ::
  "operatorKnowledge list \<Rightarrow> (componentRef \<rightharpoonup> resolvedComponent) \<Rightarrow>
   (componentRef \<times> componentRef) list" where
  "declaredEdges models ix =
     concat (map (\<lambda>m. concat (map (\<lambda>c. concat (map (\<lambda>dep.
         map (\<lambda>target. (target, refOf m c)) (resolveDependency models ix m dep))
       (cmDependencies c))) (okComponents m))) models)"

definition BuildDependencyGraph :: "operatorKnowledge list \<Rightarrow> dependencyGraph" where
  "BuildDependencyGraph models =
     (let ix = indexComponents models
      in \<lparr>dgComponents = ix,
          dgEdges = fst (fold addEdge (declaredEdges models ix) (\<lambda>_. [], {}))\<rparr>)"

definition DirectDependents :: "dependencyGraph \<Rightarrow> componentRef \<Rightarrow> resolvedComponent list" where
  "DirectDependents g ref = List.map_filter (dgComponents g) (dgEdges g ref)"

lemma fold_addEdge:
  assumes "\<And>t r. r \<in> set (edges t) \<longleftrightarrow> (t, r) \<in> E" and "\<And>t. distinct (edges t)"
  shows "(r \<in> set (fst (fold addEdge ks (edges, E)) t) \<longleftrightarrow> (t, r) \<in> E \<union> set ks) \<and>
         distinct (fst (fold addEdge ks (edges, E)) t)"
  using assms
proof (induction ks arbitrary: edges E)
  case Nil
  then show ?case by simp
next
  case (Cons k ks)
  obtain t' r' where k: "k = (t', r')" by fastforce
  show ?case
  proof (cases "k \<in> E")
    case True
    then have "insert k E = E" by auto
    then show ?thesis using Cons True by (auto simp: addEdge_def)
  next
    case False
    let ?e = "edges(t' := edges t' @ [r'])"
    have "\<And>t r. r \<in> set (?e t) \<longleftrightarrow> (t, r) \<in> insert k E"
      using Cons.prems(1) k by auto
    moreover have "\<And>t. distinct (?e t)"
      using Cons.prems False k by auto
    ultimately have "(r \<in> set (fst (fold addEdge ks (?e, insert k E)) t) \<longleftrightarrow>
        (t, r) \<in> insert k E \<union> set ks) \<and> distinct (fst (fold addEdge ks (?e, insert k E)) t)"
      by (rule Cons.IH)
    moreover have "fold addEdge (k # ks) (edges, E) = fold addEdge ks (?e, insert k E)"
      using False k by (simp add: addEdge_def)
    ultimately show ?thesis by (simp only: list.set) blast
  qed
qed

lemma fold_index_dom:
  "dom (fold (\<lambda>c ix. ix(f c \<mapsto> g c)) cs ix0) = dom ix0 \<union> f ` set cs"
  by (induction cs arbitrary: ix0) auto

lemma indexComponents_dom:
  "dom (indexComponents models) = {refOf m c | m c. m \<in> set models \<and> c \<in> set (okComponents m)}"
proof -
  have "dom (fold (\<lambda>m ix. fold (\<lambda>c ix. ix(refOf m c \<mapsto>
              \<lparr>rcRef = refOf m c, rcComponent = c, rcNamespace = omNamespace (okOperator m)\<rparr>))
            (okComponents m) ix) models ix0)
      = dom ix0 \<union> {refOf m c | m c. m \<in> set models \<and> c \<in> set (okComponents m)}" for ix0
    by (induction models arbitrary: ix0) (auto simp: fold_index_dom)
  then show ?thesis by (simp add: indexComponents_def)
qed

text \<open>The dependency that the edges stand for.\<close>

definition dependsOn ::
  "operatorKnowledge list \<Rightarrow> componentRef \<Rightarrow> componentRef \<Rightarrow> bool" where
  "dependsOn models t r =
     (\<exists>m\<in>set models. \<exists>c\<in>set (okComponents m). r = refOf m c \<and>
        (\<exists>dep\<in>set (cmDependencies c).
          t \<in> set (resolveDependency models (indexComponents models) m dep)))"

lemma declaredEdges_iff:
  "(t, r) \<in> set (declaredEdges models (indexComponents models)) \<longleftrightarrow> dependsOn models t r"
  by (auto simp: declaredEdges_def dependsOn_def)

lemma graph_edges:
  "set (dgEdges (BuildDependencyGraph models) t) = {r. dependsOn models t r} \<and>
   distinct (dgEdges (BuildDependencyGraph models) t)"
  using fold_addEdge [of "\<lambda>_. []" "{}" _ "declaredEdges models (indexComponents models)" t]
  by (auto simp: BuildDependencyGraph_def Let_def declaredEdges_iff)

lemma dependsOn_indexed:
  "dependsOn models t r \<Longrightarrow> r \<in> dom (indexComponents models)"
  by (auto simp: dependsOn_def indexComponents_dom)

lemma map_filter_total:
  "\<forall>x\<in>set xs. f x \<noteq> None \<Longrightarrow> List.map_filter f xs = map (the \<circ> f) xs"
  by (induction xs) (auto simp: List.map_filter_def)


end
