(* ===== verification/Observer.thy ===== *)
theory Observer
  imports Knowledge
begin

text \<open>
  The observers of \<open>pkg/observer\<close>: findings and the observation board (\<open>board.go\<close>), the
  steady-state checks (\<open>kubernetes.go\<close>), the reconciliation checker (\<open>reconciliation.go\<close>) and
  the three contributors. The API client, the clock and the accessors of unstructured objects
  (\<open>unstructured.NestedString\<close> and its relatives) are third-party: fields of \<open>obsEnv\<close>.
\<close>

section \<open>Findings and the board\<close>

datatype findingSource = SourceReconciliation | SourceSteadyState | SourceCollateral

record resourceCheckResult =
  rkKind :: string
  rkName :: string
  rkNamespace :: string
  rkReconciled :: bool
  rkDetails :: message

record reconciliationResult =
  rrAllReconciled :: bool
  rrReconcileCycles :: int
  rrRecoveryTime :: duration
  rrResources :: "resourceCheckResult list"

record finding =
  fdSource :: findingSource
  fdComponent :: string
  fdOperator :: string
  fdPassed :: bool
  fdDetails :: "goErr option"
  fdChecks :: "checkResult option"
  fdReconciliationResult :: "reconciliationResult option"

type_synonym board = "finding list"

definition NewObservationBoard :: board where
  "NewObservationBoard = []"

definition AddFinding :: "finding \<Rightarrow> board \<Rightarrow> board" where
  "AddFinding f b = b @ [f]"

definition FindingsBySource :: "findingSource \<Rightarrow> board \<Rightarrow> finding list" where
  "FindingsBySource src b = filter (\<lambda>f. fdSource f = src) b"

section \<open>Steady-state checks\<close>

text \<open>
  \<open>obGet apiVersion kind namespace name\<close> is \<open>client.Get\<close> of an unstructured object;
  \<open>obNestedString\<close> returns value, found flag and error, \<open>obNestedSlice\<close> and
  \<open>obNestedField\<close> alike; \<open>obFormat\<close> is \<open>fmt.Sprintf("%v", x)\<close> of a decoded value.
\<close>

record 'w obsEnv =
  obGet :: "string \<Rightarrow> string \<Rightarrow> string \<Rightarrow> string \<Rightarrow> 'w \<Rightarrow> (goErr + json) \<times> 'w"
  obNestedString :: "json \<Rightarrow> string list \<Rightarrow> string \<times> bool \<times> goErr option"
  obNestedSlice :: "json \<Rightarrow> string list \<Rightarrow> json list \<times> bool \<times> goErr option"
  obNestedField :: "json \<Rightarrow> string list \<Rightarrow> json \<times> bool \<times> goErr option"
  obFormat :: "json \<Rightarrow> string"
  obOwnerKinds :: "json \<Rightarrow> string list"
  obNow :: "'w \<Rightarrow> timestamp"
  obWaitTick :: "'w \<Rightarrow> bool \<times> 'w"

definition checkNs :: "steadyStateCheck \<Rightarrow> string \<Rightarrow> string" where
  "checkNs check namespace = (if chkNamespace check = '''' then namespace else chkNamespace check)"

definition obGetCheck :: "'w obsEnv \<Rightarrow> steadyStateCheck \<Rightarrow> string \<Rightarrow> 'w \<Rightarrow> (goErr + json) \<times> 'w" where
  "obGetCheck env check namespace w =
     obGet env (chkAPIVersion check) (chkKind check) (checkNs check namespace) (chkName check) w"

fun isObject :: "json \<Rightarrow> bool" where
  "isObject (JObj kvs) = True"
| "isObject _ = False"

text \<open>The loop over \<open>status.conditions\<close>.\<close>

fun scanConditions :: "'w obsEnv \<Rightarrow> string \<Rightarrow> json list \<Rightarrow> bool \<times> message" where
  "scanConditions env ct [] = (False, Msg ''condition %s not found'' [AStr ct])"
| "scanConditions env ct (c # cs) =
     (if \<not> isObject c then scanConditions env ct cs
      else case obNestedString env c [''type''] of
        (ctype, typeFound, _) \<Rightarrow>
          if \<not> typeFound then scanConditions env ct cs
          else case obNestedString env c [''status''] of
            (st, statusFound, _) \<Rightarrow>
              let cstatus = (if statusFound then st else '''') in
              if ctype = ct
              then (cstatus = ''True'', Msg ''%s=%s'' [AStr ctype, AStr cstatus])
              else scanConditions env ct cs)"

definition checkCondition ::
  "'w obsEnv \<Rightarrow> steadyStateCheck \<Rightarrow> string \<Rightarrow> 'w \<Rightarrow> (bool \<times> message \<times> goErr option) \<times> 'w" where
  "checkCondition env check namespace w =
     (case obGetCheck env check namespace w of
        (Inl err, w1) \<Rightarrow>
          ((False, noMessage, Some (Errorf ''getting %s/%s: %w''
              [AStr (chkKind check), AStr (chkName check), AErr err])), w1)
      | (Inr obj, w1) \<Rightarrow>
          (case obNestedSlice env obj [''status'', ''conditions''] of
             (conditions, found, err) \<Rightarrow>
               if err \<noteq> None \<or> \<not> found then ((False, Msg ''no conditions found'' [], None), w1)
               else (case scanConditions env (chkConditionType check) conditions of
                       (passed, value) \<Rightarrow> ((passed, value, None), w1))))"

definition checkFieldEquals ::
  "'w obsEnv \<Rightarrow> steadyStateCheck \<Rightarrow> string \<Rightarrow> 'w \<Rightarrow> (bool \<times> message \<times> goErr option) \<times> 'w" where
  "checkFieldEquals env check namespace w =
     (case obGetCheck env check namespace w of
        (Inl err, w1) \<Rightarrow>
          if isNotFound err then ((False, Msg ''resource not found'' [], None), w1)
          else ((False, noMessage, Some (Errorf ''getting %s/%s: %w''
              [AStr (chkKind check), AStr (chkName check), AErr err])), w1)
      | (Inr obj, w1) \<Rightarrow>
          let fields = splitOn CHR ''.'' (chkFieldPath check);
              notFound = ((False, Msg ''field %s not found'' [AStr (chkFieldPath check)], None), w1)
          in case obNestedString env obj fields of
            (val, found, err) \<Rightarrow>
              (case (if err \<noteq> None then
                       (case obNestedField env obj fields of
                          (rawVal, rawFound, rawErr) \<Rightarrow>
                            if rawErr \<noteq> None \<or> \<not> rawFound then None
                            else Some (obFormat env rawVal))
                     else Some val) of
                 None \<Rightarrow> notFound
               | Some v \<Rightarrow>
                   if \<not> found then notFound
                   else if v = chkExpectedValue check then ((True, Msg ''%s'' [AStr v], None), w1)
                   else ((False, Msg ''expected %q, got %q''
                            [AStr (chkExpectedValue check), AStr v], None), w1)))"

definition checkResourceExists ::
  "'w obsEnv \<Rightarrow> steadyStateCheck \<Rightarrow> string \<Rightarrow> 'w \<Rightarrow> (bool \<times> goErr option) \<times> 'w" where
  "checkResourceExists env check namespace w =
     (case obGetCheck env check namespace w of
        (Inl err, w1) \<Rightarrow>
          if isNotFound err then ((False, None), w1)
          else ((False, Some (Errorf ''checking %s/%s: %w''
              [AStr (chkKind check), AStr (chkName check), AErr err])), w1)
      | (Inr obj, w1) \<Rightarrow> ((True, None), w1))"

text \<open>One iteration of the loop of \<open>CheckSteadyState\<close>.\<close>

definition checkOne :: "'w obsEnv \<Rightarrow> steadyStateCheck \<Rightarrow> string \<Rightarrow> 'w \<Rightarrow> checkDetail \<times> 'w" where
  "checkOne env check namespace w =
     (case chkType check of
        CheckConditionTrue \<Rightarrow>
          (case checkCondition env check namespace w of ((passed, value, err), w1) \<Rightarrow>
             (\<lparr>cdCheck = check, cdPassed = passed, cdValue = value, cdError = err\<rparr>, w1))
      | CheckResourceExists \<Rightarrow>
          (case checkResourceExists env check namespace w of ((passed, err), w1) \<Rightarrow>
             (\<lparr>cdCheck = check, cdPassed = passed, cdValue = noMessage, cdError = err\<rparr>, w1))
      | CheckFieldEquals \<Rightarrow>
          (case checkFieldEquals env check namespace w of ((passed, value, err), w1) \<Rightarrow>
             (\<lparr>cdCheck = check, cdPassed = passed, cdValue = value, cdError = err\<rparr>, w1))
      | CheckUnset \<Rightarrow>
          (\<lparr>cdCheck = check, cdPassed = False, cdValue = noMessage,
            cdError = Some (Errorf ''unknown check type: %s'' [AStr ''''])\<rparr>, w)
      | OtherCheck s \<Rightarrow>
          (\<lparr>cdCheck = check, cdPassed = False, cdValue = noMessage,
            cdError = Some (Errorf ''unknown check type: %s'' [AStr s])\<rparr>, w))"

fun checkAll ::
  "'w obsEnv \<Rightarrow> string \<Rightarrow> steadyStateCheck list \<Rightarrow> int \<Rightarrow> checkDetail list \<Rightarrow> 'w \<Rightarrow>
   (int \<times> checkDetail list) \<times> 'w" where
  "checkAll env ns [] n ds w = ((n, ds), w)"
| "checkAll env ns (c # cs) n ds w =
     (case checkOne env c ns w of (d, w1) \<Rightarrow>
        checkAll env ns cs (if cdPassed d then n + 1 else n) (ds @ [d]) w1)"

definition CheckSteadyState ::
  "'w obsEnv \<Rightarrow> steadyStateCheck list \<Rightarrow> string \<Rightarrow> 'w \<Rightarrow> (goErr + checkResult) \<times> 'w" where
  "CheckSteadyState env checks namespace w =
     (let t = obNow env w in
      case checkAll env namespace checks 0 [] w of ((n, ds), w1) \<Rightarrow>
        (Inr \<lparr>crPassed = (n = int (length checks)), crChecksRun = int (length checks),
              crChecksPassed = n, crDetails = ds, crTimestamp = t\<rparr>, w1))"

section \<open>Reconciliation checker\<close>

definition specFieldResult ::
  "'w obsEnv \<Rightarrow> json \<Rightarrow> string \<times> json \<Rightarrow> bool \<times> message \<Rightarrow> bool \<times> message" where
  "specFieldResult env obj fe acc =
     (case fe of (field, expected) \<Rightarrow>
       (case obNestedField env obj [''spec'', field] of (actual, found, _) \<Rightarrow>
          if \<not> found then (False, Msg ''spec.%s not found'' [AStr field])
          else if obFormat env actual \<noteq> obFormat env expected
          then (False, Msg ''spec.%s: expected %v, got %v''
                  [AStr field, AStr (obFormat env expected), AStr (obFormat env actual)])
          else acc))"

definition checkManagedResource ::
  "'w obsEnv \<Rightarrow> managedResource \<Rightarrow> string \<Rightarrow> 'w \<Rightarrow> (goErr + resourceCheckResult) \<times> 'w" where
  "checkManagedResource env mr namespace w =
     (let ns = (if mrNamespace mr = '''' then namespace else mrNamespace mr) in
      case obGet env (mrAPIVersion mr) (mrKind mr) ns (mrName mr) w of
        (Inl err, w1) \<Rightarrow>
          if \<not> isNotFound err
          then (Inl (Errorf ''looking up %s %s/%s: %w''
                  [AStr (mrKind mr), AStr ns, AStr (mrName mr), AErr err]), w1)
          else (Inr \<lparr>rkKind = mrKind mr, rkName = mrName mr, rkNamespace = ns,
                  rkReconciled = False, rkDetails = Msg ''not found: %v'' [AText err]\<rparr>, w1)
      | (Inr obj, w1) \<Rightarrow>
          let owner = (if mrOwnerRef mr \<noteq> '''' \<and>
                          \<not> list_ex (\<lambda>k. k = mrOwnerRef mr) (obOwnerKinds env obj)
                       then (False, Msg ''missing owner reference %s'' [AStr (mrOwnerRef mr)])
                       else (True, Msg ''exists'' []))
          in case fold (specFieldResult env obj) (mrExpectedSpec mr) owner of
            (reconciled, details) \<Rightarrow>
              (Inr \<lparr>rkKind = mrKind mr, rkName = mrName mr, rkNamespace = ns,
                 rkReconciled = reconciled, rkDetails = details\<rparr>, w1))"

fun checkResources ::
  "'w obsEnv \<Rightarrow> string \<Rightarrow> managedResource list \<Rightarrow> 'w \<Rightarrow>
   (goErr + resourceCheckResult list) \<times> 'w" where
  "checkResources env ns [] w = (Inr [], w)"
| "checkResources env ns (mr # mrs) w =
     (case checkManagedResource env mr ns w of
        (Inl err, w1) \<Rightarrow> (Inl err, w1)
      | (Inr check, w1) \<Rightarrow>
          (case checkResources env ns mrs w1 of
             (Inl err, w2) \<Rightarrow> (Inl err, w2)
           | (Inr rs, w2) \<Rightarrow> (Inr (check # rs), w2)))"

definition CheckReconciliationOnce ::
  "'w obsEnv \<Rightarrow> componentModel \<Rightarrow> string \<Rightarrow> 'w \<Rightarrow> (goErr + reconciliationResult) \<times> 'w" where
  "CheckReconciliationOnce env component namespace w =
     (case checkResources env namespace (cmManagedResources component) w of
        (Inl err, w1) \<Rightarrow> (Inl err, w1)
      | (Inr rs, w1) \<Rightarrow>
          (Inr \<lparr>rrAllReconciled = list_all rkReconciled rs, rrReconcileCycles = 0,
             rrRecoveryTime = 0, rrResources = rs\<rparr>, w1))"

text \<open>
  The polling loop. \<open>obWaitTick\<close> is the \<open>select\<close> on the ticker and the context: its flag
  says that the context was cancelled. The Go loop may run forever if the clock stands still,
  so the recursion is partial; an error comes with the result gathered so far.
\<close>

partial_function (option) reconLoop ::
  "'w obsEnv \<Rightarrow> componentModel \<Rightarrow> string \<Rightarrow> timestamp \<Rightarrow> timestamp \<Rightarrow> int \<Rightarrow>
   resourceCheckResult list \<Rightarrow> 'w \<Rightarrow> (((goErr option \<times> reconciliationResult) \<times> 'w)) option" where
  "reconLoop env component ns start deadline cycles rs w =
     (if \<not> obNow env w < deadline then
        Some ((None, \<lparr>rrAllReconciled = False, rrReconcileCycles = cycles,
                 rrRecoveryTime = obNow env w - start, rrResources = rs\<rparr>), w)
      else
        case CheckReconciliationOnce env component ns w of
          (Inl err, w1) \<Rightarrow>
            Some ((Some err, \<lparr>rrAllReconciled = False, rrReconcileCycles = cycles + 1,
                     rrRecoveryTime = obNow env w1 - start, rrResources = rs\<rparr>), w1)
        | (Inr cycle, w1) \<Rightarrow>
            if rrAllReconciled cycle then
              Some ((None, \<lparr>rrAllReconciled = True, rrReconcileCycles = cycles + 1,
                       rrRecoveryTime = obNow env w1 - start,
                       rrResources = rrResources cycle\<rparr>), w1)
            else (case obWaitTick env w1 of (cancelled, w2) \<Rightarrow>
              if cancelled then
                Some ((Some CtxErr, \<lparr>rrAllReconciled = False, rrReconcileCycles = cycles + 1,
                         rrRecoveryTime = obNow env w2 - start,
                         rrResources = rrResources cycle\<rparr>), w2)
              else reconLoop env component ns start deadline (cycles + 1) (rrResources cycle) w2))"

definition CheckReconciliation ::
  "'w obsEnv \<Rightarrow> componentModel \<Rightarrow> string \<Rightarrow> duration \<Rightarrow> 'w \<Rightarrow>
   (((goErr option \<times> reconciliationResult) \<times> 'w)) option" where
  "CheckReconciliation env component namespace timeout w =
     reconLoop env component namespace (obNow env w) (obNow env w + timeout) 0 [] w"

section \<open>Contributors\<close>

text \<open>
  A contributor's \<open>Observe\<close> is modelled by the findings it adds to the board, its error and
  the new state; the checkers that it calls are arguments (the Go interfaces \<open>Observer\<close> and
  \<open>ReconciliationCheckerInterface\<close>).
\<close>

type_synonym 'w steadyChecker =
  "steadyStateCheck list \<Rightarrow> string \<Rightarrow> 'w \<Rightarrow> (goErr + checkResult) \<times> 'w"

definition observeSteadyState ::
  "'w steadyChecker \<Rightarrow> ('w \<Rightarrow> timestamp) \<Rightarrow> steadyStateCheck list \<Rightarrow> string \<Rightarrow> 'w \<Rightarrow>
   (finding list \<times> goErr option) \<times> 'w" where
  "observeSteadyState check now checks ns w =
     (case check checks ns w of
        (Inl err, w1) \<Rightarrow>
          (([\<lparr>fdSource = SourceSteadyState, fdComponent = '''', fdOperator = '''', fdPassed = False,
              fdDetails = Some err,
              fdChecks = Some \<lparr>crPassed = False, crChecksRun = 0, crChecksPassed = 0,
                crDetails = [], crTimestamp = now w1\<rparr>,
              fdReconciliationResult = None\<rparr>], Some err), w1)
      | (Inr result, w1) \<Rightarrow>
          (([\<lparr>fdSource = SourceSteadyState, fdComponent = '''', fdOperator = '''',
              fdPassed = crPassed result, fdDetails = None, fdChecks = Some result,
              fdReconciliationResult = None\<rparr>], None), w1))"

definition collateralFinding ::
  "'w steadyChecker \<Rightarrow> resolvedComponent \<Rightarrow> 'w \<Rightarrow> finding list \<times> 'w" where
  "collateralFinding check dep w =
     (if ssChecks (cmSteadyState (rcComponent dep)) = [] then ([], w)
      else case check (ssChecks (cmSteadyState (rcComponent dep))) (rcNamespace dep) w of
        (Inl err, w1) \<Rightarrow>
          ([\<lparr>fdSource = SourceCollateral, fdComponent = cmName (rcComponent dep),
             fdOperator = rfOperator (rcRef dep), fdPassed = False, fdDetails = Some err,
             fdChecks = None, fdReconciliationResult = None\<rparr>], w1)
      | (Inr result, w1) \<Rightarrow>
          ([\<lparr>fdSource = SourceCollateral, fdComponent = cmName (rcComponent dep),
             fdOperator = rfOperator (rcRef dep), fdPassed = crPassed result, fdDetails = None,
             fdChecks = Some result, fdReconciliationResult = None\<rparr>], w1))"

fun observeCollateral ::
  "'w steadyChecker \<Rightarrow> resolvedComponent list \<Rightarrow> 'w \<Rightarrow> (finding list \<times> goErr option) \<times> 'w" where
  "observeCollateral check [] w = (([], None), w)"
| "observeCollateral check (dep # deps) w =
     (case collateralFinding check dep w of (fs, w1) \<Rightarrow>
        (case observeCollateral check deps w1 of ((fs', e), w2) \<Rightarrow> ((fs @ fs', e), w2)))"

definition observeReconciliation ::
  "componentModel \<Rightarrow> goErr option \<times> reconciliationResult \<Rightarrow> finding list \<times> goErr option" where
  "observeReconciliation component r =
     (case r of
        (Some err, _) \<Rightarrow>
          ([\<lparr>fdSource = SourceReconciliation, fdComponent = cmName component, fdOperator = '''',
             fdPassed = False, fdDetails = Some err, fdChecks = None,
             fdReconciliationResult = None\<rparr>], Some err)
      | (None, result) \<Rightarrow>
          ([\<lparr>fdSource = SourceReconciliation, fdComponent = cmName component, fdOperator = '''',
             fdPassed = rrAllReconciled result, fdDetails = None, fdChecks = None,
             fdReconciliationResult = Some result\<rparr>], None))"

section \<open>Lemmas\<close>

lemma checkAll_spec:
  "checkAll env ns cs n ds w = ((m, ds'), w') \<Longrightarrow>
   \<exists>new. ds' = ds @ new \<and> map cdCheck new = cs \<and> m = n + int (length (filter cdPassed new))"
proof (induction cs arbitrary: n ds w)
  case Nil
  then show ?case by simp
next
  case (Cons c cs)
  obtain d w1 where one: "checkOne env c ns w = (d, w1)" by fastforce
  have d: "cdCheck d = c"
    using one by (auto simp: checkOne_def split: checkType.splits prod.splits)
  have rest: "checkAll env ns cs (if cdPassed d then n + 1 else n) (ds @ [d]) w1 = ((m, ds'), w')"
    using Cons.prems one by simp
  from Cons.IH [OF rest] obtain new where
    "ds' = (ds @ [d]) @ new" "map cdCheck new = cs"
    "m = (if cdPassed d then n + 1 else n) + int (length (filter cdPassed new))" by auto
  then show ?case using d by (intro exI [of _ "d # new"]) auto
qed

lemma filter_all_length:
  "length (filter P xs) = length xs \<longleftrightarrow> (\<forall>x\<in>set xs. P x)"
  by (metis filter_id_conv length_filter_less nat_neq_iff)

lemma specField_fold:
  "fst (fold (specFieldResult env obj) fs acc) \<longleftrightarrow>
     fst acc \<and> (\<forall>fe\<in>set fs. fst (specFieldResult env obj fe (True, noMessage)))"
proof (induction fs arbitrary: acc)
  case Nil
  then show ?case by simp
next
  case (Cons fe fs)
  have "fst (specFieldResult env obj fe acc) \<longleftrightarrow>
      fst acc \<and> fst (specFieldResult env obj fe (True, noMessage))"
    by (auto simp: specFieldResult_def split: prod.splits)
  then show ?case using Cons.IH by auto
qed

text \<open>How the clock moves during the reconciliation poll.\<close>

definition pollClock :: "'w obsEnv \<Rightarrow> bool" where
  "pollClock env =
     ((\<forall>a k n m w. obNow env w \<le> obNow env (snd (obGet env a k n m w))) \<and>
      (\<forall>w. obNow env w < obNow env (snd (obWaitTick env w))))"

lemma checkManagedResource_clock:
  "pollClock env \<Longrightarrow> obNow env w \<le> obNow env (snd (checkManagedResource env mr ns w))"
  unfolding checkManagedResource_def pollClock_def Let_def
  by (auto split: prod.split sum.split) (metis snd_conv)+

lemma checkResources_clock:
  assumes "pollClock env"
  shows "obNow env w \<le> obNow env (snd (checkResources env ns mrs w))"
proof (induction mrs arbitrary: w)
  case Nil
  then show ?case by simp
next
  case (Cons mr mrs)
  obtain r w1 where c: "checkManagedResource env mr ns w = (r, w1)" by fastforce
  have "obNow env w \<le> obNow env w1" using checkManagedResource_clock [OF assms] c by (metis snd_conv)
  moreover have "obNow env w1 \<le> obNow env (snd (checkResources env ns mrs w1))" by (rule Cons.IH)
  ultimately show ?case using c by (auto split: sum.split prod.split)
qed

lemma CheckReconciliationOnce_clock:
  "pollClock env \<Longrightarrow> obNow env w \<le> obNow env (snd (CheckReconciliationOnce env component ns w))"
  using checkResources_clock [of env w ns "cmManagedResources component"]
  by (auto simp: CheckReconciliationOnce_def split: prod.split sum.split)

lemma reconLoop_returns:
  assumes "pollClock env"
  shows "reconLoop env component ns start deadline cycles rs w \<noteq> None"
proof (induction "nat (deadline - obNow env w)" arbitrary: cycles rs w rule: less_induct)
  case less
  show ?case
  proof (cases "obNow env w < deadline")
    case False
    then show ?thesis by (subst reconLoop.simps) simp
  next
    case True
    obtain r w1 where once: "CheckReconciliationOnce env component ns w = (r, w1)" by fastforce
    obtain c w2 where tick: "obWaitTick env w1 = (c, w2)" by fastforce
    have "obNow env w \<le> obNow env w1"
      using CheckReconciliationOnce_clock [OF assms] once by (metis snd_conv)
    moreover have "obNow env w1 < obNow env w2"
      using assms tick unfolding pollClock_def by (metis snd_conv)
    ultimately have "nat (deadline - obNow env w2) < nat (deadline - obNow env w)"
      using True by simp
    then have "reconLoop env component ns start deadline (cycles + 1) rs' w2 \<noteq> None" for rs'
      by (rule less)
    then show ?thesis using True once tick
      by (subst reconLoop.simps) (auto split: sum.split)
  qed
qed

text \<open>What the result says about the last poll cycle.\<close>

definition pollResultOk ::
  "'w obsEnv \<Rightarrow> componentModel \<Rightarrow> string \<Rightarrow> timestamp \<Rightarrow> int \<Rightarrow>
   (goErr option \<times> reconciliationResult) \<times> 'w \<Rightarrow> bool" where
  "pollResultOk env component ns start cycles y =
     (case y of ((err, res), w') \<Rightarrow>
        (rrAllReconciled res \<longrightarrow> err = None \<and>
           (\<exists>v cycle. CheckReconciliationOnce env component ns v = (Inr cycle, w') \<and>
              rrAllReconciled cycle \<and> rrResources res = rrResources cycle))
        \<and> rrRecoveryTime res = obNow env w' - start \<and> cycles \<le> rrReconcileCycles res)"

lemma pollResultOk_mono: "pollResultOk env c ns start (n + 1) y \<Longrightarrow> pollResultOk env c ns start n y"
  by (auto simp: pollResultOk_def)

lemma reconLoop_sound:
  assumes "reconLoop env component ns start deadline cycles rs w = Some y"
  shows "pollResultOk env component ns start cycles y"
proof (rule reconLoop.raw_induct [where P = "\<lambda>env component ns start deadline cycles rs w y.
      pollResultOk env component ns start cycles y", OF _ assms], goal_cases step)
  case (step loop env component ns start deadline cycles rs w y)
  show ?case
  proof (cases "obNow env w < deadline")
    case False
    then show ?thesis using step(2) by (auto simp: pollResultOk_def)
  next
    case True
    obtain r w1 where once: "CheckReconciliationOnce env component ns w = (r, w1)" by fastforce
    obtain c w2 where tick: "obWaitTick env w1 = (c, w2)" by fastforce
    have rec: "loop env component ns start deadline (cycles + 1) rs' w2 = Some y \<Longrightarrow>
        pollResultOk env component ns start cycles y" for rs'
      using step(1) pollResultOk_mono by blast
    show ?thesis
    proof (cases "\<exists>cycle. r = Inr cycle \<and> rrAllReconciled cycle")
      case True
      then obtain cycle where "r = Inr cycle" "rrAllReconciled cycle" by blast
      then show ?thesis
        using step(2) \<open>obNow env w < deadline\<close> once
        by (auto simp: pollResultOk_def intro: exI [of _ w] exI [of _ cycle])
    next
      case False
      then show ?thesis
        using step(2) \<open>obNow env w < deadline\<close> once tick rec
        by (cases r) (auto simp: pollResultOk_def split: if_splits)
    qed
  qed
qed

section \<open>Properties\<close>

text \<open>\<open>CheckSteadyState\<close> never fails and reports every check: one detail per check, in order,
  the number of checks run and passed, and it passes exactly when every check passed.\<close>

theorem CheckSteadyState_spec:
  "\<exists>r w'. CheckSteadyState env checks ns w = (Inr r, w') \<and>
     map cdCheck (crDetails r) = checks \<and> crChecksRun r = int (length checks) \<and>
     crChecksPassed r = int (length (filter cdPassed (crDetails r))) \<and>
     (crPassed r \<longleftrightarrow> list_all cdPassed (crDetails r))"
proof -
  obtain m ds w' where all: "checkAll env ns checks 0 [] w = ((m, ds), w')"
    by (metis surj_pair)
  from checkAll_spec [OF this] have ds: "map cdCheck ds = checks" "m = int (length (filter cdPassed ds))"
    by auto
  then have "m = int (length checks) \<longleftrightarrow> (\<forall>d\<in>set ds. cdPassed d)"
    using filter_all_length [of cdPassed ds] by (metis length_map of_nat_eq_iff)
  then show ?thesis using all ds by (simp add: CheckSteadyState_def Let_def list_all_iff)
qed


text \<open>An environment with no objects whose clock counts the ticks, in nanoseconds.\<close>

definition emptyEnv :: "int obsEnv" where
  "emptyEnv = \<lparr>obGet = \<lambda>a k n m w. (Inl ApiNotFound, w), obNestedString = \<lambda>j fs. ('''', False, None),
     obNestedSlice = \<lambda>j fs. ([], False, None), obNestedField = \<lambda>j fs. (JNull, False, None),
     obFormat = \<lambda>j. '''', obOwnerKinds = \<lambda>j. [], obNow = \<lambda>w. w, obWaitTick = \<lambda>w. (False, w + 1)\<rparr>"


text \<open>Whether a managed resource counts as reconciled does not depend on the order in which Go
  iterates over the map of its expected spec fields.\<close>

theorem managedResource_order_irrelevant:
  assumes "mset fs = mset fs'"
  shows "map_sum id rkReconciled
           (fst (checkManagedResource env (mr\<lparr>mrExpectedSpec := fs\<rparr>) ns w)) =
         map_sum id rkReconciled
           (fst (checkManagedResource env (mr\<lparr>mrExpectedSpec := fs'\<rparr>) ns w))"
proof -
  have s: "set fs = set fs'" using assms by (rule mset_eq_setD)
  have "fst (fold (specFieldResult env obj) fs acc) = fst (fold (specFieldResult env obj) fs' acc)"
    for obj acc
    using specField_fold [of env obj fs acc] specField_fold [of env obj fs' acc] s by simp
  then show ?thesis
    by (simp add: checkManagedResource_def Let_def case_prod_beta split: sum.split)
qed

theorem managedResource_order_irrelevant_witness:
  "map_sum id rkReconciled (fst (checkManagedResource emptyEnv
     (\<lparr>mrAPIVersion = ''v1'', mrKind = ''Pod'', mrName = ''p'', mrNamespace = '''', mrLabels = Map.empty,
       mrOwnerRef = '''', mrExpectedSpec = []\<rparr>\<lparr>mrExpectedSpec := [(''a'', JNull), (''b'', JNull)]\<rparr>)
     ''ns'' 0)) = Inr False"
  using managedResource_order_irrelevant
    [of "[(''a'', JNull), (''b'', JNull)]" "[(''b'', JNull), (''a'', JNull)]" emptyEnv
     "\<lparr>mrAPIVersion = ''v1'', mrKind = ''Pod'', mrName = ''p'', mrNamespace = '''', mrLabels = Map.empty,
       mrOwnerRef = '''', mrExpectedSpec = []\<rparr>" "''ns''" 0]
  by (simp add: emptyEnv_def checkManagedResource_def)

text \<open>A \<open>fieldEquals\<close> check never passes on a field that is not a string: when the string
  accessor reports a type error it also reports the field as not found, so the fallback that
  formats the raw value is dead code.\<close>

theorem checkFieldEquals_nonString:
  assumes "obNestedString env obj (splitOn CHR ''.'' (chkFieldPath check)) = (v, found, Some err)"
    and "\<not> found" and "obGetCheck env check ns w = (Inr obj, w')"
  shows "checkFieldEquals env check ns w =
    ((False, Msg ''field %s not found'' [AStr (chkFieldPath check)], None), w')"
  using assms by (auto simp: checkFieldEquals_def Let_def split: prod.split)

definition typedEnv :: "unit obsEnv" where
  "typedEnv = \<lparr>obGet = \<lambda>a k n m w. (Inr (JObj [(''spec'', JObj [(''replicas'', JInt 3)])]), w),
     obNestedString = \<lambda>j fs. ('''', False, Some (ApiOther ''accessor error: expected string'')),
     obNestedSlice = \<lambda>j fs. ([], False, None), obNestedField = \<lambda>j fs. (JInt 3, True, None),
     obFormat = \<lambda>j. ''3'', obOwnerKinds = \<lambda>j. [], obNow = \<lambda>w. 0, obWaitTick = \<lambda>w. (False, w)\<rparr>"

definition replicasCheck :: steadyStateCheck where
  "replicasCheck = \<lparr>chkType = CheckFieldEquals, chkAPIVersion = ''apps/v1'', chkKind = ''Deployment'',
     chkName = ''d'', chkNamespace = '''', chkConditionType = '''', chkFieldPath = ''spec.replicas'',
     chkExpectedValue = ''3''\<rparr>"

theorem checkFieldEquals_nonString_witness:
  "fst (fst (checkFieldEquals typedEnv replicasCheck ''ns'' ())) = False"
  using checkFieldEquals_nonString [of typedEnv
      "JObj [(''spec'', JObj [(''replicas'', JInt 3)])]" replicasCheck "''''" False
      "ApiOther ''accessor error: expected string''" "''ns''" "()" "()"]
  by (simp add: typedEnv_def obGetCheck_def)

end
