(* ===== verification/Evaluator.thy ===== *)
theory Evaluator
  imports Observer
begin

text \<open>
  The evaluator of \<open>pkg/evaluator/engine.go\<close>, which turns check results and findings into a
  verdict. \<open>evaluationResult\<close> is the struct of \<open>types.go\<close>; an evaluator is its
  \<open>maxReconcileCycles\<close>.
\<close>

record deviation =
  dvType :: string
  dvDetail :: message

record evaluationResult =
  evVerdict :: verdict
  evConfidence :: message
  evRecoveryTime :: duration
  evReconcileCycles :: int
  evDeviations :: "deviation list"

section \<open>Operations\<close>

text \<open>A step of \<open>computeVerdict\<close>: when the condition holds, downgrade and record a deviation.\<close>

definition downgrade :: "verdict \<Rightarrow> verdict" where
  "downgrade v = (if v = Resilient then Degraded else v)"

definition computeVerdict ::
  "int \<Rightarrow> checkResult \<Rightarrow> bool \<Rightarrow> int \<Rightarrow> duration \<Rightarrow> hypothesisSpec \<Rightarrow> verdict \<times> deviation list" where
  "computeVerdict maxCycles postCheck allReconciled cycles recoveryTime hyp =
     (let v0 = (if crPassed postCheck \<and> allReconciled then Resilient
                else if crPassed postCheck \<and> \<not> allReconciled then Degraded
                else Failed);
          d0 = (if crPassed postCheck \<and> \<not> allReconciled
                then [\<lparr>dvType = ''partial_reconciliation'', dvDetail = Msg
                        ''steady state checks passed but not all resources reconciled'' []\<rparr>]
                else []);
          slow = hypRecoveryTimeout hyp > 0 \<and> recoveryTime > hypRecoveryTimeout hyp;
          v1 = (if slow then downgrade v0 else v0);
          d1 = (if slow then d0 @ [\<lparr>dvType = ''slow_recovery'', dvDetail = Msg
                  ''recovered in %s, expected within %s''
                  [ADur recoveryTime, ADur (hypRecoveryTimeout hyp)]\<rparr>] else d0);
          excessive = maxCycles > 0 \<and> cycles > maxCycles;
          v2 = (if excessive then downgrade v1 else v1);
          d2 = (if excessive then d1 @ [\<lparr>dvType = ''excessive_reconciliation'', dvDetail = Msg
                  ''%d cycles (max %d)'' [AInt cycles, AInt maxCycles]\<rparr>] else d1)
      in (v2, d2))"

definition confidenceText :: "checkResult \<Rightarrow> duration \<Rightarrow> int \<Rightarrow> message" where
  "confidenceText postCheck recoveryTime cycles =
     Msg ''%d/%d steady-state checks passed, %s recovery, %d reconcile cycles''
       [AInt (crChecksPassed postCheck), AInt (crChecksRun postCheck), ADur recoveryTime, AInt cycles]"

definition Evaluate ::
  "int \<Rightarrow> checkResult option \<Rightarrow> checkResult option \<Rightarrow> bool \<Rightarrow> int \<Rightarrow> duration \<Rightarrow> hypothesisSpec \<Rightarrow>
   evaluationResult" where
  "Evaluate maxCycles preCheck postCheck allReconciled cycles recoveryTime hyp =
     (case (preCheck, postCheck) of
        (Some pre, Some post) \<Rightarrow>
          if \<not> crPassed pre then
            \<lparr>evVerdict = Inconclusive, evConfidence = Msg ''pre-check failed: %d/%d checks passed''
               [AInt (crChecksPassed pre), AInt (crChecksRun pre)],
             evRecoveryTime = recoveryTime, evReconcileCycles = cycles, evDeviations = []\<rparr>
          else (case computeVerdict maxCycles post allReconciled cycles recoveryTime hyp of (v, ds) \<Rightarrow>
            \<lparr>evVerdict = v, evConfidence = confidenceText post recoveryTime cycles,
             evRecoveryTime = recoveryTime, evReconcileCycles = cycles, evDeviations = ds\<rparr>)
      | _ \<Rightarrow>
          \<lparr>evVerdict = Inconclusive, evConfidence = Msg ''missing pre-check or post-check data'' [],
           evRecoveryTime = recoveryTime, evReconcileCycles = cycles, evDeviations = []\<rparr>)"

text \<open>The aggregation over the reconciliation findings: all reconciled, worst cycles and time.\<close>

definition aggregateStep :: "finding \<Rightarrow> bool \<times> int \<times> duration \<Rightarrow> bool \<times> int \<times> duration" where
  "aggregateStep f acc =
     (case acc of (allRec, cycles, rec) \<Rightarrow>
       if fdSource f = SourceReconciliation then
         (case fdReconciliationResult f of
            None \<Rightarrow> acc
          | Some r \<Rightarrow> (allRec \<and> rrAllReconciled r,
                       if rrReconcileCycles r > cycles then rrReconcileCycles r else cycles,
                       if rrRecoveryTime r > rec then rrRecoveryTime r else rec))
       else acc)"

definition steadyFinding :: "finding list \<Rightarrow> checkResult option" where
  "steadyFinding fs =
     (case find (\<lambda>f. fdSource f = SourceSteadyState) fs of None \<Rightarrow> None | Some f \<Rightarrow> fdChecks f)"

definition collateralStep :: "finding \<Rightarrow> verdict \<times> deviation list \<Rightarrow> verdict \<times> deviation list" where
  "collateralStep f acc =
     (case acc of (v, ds) \<Rightarrow>
       if fdSource f = SourceCollateral \<and> \<not> fdPassed f then
         (downgrade v, ds @ [\<lparr>dvType = ''collateral_degradation'', dvDetail = Msg
             ''dependent %s/%s degraded'' [AStr (fdOperator f), AStr (fdComponent f)]\<rparr>])
       else acc)"

definition EvaluateFromFindings ::
  "int \<Rightarrow> finding list \<Rightarrow> hypothesisSpec \<Rightarrow> evaluationResult" where
  "EvaluateFromFindings maxCycles findings hyp =
     (case fold aggregateStep findings (True, 0, 0) of (allReconciled, cycles, recoveryTime) \<Rightarrow>
        (case steadyFinding findings of
           None \<Rightarrow>
             \<lparr>evVerdict = Inconclusive, evConfidence = Msg ''no steady-state post-check data'' [],
              evRecoveryTime = recoveryTime, evReconcileCycles = cycles, evDeviations = []\<rparr>
         | Some postCheck \<Rightarrow>
             (case fold collateralStep findings
                     (computeVerdict maxCycles postCheck allReconciled cycles recoveryTime hyp) of
                (v, ds) \<Rightarrow>
                  \<lparr>evVerdict = v, evConfidence = confidenceText postCheck recoveryTime cycles,
                   evRecoveryTime = recoveryTime, evReconcileCycles = cycles,
                   evDeviations = ds\<rparr>)))"

section \<open>Lemmas\<close>

definition reconResults :: "finding list \<Rightarrow> reconciliationResult list" where
  "reconResults fs = List.map_filter (\<lambda>f. if fdSource f = SourceReconciliation
     then fdReconciliationResult f else None) fs"

definition collateralFailures :: "finding list \<Rightarrow> finding list" where
  "collateralFailures fs = filter (\<lambda>f. fdSource f = SourceCollateral \<and> \<not> fdPassed f) fs"

definition maxOf :: "int list \<Rightarrow> int" where
  "maxOf xs = fold max xs 0"

lemma reconResults_simps [simp]:
  "reconResults [] = []"
  "reconResults (f # fs) =
     (if fdSource f = SourceReconciliation
      then (case fdReconciliationResult f of None \<Rightarrow> reconResults fs | Some r \<Rightarrow> r # reconResults fs)
      else reconResults fs)"
  by (auto simp: reconResults_def List.map_filter_def split: option.split)

lemma fold_aggregate:
  "fold aggregateStep fs (a, c, t) =
     (a \<and> list_all rrAllReconciled (reconResults fs),
      fold max (map rrReconcileCycles (reconResults fs)) c,
      fold max (map rrRecoveryTime (reconResults fs)) t)"
  by (induction fs arbitrary: a c t) (auto simp: aggregateStep_def max_def split: option.split)

lemma downgrade_simps [verdict_simps]:
  "downgrade Resilient = Degraded" "v \<noteq> Resilient \<Longrightarrow> downgrade v = v"
  "downgrade v = Resilient \<longleftrightarrow> False"
  by (auto simp: downgrade_def)

lemma downgrade_idem [simp]: "downgrade (downgrade v) = downgrade v"
  by (simp add: downgrade_def)

lemma fold_collateral:
  "fold collateralStep fs (v, ds) =
     (if collateralFailures fs = [] then v else downgrade v,
      ds @ map (\<lambda>f. \<lparr>dvType = ''collateral_degradation'', dvDetail = Msg
             ''dependent %s/%s degraded'' [AStr (fdOperator f), AStr (fdComponent f)]\<rparr>)
           (collateralFailures fs))"
  by (induction fs arbitrary: v ds) (auto simp: collateralStep_def collateralFailures_def)

lemma computeVerdict_verdict [verdict_simps]:
  "fst (computeVerdict m post allRec cycles rec hyp) =
     (if \<not> crPassed post then Failed
      else if allRec \<and> \<not> (hypRecoveryTimeout hyp > 0 \<and> rec > hypRecoveryTimeout hyp) \<and>
              \<not> (m > 0 \<and> cycles > m) then Resilient
      else Degraded)"
  by (auto simp: computeVerdict_def Let_def downgrade_def)

lemma computeVerdict_deviations:
  "snd (computeVerdict m post allRec cycles rec hyp) = [] \<longleftrightarrow>
     (crPassed post \<longrightarrow> allRec) \<and> \<not> (hypRecoveryTimeout hyp > 0 \<and> rec > hypRecoveryTimeout hyp) \<and>
     \<not> (m > 0 \<and> cycles > m)"
  by (auto simp: computeVerdict_def Let_def)

lemma EvaluateFromFindings_verdict [verdict_simps]:
  "evVerdict (EvaluateFromFindings m fs hyp) =
     (case steadyFinding fs of
        None \<Rightarrow> Inconclusive
      | Some post \<Rightarrow>
          if \<not> crPassed post then Failed
          else if list_all rrAllReconciled (reconResults fs) \<and>
            \<not> (hypRecoveryTimeout hyp > 0 \<and>
               maxOf (map rrRecoveryTime (reconResults fs)) > hypRecoveryTimeout hyp) \<and>
            \<not> (m > 0 \<and> maxOf (map rrReconcileCycles (reconResults fs)) > m) \<and>
            collateralFailures fs = []
          then Resilient else Degraded)"
proof (cases "steadyFinding fs")
  case None
  then show ?thesis by (simp add: EvaluateFromFindings_def fold_aggregate)
next
  case (Some post)
  let ?cv = "computeVerdict m post (list_all rrAllReconciled (reconResults fs))
    (maxOf (map rrReconcileCycles (reconResults fs))) (maxOf (map rrRecoveryTime (reconResults fs))) hyp"
  obtain v ds where cv: "?cv = (v, ds)" by fastforce
  then have v: "v = fst ?cv" by simp
  have "evVerdict (EvaluateFromFindings m fs hyp) =
      (if collateralFailures fs = [] then v else downgrade v)"
    using cv Some by (simp add: EvaluateFromFindings_def fold_aggregate fold_collateral maxOf_def)
  then show ?thesis
    unfolding v computeVerdict_verdict using Some by (auto simp: downgrade_def)
qed

lemma maxOf_le: "maxOf xs \<le> b \<longleftrightarrow> 0 \<le> b \<and> (\<forall>x\<in>set xs. x \<le> b)"
proof -
  have "fold max xs a \<le> b \<longleftrightarrow> a \<le> b \<and> (\<forall>x\<in>set xs. x \<le> b)" for a
    by (induction xs arbitrary: a) auto
  then show ?thesis by (simp add: maxOf_def)
qed

lemma maxOf_cong: "set xs = set ys \<Longrightarrow> maxOf xs = maxOf ys"
  by (metis maxOf_le order_antisym order_refl)

lemma verdict_range:
  "evVerdict (EvaluateFromFindings m fs hyp) \<in> {Resilient, Degraded, Failed, Inconclusive}"
  by (simp add: EvaluateFromFindings_verdict split: option.split)

lemma map_filter_mset:
  "mset xs = mset ys \<Longrightarrow> mset (List.map_filter f xs) = mset (List.map_filter f ys)"
  unfolding List.map_filter_def by (metis mset_filter mset_map)

lemma reconResults_mset: "mset fs = mset fs' \<Longrightarrow> mset (reconResults fs) = mset (reconResults fs')"
  unfolding reconResults_def by (rule map_filter_mset)

lemma collateral_mset:
  "mset fs = mset fs' \<Longrightarrow> mset (collateralFailures fs) = mset (collateralFailures fs')"
  by (simp add: collateralFailures_def)

text \<open>With at most one steady-state finding on the board, the first one does not depend on the order.\<close>

lemma steadyFinding_filter:
  "steadyFinding fs = (case FindingsBySource SourceSteadyState fs of [] \<Rightarrow> None | f # _ \<Rightarrow> fdChecks f)"
  by (induction fs) (auto simp: steadyFinding_def FindingsBySource_def split: list.splits)

lemma steadyFinding_mset:
  assumes "mset fs = mset fs'" and "length (FindingsBySource SourceSteadyState fs) \<le> 1"
  shows "steadyFinding fs' = steadyFinding fs"
proof -
  have m: "mset (FindingsBySource SourceSteadyState fs) = mset (FindingsBySource SourceSteadyState fs')"
    using assms(1) by (simp add: FindingsBySource_def)
  show ?thesis
  proof (cases "FindingsBySource SourceSteadyState fs")
    case Nil
    then show ?thesis using m by (simp add: steadyFinding_filter)
  next
    case (Cons f rest)
    then have "FindingsBySource SourceSteadyState fs = [f]" using assms(2) by simp
    then have "FindingsBySource SourceSteadyState fs' = [f]" using m by simp
    then show ?thesis using Cons assms(2) by (simp add: steadyFinding_filter)
  qed
qed

section \<open>Properties\<close>


definition passedCheck :: checkResult where
  "passedCheck = \<lparr>crPassed = True, crChecksRun = 1, crChecksPassed = 1, crDetails = [],
     crTimestamp = 0\<rparr>"

definition steadyPassed :: finding where
  "steadyPassed = \<lparr>fdSource = SourceSteadyState, fdComponent = '''', fdOperator = '''',
     fdPassed = True, fdDetails = None, fdChecks = Some passedCheck, fdReconciliationResult = None\<rparr>"


text \<open>C12. The contributors of the second phase run concurrently and append to the board in any
  order. With one steady-state finding, the order has no influence on the verdict, the confidence,
  the recovery time or the cycle count, and it only permutes the deviations.\<close>

theorem evaluation_interleaving:
  assumes "mset fs = mset fs'" and "length (FindingsBySource SourceSteadyState fs) \<le> 1"
  shows "let e = EvaluateFromFindings m fs hyp; e' = EvaluateFromFindings m fs' hyp in
    evVerdict e = evVerdict e' \<and> evConfidence e = evConfidence e' \<and>
    evRecoveryTime e = evRecoveryTime e' \<and> evReconcileCycles e = evReconcileCycles e' \<and>
    mset (evDeviations e) = mset (evDeviations e')"
proof -
  note r = reconResults_mset [OF assms(1)]
  have "fold max (map g (reconResults fs)) 0 = fold max (map g (reconResults fs')) 0" for g :: "_ \<Rightarrow> int"
    using maxOf_cong [of "map g (reconResults fs)" "map g (reconResults fs')"] mset_eq_setD [OF r]
    by (simp add: maxOf_def)
  moreover have "list_all rrAllReconciled (reconResults fs) = list_all rrAllReconciled (reconResults fs')"
    using mset_eq_setD [OF r] by (simp add: list_all_iff)
  ultimately have agg: "fold aggregateStep fs (True, 0, 0) = fold aggregateStep fs' (True, 0, 0)"
    by (simp add: fold_aggregate)
  have col: "collateralFailures fs = [] \<longleftrightarrow> collateralFailures fs' = []"
    "mset (map g (collateralFailures fs)) = mset (map g (collateralFailures fs'))" for g :: "_ \<Rightarrow> deviation"
    using collateral_mset [OF assms(1)] by (auto simp flip: mset_zero_iff)
  obtain allRec cycles rec where a: "fold aggregateStep fs' (True, 0, 0) = (allRec, cycles, rec)"
    by (metis surj_pair)
  show ?thesis
  proof (cases "steadyFinding fs")
    case None
    then show ?thesis using steadyFinding_mset [OF assms]
      by (simp add: EvaluateFromFindings_def agg a Let_def)
  next
    case (Some post)
    obtain v ds where "computeVerdict m post allRec cycles rec hyp = (v, ds)" by fastforce
    then show ?thesis using Some col steadyFinding_mset [OF assms]
      by (simp add: EvaluateFromFindings_def agg a Let_def fold_collateral)
  qed
qed

definition collateralFailed :: "string \<Rightarrow> finding" where
  "collateralFailed c = \<lparr>fdSource = SourceCollateral, fdComponent = c, fdOperator = ''op'',
     fdPassed = False, fdDetails = None, fdChecks = None, fdReconciliationResult = None\<rparr>"

theorem evaluation_interleaving_witness:
  "evVerdict (EvaluateFromFindings 10 [steadyPassed, collateralFailed ''c'']
      \<lparr>hypDescription = '''', hypRecoveryTimeout = 0\<rparr>) =
   evVerdict (EvaluateFromFindings 10 [collateralFailed ''c'', steadyPassed]
      \<lparr>hypDescription = '''', hypRecoveryTimeout = 0\<rparr>)"
  using evaluation_interleaving [of "[steadyPassed, collateralFailed ''c'']"
      "[collateralFailed ''c'', steadyPassed]" 10 "\<lparr>hypDescription = '''', hypRecoveryTimeout = 0\<rparr>"]
  by (simp add: Let_def FindingsBySource_def steadyPassed_def collateralFailed_def)

end
