(* ===== verification/ExpLock.thy ===== *)
theory ExpLock
  imports ApiTypes
begin

text \<open>
  The experiment lock of \<open>pkg/safety/mutex.go\<close>. The Go interface \<open>ExperimentLock\<close> is the
  locale \<open>experiment_lock\<close>: what \<open>Acquire\<close>, \<open>Renew\<close> and \<open>Release\<close> promise about who holds
  an operator's lock (\<open>holder\<close>), and that a lock is taken from its holder only once it has
  expired (\<open>expired\<close>, at the time \<open>clk\<close> shows when the call returns). The in-process
  implementation is modelled here; the Lease objects are in theory \<open>LeaseLock\<close>.
\<close>

section \<open>The contract\<close>

locale experiment_lock =
  fixes acquire :: "string \<Rightarrow> string \<Rightarrow> duration \<Rightarrow> 's \<Rightarrow> goErr option \<times> 's"
    and renew :: "string \<Rightarrow> string \<Rightarrow> 's \<Rightarrow> goErr option \<times> 's"
    and release :: "string \<Rightarrow> string \<Rightarrow> 's \<Rightarrow> goErr option \<times> 's"
    and holder :: "'s \<Rightarrow> string \<rightharpoonup> string"
    and expired :: "'s \<Rightarrow> string \<Rightarrow> timestamp \<Rightarrow> bool"
    and clk :: "'s \<Rightarrow> timestamp"
  assumes acquire_ok: "acquire p e d s = (None, s') \<Longrightarrow> holder s' = (holder s)(p \<mapsto> e)"
    and acquire_err: "acquire p e d s = (Some err, s') \<Longrightarrow> holder s' = holder s"
    and acquire_free: "acquire p e d s = (None, s') \<Longrightarrow> holder s p = Some h \<Longrightarrow> h \<noteq> e \<Longrightarrow>
                         expired s p (clk s')"
    and renew_ok: "renew p e s = (None, s') \<Longrightarrow> holder s p = Some e \<and> holder s' = holder s"
    and renew_err: "renew p e s = (Some err, s') \<Longrightarrow> holder s' = holder s"
    and release_ok: "release p e s = (None, s') \<Longrightarrow>
                       holder s p = Some e \<and> holder s' = (holder s)(p := None)"
    and release_err: "release p e s = (Some err, s') \<Longrightarrow> holder s' = holder s"
begin

lemma acquire_holder:
  "holder (snd (acquire p e d s)) = (if fst (acquire p e d s) = None then (holder s)(p \<mapsto> e)
     else holder s)"
proof (cases "acquire p e d s")
  case (Pair r s')
  then show ?thesis by (cases r) (simp_all add: acquire_ok acquire_err)
qed

lemma release_holder:
  "holder (snd (release p e s)) = (if fst (release p e s) = None then (holder s)(p := None)
     else holder s)"
proof (cases "release p e s")
  case (Pair r s')
  then show ?thesis by (cases r) (simp_all add: release_ok release_err)
qed

lemma release_holds: "fst (release p e s) = None \<Longrightarrow> holder s p = Some e"
  by (cases "release p e s") (simp add: release_ok)

lemma renew_holder: "holder (snd (renew p e s)) = holder s"
proof (cases "renew p e s")
  case (Pair r s')
  then show ?thesis by (cases r) (simp_all add: renew_ok renew_err)
qed

lemma renew_holds: "fst (renew p e s) = None \<Longrightarrow> holder s p = Some e"
  by (cases "renew p e s") (simp add: renew_ok)

lemma acquire_taken_free:
  "fst (acquire p e d s) = None \<Longrightarrow> holder s p = Some h \<Longrightarrow> h \<noteq> e \<Longrightarrow>
   expired s p (clk (snd (acquire p e d s)))"
  using acquire_free [of p e d s] by (cases "acquire p e d s") simp

lemma acquire_contended:
  assumes "holder s p = Some h" and "h \<noteq> e"
    and "\<not> expired s p (clk (snd (acquire p e d s)))"
  shows "fst (acquire p e d s) \<noteq> None \<and> holder (snd (acquire p e d s)) = holder s"
  using acquire_taken_free [OF _ assms(1,2)] assms(3) by (auto simp: acquire_holder)

lemma release_foreign:
  "holder s p \<noteq> Some e \<Longrightarrow>
   fst (release p e s) \<noteq> None \<and> holder (snd (release p e s)) = holder s"
  using release_holds [of p e s] by (auto simp: release_holder)

lemma renew_foreign: "holder s p \<noteq> Some e \<Longrightarrow> fst (renew p e s) \<noteq> None"
  using renew_holds by blast

lemma other_operators:
  "q \<noteq> p \<Longrightarrow> holder (snd (acquire p e d s)) q = holder s q"
  "q \<noteq> p \<Longrightarrow> holder (snd (release p e s)) q = holder s q"
  by (simp_all add: acquire_holder release_holder)

end

section \<open>The in-process lock\<close>

type_synonym localLocks = "string \<rightharpoonup> string"

definition NewLocalExperimentLock :: localLocks where
  "NewLocalExperimentLock = Map.empty"

definition localAcquire ::
  "string \<Rightarrow> string \<Rightarrow> duration \<Rightarrow> localLocks \<Rightarrow> goErr option \<times> localLocks" where
  "localAcquire operator experimentName d l =
     (case l operator of
        Some existing \<Rightarrow>
          if existing = experimentName then (None, l)
          else (Some (Errorf ''operator %s is locked by experiment %q: %w''
                  [AStr operator, AStr existing, AErr ErrLockContention]), l)
      | None \<Rightarrow> (None, l(operator \<mapsto> experimentName)))"

definition localRenew :: "string \<Rightarrow> string \<Rightarrow> localLocks \<Rightarrow> goErr option \<times> localLocks" where
  "localRenew operator experimentName l =
     (case l operator of
        None \<Rightarrow> (Some (Errorf ''no lock held for operator %s: %w''
                   [AStr operator, AErr ErrLockNotFound]), l)
      | Some existing \<Rightarrow>
          if existing \<noteq> experimentName then
            (Some (Errorf ''lock held by %q, renew requested by %q: %w''
               [AStr existing, AStr experimentName, AErr ErrHolderMismatch]), l)
          else (None, l))"

definition localRelease :: "string \<Rightarrow> string \<Rightarrow> localLocks \<Rightarrow> goErr option \<times> localLocks" where
  "localRelease operator experimentName l =
     (case l operator of
        None \<Rightarrow> (Some (Errorf ''no lock for operator %s: %w''
                   [AStr operator, AErr ErrLockNotFound]), l)
      | Some existing \<Rightarrow>
          if existing \<noteq> experimentName then
            (Some (Errorf ''lock held by %q, release requested by %q: %w''
               [AStr existing, AStr experimentName, AErr ErrHolderMismatch]), l)
          else (None, l(operator := None)))"

interpretation localLock: experiment_lock localAcquire localRenew localRelease id
  "\<lambda>l p t. False" "\<lambda>l. 0"
  by unfold_locales
     (auto simp: localAcquire_def localRenew_def localRelease_def fun_eq_iff
        split: option.splits if_splits)

end
