(* ===== verification/Reconciler.thy ===== *)
theory Reconciler
  imports Evaluator ExpLock "HOL-Library.State_Monad"
begin

text \<open>
  The controller of \<open>internal/controller/reconciler.go\<close>: every reconcile reads the
  \<open>ChaosExperiment\<close>, and advances it by at most one phase. The API client, the phase
  orchestrator (the Go interface \<open>PhaseOrchestrator\<close>), the experiment lock, the clock and the
  event recorder are the fields of \<open>recEnv\<close>; the handlers are programs of the state monad over
  an arbitrary world \<open>'w\<close>. A Go function that returns \<open>(ctrl.Result, error)\<close> returns the
  requeue delay (0 for none) and the error.
\<close>

section \<open>Environment and events\<close>

datatype eventType = EventNormal | EventWarning

record 'w recEnv =
  rGet :: "'w \<Rightarrow> (goErr + chaosExperiment) \<times> 'w"
  rUpdate :: "chaosExperiment \<Rightarrow> 'w \<Rightarrow> (goErr + chaosExperiment) \<times> 'w"
  rStatusUpdate :: "chaosExperiment \<Rightarrow> 'w \<Rightarrow> (goErr + chaosExperiment) \<times> 'w"
  rValidate :: "chaosExperiment \<Rightarrow> 'w \<Rightarrow> goErr option \<times> 'w"
  rPreCheck :: "chaosExperiment \<Rightarrow> 'w \<Rightarrow> (goErr + checkResult) \<times> 'w"
  rInject :: "chaosExperiment \<Rightarrow> 'w \<Rightarrow> (goErr + injectionEvent list) \<times> 'w"
  rRevert :: "chaosExperiment \<Rightarrow> 'w \<Rightarrow> goErr option \<times> 'w"
  rPoll :: "chaosExperiment \<Rightarrow> 'w \<Rightarrow> (goErr + reconciliationResult option) \<times> 'w"
  rPostFinal :: "chaosExperiment \<Rightarrow> reconciliationResult option \<Rightarrow> 'w \<Rightarrow>
                   (goErr + checkResult \<times> finding list) \<times> 'w"
  rEvaluate :: "finding list \<Rightarrow> hypothesisSpec \<Rightarrow> evaluationResult"
  rAcquire :: "string \<Rightarrow> string \<Rightarrow> duration \<Rightarrow> 'w \<Rightarrow> goErr option \<times> 'w"
  rRenew :: "string \<Rightarrow> string \<Rightarrow> 'w \<Rightarrow> goErr option \<times> 'w"
  rRelease :: "string \<Rightarrow> string \<Rightarrow> 'w \<Rightarrow> goErr option \<times> 'w"
  rEvent :: "eventType \<Rightarrow> string \<Rightarrow> message \<Rightarrow> 'w \<Rightarrow> 'w"
  rNow :: "'w \<Rightarrow> timestamp"

type_synonym recResult = "duration \<times> goErr option"

abbreviation now :: "'w recEnv \<Rightarrow> ('w, timestamp) state" where
  "now env \<equiv> State (\<lambda>w. (rNow env w, w))"

definition emit :: "'w recEnv \<Rightarrow> eventType \<Rightarrow> string \<Rightarrow> message \<Rightarrow> ('w, unit) state" where
  "emit env ty reason msg = State (\<lambda>w. ((), rEvent env ty reason msg w))"

definition emitExperimentStarted :: "'w recEnv \<Rightarrow> ('w, unit) state" where
  "emitExperimentStarted env = emit env EventNormal ''ExperimentStarted''
     (Msg ''Experiment started, transitioning to SteadyStatePre'' [])"

definition emitPreCheckComplete :: "'w recEnv \<Rightarrow> bool \<Rightarrow> ('w, unit) state" where
  "emitPreCheckComplete env passed =
     (if passed then emit env EventNormal ''PreCheckComplete'' (Msg ''Pre-check passed=%t'' [ABool passed])
      else emit env EventWarning ''PreCheckFailed'' (Msg ''Pre-check passed=%t'' [ABool passed]))"

definition emitPostCheckComplete :: "'w recEnv \<Rightarrow> bool \<Rightarrow> ('w, unit) state" where
  "emitPostCheckComplete env passed =
     (if passed then emit env EventNormal ''PostCheckComplete'' (Msg ''Post-check passed=%t'' [ABool passed])
      else emit env EventWarning ''PostCheckFailed'' (Msg ''Post-check passed=%t'' [ABool passed]))"

definition emitFaultInjected :: "'w recEnv \<Rightarrow> ('w, unit) state" where
  "emitFaultInjected env = emit env EventNormal ''FaultInjected''
     (Msg ''Fault injected, transitioning to Observing'' [])"

definition emitInjectionFailed :: "'w recEnv \<Rightarrow> goErr \<Rightarrow> ('w, unit) state" where
  "emitInjectionFailed env err = emit env EventWarning ''InjectionFailed''
     (Msg ''Fault injection failed: %v'' [AText err])"

definition emitFaultReverted :: "'w recEnv \<Rightarrow> ('w, unit) state" where
  "emitFaultReverted env = emit env EventNormal ''FaultReverted''
     (Msg ''Fault reverted, transitioning to SteadyStatePost'' [])"

definition emitRevertFailed :: "'w recEnv \<Rightarrow> goErr \<Rightarrow> ('w, unit) state" where
  "emitRevertFailed env err = emit env EventWarning ''RevertFailed''
     (Msg ''Fault revert failed: %v'' [AText err])"

definition emitLeaseRenewalFailed :: "'w recEnv \<Rightarrow> goErr \<Rightarrow> ('w, unit) state" where
  "emitLeaseRenewalFailed env err = emit env EventWarning ''LeaseRenewalFailed''
     (Msg ''Lease renewal failed: %v'' [AText err])"

fun verdictName :: "verdict \<Rightarrow> string" where
  "verdictName VerdictUnset = ''''"
| "verdictName Resilient = ''Resilient''"
| "verdictName Degraded = ''Degraded''"
| "verdictName Failed = ''Failed''"
| "verdictName Inconclusive = ''Inconclusive''"

definition emitVerdictReached :: "'w recEnv \<Rightarrow> verdict \<Rightarrow> ('w, unit) state" where
  "emitVerdictReached env v = emit env (if v \<noteq> Resilient then EventWarning else EventNormal)
     ''VerdictReached'' (Msg ''Verdict: %s'' [AStr (verdictName v)])"

definition emitExperimentComplete :: "'w recEnv \<Rightarrow> verdict \<Rightarrow> ('w, unit) state" where
  "emitExperimentComplete env v = emit env EventNormal ''ExperimentComplete''
     (Msg ''Experiment complete, verdict: %s'' [AStr (verdictName v)])"

definition emitObserverFindings :: "'w recEnv \<Rightarrow> int \<Rightarrow> message \<Rightarrow> ('w, unit) state" where
  "emitObserverFindings env n summary = emit env EventNormal ''ObserverFindings''
     (case summary of Msg f as \<Rightarrow> Msg (''Observer: %d findings: '' @ f) (AInt n # as))"

definition emitRecoveryDetected :: "'w recEnv \<Rightarrow> duration \<Rightarrow> int \<Rightarrow> ('w, unit) state" where
  "emitRecoveryDetected env t cycles = emit env EventNormal ''RecoveryDetected''
     (Msg ''Recovery detected in %s (%d reconcile cycles)'' [ADur t, AInt cycles])"

definition emitExperimentAborted :: "'w recEnv \<Rightarrow> message \<Rightarrow> ('w, unit) state" where
  "emitExperimentAborted env reason = emit env EventWarning ''ExperimentAborted'' reason"

definition emitTTLExceeded :: "'w recEnv \<Rightarrow> duration \<Rightarrow> duration \<Rightarrow> ('w, unit) state" where
  "emitTTLExceeded env ttl elapsed = emit env EventWarning ''TTLExceeded''
     (Msg ''Injection TTL %s exceeded after %s'' [ADur ttl, ADur elapsed])"

definition emitLockContention :: "'w recEnv \<Rightarrow> goErr \<Rightarrow> ('w, unit) state" where
  "emitLockContention env err = emit env EventNormal ''LockContention''
     (Msg ''Lock held by another experiment, requeuing: %s'' [AText err])"

definition emitSpecMutated :: "'w recEnv \<Rightarrow> ('w, unit) state" where
  "emitSpecMutated env = emit env EventWarning ''SpecMutated''
     (Msg ''Spec changed during active experiment'' [])"

definition emitCleanupError :: "'w recEnv \<Rightarrow> goErr \<Rightarrow> ('w, unit) state" where
  "emitCleanupError env err = emit env EventWarning ''CleanupError''
     (Msg ''Failed to revert fault during deletion: %v'' [AText err])"

section \<open>Constants and helpers\<close>

definition cleanupFinalizer :: string where
  "cleanupFinalizer = ''chaos.operatorchaos.io/cleanup''"

definition immediateRequeue :: duration where "immediateRequeue = 100 * millisecond"
definition lockContentionRequeue :: duration where "lockContentionRequeue = 30 * second"
definition maxObserveRequeue :: duration where "maxObserveRequeue = 30 * second"
definition revertRetryInterval :: duration where "revertRetryInterval = 5 * second"
definition postCheckPollInterval :: duration where "postCheckPollInterval = 2 * second"

text \<open>The documented effect of \<open>controllerutil\<close>'s finalizer functions.\<close>

definition hasFinalizer :: "chaosExperiment \<Rightarrow> bool" where
  "hasFinalizer e = (cleanupFinalizer \<in> set (exFinalizers e))"

definition addFinalizer :: "chaosExperiment \<Rightarrow> chaosExperiment" where
  "addFinalizer e = (if hasFinalizer e then e
     else e\<lparr>exFinalizers := exFinalizers e @ [cleanupFinalizer]\<rparr>)"

definition removeFinalizer :: "chaosExperiment \<Rightarrow> chaosExperiment" where
  "removeFinalizer e = e\<lparr>exFinalizers := filter (\<lambda>f. f \<noteq> cleanupFinalizer) (exFinalizers e)\<rparr>"

abbreviation phaseOf :: "chaosExperiment \<Rightarrow> experimentPhase" where
  "phaseOf e \<equiv> stPhase (exStatus e)"

definition setStatus :: "(experimentStatus \<Rightarrow> experimentStatus) \<Rightarrow> chaosExperiment \<Rightarrow> chaosExperiment" where
  "setStatus f e = e\<lparr>exStatus := f (exStatus e)\<rparr>"

fun upsertCondition :: "condition \<Rightarrow> condition list \<Rightarrow> condition list" where
  "upsertCondition c [] = [c]"
| "upsertCondition c (d # ds) =
     (if condType d = condType c
      then c\<lparr>condLastTransitionTime := (if condStatus d \<noteq> condStatus c
               then condLastTransitionTime c else condLastTransitionTime d)\<rparr> # ds
      else d # upsertCondition c ds)"

definition setCondition ::
  "chaosExperiment \<Rightarrow> timestamp \<Rightarrow> conditionType \<Rightarrow> conditionStatus \<Rightarrow> string \<Rightarrow> message \<Rightarrow>
   chaosExperiment" where
  "setCondition e t ty st reason msg =
     setStatus (\<lambda>s. s\<lparr>stConditions := upsertCondition
       \<lparr>condType = ty, condStatus = st, condReason = reason, condMessage = msg,
        condLastTransitionTime = t, condObservedGeneration = exGeneration e\<rparr> (stConditions s)\<rparr>) e"

definition toEvaluationSummary :: "evaluationResult \<Rightarrow> evaluationSummary" where
  "toEvaluationSummary r =
     \<lparr>esVerdict = evVerdict r, esConfidence = evConfidence r, esRecoveryTime = evRecoveryTime r,
      esReconcileCycles = evReconcileCycles r,
      esDeviations = map (\<lambda>d. case dvDetail d of Msg f as \<Rightarrow> Msg (''%s: '' @ f) (AStr (dvType d) # as))
                         (evDeviations r)\<rparr>"

definition countPassed :: "finding list \<Rightarrow> int" where
  "countPassed fs = int (length (filter fdPassed fs))"

section \<open>Handlers\<close>

abbreviation ret :: "duration \<Rightarrow> goErr option \<Rightarrow> ('w, recResult) state" where
  "ret d e \<equiv> State_Monad.return (d, e)"

definition release :: "'w recEnv \<Rightarrow> chaosExperiment \<Rightarrow> ('w, goErr option) state" where
  "release env e = State (rRelease env (tgtOperator (spTarget (exSpec e))) (exName e))"

definition revert :: "'w recEnv \<Rightarrow> chaosExperiment \<Rightarrow> ('w, goErr option) state" where
  "revert env e = State (rRevert env e)"

definition renew :: "'w recEnv \<Rightarrow> chaosExperiment \<Rightarrow> ('w, goErr option) state" where
  "renew env e = State (rRenew env (tgtOperator (spTarget (exSpec e))) (exName e))"

definition statusUpdate :: "'w recEnv \<Rightarrow> chaosExperiment \<Rightarrow> ('w, goErr + chaosExperiment) state" where
  "statusUpdate env e = State (rStatusUpdate env e)"

definition update :: "'w recEnv \<Rightarrow> chaosExperiment \<Rightarrow> ('w, goErr + chaosExperiment) state" where
  "update env e = State (rUpdate env e)"

text \<open>\<open>if err := r.Status().Update(ctx, exp); err != nil \{ return ctrl.Result\{\}, err \}\<close>, then go on.\<close>

definition statusUpdateThen ::
  "'w recEnv \<Rightarrow> chaosExperiment \<Rightarrow> (chaosExperiment \<Rightarrow> ('w, recResult) state) \<Rightarrow> ('w, recResult) state" where
  "statusUpdateThen env e k = do {
     r \<leftarrow> statusUpdate env e;
     (case r of Inl err \<Rightarrow> ret 0 (Some err) | Inr e' \<Rightarrow> k e')
   }"

definition updateThen ::
  "'w recEnv \<Rightarrow> chaosExperiment \<Rightarrow> (chaosExperiment \<Rightarrow> ('w, recResult) state) \<Rightarrow> ('w, recResult) state" where
  "updateThen env e k = do {
     r \<leftarrow> update env e;
     (case r of Inl err \<Rightarrow> ret 0 (Some err) | Inr e' \<Rightarrow> k e')
   }"

text \<open>The last part of \<open>abort\<close>: record the terminal status, then release the lock.\<close>

definition abortFinish ::
  "'w recEnv \<Rightarrow> chaosExperiment \<Rightarrow> message \<Rightarrow> goErr option \<Rightarrow> ('w, recResult) state" where
  "abortFinish env e reason revertError = do {
     t \<leftarrow> now env;
     let e1 = setStatus (\<lambda>s. s\<lparr>stPhase := PhaseAborted, stCleanupError := revertError,
                stMessage := reason, stEndTime := Some t\<rparr>) e;
     t2 \<leftarrow> now env;
     let e2 = setCondition e1 t2 ConditionComplete ConditionFalse ''ExperimentAborted'' reason;
     emitExperimentAborted env reason;
     statusUpdateThen env e2 (\<lambda>e3. do {
       _ \<leftarrow> release env e3;
       ret immediateRequeue None
     })
   }"

definition abortRevertError :: "goErr option \<Rightarrow> goErr option" where
  "abortRevertError r = map_option (\<lambda>err. Errorf ''abort revert failed: %v'' [AText err]) r"

definition abort :: "'w recEnv \<Rightarrow> chaosExperiment \<Rightarrow> message \<Rightarrow> ('w, recResult) state" where
  "abort env e reason =
     (if phaseOf e = PhaseInjecting then
        statusUpdateThen env
          (setStatus (\<lambda>s. s\<lparr>stInjectionStartedAt := None, stPhase := PhaseAborted\<rparr>) e) (\<lambda>e1. do {
            r \<leftarrow> revert env e1;
            abortFinish env e1 reason (abortRevertError r)
          })
      else if phaseOf e = PhaseObserving \<or> phaseOf e = PhaseSteadyStatePost then do {
        r \<leftarrow> revert env e;
        abortFinish env e reason (abortRevertError r)
      }
      else abortFinish env e reason None)"

definition leaseDurationFor :: "chaosExperiment \<Rightarrow> duration" where
  "leaseDurationFor e =
     (let recoveryTimeout = ResolvedRecoveryTimeout e; ttl = injTTL (spInjection (exSpec e))
      in if ttl > 0 then ttl + recoveryTimeout * 2 else recoveryTimeout * 2)"

definition reconcilePending :: "'w recEnv \<Rightarrow> chaosExperiment \<Rightarrow> ('w, recResult) state" where
  "reconcilePending env e = do {
     v \<leftarrow> State (rValidate env e);
     (case v of
        Some err \<Rightarrow> abort env e (Msg ''validation failed: %v'' [AText err])
      | None \<Rightarrow> do {
          a \<leftarrow> State (rAcquire env (tgtOperator (spTarget (exSpec e))) (exName e) (leaseDurationFor e));
          (case a of
             Some err \<Rightarrow>
               if errorsIs err ErrLockContention then do {
                 emitLockContention env err;
                 ret lockContentionRequeue None
               }
               else ret 0 (Some err)
           | None \<Rightarrow> do {
               t \<leftarrow> now env;
               emitExperimentStarted env;
               statusUpdateThen env
                 (setStatus (\<lambda>s. s\<lparr>stStartTime := Some t, stPhase := PhaseSteadyStatePre,
                    stMessage := Msg ''Running pre-checks for %s''
                      [AStr (tgtOperator (spTarget (exSpec e)))]\<rparr>) e)
                 (\<lambda>_. ret immediateRequeue None)
             })
        })
   }"

definition reconcilePreCheck :: "'w recEnv \<Rightarrow> chaosExperiment \<Rightarrow> ('w, recResult) state" where
  "reconcilePreCheck env e = do {
     p \<leftarrow> State (rPreCheck env e);
     (case p of
        Inl err \<Rightarrow> abort env e (Msg ''pre-check error: %v'' [AText err])
      | Inr result \<Rightarrow> do {
          let e1 = setStatus (\<lambda>s. s\<lparr>stSteadyStatePre := Some result\<rparr>) e;
          emitPreCheckComplete env (crPassed result);
          if \<not> crPassed result
          then abort env e1 (Msg ''pre-check failed: steady-state not established'' [])
          else do {
            t \<leftarrow> now env;
            let e2 = setCondition e1 t ConditionSteadyStateEstablished ConditionTrue
                       ''PreCheckPassed'' (Msg ''Steady-state established before injection'' []);
            statusUpdateThen env (setStatus (\<lambda>s. s\<lparr>stPhase := PhaseInjecting\<rparr>) e2)
              (\<lambda>_. ret immediateRequeue None)
          }
        })
   }"

text \<open>The end of \<open>reconcileInject\<close>, once crash barrier and finalizer are persisted.\<close>

definition injectNow :: "'w recEnv \<Rightarrow> chaosExperiment \<Rightarrow> ('w, recResult) state" where
  "injectNow env e = do {
     r \<leftarrow> State (rInject env e);
     (case r of
        Inl err \<Rightarrow> do {
          emitInjectionFailed env err;
          abort env e (Msg ''injection failed: %v'' [AText err])
        }
      | Inr events \<Rightarrow> do {
          t \<leftarrow> now env;
          let e1 = setCondition (setStatus (\<lambda>s. s\<lparr>stInjectionLog := events\<rparr>) e) t
                     ConditionFaultInjected ConditionTrue ''FaultInjected''
                     (Msg ''Fault successfully injected'' []);
          let e2 = setStatus (\<lambda>s. s\<lparr>stPhase := PhaseObserving,
                     stMessage := Msg ''Fault injected, observing recovery for %s''
                       [ADur (hypRecoveryTimeout (spHypothesis (exSpec e)))]\<rparr>) e1;
          emitFaultInjected env;
          statusUpdateThen env e2 (\<lambda>_. ret immediateRequeue None)
        })
   }"

definition reconcileInject :: "'w recEnv \<Rightarrow> chaosExperiment \<Rightarrow> ('w, recResult) state" where
  "reconcileInject env e =
     (if stInjectionStartedAt (exStatus e) \<noteq> None then
        let skip = (\<lambda>e1. statusUpdateThen env
              (setStatus (\<lambda>s. s\<lparr>stObservedGeneration := exGeneration e1, stPhase := PhaseObserving\<rparr>) e1)
              (\<lambda>_. ret immediateRequeue None))
        in if \<not> hasFinalizer e then updateThen env (addFinalizer e) skip else skip e
      else do {
        t \<leftarrow> now env;
        statusUpdateThen env (setStatus (\<lambda>s. s\<lparr>stInjectionStartedAt := Some t\<rparr>) e) (\<lambda>e1.
          if \<not> hasFinalizer e1 then
            updateThen env (addFinalizer e1) (\<lambda>e2.
              statusUpdateThen env
                (setStatus (\<lambda>s. s\<lparr>stObservedGeneration := exGeneration e2\<rparr>) e2)
                (injectNow env))
          else injectNow env e1)
      })"

definition cappedRequeue :: "duration \<Rightarrow> duration" where
  "cappedRequeue remaining = (if remaining > maxObserveRequeue then maxObserveRequeue else remaining)"

definition reconcileObserve :: "'w recEnv \<Rightarrow> chaosExperiment \<Rightarrow> ('w, recResult) state" where
  "reconcileObserve env e =
     (case stInjectionStartedAt (exStatus e) of
        None \<Rightarrow> abort env e (Msg ''InjectionStartedAt is nil in Observing phase'' [])
      | Some started \<Rightarrow> do {
          t \<leftarrow> now env;
          let elapsed = t - started;
          let recoveryTimeout = ResolvedRecoveryTimeout e;
          (case stFaultRevertedAt (exStatus e) of
             Some reverted \<Rightarrow>
               if t - reverted < recoveryTimeout
               then ret (cappedRequeue (recoveryTimeout - (t - reverted))) None
               else statusUpdateThen env (setStatus (\<lambda>s. s\<lparr>stPhase := PhaseSteadyStatePost\<rparr>) e)
                      (\<lambda>_. ret immediateRequeue None)
           | None \<Rightarrow> do {
               let ttl = injTTL (spInjection (exSpec e));
               let deadline = (if ttl > 0 then ttl else recoveryTimeout);
               if \<not> elapsed \<ge> deadline then ret (cappedRequeue (deadline - elapsed)) None
               else do {
                 (if ttl > 0 then emitTTLExceeded env ttl elapsed else State_Monad.return ());
                 l \<leftarrow> renew env e;
                 (case l of
                    Some err \<Rightarrow> abort env e (Msg ''pre-revert lease check failed: %v'' [AText err])
                  | None \<Rightarrow> do {
                      r \<leftarrow> revert env e;
                      (case r of
                         Some err \<Rightarrow> do {
                           emitRevertFailed env err;
                           ret revertRetryInterval None
                         }
                       | None \<Rightarrow> do {
                           revertTime \<leftarrow> now env;
                           emitFaultReverted env;
                           statusUpdateThen env
                             (setStatus (\<lambda>s. s\<lparr>stFaultRevertedAt := Some revertTime\<rparr>) e)
                             (\<lambda>_. ret (cappedRequeue recoveryTimeout) None)
                         })
                    })
               }
             })
        })"

definition doEvaluate :: "'w recEnv \<Rightarrow> chaosExperiment \<Rightarrow> finding list \<Rightarrow> ('w, recResult) state" where
  "doEvaluate env e findings = do {
     let ev = rEvaluate env findings (spHypothesis (exSpec e));
     let v = evVerdict ev;
     t \<leftarrow> now env;
     let e1 = setStatus (\<lambda>s. s\<lparr>stVerdict := v, stEvaluationResult := Some (toEvaluationSummary ev),
                stEndTime := Some t,
                stMessage := Msg ''Experiment complete, verdict: %s'' [AStr (verdictName v)]\<rparr>) e;
     t2 \<leftarrow> now env;
     let e2 = setCondition e1 t2 ConditionComplete ConditionTrue ''ExperimentComplete''
                (Msg ''Verdict: %s'' [AStr (verdictName v)]);
     let e3 = setStatus (\<lambda>s. s\<lparr>stPhase := PhaseComplete\<rparr>) e2;
     emitObserverFindings env (int (length findings))
       (Msg ''%d passed, %d total'' [AInt (countPassed findings), AInt (int (length findings))]);
     (if evRecoveryTime ev > 0
      then emitRecoveryDetected env (evRecoveryTime ev) (evReconcileCycles ev)
      else State_Monad.return ());
     emitVerdictReached env v;
     emitExperimentComplete env v;
     statusUpdateThen env e3 (\<lambda>e4. do {
       _ \<leftarrow> release env e4;
       ret immediateRequeue None
     })
   }"

definition reconcilePostCheck :: "'w recEnv \<Rightarrow> chaosExperiment \<Rightarrow> ('w, recResult) state" where
  "reconcilePostCheck env e =
     (case stPostCheckStartedAt (exStatus e) of
        None \<Rightarrow> do {
          t \<leftarrow> now env;
          statusUpdateThen env
            (setStatus (\<lambda>s. s\<lparr>stPostCheckStartedAt := Some t, stPostCheckCycles := 0\<rparr>) e)
            (\<lambda>_. ret immediateRequeue None)
        }
      | Some started \<Rightarrow> do {
          p \<leftarrow> State (rPoll env e);
          (case p of
             Inl err \<Rightarrow> abort env e (Msg ''post-check error: %v'' [AText err])
           | Inr recon \<Rightarrow> do {
               let e1 = setStatus (\<lambda>s. s\<lparr>stPostCheckCycles := stPostCheckCycles s + 1\<rparr>) e;
               let allReconciled = (case recon of None \<Rightarrow> True | Some r \<Rightarrow> rrAllReconciled r);
               t \<leftarrow> now env;
               let deadlinePassed = (t - started \<ge> ResolvedRecoveryTimeout e);
               if \<not> allReconciled \<and> \<not> deadlinePassed
               then statusUpdateThen env e1 (\<lambda>_. ret postCheckPollInterval None)
               else do {
                 t2 \<leftarrow> now env;
                 let recon1 = map_option (\<lambda>r. r\<lparr>rrReconcileCycles := stPostCheckCycles (exStatus e1),
                                rrRecoveryTime := t2 - started\<rparr>) recon;
                 f \<leftarrow> State (rPostFinal env e1 recon1);
                 (case f of
                    Inl err \<Rightarrow> abort env e1 (Msg ''post-check error: %v'' [AText err])
                  | Inr (result, findings) \<Rightarrow> do {
                      t3 \<leftarrow> now env;
                      let e2 = setCondition (setStatus (\<lambda>s. s\<lparr>stSteadyStatePost := Some result\<rparr>) e1) t3
                                 ConditionRecoveryObserved
                                 (if crPassed result then ConditionTrue else ConditionFalse)
                                 ''PostCheckComplete''
                                 (Msg ''Post-check passed=%t'' [ABool (crPassed result)]);
                      emitPostCheckComplete env (crPassed result);
                      doEvaluate env (setStatus (\<lambda>s. s\<lparr>stPhase := PhaseEvaluating\<rparr>) e2) findings
                    })
               }
             })
        })"

definition reconcileEvaluate :: "'w recEnv \<Rightarrow> chaosExperiment \<Rightarrow> ('w, recResult) state" where
  "reconcileEvaluate env e = do {
     p \<leftarrow> State (rPoll env e);
     (case p of
        Inl err \<Rightarrow> abort env e (Msg ''evaluation post-check error: %v'' [AText err])
      | Inr recon \<Rightarrow> do {
          t \<leftarrow> now env;
          let recon1 = (case stPostCheckStartedAt (exStatus e) of
                None \<Rightarrow> recon
              | Some started \<Rightarrow> map_option (\<lambda>r. r\<lparr>rrReconcileCycles := stPostCheckCycles (exStatus e) + 1,
                                 rrRecoveryTime := t - started\<rparr>) recon);
          f \<leftarrow> State (rPostFinal env e recon1);
          (case f of
             Inl err \<Rightarrow> abort env e (Msg ''evaluation post-check error: %v'' [AText err])
           | Inr (result, findings) \<Rightarrow> doEvaluate env e findings)
        })
   }"

definition handleDeletion :: "'w recEnv \<Rightarrow> chaosExperiment \<Rightarrow> ('w, recResult) state" where
  "handleDeletion env e =
     (if \<not> hasFinalizer e then ret 0 None
      else do {
        r \<leftarrow> revert env e;
        (case r of
           Some err \<Rightarrow> do {
             emitCleanupError env err;
             _ \<leftarrow> statusUpdate env (setStatus (\<lambda>s. s\<lparr>stCleanupError :=
                    Some (Errorf ''deletion revert failed: %v'' [AText err])\<rparr>) e);
             ret 0 (Some (Errorf ''reverting fault during deletion: %w'' [AErr err]))
           }
         | None \<Rightarrow> do {
             _ \<leftarrow> release env e;
             updateThen env (removeFinalizer e) (\<lambda>_. ret 0 None)
           })
      })"

text \<open>The block of \<open>Reconcile\<close> for terminal experiments: finalizer removal, then the backfill.\<close>

definition backfillAborted :: "'w recEnv \<Rightarrow> chaosExperiment \<Rightarrow> ('w, recResult) state" where
  "backfillAborted env e =
     (if phaseOf e \<noteq> PhaseAborted then ret 0 None
      else do {
        t \<leftarrow> now env;
        let e1 = (if stMessage (exStatus e) = noMessage
                  then setStatus (\<lambda>s. s\<lparr>stMessage :=
                         Msg ''experiment aborted (recovered after crash)'' []\<rparr>) e else e);
        let e2 = (if stEndTime (exStatus e) = None
                  then setStatus (\<lambda>s. s\<lparr>stEndTime := Some t\<rparr>) e1 else e1);
        let e3 = (if stInjectionStartedAt (exStatus e) \<noteq> None
                  then setStatus (\<lambda>s. s\<lparr>stInjectionStartedAt := None\<rparr>) e2 else e2);
        let hasComplete = list_ex (\<lambda>c. condType c = ConditionComplete) (stConditions (exStatus e));
        let e4 = (if \<not> hasComplete
                  then setCondition e3 t ConditionComplete ConditionFalse ''ExperimentAborted''
                         (Msg ''recovered after crash'' []) else e3);
        if stMessage (exStatus e) = noMessage \<or> stEndTime (exStatus e) = None \<or>
           stInjectionStartedAt (exStatus e) \<noteq> None \<or> \<not> hasComplete
        then do {
          r \<leftarrow> statusUpdate env e4;
          (case r of
             Inl err \<Rightarrow> ret 0 (Some (Errorf ''status backfill on terminal cleanup: %w'' [AErr err]))
           | Inr _ \<Rightarrow> ret 0 None)
        }
        else ret 0 None
      })"

definition terminalCleanup :: "'w recEnv \<Rightarrow> chaosExperiment \<Rightarrow> ('w, recResult) state" where
  "terminalCleanup env e =
     (if hasFinalizer e then do {
        _ \<leftarrow> (if phaseOf e = PhaseAborted then revert env e else State_Monad.return None);
        updateThen env (removeFinalizer e) (\<lambda>e1. do {
          _ \<leftarrow> release env e1;
          backfillAborted env e1
        })
      }
      else backfillAborted env e)"

definition dispatch :: "'w recEnv \<Rightarrow> chaosExperiment \<Rightarrow> ('w, recResult) state" where
  "dispatch env e =
     (case phaseOf e of
        PhaseUnset \<Rightarrow> reconcilePending env e
      | PhasePending \<Rightarrow> reconcilePending env e
      | PhaseSteadyStatePre \<Rightarrow> reconcilePreCheck env e
      | PhaseInjecting \<Rightarrow> reconcileInject env e
      | PhaseObserving \<Rightarrow> reconcileObserve env e
      | PhaseSteadyStatePost \<Rightarrow> reconcilePostCheck env e
      | PhaseEvaluating \<Rightarrow> reconcileEvaluate env e
      | PhaseComplete \<Rightarrow> ret 0 None
      | PhaseAborted \<Rightarrow> ret 0 None
      | OtherPhase s \<Rightarrow> abort env e (Msg ''unknown phase %q'' [AStr s]))"

definition Reconcile :: "'w recEnv \<Rightarrow> ('w, recResult) state" where
  "Reconcile env = do {
     g \<leftarrow> State (rGet env);
     (case g of
        Inl err \<Rightarrow> if isNotFound err then ret 0 None else ret 0 (Some err)
      | Inr e \<Rightarrow>
          if exDeleting e then handleDeletion env e
          else if phaseOf e = PhaseComplete \<or> phaseOf e = PhaseAborted then terminalCleanup env e
          else if stObservedGeneration (exStatus e) \<noteq> 0 \<and>
                  exGeneration e \<noteq> stObservedGeneration (exStatus e) then do {
            emitSpecMutated env;
            abort env e (Msg ''spec mutated after experiment started'' [])
          }
          else do {
            let e1 = setStatus (\<lambda>s. s\<lparr>stObservedGeneration := exGeneration e\<rparr>) e;
            if phaseOf e \<noteq> PhasePending \<and> phaseOf e \<noteq> PhaseUnset then do {
              l \<leftarrow> renew env e1;
              (case l of
                 Some err \<Rightarrow>
                   if errorsIs err ErrHolderMismatch \<or> errorsIs err ErrLockNotFound then do {
                     emitLeaseRenewalFailed env err;
                     abort env e1 (Msg ''lease renewal failed: %v'' [AText err])
                   }
                   else ret (5 * second) None
               | None \<Rightarrow> dispatch env e1)
            }
            else dispatch env e1
          })
   }"

end
