(* ===== verification/ReconcilerSafety.thy ===== *)
theory ReconcilerSafety
  imports Reconciler
begin

text \<open>
  What the controller guarantees about an experiment and its fault over any number of
  reconciles. The world is seen through \<open>recAbs\<close>: the stored resource, whether the fault is
  active, how often the injector was called, whether a best-effort revert of an aborted
  experiment has failed, and the holders of the experiment lock. The locale \<open>controller\<close> states
  what API server, orchestrator and lock do to these; a call that reports an error may come from
  a crash of the controller at that point, since every later call may then fail as well.
\<close>

section \<open>The abstract state\<close>

record recAbs =
  aCR :: "chaosExperiment option"
  aFault :: bool
  aInjections :: nat
  aGaveUp :: bool
  aHolder :: "string \<rightharpoonup> string"

locale controller =
  lock: experiment_lock "rAcquire env" "rRenew env" "rRelease env"
    "\<lambda>w. aHolder (abs w)" expired "rNow env"
  for env :: "'w recEnv" and abs :: "'w \<Rightarrow> recAbs" and expired +
  assumes get_ok: "rGet env w = (Inr e, w') \<Longrightarrow> aCR (abs w) = Some e \<and> abs w' = abs w"
    and get_err: "rGet env w = (Inl err, w') \<Longrightarrow> abs w' = abs w"
    and status_ok: "rStatusUpdate env e w = (Inr x, w') \<Longrightarrow> \<exists>cur. aCR (abs w) = Some cur \<and>
          x = cur\<lparr>exStatus := exStatus e\<rparr> \<and> abs w' = (abs w)\<lparr>aCR := Some x\<rparr>"
    and status_err: "rStatusUpdate env e w = (Inl err, w') \<Longrightarrow> abs w' = abs w"
    and update_ok: "rUpdate env e w = (Inr x, w') \<Longrightarrow> \<exists>cur g. aCR (abs w) = Some cur \<and>
          x = cur\<lparr>exFinalizers := exFinalizers e, exGeneration := g\<rparr> \<and>
          abs w' = (abs w)\<lparr>aCR := (if exDeleting cur \<and> exFinalizers e = [] then None else Some x)\<rparr>"
    and update_err: "rUpdate env e w = (Inl err, w') \<Longrightarrow> abs w' = abs w"
    and inject_law: "rInject env e w = (r, w') \<Longrightarrow>
          \<exists>b. abs w' = (abs w)\<lparr>aFault := b, aInjections := Suc (aInjections (abs w))\<rparr>"
    and revert_ok: "rRevert env e w = (None, w') \<Longrightarrow> abs w' = (abs w)\<lparr>aFault := False\<rparr>"
    and revert_err: "rRevert env e w = (Some err, w') \<Longrightarrow> \<exists>b. (b \<longrightarrow> aFault (abs w)) \<and>
          abs w' = (abs w)\<lparr>aFault := b,
            aGaveUp := aGaveUp (abs w) \<or> phaseOf e = PhaseAborted\<rparr>"
    and validate_frame: "abs (snd (rValidate env e w)) = abs w"
    and precheck_frame: "abs (snd (rPreCheck env e w)) = abs w"
    and poll_frame: "abs (snd (rPoll env e w)) = abs w"
    and postfinal_frame: "abs (snd (rPostFinal env e recon w)) = abs w"
    and event_frame: "abs (rEvent env ty reason msg w) = abs w"
    and lock_frame: "abs (snd (rAcquire env p n d w)) =
          (abs w)\<lparr>aHolder := aHolder (abs (snd (rAcquire env p n d w)))\<rparr>"
        "abs (snd (rRenew env p n w)) = (abs w)\<lparr>aHolder := aHolder (abs (snd (rRenew env p n w)))\<rparr>"
        "abs (snd (rRelease env p n w)) = (abs w)\<lparr>aHolder := aHolder (abs (snd (rRelease env p n w)))\<rparr>"

section \<open>Invariant and step relation\<close>

definition injectedPhase :: "chaosExperiment \<Rightarrow> bool" where
  "injectedPhase e = (phaseOf e \<in> {PhaseObserving, PhaseSteadyStatePost, PhaseEvaluating,
     PhaseComplete, PhaseAborted} \<or>
     phaseOf e = PhaseInjecting \<and> stInjectionStartedAt (exStatus e) \<noteq> None)"

definition crInv :: "bool \<Rightarrow> nat \<Rightarrow> bool \<Rightarrow> chaosExperiment \<Rightarrow> bool" where
  "crInv fault n gaveUp e =
     ((0 < n \<longrightarrow> injectedPhase e) \<and>
      (fault \<and> \<not> hasFinalizer e \<longrightarrow> gaveUp) \<and>
      (phaseOf e \<in> {PhaseSteadyStatePost, PhaseEvaluating, PhaseComplete} \<longrightarrow> \<not> fault) \<and>
      (stFaultRevertedAt (exStatus e) \<noteq> None \<longrightarrow> \<not> fault \<and>
         phaseOf e \<in> {PhaseObserving, PhaseSteadyStatePost, PhaseEvaluating, PhaseComplete,
                      PhaseAborted}))"

definition recInv :: "recAbs \<Rightarrow> bool" where
  "recInv s = (aInjections s \<le> 1 \<and> (aFault s \<longrightarrow> 0 < aInjections s) \<and>
     (case aCR s of
        None \<Rightarrow> aFault s \<longrightarrow> aGaveUp s
      | Some e \<Rightarrow> crInv (aFault s) (aInjections s) (aGaveUp s) e))"

definition terminal :: "chaosExperiment \<Rightarrow> bool" where
  "terminal e = (phaseOf e = PhaseComplete \<or> phaseOf e = PhaseAborted)"

definition phaseStep :: "experimentPhase \<Rightarrow> experimentPhase \<Rightarrow> bool" where
  "phaseStep p q = (p = q \<or>
     (p, q) \<in> {(PhaseUnset, PhaseSteadyStatePre), (PhasePending, PhaseSteadyStatePre),
               (PhaseSteadyStatePre, PhaseInjecting), (PhaseInjecting, PhaseObserving),
               (PhaseObserving, PhaseSteadyStatePost), (PhaseSteadyStatePost, PhaseComplete),
               (PhaseEvaluating, PhaseComplete)} \<or>
     (p \<noteq> PhaseComplete \<and> q = PhaseAborted))"

text \<open>How a reconcile may change the holders of the lock.\<close>

definition lockStep :: "chaosExperiment \<Rightarrow> recAbs \<Rightarrow> recAbs \<Rightarrow> bool" where
  "lockStep e s s' =
     (\<forall>p. aHolder s' p \<noteq> aHolder s p \<longrightarrow>
        p = tgtOperator (spTarget (exSpec e)) \<and>
        (aHolder s' p = Some (exName e) \<and> phaseOf e \<in> {PhaseUnset, PhasePending} \<or>
         aHolder s p = Some (exName e) \<and> aHolder s' p = None \<and>
           (case aCR s' of None \<Rightarrow> True | Some e' \<Rightarrow> terminal e' \<or> exDeleting e')))"

definition crStep :: "recAbs \<Rightarrow> recAbs \<Rightarrow> bool" where
  "crStep s s' =
     (case aCR s of
        None \<Rightarrow> s' = s
      | Some e \<Rightarrow> lockStep e s s' \<and>
          (case aCR s' of
             None \<Rightarrow> exDeleting e
           | Some e' \<Rightarrow> phaseStep (phaseOf e) (phaseOf e') \<and> exSpec e' = exSpec e \<and>
                        exName e' = exName e \<and> exDeleting e' = exDeleting e))"

section \<open>Weakest preconditions\<close>

definition wp :: "('w, 'a) state \<Rightarrow> ('a \<Rightarrow> 'w \<Rightarrow> bool) \<Rightarrow> 'w \<Rightarrow> bool" where
  "wp m Q w = (case run_state m w of (a, w') \<Rightarrow> Q a w')"

lemma wp_simps [simp]:
  "wp (State_Monad.return a) Q = Q a"
  "wp (State_Monad.bind m f) Q w = wp m (\<lambda>a. wp (f a) Q) w"
  "wp (State (\<lambda>w. (g w, w))) Q w = Q (g w) w"
  by (auto simp: wp_def split: prod.split)

lemma wp_mono: "wp m Q w \<Longrightarrow> (\<And>a w'. Q a w' \<Longrightarrow> R a w') \<Longrightarrow> wp m R w"
  by (auto simp: wp_def split: prod.splits)

lemma wp_State: "wp (State f) Q w = (case f w of (a, w') \<Rightarrow> Q a w')"
  by (simp add: wp_def)

text \<open>The handler's copy of the resource differs from the stored one in its status only.\<close>

definition inSync :: "chaosExperiment \<Rightarrow> recAbs \<Rightarrow> bool" where
  "inSync e s = (\<exists>cur st. aCR s = Some cur \<and> e = cur\<lparr>exStatus := st\<rparr>)"

context controller
begin

lemma wp_emit: "(\<And>w'. abs w' = abs w \<Longrightarrow> Q () w') \<Longrightarrow> wp (emit env ty reason msg) Q w"
  by (simp add: emit_def wp_State event_frame)

lemma wp_validate: "(\<And>r w'. abs w' = abs w \<Longrightarrow> Q r w') \<Longrightarrow> wp (State (rValidate env e)) Q w"
  using validate_frame [of e w] by (auto simp: wp_State split: prod.split)

lemma wp_precheck: "(\<And>r w'. abs w' = abs w \<Longrightarrow> Q r w') \<Longrightarrow> wp (State (rPreCheck env e)) Q w"
  using precheck_frame [of e w] by (auto simp: wp_State split: prod.split)

lemma wp_poll: "(\<And>r w'. abs w' = abs w \<Longrightarrow> Q r w') \<Longrightarrow> wp (State (rPoll env e)) Q w"
  using poll_frame [of e w] by (auto simp: wp_State split: prod.split)

lemma wp_postfinal:
  "(\<And>r w'. abs w' = abs w \<Longrightarrow> Q r w') \<Longrightarrow> wp (State (rPostFinal env e recon)) Q w"
  using postfinal_frame [of e recon w] by (auto simp: wp_State split: prod.split)

lemma wp_inject:
  "(\<And>r w' b. abs w' = (abs w)\<lparr>aFault := b, aInjections := Suc (aInjections (abs w))\<rparr> \<Longrightarrow> Q r w') \<Longrightarrow>
   wp (State (rInject env e)) Q w"
  using inject_law [of e w] by (fastforce simp: wp_State split: prod.split)

lemma wp_revert:
  assumes "\<And>w'. abs w' = (abs w)\<lparr>aFault := False\<rparr> \<Longrightarrow> Q None w'"
    and "\<And>err b w'. b \<longrightarrow> aFault (abs w) \<Longrightarrow> abs w' = (abs w)\<lparr>aFault := b,
            aGaveUp := aGaveUp (abs w) \<or> phaseOf e = PhaseAborted\<rparr> \<Longrightarrow> Q (Some err) w'"
  shows "wp (revert env e) Q w"
proof (cases "rRevert env e w")
  case (Pair r w')
  then show ?thesis
  proof (cases r)
    case None
    then show ?thesis using Pair assms(1) revert_ok [of e w w'] by (simp add: revert_def wp_State)
  next
    case (Some err)
    then obtain b where "b \<longrightarrow> aFault (abs w)" "abs w' = (abs w)\<lparr>aFault := b,
            aGaveUp := aGaveUp (abs w) \<or> phaseOf e = PhaseAborted\<rparr>"
      using Pair revert_err [of e w err w'] by auto
    then show ?thesis using Pair Some assms(2) by (simp add: revert_def wp_State)
  qed
qed

lemma wp_statusUpdate:
  assumes "inSync e (abs w)" and "\<And>err w'. abs w' = abs w \<Longrightarrow> Q (Inl err) w'"
    and "\<And>w'. abs w' = (abs w)\<lparr>aCR := Some e\<rparr> \<Longrightarrow> Q (Inr e) w'"
  shows "wp (statusUpdate env e) Q w"
proof (cases "rStatusUpdate env e w")
  case (Pair r w')
  then show ?thesis
  proof (cases r)
    case (Inl err)
    then show ?thesis using Pair assms(2) status_err [of e w err w']
      by (simp add: statusUpdate_def wp_State)
  next
    case (Inr x)
    then obtain cur where c: "aCR (abs w) = Some cur" "x = cur\<lparr>exStatus := exStatus e\<rparr>"
      "abs w' = (abs w)\<lparr>aCR := Some x\<rparr>" using Pair status_ok [of e w x w'] by auto
    then have "x = e" using assms(1) by (auto simp: inSync_def)
    then show ?thesis using Pair Inr c assms(3) by (simp add: statusUpdate_def wp_State)
  qed
qed

lemma wp_statusUpdateThen:
  assumes "inSync e (abs w)" and "\<And>err w'. abs w' = abs w \<Longrightarrow> Q (0, Some err) w'"
    and "\<And>w'. abs w' = (abs w)\<lparr>aCR := Some e\<rparr> \<Longrightarrow> wp (k e) Q w'"
  shows "wp (statusUpdateThen env e k) Q w"
  using assms by (auto simp: statusUpdateThen_def intro!: wp_statusUpdate)

lemma wp_updateThen:
  assumes "aCR (abs w) = Some cur" and "\<And>err w'. abs w' = abs w \<Longrightarrow> Q (0, Some err) w'"
    and "\<And>g x w'. x = cur\<lparr>exFinalizers := exFinalizers e, exGeneration := g\<rparr> \<Longrightarrow>
           abs w' = (abs w)\<lparr>aCR := (if exDeleting cur \<and> exFinalizers e = [] then None else Some x)\<rparr> \<Longrightarrow>
           wp (k x) Q w'"
  shows "wp (updateThen env e k) Q w"
proof (cases "rUpdate env e w")
  case (Pair r w')
  then show ?thesis
  proof (cases r)
    case (Inl err)
    then show ?thesis using Pair assms(2) update_err [of e w err w']
      by (simp add: updateThen_def update_def wp_State)
  next
    case (Inr x)
    then obtain g where "x = cur\<lparr>exFinalizers := exFinalizers e, exGeneration := g\<rparr>"
      "abs w' = (abs w)\<lparr>aCR := (if exDeleting cur \<and> exFinalizers e = [] then None else Some x)\<rparr>"
      using Pair update_ok [of e w x w'] assms(1) by auto
    then show ?thesis using Pair Inr assms(3) by (simp add: updateThen_def update_def wp_State)
  qed
qed

lemma wp_acquire:
  assumes "\<And>err w'. abs w' = abs w \<Longrightarrow> Q (Some err) w'"
    and "\<And>w'. abs w' = (abs w)\<lparr>aHolder := (aHolder (abs w))(p \<mapsto> n)\<rparr> \<Longrightarrow> Q None w'"
  shows "wp (State (rAcquire env p n d)) Q w"
proof (cases "rAcquire env p n d w")
  case (Pair r w')
  then show ?thesis using lock_frame(1) [of p n d w] lock.acquire_holder [of p n d w] assms
    by (cases r) (simp_all add: wp_State)
qed

lemma wp_renew: "(\<And>r w'. abs w' = abs w \<Longrightarrow> Q r w') \<Longrightarrow> wp (renew env e) Q w"
  using lock_frame(2) [of _ _ w] lock.renew_holder [of _ _ w]
  by (auto simp: renew_def wp_State split: prod.split)
    (metis recAbs.surjective recAbs.update_convs(5) snd_conv)

lemma wp_release:
  assumes "\<And>r w'. abs w' = abs w \<Longrightarrow> Q r w'"
    and "\<And>w'. aHolder (abs w) (tgtOperator (spTarget (exSpec e))) = Some (exName e) \<Longrightarrow>
           abs w' = (abs w)\<lparr>aHolder := (aHolder (abs w))(tgtOperator (spTarget (exSpec e)) := None)\<rparr> \<Longrightarrow>
           Q None w'"
  shows "wp (release env e) Q w"
proof (cases "rRelease env (tgtOperator (spTarget (exSpec e))) (exName e) w")
  case (Pair r w')
  then show ?thesis
    using lock_frame(3) [of "tgtOperator (spTarget (exSpec e))" "exName e" w] assms
      lock.release_holder [of "tgtOperator (spTarget (exSpec e))" "exName e" w]
      lock.release_holds [of "tgtOperator (spTarget (exSpec e))" "exName e" w]
    by (cases r) (simp_all add: release_def wp_State)
qed

end

section \<open>Every handler keeps the invariant\<close>

definition good :: "recAbs \<Rightarrow> recAbs \<Rightarrow> bool" where
  "good s s' = (recInv s' \<and> crStep s s')"

text \<open>The handler's copy agrees with the stored resource in what the invariant reads.\<close>

definition loc :: "chaosExperiment \<Rightarrow> recAbs \<Rightarrow> bool" where
  "loc e s = (\<exists>cur st. aCR s = Some cur \<and> e = cur\<lparr>exStatus := st\<rparr> \<and>
     phaseOf e = phaseOf cur \<and>
     stInjectionStartedAt (exStatus e) = stInjectionStartedAt (exStatus cur) \<and>
     stFaultRevertedAt (exStatus e) = stFaultRevertedAt (exStatus cur))"

lemma inSync_setStatus [simp]: "inSync e s \<Longrightarrow> inSync (setStatus f e) s"
  by (auto simp: inSync_def setStatus_def)

lemma inSync_setCondition [simp]: "inSync e s \<Longrightarrow> inSync (setCondition e t ty st r m) s"
  by (simp add: setCondition_def)

lemma loc_inSync: "loc e s \<Longrightarrow> inSync e s"
  by (auto simp: loc_def inSync_def)

lemma inSync_self [simp]: "aCR s = Some e \<Longrightarrow> inSync e s"
  unfolding inSync_def by (intro exI [of _ e] exI [of _ "exStatus e"]) simp

lemma loc_self [simp]: "aCR s = Some e \<Longrightarrow> loc e s"
  unfolding loc_def by (intro exI [of _ e] exI [of _ "exStatus e"]) simp

lemma inSync_frame [simp]:
  "inSync e (s\<lparr>aFault := b\<rparr>) = inSync e s" "inSync e (s\<lparr>aInjections := n\<rparr>) = inSync e s"
  "inSync e (s\<lparr>aGaveUp := g\<rparr>) = inSync e s" "inSync e (s\<lparr>aHolder := h\<rparr>) = inSync e s"
  by (simp_all add: inSync_def)

lemma setStatus_simps [simp]:
  "exStatus (setStatus f e) = f (exStatus e)" "exSpec (setStatus f e) = exSpec e"
  "exName (setStatus f e) = exName e" "exDeleting (setStatus f e) = exDeleting e"
  "exFinalizers (setStatus f e) = exFinalizers e" "exGeneration (setStatus f e) = exGeneration e"
  "hasFinalizer (setStatus f e) = hasFinalizer e"
  by (simp_all add: setStatus_def hasFinalizer_def)

lemma setCondition_simps [simp]:
  "phaseOf (setCondition e t ty st r m) = phaseOf e"
  "stInjectionStartedAt (exStatus (setCondition e t ty st r m)) = stInjectionStartedAt (exStatus e)"
  "stFaultRevertedAt (exStatus (setCondition e t ty st r m)) = stFaultRevertedAt (exStatus e)"
  "exSpec (setCondition e t ty st r m) = exSpec e" "exName (setCondition e t ty st r m) = exName e"
  "exDeleting (setCondition e t ty st r m) = exDeleting e"
  "exFinalizers (setCondition e t ty st r m) = exFinalizers e"
  "hasFinalizer (setCondition e t ty st r m) = hasFinalizer e"
  "stEvaluationResult (exStatus (setCondition e t ty st r m)) = stEvaluationResult (exStatus e)"
  by (simp_all add: setCondition_def)

lemma loc_simps:
  assumes "loc e s"
  obtains cur where "aCR s = Some cur" "exSpec e = exSpec cur" "exName e = exName cur"
    "exDeleting e = exDeleting cur" "hasFinalizer e = hasFinalizer cur"
    "exFinalizers e = exFinalizers cur" "phaseOf e = phaseOf cur"
    "stInjectionStartedAt (exStatus e) = stInjectionStartedAt (exStatus cur)"
    "stFaultRevertedAt (exStatus e) = stFaultRevertedAt (exStatus cur)"
  using assms that by (auto simp: loc_def hasFinalizer_def)

text \<open>Outcomes of the end of an abort: nothing stored, or the aborted resource stored and the lock
  possibly released.\<close>

context controller
begin

lemma wp_storeAndRelease:
  assumes "inSync e (abs w)" and "\<And>r w'. abs w' = abs w \<Longrightarrow> Q r w'"
    and "\<And>r w'. abs w' = (abs w)\<lparr>aCR := Some e\<rparr> \<or>
          aHolder (abs w) (tgtOperator (spTarget (exSpec e))) = Some (exName e) \<and>
          abs w' = (abs w)\<lparr>aCR := Some e,
            aHolder := (aHolder (abs w))(tgtOperator (spTarget (exSpec e)) := None)\<rparr> \<Longrightarrow> Q r w'"
  shows "wp (statusUpdateThen env e (\<lambda>e3. do { _ \<leftarrow> release env e3; ret d None })) Q w"
proof (rule wp_statusUpdateThen)
  fix w' assume w': "abs w' = (abs w)\<lparr>aCR := Some e\<rparr>"
  have "wp (release env e) (\<lambda>_. Q (d, None)) w'"
    by (rule wp_release; rule assms(3)) (simp_all add: w')
  then show "wp (do { _ \<leftarrow> release env e; ret d None }) Q w'" by simp
qed (use assms in auto)

lemma wp_abortFinish:
  assumes "inSync e (abs w)"
    and "\<And>r w'. abs w' = abs w \<Longrightarrow> Q r w'"
    and "\<And>r w' e'. exSpec e' = exSpec e \<Longrightarrow> exName e' = exName e \<Longrightarrow> exDeleting e' = exDeleting e \<Longrightarrow>
          hasFinalizer e' = hasFinalizer e \<Longrightarrow> phaseOf e' = PhaseAborted \<Longrightarrow>
          stFaultRevertedAt (exStatus e') = stFaultRevertedAt (exStatus e) \<Longrightarrow>
          abs w' = (abs w)\<lparr>aCR := Some e'\<rparr> \<or>
          aHolder (abs w) (tgtOperator (spTarget (exSpec e))) = Some (exName e) \<and>
          abs w' = (abs w)\<lparr>aCR := Some e',
            aHolder := (aHolder (abs w))(tgtOperator (spTarget (exSpec e)) := None)\<rparr> \<Longrightarrow> Q r w'"
  shows "wp (abortFinish env e reason err) Q w"
  unfolding abortFinish_def emitExperimentAborted_def Let_def wp_simps
proof (rule wp_emit, rule wp_storeAndRelease, goal_cases)
  case (1 w')
  then show ?case by (simp add: assms(1))
next
  case (2 w' r w'')
  then show ?case by (simp add: assms(2))
next
  case (3 w' r w'')
  show ?case by (rule assms(3) [OF _ _ _ _ _ _ 3(2) [unfolded 3(1) setCondition_simps setStatus_simps]])
      simp_all
qed

lemma good_abort:
  assumes "loc e s0" and "recInv s0" and "\<not> terminal e"
    and "exSpec e' = exSpec e" "exName e' = exName e" "exDeleting e' = exDeleting e"
    "hasFinalizer e' = hasFinalizer e" "phaseOf e' = PhaseAborted"
    "stFaultRevertedAt (exStatus e') = stFaultRevertedAt (exStatus e)"
    and "b \<longrightarrow> aFault s0"
    and "s' = s0\<lparr>aFault := b, aGaveUp := g, aCR := Some e'\<rparr> \<or>
         aHolder s0 (tgtOperator (spTarget (exSpec e))) = Some (exName e) \<and>
         s' = s0\<lparr>aFault := b, aGaveUp := g, aCR := Some e',
               aHolder := (aHolder s0)(tgtOperator (spTarget (exSpec e)) := None)\<rparr>"
    and "aGaveUp s0 \<longrightarrow> g"
  shows "good s0 s'"
proof -
  obtain cur where c: "aCR s0 = Some cur" "exSpec e = exSpec cur" "exName e = exName cur"
    "exDeleting e = exDeleting cur" "hasFinalizer e = hasFinalizer cur" "phaseOf e = phaseOf cur"
    "stInjectionStartedAt (exStatus e) = stInjectionStartedAt (exStatus cur)"
    "stFaultRevertedAt (exStatus e) = stFaultRevertedAt (exStatus cur)"
    using assms(1) by (rule loc_simps)
  have "crInv b (aInjections s0) g e'"
    using assms(2,4-10,12) c by (auto simp: recInv_def crInv_def injectedPhase_def)
  moreover have "phaseStep (phaseOf cur) PhaseAborted"
    using assms(3) c by (auto simp: phaseStep_def terminal_def)
  ultimately have m: "crInv b (aInjections s0) g e'" "phaseStep (phaseOf cur) PhaseAborted"
    by simp_all
  have n: "aInjections s0 \<le> 1" "b \<longrightarrow> 0 < aInjections s0"
    using assms(2,10) by (auto simp: recInv_def)
  from assms(11) show ?thesis
  proof (elim disjE conjE)
    assume "s' = s0\<lparr>aFault := b, aGaveUp := g, aCR := Some e'\<rparr>"
    then show ?thesis using m n c assms(4-8)
      by (simp add: good_def recInv_def crStep_def lockStep_def)
  next
    assume "s' = s0\<lparr>aFault := b, aGaveUp := g, aCR := Some e',
               aHolder := (aHolder s0)(tgtOperator (spTarget (exSpec e)) := None)\<rparr>"
      "aHolder s0 (tgtOperator (spTarget (exSpec e))) = Some (exName e)"
    then show ?thesis using m n c assms(4-8)
      by (simp add: good_def recInv_def crStep_def lockStep_def terminal_def)
  qed
qed

lemma good_same: "recInv s0 \<Longrightarrow> aCR s0 = Some cur \<Longrightarrow> good s0 s0"
  by (auto simp: good_def crStep_def lockStep_def phaseStep_def)

lemma loc_Some: "loc e s \<Longrightarrow> \<exists>cur. aCR s = Some cur"
  by (auto simp: loc_def)

text \<open>The end of an abort after a revert whose outcome is \<open>b\<close> and \<open>g\<close>.\<close>

lemma wp_abortFinish_good:
  assumes "loc e s0" and "recInv s0" and "\<not> terminal e"
    and "inSync e1 (abs w)" "exSpec e1 = exSpec e" "exName e1 = exName e"
    "exDeleting e1 = exDeleting e" "hasFinalizer e1 = hasFinalizer e"
    "stFaultRevertedAt (exStatus e1) = stFaultRevertedAt (exStatus e)"
    and "abs w = s0\<lparr>aFault := b, aGaveUp := g, aCR := aCR (abs w)\<rparr>"
    and "b \<longrightarrow> aFault s0" and "aGaveUp s0 \<longrightarrow> g"
    and "good s0 (abs w)"
  shows "wp (abortFinish env e1 reason err) (\<lambda>_ w'. good s0 (abs w')) w"
proof (rule wp_abortFinish [OF assms(4)], goal_cases)
  case (1 r w')
  then show ?case using assms(13) by simp
next
  case (2 r w' e')
  have h: "aHolder (abs w) = aHolder s0"
    by (subst assms(10)) simp
  have u: "(abs w)\<lparr>aCR := x\<rparr> = s0\<lparr>aFault := b, aGaveUp := g, aCR := x\<rparr>"
    "(abs w)\<lparr>aCR := x, aHolder := y\<rparr> = s0\<lparr>aFault := b, aGaveUp := g, aCR := x, aHolder := y\<rparr>" for x y
    by (subst assms(10), simp)+
  show ?case
    by (rule good_abort [OF assms(1-3), where e' = e' and b = b and g = g])
       (use 2 u h assms(5-12) in simp_all)
qed

lemma good_gaveUp:
  assumes "good s s'" and "aGaveUp s' \<longrightarrow> g" and "b \<longrightarrow> aFault s'" and "aCR s \<noteq> None"
  shows "good s (s'\<lparr>aFault := b, aGaveUp := g\<rparr>)"
proof -
  obtain e where e: "aCR s = Some e" using assms(4) by blast
  have inv: "recInv (s'\<lparr>aFault := b, aGaveUp := g\<rparr>)"
  proof (cases "aCR s'")
    case None
    then show ?thesis using assms(1-3) by (simp add: good_def recInv_def)
  next
    case (Some e')
    have "crInv (aFault s') (aInjections s') (aGaveUp s') e'"
      using assms(1) Some by (simp add: good_def recInv_def)
    then have "crInv b (aInjections s') g e'"
      unfolding crInv_def using assms(2,3) by blast
    then show ?thesis using assms(1,3) Some by (simp add: good_def recInv_def)
  qed
  have "crStep s (s'\<lparr>aFault := b, aGaveUp := g\<rparr>)"
    using assms(1) e by (simp add: good_def crStep_def lockStep_def)
  then show ?thesis using inv by (simp add: good_def)
qed

lemma wp_abort:
  assumes "loc e (abs w)" and "recInv (abs w)" and "\<not> terminal e"
  shows "wp (abort env e reason) (\<lambda>_ w'. good (abs w) (abs w')) w"
proof -
  obtain cur where cur: "aCR (abs w) = Some cur" using loc_Some [OF assms(1)] by blast
  note same = good_same [OF assms(2) cur]
  show ?thesis
  proof (cases "phaseOf e = PhaseInjecting")
    case True
    let ?e1 = "setStatus (\<lambda>s. s\<lparr>stInjectionStartedAt := None, stPhase := PhaseAborted\<rparr>) e"
    have stored: "good (abs w) ((abs w)\<lparr>aCR := Some ?e1\<rparr>)"
      by (rule good_abort [OF assms, where e' = ?e1 and b = "aFault (abs w)" and g = "aGaveUp (abs w)"]) simp_all
    show ?thesis
      unfolding abort_def using True
    proof (simp, intro wp_statusUpdateThen, goal_cases)
      case 1 then show ?case using loc_inSync [OF assms(1)] by simp
    next
      case (2 err w') then show ?case using same by simp
    next
      case (3 w1)
      show ?case unfolding wp_simps
      proof (rule wp_revert, goal_cases)
        case (1 w2)
        show ?case
          by (rule wp_abortFinish_good [OF assms, where b = False and g = "aGaveUp (abs w)"])
             (use 1 3 good_gaveUp [OF stored, where b = False and g = "aGaveUp (abs w)"] cur in simp_all)
      next
        case (2 err b w2)
        show ?case
          by (rule wp_abortFinish_good [OF assms, where b = b and g = True])
             (use 2 3 good_gaveUp [OF stored, where b = b and g = True] cur in simp_all)
      qed
    qed
  next
    case False
    show ?thesis
    proof (cases "phaseOf e = PhaseObserving \<or> phaseOf e = PhaseSteadyStatePost")
      case True
      have na: "phaseOf e \<noteq> PhaseAborted" using True by auto
      show ?thesis
        unfolding abort_def using True False
      proof (simp, intro wp_revert, goal_cases)
        case (1 w2)
        show ?case
          by (rule wp_abortFinish_good [OF assms, where b = False and g = "aGaveUp (abs w)"])
             (use 1 good_gaveUp [OF same, where b = False and g = "aGaveUp (abs w)"] cur loc_inSync [OF assms(1)] in simp_all)
      next
        case (2 err b w2)
        show ?case
          by (rule wp_abortFinish_good [OF assms, where b = b and g = "aGaveUp (abs w)"])
             (use 2 na good_gaveUp [OF same, where b = b and g = "aGaveUp (abs w)"] cur loc_inSync [OF assms(1)] in simp_all)
      qed
    next
      case F2: False
      show ?thesis unfolding abort_def using False F2
        by simp (rule wp_abortFinish_good [OF assms, where b = "aFault (abs w)" and g = "aGaveUp (abs w)"];
                 use same loc_inSync [OF assms(1)] in simp)
    qed
  qed
qed

text \<open>Storing a status that keeps the invariant, and more generally any such change.\<close>

lemma good_change:
  assumes "aCR s0 = Some cur" and "recInv s0"
    and "aCR s' = Some e'" "exSpec e' = exSpec cur" "exName e' = exName cur"
    "exDeleting e' = exDeleting cur" "phaseStep (phaseOf cur) (phaseOf e')"
    and "aInjections s' = aInjections s0" "aFault s' \<longrightarrow> aFault s0" "aGaveUp s0 \<longrightarrow> aGaveUp s'"
    and "crInv (aFault s') (aInjections s') (aGaveUp s') e'"
    and "lockStep cur s0 s'"
  shows "good s0 s'"
  using assms by (simp add: good_def recInv_def crStep_def)

lemma lockStep_same [simp]: "aHolder s' = aHolder s \<Longrightarrow> lockStep e s s'"
  by (simp add: lockStep_def)

lemma inv_cur: "recInv s \<Longrightarrow> aCR s = Some e \<Longrightarrow> crInv (aFault s) (aInjections s) (aGaveUp s) e"
  by (simp add: recInv_def)

lemma crInv_clean: "stFaultRevertedAt (exStatus e) = None \<Longrightarrow> crInv False 0 g e"
  by (simp add: crInv_def)

lemma notInjected:
  assumes "recInv s" and "aCR s = Some e" and "\<not> injectedPhase e"
  shows "aInjections s = 0 \<and> \<not> aFault s \<and> stFaultRevertedAt (exStatus e) = None"
  using assms by (auto simp: recInv_def crInv_def injectedPhase_def)

lemma wp_reconcilePending:
  assumes l: "loc e (abs w)" and i: "recInv (abs w)" and ph: "phaseOf e = PhaseUnset \<or> phaseOf e = PhasePending"
  shows "wp (reconcilePending env e) (\<lambda>_ w'. good (abs w) (abs w')) w"
proof -
  obtain cur where c: "aCR (abs w) = Some cur" "exSpec e = exSpec cur" "exName e = exName cur"
    "exDeleting e = exDeleting cur" "hasFinalizer e = hasFinalizer cur" "exFinalizers e = exFinalizers cur"
    "phaseOf e = phaseOf cur" "stInjectionStartedAt (exStatus e) = stInjectionStartedAt (exStatus cur)"
    "stFaultRevertedAt (exStatus e) = stFaultRevertedAt (exStatus cur)"
    using l by (rule loc_simps)
  have nt: "\<not> terminal e" using ph by (auto simp: terminal_def)
  note same = good_same [OF i c(1)]
  have ni: "aInjections (abs w) = 0" "aFault (abs w) = False" "stFaultRevertedAt (exStatus cur) = None"
    using notInjected [OF i c(1)] ph c(7) by (auto simp: injectedPhase_def)
  have st: "phaseOf cur \<in> {PhaseUnset, PhasePending}" "phaseStep (phaseOf cur) (phaseOf cur)"
    "phaseStep (phaseOf cur) PhaseSteadyStatePre" using ph c(7) by (auto simp: phaseStep_def)
  have held: "good (abs w) s'"
    if "s' = (abs w)\<lparr>aHolder := (aHolder (abs w))(tgtOperator (spTarget (exSpec e)) \<mapsto> exName e)\<rparr> \<or>
        s' = (abs w)\<lparr>aHolder := (aHolder (abs w))(tgtOperator (spTarget (exSpec e)) \<mapsto> exName e),
          aCR := Some (setStatus (\<lambda>s. s\<lparr>stStartTime := st, stPhase := PhaseSteadyStatePre, stMessage := m\<rparr>) e)\<rparr>"
    for s' st m
    using that
  proof (elim disjE)
    assume s': "s' = (abs w)\<lparr>aHolder := (aHolder (abs w))(tgtOperator (spTarget (exSpec e)) \<mapsto> exName e)\<rparr>"
    show ?thesis
      by (rule good_change [OF c(1) i, where e' = cur]) (use s' c(2-6,8,9) ni st in \<open>simp_all add: crInv_clean lockStep_def c(1)\<close>)
  next
    assume s': "s' = (abs w)\<lparr>aHolder := (aHolder (abs w))(tgtOperator (spTarget (exSpec e)) \<mapsto> exName e),
          aCR := Some (setStatus (\<lambda>s. s\<lparr>stStartTime := st, stPhase := PhaseSteadyStatePre, stMessage := m\<rparr>) e)\<rparr>"
    show ?thesis
      by (rule good_change [OF c(1) i, where e' = "setStatus (\<lambda>s. s\<lparr>stStartTime := st,
              stPhase := PhaseSteadyStatePre, stMessage := m\<rparr>) e"])
         (use s' c(2-6,8,9) ni st in \<open>simp_all add: crInv_clean lockStep_def\<close>)
  qed
  show ?thesis
    unfolding reconcilePending_def wp_simps
  proof (rule wp_validate, goal_cases)
    case (1 v w1)
    show ?case
    proof (cases v)
      case (Some err)
      then show ?thesis using wp_abort [of e w1] 1 l i nt by simp
    next
      case None
      have "wp (State (rAcquire env (tgtOperator (spTarget (exSpec e))) (exName e) (leaseDurationFor e)))
        (\<lambda>a. wp (case a of
             Some err \<Rightarrow>
               if errorsIs err ErrLockContention then do {
                 emitLockContention env err;
                 ret lockContentionRequeue None
               }
               else ret 0 (Some err)
           | None \<Rightarrow> do {
               t \<leftarrow> now env;
               emitExperimentStarted env;
               statusUpdateThen env
                 (setStatus (\<lambda>s. s\<lparr>stStartTime := Some t, stPhase := PhaseSteadyStatePre,
                    stMessage := Msg ''Running pre-checks for %s''
                      [AStr (tgtOperator (spTarget (exSpec e)))]\<rparr>) e)
                 (\<lambda>_. ret immediateRequeue None)
             }) (\<lambda>_ w'. good (abs w) (abs w'))) w1"
      proof (rule wp_acquire, goal_cases)
        case (1 err w2)
        then show ?case using same \<open>abs w1 = abs w\<close>
          by (auto simp: emitLockContention_def intro: wp_emit)
      next
        case (2 w2)
        show ?case
          unfolding option.case emitExperimentStarted_def wp_simps
        proof (rule wp_emit, rule wp_statusUpdateThen, goal_cases)
          case (1 w3)
          then show ?case using 2 \<open>abs w1 = abs w\<close> loc_inSync [OF l] by simp
        next
          case (2 w3 err w4)
          then show ?case using \<open>abs w2 = _\<close> \<open>abs w1 = abs w\<close> by (simp add: held)
        next
          case (3 w3 w4)
          then show ?case using \<open>abs w2 = _\<close> \<open>abs w1 = abs w\<close> unfolding wp_simps
            by (intro held [where st = "Some (rNow env w2)" and m = "Msg ''Running pre-checks for %s''
                   [AStr (tgtOperator (spTarget (exSpec e)))]"]) simp
        qed
      qed
      then show ?thesis using None by simp
    qed
  qed
qed

text \<open>Storing the resource as the last step of a handler; the fault may have been reverted.\<close>

lemma wp_storeStep:
  assumes "aCR s0 = Some cur" and "recInv s0"
    and "abs w = s0\<lparr>aFault := b\<rparr>" and "b \<longrightarrow> aFault s0" and "inSync e1 (abs w)"
    and "exSpec e1 = exSpec cur" "exName e1 = exName cur" "exDeleting e1 = exDeleting cur"
    and "phaseStep (phaseOf cur) (phaseOf e1)" and "crInv b (aInjections s0) (aGaveUp s0) e1"
  shows "wp (statusUpdateThen env e1 (\<lambda>_. ret d None)) (\<lambda>_ w'. good s0 (abs w')) w"
proof (rule wp_statusUpdateThen [OF assms(5)], goal_cases)
  case (1 err w')
  have "good s0 (s0\<lparr>aFault := b\<rparr>)"
    using good_gaveUp [OF good_same [OF assms(2,1)], of "aGaveUp s0" b] assms(1,4) by simp
  then show ?case using 1 assms(3) by simp
next
  case (2 w')
  show ?case unfolding wp_simps
    by (rule good_change [OF assms(1,2), where e' = e1]) (use 2 assms(3-10) in simp_all)
qed

lemma wp_reconcilePreCheck:
  assumes l: "loc e (abs w)" and i: "recInv (abs w)" and ph: "phaseOf e = PhaseSteadyStatePre"
  shows "wp (reconcilePreCheck env e) (\<lambda>_ w'. good (abs w) (abs w')) w"
proof -
  obtain cur where c: "aCR (abs w) = Some cur" "exSpec e = exSpec cur" "exName e = exName cur"
    "exDeleting e = exDeleting cur" "hasFinalizer e = hasFinalizer cur" "exFinalizers e = exFinalizers cur"
    "phaseOf e = phaseOf cur" "stInjectionStartedAt (exStatus e) = stInjectionStartedAt (exStatus cur)"
    "stFaultRevertedAt (exStatus e) = stFaultRevertedAt (exStatus cur)"
    using l by (rule loc_simps)
  have ni: "aInjections (abs w) = 0" "aFault (abs w) = False" "stFaultRevertedAt (exStatus cur) = None"
    using notInjected [OF i c(1)] ph c(7) by (auto simp: injectedPhase_def)
  have nt: "\<not> terminal e" using ph by (simp add: terminal_def)
  have l1: "loc (setStatus (\<lambda>s. s\<lparr>stSteadyStatePre := r\<rparr>) e) (abs w)" for r
    using l by (auto simp: loc_def setStatus_def)
  show ?thesis
    unfolding reconcilePreCheck_def wp_simps
  proof (rule wp_precheck, goal_cases)
    case (1 p w1)
    show ?case
    proof (cases p)
      case (Inl err)
      then show ?thesis using wp_abort [of e w1] 1 l i nt by simp
    next
      case (Inr r)
      let ?e1 = "setStatus (\<lambda>s. s\<lparr>stSteadyStatePre := Some r\<rparr>) e"
      have k: "wp (if \<not> crPassed r
          then abort env ?e1 (Msg ''pre-check failed: steady-state not established'' [])
          else do {
            t \<leftarrow> now env;
            let e2 = setCondition ?e1 t ConditionSteadyStateEstablished ConditionTrue
                       ''PreCheckPassed'' (Msg ''Steady-state established before injection'' []);
            statusUpdateThen env (setStatus (\<lambda>s. s\<lparr>stPhase := PhaseInjecting\<rparr>) e2)
              (\<lambda>_. ret immediateRequeue None)
          }) (\<lambda>_ w'. good (abs w) (abs w')) w2" if w2: "abs w2 = abs w" for w2
      proof (cases "crPassed r")
        case True
        have f: "abs w2 = (abs w)\<lparr>aFault := False\<rparr>" using w2 ni(2) by simp
        show ?thesis
          using True unfolding Let_def wp_simps
          by simp (rule wp_storeStep [OF c(1) i f];
              use c ni ph w2 loc_inSync [OF l] in \<open>simp add: crInv_clean phaseStep_def\<close>)
      next
        case False
        have "loc ?e1 (abs w2)" "recInv (abs w2)" "\<not> terminal ?e1"
          using w2 l1 i nt by (simp_all add: terminal_def)
        from wp_abort [OF this] show ?thesis using False w2 by simp
      qed
      show ?thesis
        using Inr 1 k by (auto simp: emitPreCheckComplete_def Let_def intro: wp_emit)
    qed
  qed
qed

lemma wp_reconcileObserve:
  assumes l: "loc e (abs w)" and i: "recInv (abs w)" and ph: "phaseOf e = PhaseObserving"
  shows "wp (reconcileObserve env e) (\<lambda>_ w'. good (abs w) (abs w')) w"
proof -
  obtain cur where c: "aCR (abs w) = Some cur" "exSpec e = exSpec cur" "exName e = exName cur"
    "exDeleting e = exDeleting cur" "hasFinalizer e = hasFinalizer cur" "exFinalizers e = exFinalizers cur"
    "phaseOf e = phaseOf cur" "stInjectionStartedAt (exStatus e) = stInjectionStartedAt (exStatus cur)"
    "stFaultRevertedAt (exStatus e) = stFaultRevertedAt (exStatus cur)"
    using l by (rule loc_simps)
  have nt: "\<not> terminal e" using ph by (simp add: terminal_def)
  note same = good_same [OF i c(1)]
  note ci = inv_cur [OF i c(1)]
  show ?thesis
  proof (cases "stInjectionStartedAt (exStatus e)")
    case None
    then show ?thesis using wp_abort [of e w] l i nt by (simp add: reconcileObserve_def)
  next
    case (Some started)
    show ?thesis
    proof (cases "stFaultRevertedAt (exStatus e)")
      case R: (Some reverted)
      then have nf: "aFault (abs w) = False" using ci c(9) by (simp add: crInv_def)
      have f: "abs w = (abs w)\<lparr>aFault := False\<rparr>" using nf by simp
      have "crInv False (aInjections (abs w)) (aGaveUp (abs w))
          (setStatus (\<lambda>s. s\<lparr>stPhase := PhaseSteadyStatePost\<rparr>) e)"
        by (simp add: crInv_def injectedPhase_def)
      then have "wp (statusUpdateThen env (setStatus (\<lambda>s. s\<lparr>stPhase := PhaseSteadyStatePost\<rparr>) e)
          (\<lambda>_. ret immediateRequeue None)) (\<lambda>_ w'. good (abs w) (abs w')) w"
        by (intro wp_storeStep [OF c(1) i f])
           (use c ph loc_inSync [OF l] in \<open>simp_all add: phaseStep_def\<close>)
      then show ?thesis using Some R same by (simp add: reconcileObserve_def Let_def)
    next
      case N: None
      have act: "wp (do {
            l \<leftarrow> renew env e;
            (case l of
               Some err \<Rightarrow> abort env e (Msg ''pre-revert lease check failed: %v'' [AText err])
             | None \<Rightarrow> do {
                 r \<leftarrow> revert env e;
                 (case r of
                    Some err \<Rightarrow> do {
                      emitRevertFailed env err;
                      ret revertRetryInterval None
                    }
                  | None \<Rightarrow> do {
                      revertTime \<leftarrow> now env;
                      emitFaultReverted env;
                      statusUpdateThen env
                        (setStatus (\<lambda>s. s\<lparr>stFaultRevertedAt := Some revertTime\<rparr>) e)
                        (\<lambda>_. ret d None)
                    })
               })
          }) (\<lambda>_ w'. good (abs w) (abs w')) w1" if w1: "abs w1 = abs w" for w1 d
        unfolding wp_simps
      proof (rule wp_renew, goal_cases)
        case (1 r w2)
        show ?case
        proof (cases r)
          case (Some err)
          then show ?thesis using wp_abort [of e w2] 1 w1 l i nt by simp
        next
          case None
          have "wp (revert env e) (\<lambda>r. wp (case r of
                    Some err \<Rightarrow> do {
                      emitRevertFailed env err;
                      ret revertRetryInterval None
                    }
                  | None \<Rightarrow> do {
                      revertTime \<leftarrow> now env;
                      emitFaultReverted env;
                      statusUpdateThen env
                        (setStatus (\<lambda>s. s\<lparr>stFaultRevertedAt := Some revertTime\<rparr>) e)
                        (\<lambda>_. ret d None)
                    }) (\<lambda>_ w'. good (abs w) (abs w'))) w2"
          proof (rule wp_revert, goal_cases)
            case (1 w3)
            show ?case
              unfolding option.case wp_simps emitFaultReverted_def
            proof (rule wp_emit, goal_cases)
              case (1 w4)
              then show ?case
                using \<open>abs w3 = _\<close> \<open>abs w2 = _\<close> w1
                by (intro wp_storeStep [OF c(1) i, where b = False])
                   (use c ph loc_inSync [OF l] in
                     \<open>simp_all add: phaseStep_def crInv_def injectedPhase_def\<close>)
            qed
          next
            case (2 err b w3)
            then have "good (abs w) (abs w3)"
              using good_gaveUp [OF same, of "aGaveUp (abs w)" b] c(1) w1 ph \<open>abs w2 = _\<close> by simp
            then show ?case by (auto simp: emitRevertFailed_def intro: wp_emit)
          qed
          then show ?thesis using None by simp
        qed
      qed
      show ?thesis
        using Some N same act by (auto simp: reconcileObserve_def Let_def emitTTLExceeded_def intro: wp_emit)
    qed
  qed
qed

text \<open>A handler may store intermediate states of the same phase before its last step.\<close>

lemma good_trans:
  assumes "good s1 s'" and "aCR s0 = Some cur" and "aCR s1 = Some c1"
    and "phaseOf c1 = phaseOf cur" "exSpec c1 = exSpec cur" "exName c1 = exName cur"
    "exDeleting c1 = exDeleting cur" and "aHolder s1 = aHolder s0"
  shows "good s0 s'"
proof (cases "aCR s'")
  case None
  then show ?thesis using assms by (simp add: good_def crStep_def lockStep_def)
next
  case (Some e')
  have d: "exDeleting e' = exDeleting cur" using assms Some by (simp add: good_def crStep_def)
  show ?thesis using assms Some by (simp add: good_def crStep_def lockStep_def d)
qed

lemma wp_injectNow:
  assumes c: "aCR (abs w) = Some e" and i: "recInv (abs w)" and ph: "phaseOf e = PhaseInjecting"
    and n: "aInjections (abs w) = 0" and fin: "hasFinalizer e"
    and st: "stInjectionStartedAt (exStatus e) \<noteq> None"
    and fr: "stFaultRevertedAt (exStatus e) = None"
  shows "wp (injectNow env e) (\<lambda>_ w'. good (abs w) (abs w')) w"
  unfolding injectNow_def wp_simps
proof (rule wp_inject, goal_cases)
  case (1 r w1 b)
  have inv1: "recInv (abs w1)"
    using 1 c n fin st fr ph by (simp add: recInv_def crInv_def injectedPhase_def)
  have c1: "aCR (abs w1) = Some e" using 1 c by simp
  have tr: "good (abs w) s'" if "good (abs w1) s'" for s'
    using good_trans [OF that c c1] 1 by simp
  show ?case
  proof (cases r)
    case (Inl err)
    have "wp (abort env e m) (\<lambda>_ w'. good (abs w) (abs w')) w2" if "abs w2 = abs w1" for w2 m
      using wp_abort [of e w2 m] that c1 inv1 ph tr by (auto simp: terminal_def elim: wp_mono)
    then show ?thesis using Inl by (auto simp: emitInjectionFailed_def intro: wp_emit)
  next
    case (Inr events)
    let ?e2 = "\<lambda>t. setStatus (\<lambda>s. s\<lparr>stPhase := PhaseObserving,
                     stMessage := Msg ''Fault injected, observing recovery for %s''
                       [ADur (hypRecoveryTimeout (spHypothesis (exSpec e)))]\<rparr>)
         (setCondition (setStatus (\<lambda>s. s\<lparr>stInjectionLog := events\<rparr>) e) t
                     ConditionFaultInjected ConditionTrue ''FaultInjected''
                     (Msg ''Fault successfully injected'' []))"
    have "wp (statusUpdateThen env (?e2 t) (\<lambda>_. ret immediateRequeue None))
        (\<lambda>_ w'. good (abs w) (abs w')) w2" if w2: "abs w2 = abs w1" for w2 t
    proof (rule wp_mono, rule wp_storeStep [OF c1 inv1, where b = "aFault (abs w1)"])
      show "crInv (aFault (abs w1)) (aInjections (abs w1)) (aGaveUp (abs w1)) (?e2 t)"
        using fin fr by (simp add: crInv_def injectedPhase_def)
    qed (use w2 c1 ph tr in \<open>simp_all add: phaseStep_def\<close>)
    then show ?thesis using Inr by (auto simp: Let_def emitFaultInjected_def intro!: wp_emit)
  qed
qed

lemma addFinalizer_has [simp]: "hasFinalizer (addFinalizer e)"
  by (simp add: addFinalizer_def hasFinalizer_def)

lemma hasFinalizer_upd [simp]:
  "hasFinalizer (x\<lparr>exFinalizers := exFinalizers e, exGeneration := g\<rparr>) = hasFinalizer e"
  by (simp add: hasFinalizer_def)

lemma addFinalizer_nonempty [simp]: "exFinalizers (addFinalizer e) \<noteq> []"
  by (auto simp: addFinalizer_def hasFinalizer_def)

lemma wp_reconcileInject:
  assumes l: "loc e (abs w)" and i: "recInv (abs w)" and ph: "phaseOf e = PhaseInjecting"
  shows "wp (reconcileInject env e) (\<lambda>_ w'. good (abs w) (abs w')) w"
proof -
  obtain cur where c: "aCR (abs w) = Some cur" "exSpec e = exSpec cur" "exName e = exName cur"
    "exDeleting e = exDeleting cur" "hasFinalizer e = hasFinalizer cur" "exFinalizers e = exFinalizers cur"
    "phaseOf e = phaseOf cur" "stInjectionStartedAt (exStatus e) = stInjectionStartedAt (exStatus cur)"
    "stFaultRevertedAt (exStatus e) = stFaultRevertedAt (exStatus cur)"
    using l by (rule loc_simps)
  note same = good_same [OF i c(1)]
  note ci = inv_cur [OF i c(1)]
  have fr: "stFaultRevertedAt (exStatus cur) = None" using ci ph c(7) by (simp add: crInv_def)
  show ?thesis
  proof (cases "stInjectionStartedAt (exStatus e) \<noteq> None")
    case True
    let ?obs = "\<lambda>e1. setStatus (\<lambda>s. s\<lparr>stObservedGeneration := exGeneration e1, stPhase := PhaseObserving\<rparr>) e1"
    have stored: "wp (statusUpdateThen env (?obs e1) (\<lambda>_. ret immediateRequeue None))
        (\<lambda>_ w'. good (abs w1) (abs w')) w1"
      if w1: "aCR (abs w1) = Some c1" "recInv (abs w1)" "phaseOf c1 = PhaseInjecting"
        and e1: "inSync e1 (abs w1)" "exSpec e1 = exSpec c1" "exName e1 = exName c1"
          "exDeleting e1 = exDeleting c1" "hasFinalizer e1 = hasFinalizer c1"
          "stFaultRevertedAt (exStatus e1) = None" for w1 c1 e1
    proof (rule wp_storeStep [OF w1(1,2), where b = "aFault (abs w1)"])
      show "crInv (aFault (abs w1)) (aInjections (abs w1)) (aGaveUp (abs w1)) (?obs e1)"
        using inv_cur [OF w1(2,1)] e1 by (simp add: crInv_def injectedPhase_def)
    qed (use w1 e1 in \<open>simp_all add: phaseStep_def\<close>)
    show ?thesis
    proof (cases "hasFinalizer e")
      case F: True
      then show ?thesis using stored [OF c(1) i] True c ph fr loc_inSync [OF l]
        by (simp add: reconcileInject_def Let_def)
    next
      case F: False
      have "wp (updateThen env (addFinalizer e)
          (\<lambda>e1. statusUpdateThen env (?obs e1) (\<lambda>_. ret immediateRequeue None)))
          (\<lambda>_ w'. good (abs w) (abs w')) w"
      proof (rule wp_updateThen [OF c(1)], goal_cases)
        case (1 err w')
        then show ?case using same by simp
      next
        case (2 g x w1)
        have c1: "aCR (abs w1) = Some x" using 2 by simp
        have xs: "phaseOf x = PhaseInjecting" "exSpec x = exSpec cur" "exName x = exName cur"
          "exDeleting x = exDeleting cur" "hasFinalizer x" "stFaultRevertedAt (exStatus x) = None"
          "injectedPhase x = injectedPhase cur" "aHolder (abs w1) = aHolder (abs w)"
          using 2 ph c(7) fr by (simp_all add: injectedPhase_def)
        have inv1: "recInv (abs w1)"
          using i c(1) ci 2 c1 xs ph c(7) by (simp add: recInv_def crInv_def)
        show ?case
          by (rule wp_mono [OF stored [OF c1 inv1 xs(1)]])
             (use c1 xs ph c(7) in \<open>simp_all add: good_trans [OF _ c(1) c1]\<close>)
      qed
      then show ?thesis using True F by (simp add: reconcileInject_def Let_def)
    qed
  next
    case False
    have ni: "aInjections (abs w) = 0" "aFault (abs w) = False"
      using notInjected [OF i c(1)] ph c(7,8) False by (auto simp: injectedPhase_def)
    have bar: "wp (statusUpdateThen env (setStatus (\<lambda>s. s\<lparr>stInjectionStartedAt := Some t\<rparr>) e) (\<lambda>e1.
          if \<not> hasFinalizer e1 then
            updateThen env (addFinalizer e1) (\<lambda>e2.
              statusUpdateThen env
                (setStatus (\<lambda>s. s\<lparr>stObservedGeneration := exGeneration e2\<rparr>) e2)
                (injectNow env))
          else injectNow env e1)) (\<lambda>_ w'. good (abs w) (abs w')) w" for t
    proof (rule wp_statusUpdateThen, goal_cases)
      case 1
      then show ?case using loc_inSync [OF l] by simp
    next
      case (2 err w')
      then show ?case using same by simp
    next
      case (3 w1)
      let ?e1 = "setStatus (\<lambda>s. s\<lparr>stInjectionStartedAt := Some t\<rparr>) e"
      have c1: "aCR (abs w1) = Some ?e1" using 3 by simp
      have inv1: "recInv (abs w1)" using 3 ni c(9) fr by (simp add: recInv_def crInv_clean)
      have tr1: "good (abs w) s'" if "good (abs w1) s'" for s'
        using good_trans [OF that c(1) c1] 3 c by simp
      have s1: "good (abs w) (abs w1)" using tr1 good_same [OF inv1 c1] by blast
      show ?case
      proof (cases "hasFinalizer ?e1")
        case True
        have "wp (injectNow env ?e1) (\<lambda>_ w'. good (abs w1) (abs w')) w1"
          by (rule wp_injectNow [OF c1 inv1]) (use 3 ni True ph c(9) fr in simp_all)
        then show ?thesis using True tr1 by (auto elim: wp_mono)
      next
        case F: False
        have "wp (updateThen env (addFinalizer ?e1) (\<lambda>e2.
              statusUpdateThen env
                (setStatus (\<lambda>s. s\<lparr>stObservedGeneration := exGeneration e2\<rparr>) e2)
                (injectNow env))) (\<lambda>_ w'. good (abs w) (abs w')) w1"
        proof (rule wp_updateThen [OF c1], goal_cases)
          case (1 err w')
          then show ?case using s1 by simp
        next
          case (2 g x w2)
          have c2: "aCR (abs w2) = Some x" using 2 by simp
          have xs: "phaseOf x = PhaseInjecting" "exSpec x = exSpec cur" "exName x = exName cur"
            "exDeleting x = exDeleting cur" "hasFinalizer x" "stFaultRevertedAt (exStatus x) = None"
            "stInjectionStartedAt (exStatus x) = Some t"
            "aHolder (abs w2) = aHolder (abs w)" "aInjections (abs w2) = 0" "aFault (abs w2) = False"
            using 2 3 ph c fr ni by simp_all
          have inv2: "recInv (abs w2)" using c2 xs by (simp add: recInv_def crInv_clean)
          have tr2: "good (abs w) s'" if "good (abs w2) s'" for s'
            using good_trans [OF that c(1) c2] xs ph c(7) by simp
          show ?case
          proof (rule wp_statusUpdateThen, goal_cases)
            case 1
            then show ?case using c2 by simp
          next
            case (2 err w')
            then show ?case using tr2 good_same [OF inv2 c2] by simp
          next
            case (3 w3)
            let ?e3 = "setStatus (\<lambda>s. s\<lparr>stObservedGeneration := exGeneration x\<rparr>) x"
            have c3: "aCR (abs w3) = Some ?e3" using 3 by simp
            have inv3: "recInv (abs w3)" using 3 xs by (simp add: recInv_def crInv_clean)
            have tr3: "good (abs w) s'" if "good (abs w3) s'" for s'
              using good_trans [OF that c(1) c3] 3 xs ph c(7) by simp
            have "wp (injectNow env ?e3) (\<lambda>_ w'. good (abs w3) (abs w')) w3"
              by (rule wp_injectNow [OF c3 inv3]) (use 3 xs in simp_all)
            then show ?case using tr3 by (auto elim: wp_mono)
          qed
        qed
        then show ?thesis using F by simp
      qed
    qed
    then show ?thesis using False by (simp add: reconcileInject_def)
  qed
qed

lemma wp_optEmit:
  assumes "\<And>w'. abs w' = abs w \<Longrightarrow> Q () w'"
  shows "wp (if b then emitRecoveryDetected env t n else State_Monad.return ()) Q w"
  using assms by (auto simp: emitRecoveryDetected_def intro: wp_emit)

lemma wp_doEvaluate:
  assumes c: "aCR (abs w) = Some cur" and i: "recInv (abs w)"
    and ph: "phaseOf cur = PhaseSteadyStatePost \<or> phaseOf cur = PhaseEvaluating"
    and e: "inSync e (abs w)" "exSpec e = exSpec cur" "exName e = exName cur"
      "exDeleting e = exDeleting cur" "hasFinalizer e = hasFinalizer cur"
      "stFaultRevertedAt (exStatus e) = stFaultRevertedAt (exStatus cur)"
  shows "wp (doEvaluate env e fs) (\<lambda>_ w'. good (abs w) (abs w')) w"
proof -
  note same = good_same [OF i c]
  have nf: "aFault (abs w) = False" using inv_cur [OF i c] ph by (auto simp: crInv_def)
  have fin: "wp (statusUpdateThen env e3 (\<lambda>e4. do { _ \<leftarrow> release env e4; ret d None }))
      (\<lambda>_ w'. good (abs w) (abs w')) w1"
    if w1: "abs w1 = abs w" and e3: "inSync e3 (abs w)" "exSpec e3 = exSpec e" "exName e3 = exName e"
      "exDeleting e3 = exDeleting e" "hasFinalizer e3 = hasFinalizer e" "phaseOf e3 = PhaseComplete"
      "stFaultRevertedAt (exStatus e3) = stFaultRevertedAt (exStatus e)" for w1 e3 d
  proof (rule wp_storeAndRelease, goal_cases)
    case 1
    then show ?case using e3 w1 by simp
  next
    case (2 r w')
    then show ?case using same w1 by simp
  next
    case (3 r w')
    have inv: "crInv False (aInjections (abs w)) (aGaveUp (abs w)) e3"
      using inv_cur [OF i c] e3(6) nf by (simp add: crInv_def injectedPhase_def)
    have st: "phaseStep (phaseOf cur) PhaseComplete" using ph by (auto simp: phaseStep_def)
    from 3 w1 have "abs w' = (abs w)\<lparr>aCR := Some e3\<rparr> \<or>
        aHolder (abs w) (tgtOperator (spTarget (exSpec cur))) = Some (exName cur) \<and>
        abs w' = (abs w)\<lparr>aCR := Some e3,
          aHolder := (aHolder (abs w))(tgtOperator (spTarget (exSpec cur)) := None)\<rparr>"
      using e3 e by simp
    then show ?case
    proof (elim disjE conjE)
      assume "abs w' = (abs w)\<lparr>aCR := Some e3\<rparr>"
      then show ?thesis
        by (intro good_change [OF c i, where e' = e3]) (use e3 e inv st nf in simp_all)
    next
      assume h: "abs w' = (abs w)\<lparr>aCR := Some e3,
          aHolder := (aHolder (abs w))(tgtOperator (spTarget (exSpec cur)) := None)\<rparr>"
        "aHolder (abs w) (tgtOperator (spTarget (exSpec cur))) = Some (exName cur)"
      then have "lockStep cur (abs w) (abs w')" using e3(6) by (simp add: lockStep_def terminal_def)
      then show ?thesis
        by (intro good_change [OF c i, where e' = e3]) (use h e3 e inv st nf in simp_all)
    qed
  qed
  show ?thesis
    unfolding doEvaluate_def Let_def wp_simps emitObserverFindings_def emitVerdictReached_def
      emitExperimentComplete_def
  proof (rule wp_emit, rule wp_optEmit, rule wp_emit, rule wp_emit, rule fin, goal_cases)
    case 1
    then show ?case by simp
  qed (use e in simp_all)
qed

lemma wp_reconcilePostCheck:
  assumes l: "loc e (abs w)" and i: "recInv (abs w)" and ph: "phaseOf e = PhaseSteadyStatePost"
  shows "wp (reconcilePostCheck env e) (\<lambda>_ w'. good (abs w) (abs w')) w"
proof -
  obtain cur where c: "aCR (abs w) = Some cur" "exSpec e = exSpec cur" "exName e = exName cur"
    "exDeleting e = exDeleting cur" "hasFinalizer e = hasFinalizer cur" "exFinalizers e = exFinalizers cur"
    "phaseOf e = phaseOf cur" "stInjectionStartedAt (exStatus e) = stInjectionStartedAt (exStatus cur)"
    "stFaultRevertedAt (exStatus e) = stFaultRevertedAt (exStatus cur)"
    using l by (rule loc_simps)
  note sy = loc_inSync [OF l]
  have nt: "\<not> terminal e" using ph by (simp add: terminal_def)
  have nf: "aFault (abs w) = False" using inv_cur [OF i c(1)] ph c(7) by (simp add: crInv_def)
  have cst: "crInv False (aInjections (abs w)) (aGaveUp (abs w)) e'"
    if "phaseOf e' = PhaseSteadyStatePost" for e'
    using inv_cur [OF i c(1)] that nf by (simp add: crInv_def injectedPhase_def)
  have store: "wp (statusUpdateThen env e1 (\<lambda>_. ret d None)) (\<lambda>_ w'. good (abs w) (abs w')) w1"
    if "abs w1 = abs w" "inSync e1 (abs w)" "exSpec e1 = exSpec e" "exName e1 = exName e"
      "exDeleting e1 = exDeleting e" "phaseOf e1 = phaseOf e" for w1 e1 d
    by (rule wp_storeStep [OF c(1) i, where b = False])
       (use that nf cst c ph in \<open>simp_all add: phaseStep_def\<close>)
  let ?e1 = "setStatus (\<lambda>s. s\<lparr>stPostCheckCycles := stPostCheckCycles s + 1\<rparr>) e"
  have l1: "loc ?e1 (abs w)" using l by (auto simp: loc_def setStatus_def)
  have ab: "wp (abort env e' m) (\<lambda>_ w'. good (abs w) (abs w')) w1"
    if "abs w1 = abs w" "e' = e \<or> e' = ?e1" for w1 e' m
    using wp_abort [of e' w1 m] that l l1 i nt by (auto simp: terminal_def)
  have ev: "wp (doEvaluate env (setStatus (\<lambda>s. s\<lparr>stPhase := PhaseEvaluating\<rparr>)
        (setCondition (setStatus (\<lambda>s. s\<lparr>stSteadyStatePost := Some r\<rparr>) ?e1) t k st m msg)) fs)
      (\<lambda>_ w'. good (abs w) (abs w')) w1" if "abs w1 = abs w" for w1 r t k st m msg fs
    using wp_doEvaluate [of w1 cur] that c(1) i ph c sy by simp
  show ?thesis
  proof (cases "stPostCheckStartedAt (exStatus e)")
    case None
    then show ?thesis using store [of w] sy by (simp add: reconcilePostCheck_def)
  next
    case (Some started)
    have st1: "wp (statusUpdateThen env ?e1 (\<lambda>_. ret d None)) (\<lambda>_ w'. good (abs w) (abs w')) w1"
      if "abs w1 = abs w" for w1 d
      using store [of w1 ?e1] that sy by simp
    show ?thesis
      unfolding reconcilePostCheck_def Some option.case wp_simps
    proof (rule wp_poll, goal_cases)
      case (1 p w1)
      then show ?case
        by (auto simp: Let_def emitPostCheckComplete_def split: sum.split
            intro!: st1 ab ev wp_postfinal wp_emit)
    qed
  qed
qed

lemma wp_reconcileEvaluate:
  assumes l: "loc e (abs w)" and i: "recInv (abs w)" and ph: "phaseOf e = PhaseEvaluating"
  shows "wp (reconcileEvaluate env e) (\<lambda>_ w'. good (abs w) (abs w')) w"
proof -
  obtain cur where c: "aCR (abs w) = Some cur" "exSpec e = exSpec cur" "exName e = exName cur"
    "exDeleting e = exDeleting cur" "hasFinalizer e = hasFinalizer cur" "exFinalizers e = exFinalizers cur"
    "phaseOf e = phaseOf cur" "stInjectionStartedAt (exStatus e) = stInjectionStartedAt (exStatus cur)"
    "stFaultRevertedAt (exStatus e) = stFaultRevertedAt (exStatus cur)"
    using l by (rule loc_simps)
  have ab: "wp (abort env e m) (\<lambda>_ w'. good (abs w) (abs w')) w1" if "abs w1 = abs w" for w1 m
    using wp_abort [of e w1 m] that l i ph by (simp add: terminal_def)
  have ev: "wp (doEvaluate env e fs) (\<lambda>_ w'. good (abs w) (abs w')) w1" if "abs w1 = abs w" for w1 fs
    using wp_doEvaluate [of w1 cur] that c(1) i ph c loc_inSync [OF l] by simp
  show ?thesis
    unfolding reconcileEvaluate_def wp_simps
  proof (rule wp_poll, goal_cases)
    case (1 p w1)
    then show ?case
      by (auto simp: Let_def split: sum.split intro!: ab wp_postfinal ev)
  qed
qed

lemma wp_releaseStep:
  assumes "aCR (abs w) = Some e" and "recInv (abs w)"
    and "terminal e \<or> exDeleting e" and "exSpec e' = exSpec e" "exName e' = exName e"
    and "\<And>r w'. good (abs w) (abs w') \<Longrightarrow> aCR (abs w') = Some e \<Longrightarrow>
           aFault (abs w') = aFault (abs w) \<and> aInjections (abs w') = aInjections (abs w) \<and>
           aGaveUp (abs w') = aGaveUp (abs w) \<Longrightarrow> Q r w'"
  shows "wp (release env e') Q w"
proof (rule wp_release, goal_cases)
  case (1 r w')
  then show ?case using assms(6) [of w' r] assms(1) good_same [OF assms(2,1)] by simp
next
  case (2 w')
  have "good (abs w) (abs w')"
    by (rule good_change [OF assms(1,2), where e' = e])
       (use 2 assms inv_cur [OF assms(2,1)] in \<open>simp_all add: lockStep_def phaseStep_def\<close>)
  then show ?case using assms(6) [of w' None] 2 assms(1) by simp
qed

lemma wp_handleDeletion:
  assumes c: "aCR (abs w) = Some e" and i: "recInv (abs w)" and d: "exDeleting e"
  shows "wp (handleDeletion env e) (\<lambda>_ w'. good (abs w) (abs w')) w"
proof (cases "hasFinalizer e")
  case False
  then show ?thesis using good_same [OF i c] by (simp add: handleDeletion_def)
next
  case True
  note same = good_same [OF i c]
  have "wp (revert env e) (\<lambda>r. wp (case r of
           Some err \<Rightarrow> do {
             emitCleanupError env err;
             _ \<leftarrow> statusUpdate env (setStatus (\<lambda>s. s\<lparr>stCleanupError :=
                    Some (Errorf ''deletion revert failed: %v'' [AText err])\<rparr>) e);
             ret 0 (Some (Errorf ''reverting fault during deletion: %w'' [AErr err]))
           }
         | None \<Rightarrow> do {
             _ \<leftarrow> release env e;
             updateThen env (removeFinalizer e) (\<lambda>_. ret 0 None)
           }) (\<lambda>_ w'. good (abs w) (abs w'))) w"
  proof (rule wp_revert, goal_cases)
    case (1 w1)
    have g1: "good (abs w) (abs w1)"
      using good_gaveUp [OF same, where b = False and g = "aGaveUp (abs w)"] 1 c by simp
    then have i1: "recInv (abs w1)" by (simp add: good_def)
    have c1: "aCR (abs w1) = Some e" using 1 c by simp
    show ?case
      unfolding option.case wp_simps
    proof (rule wp_releaseStep [OF c1 i1], goal_cases)
      case (4 r w2)
      have g2: "good (abs w) (abs w2)"
        using good_trans [OF 4(1) c c1] 1 by simp
      show ?case
      proof (rule wp_updateThen [OF 4(2)], goal_cases)
        case (1 err w3)
        then show ?case using g2 by simp
      next
        case (2 g x w3)
        have hl: "aHolder (abs w3) = aHolder (abs w2)" "aFault (abs w3) = False"
          "aInjections (abs w3) = aInjections (abs w)" "aGaveUp (abs w3) = aGaveUp (abs w)"
          using 2(2) 4(3) \<open>abs w1 = _\<close> by simp_all
        show ?case
        proof (cases "exFinalizers (removeFinalizer e) = []")
          case True
          then have "aCR (abs w3) = None" using 2 d by simp
          then show ?thesis using g2 hl i c d 4(2)
            by (simp add: good_def crStep_def lockStep_def recInv_def)
        next
          case False
          then have c3: "aCR (abs w3) = Some x" using 2 d by simp
          have "crInv False (aInjections (abs w)) (aGaveUp (abs w)) x"
            using inv_cur [OF i c] 2(1) by (simp add: crInv_def injectedPhase_def)
          moreover have "lockStep e (abs w) (abs w3)"
            using g2 c 4(2) hl 2(1) c3 d by (simp add: good_def crStep_def lockStep_def)
          ultimately show ?thesis unfolding wp_simps
            by (intro good_change [OF c i c3]) (use 2(1) hl in \<open>simp_all add: phaseStep_def\<close>)
        qed
      qed
    qed (use d in simp_all)
  next
    case (2 err b w1)
    let ?g = "aGaveUp (abs w) \<or> phaseOf e = PhaseAborted"
    have g1: "good (abs w) (abs w1)"
      using good_gaveUp [OF same, where b = b and g = ?g] 2 c by simp
    then have i1: "recInv (abs w1)" by (simp add: good_def)
    have c1: "aCR (abs w1) = Some e" using 2 c by simp
    let ?e = "setStatus (\<lambda>s. s\<lparr>stCleanupError :=
                    Some (Errorf ''deletion revert failed: %v'' [AText err])\<rparr>) e"
    have "good (abs w) ((abs w1)\<lparr>aCR := Some ?e\<rparr>)"
      by (rule good_trans [OF good_change [OF c1 i1, where e' = ?e] c c1])
         (use inv_cur [OF i1 c1] 2 in \<open>simp_all add: phaseStep_def crInv_def injectedPhase_def\<close>)
    then show ?case
      using g1 c1 by (auto simp: emitCleanupError_def intro!: wp_emit wp_statusUpdate)
  qed
  then show ?thesis using True by (simp add: handleDeletion_def)
qed

lemma wp_backfillAborted:
  assumes c: "aCR (abs w) = Some e" and i: "recInv (abs w)"
  shows "wp (backfillAborted env e) (\<lambda>_ w'. good (abs w) (abs w')) w"
proof (cases "phaseOf e = PhaseAborted")
  case False
  then show ?thesis using good_same [OF i c] by (simp add: backfillAborted_def)
next
  case True
  have st: "wp (statusUpdate env e') (\<lambda>r. wp (case r of
        Inl err \<Rightarrow> ret 0 (Some (Errorf f [AErr err])) | Inr _ \<Rightarrow> ret 0 None)
      (\<lambda>_ w'. good (abs w) (abs w'))) w"
    if "inSync e' (abs w)" "exSpec e' = exSpec e" "exName e' = exName e"
      "exDeleting e' = exDeleting e" "hasFinalizer e' = hasFinalizer e" "phaseOf e' = PhaseAborted"
      "stFaultRevertedAt (exStatus e') = stFaultRevertedAt (exStatus e)" for e' f
  proof (rule wp_statusUpdate [OF that(1)], goal_cases)
    case (1 err w')
    then show ?case using good_same [OF i c] by simp
  next
    case (2 w')
    have "crInv (aFault (abs w)) (aInjections (abs w)) (aGaveUp (abs w)) e'"
      using inv_cur [OF i c] that True by (simp add: crInv_def injectedPhase_def)
    then show ?case unfolding sum.case wp_simps
      by (intro good_change [OF c i, where e' = e']) (use 2 that True in \<open>simp_all add: phaseStep_def\<close>)
  qed
  show ?thesis
    using True good_same [OF i c] c
    by (auto simp: backfillAborted_def Let_def intro!: st)
qed

text \<open>From a terminal state the lock can only be given up.\<close>

lemma terminal_lock:
  assumes "lockStep x s s'" "terminal x" "aHolder s' p \<noteq> aHolder s p"
  shows "p = tgtOperator (spTarget (exSpec x)) \<and> aHolder s p = Some (exName x) \<and> aHolder s' p = None"
  using assms by (force simp: lockStep_def terminal_def)

lemma terminal_lock_trans:
  assumes "lockStep x s s1" "lockStep x s1 s2" "terminal x" "aCR s2 = Some e'" "terminal e'"
  shows "lockStep x s s2"
  unfolding lockStep_def
proof (intro allI impI)
  fix p assume ch: "aHolder s2 p \<noteq> aHolder s p"
  show "p = tgtOperator (spTarget (exSpec x)) \<and>
        (aHolder s2 p = Some (exName x) \<and> phaseOf x \<in> {PhaseUnset, PhasePending} \<or>
         aHolder s p = Some (exName x) \<and> aHolder s2 p = None \<and>
           (case aCR s2 of None \<Rightarrow> True | Some e' \<Rightarrow> terminal e' \<or> exDeleting e'))"
  proof (cases "aHolder s1 p = aHolder s p")
    case True
    then have "aHolder s2 p \<noteq> aHolder s1 p" using ch by simp
    note h = terminal_lock [OF assms(2,3) this]
    from h have "aHolder s1 p = Some (exName x)" by (elim conjE)
    then have o: "aHolder s p = Some (exName x)" unfolding True .
    from h [THEN conjunct1] h [THEN conjunct2, THEN conjunct2] o assms(4,5)
    show ?thesis by simp
  next
    case False
    note h1 = terminal_lock [OF assms(1,3) False]
    note p = h1 [THEN conjunct1]
      and o = h1 [THEN conjunct2, THEN conjunct1]
      and n1 = h1 [THEN conjunct2, THEN conjunct2]
    have n: "aHolder s2 p = None"
    proof (rule ccontr)
      assume "aHolder s2 p \<noteq> None"
      then have "aHolder s2 p \<noteq> aHolder s1 p" using n1 by simp
      from terminal_lock [OF assms(2,3) this] n1 show False by simp
    qed
    from p n o assms(4,5) show ?thesis by simp
  qed
qed

lemma wp_terminalCleanup:
  assumes c: "aCR (abs w) = Some e" and i: "recInv (abs w)" and t: "terminal e" and d: "\<not> exDeleting e"
  shows "wp (terminalCleanup env e) (\<lambda>_ w'. good (abs w) (abs w')) w"
proof (cases "hasFinalizer e")
  case False
  then show ?thesis using wp_backfillAborted [OF c i] by (simp add: terminalCleanup_def)
next
  case True
  note same = good_same [OF i c]
  let ?rest = "updateThen env (removeFinalizer e) (\<lambda>e1. do { _ \<leftarrow> release env e1; backfillAborted env e1 })"
  have rest: "wp ?rest (\<lambda>_ w'. good (abs w) (abs w')) w1"
    if g1: "good (abs w) (abs w1)" and c1: "aCR (abs w1) = Some e"
      and h: "aHolder (abs w1) = aHolder (abs w)"
      and f: "aFault (abs w1) \<longrightarrow> aGaveUp (abs w1)" for w1
  proof (rule wp_updateThen [OF c1], goal_cases)
    case (1 err w')
    then show ?case using g1 by simp
  next
    case (2 g x w2)
    have i1: "recInv (abs w1)" using g1 by (simp add: good_def)
    have c2: "aCR (abs w2) = Some x" using 2 d by simp
    have xs: "phaseOf x = phaseOf e" "exSpec x = exSpec e" "exName x = exName e"
      "exDeleting x = exDeleting e" using 2 by simp_all
    have "crInv (aFault (abs w1)) (aInjections (abs w1)) (aGaveUp (abs w1)) x"
      using inv_cur [OF i1 c1] 2(1) f by (simp add: crInv_def injectedPhase_def)
    then have "good (abs w1) (abs w2)"
      by (intro good_change [OF c1 i1 c2]) (use 2 d in \<open>simp_all add: phaseStep_def\<close>)
    then have i2: "recInv (abs w2)" by (simp add: good_def)
    have tr: "good (abs w) s'" if "good (abs w2) s'" for s'
      using good_trans [OF that c c2] xs 2 d h by simp
    show ?case unfolding wp_simps
    proof (rule wp_releaseStep [OF c2 i2], goal_cases)
      case (4 r w3)
      have i3: "recInv (abs w3)" using 4(1) by (simp add: good_def)
      have l2: "lockStep x (abs w2) (abs w3)" using 4(1) c2 by (simp add: good_def crStep_def)
      have "good (abs w) s'" if g3: "good (abs w3) s'" for s'
      proof -
        from g3 4(2) have g3': "recInv s'" "crStep (abs w3) s'" by (simp_all add: good_def)
        obtain e' where e': "aCR s' = Some e'" "phaseStep (phaseOf x) (phaseOf e')"
          "exSpec e' = exSpec x" "exName e' = exName x" "exDeleting e' = exDeleting x"
          using g3' 4(2) d xs by (cases "aCR s'") (auto simp: crStep_def)
        have te: "terminal e'" using e'(2) t xs by (auto simp: phaseStep_def terminal_def)
        have l3: "lockStep x (abs w3) s'" using g3' 4(2) by (simp add: crStep_def)
        have "terminal x" using t xs by (simp add: terminal_def)
        from terminal_lock_trans [OF l2 l3 this e'(1) te] have "lockStep x (abs w2) s'" .
        then have "good (abs w2) s'"
          using g3'(1) c2 e' by (simp add: good_def crStep_def)
        then show ?thesis by (rule tr)
      qed
      then show ?case using wp_backfillAborted [OF 4(2) i3] by (auto elim: wp_mono)
    qed (use t xs in \<open>simp_all add: terminal_def\<close>)
  qed
  show ?thesis
  proof (cases "phaseOf e = PhaseAborted")
    case A: True
    have "wp (revert env e) (\<lambda>_. wp ?rest (\<lambda>_ w'. good (abs w) (abs w'))) w"
    proof (rule wp_revert, goal_cases)
      case (1 w1)
      then show ?case
        using good_gaveUp [OF same, where b = False and g = "aGaveUp (abs w)"] c
        by (intro rest) simp_all
    next
      case (2 err b w1)
      then show ?case
        using good_gaveUp [OF same, where b = b and g = True] c A
        by (intro rest) simp_all
    qed
    then show ?thesis using True A by (simp add: terminalCleanup_def)
  next
    case False
    then have "aFault (abs w) = False"
      using inv_cur [OF i c] t by (simp add: crInv_def terminal_def)
    then show ?thesis using True False rest [of w] same c by (simp add: terminalCleanup_def)
  qed
qed

lemma wp_dispatch:
  assumes l: "loc e (abs w)" and i: "recInv (abs w)" and nt: "\<not> terminal e"
  shows "wp (dispatch env e) (\<lambda>_ w'. good (abs w) (abs w')) w"
  using wp_reconcilePending [OF l i] wp_reconcilePreCheck [OF l i] wp_reconcileInject [OF l i]
    wp_reconcileObserve [OF l i] wp_reconcilePostCheck [OF l i] wp_reconcileEvaluate [OF l i]
    wp_abort [OF l i nt] nt
  by (simp add: dispatch_def terminal_def split: experimentPhase.split)

theorem wp_Reconcile:
  assumes i: "recInv (abs w)"
  shows "wp (Reconcile env) (\<lambda>_ w'. good (abs w) (abs w')) w"
proof (cases "rGet env w")
  case (Pair r w1)
  show ?thesis
  proof (cases r)
    case (Inl err)
    have w1: "abs w1 = abs w" using get_err Pair Inl by blast
    have "good (abs w) (abs w)"
      using i by (cases "aCR (abs w)") (auto simp: good_def crStep_def lockStep_def phaseStep_def)
    then show ?thesis using Pair Inl w1 by (simp add: Reconcile_def wp_State)
  next
    case (Inr e)
    have c: "aCR (abs w) = Some e" "abs w1 = abs w" using get_ok Pair Inr by blast+
    have c1: "aCR (abs w1) = Some e" and i1: "recInv (abs w1)" using c i by simp_all
    let ?e1 = "setStatus (\<lambda>s. s\<lparr>stObservedGeneration := exGeneration e\<rparr>) e"
    have l: "loc e (abs w2)" "loc ?e1 (abs w2)" if "abs w2 = abs w" for w2
      using that c(1) by (simp, auto simp: loc_def setStatus_def)
    have ab: "wp (abort env e' m) (\<lambda>_ w'. good (abs w) (abs w')) w2"
      if "abs w2 = abs w" "\<not> terminal e" "e' = e \<or> e' = ?e1" for w2 e' m
      using wp_abort [of e' w2 m] that l [OF that(1)] i by (auto simp: terminal_def)
    have di: "wp (dispatch env ?e1) (\<lambda>_ w'. good (abs w) (abs w')) w2"
      if "abs w2 = abs w" "\<not> terminal e" for w2
      using wp_dispatch [of ?e1 w2] that l [OF that(1)] i by (simp add: terminal_def)
    have re: "wp (renew env ?e1) (\<lambda>l. wp (case l of
                 Some err \<Rightarrow>
                   if errorsIs err ErrHolderMismatch \<or> errorsIs err ErrLockNotFound then do {
                     emitLeaseRenewalFailed env err;
                     abort env ?e1 (Msg ''lease renewal failed: %v'' [AText err])
                   }
                   else ret (5 * second) None
               | None \<Rightarrow> dispatch env ?e1) (\<lambda>_ w'. good (abs w) (abs w'))) w1"
      if nt: "\<not> terminal e"
    proof (rule wp_renew, goal_cases)
      case (1 r w2)
      then have w2: "abs w2 = abs w" using c by simp
      show ?case using di [OF w2 nt] ab [OF _ nt] w2 good_same [OF i c(1)]
        by (cases r) (auto simp: emitLeaseRenewalFailed_def intro: wp_emit)
    qed
    have "wp (if exDeleting e then handleDeletion env e
          else if phaseOf e = PhaseComplete \<or> phaseOf e = PhaseAborted then terminalCleanup env e
          else if stObservedGeneration (exStatus e) \<noteq> 0 \<and>
                  exGeneration e \<noteq> stObservedGeneration (exStatus e) then do {
            emitSpecMutated env;
            abort env e (Msg ''spec mutated after experiment started'' [])
          }
          else do {
            let e1 = ?e1;
            if phaseOf e \<noteq> PhasePending \<and> phaseOf e \<noteq> PhaseUnset then do {
              l \<leftarrow> renew env e1;
              (case l of
                 Some err \<Rightarrow>
                   if errorsIs err ErrHolderMismatch \<or> errorsIs err ErrLockNotFound then do {
                     emitLeaseRenewalFailed env err;
                     abort env e1 (Msg ''lease renewal failed: %v'' [AText err])
                   }
                   else ret (5 * second) None
               | None \<Rightarrow> dispatch env e1)
            }
            else dispatch env e1
          }) (\<lambda>_ w'. good (abs w) (abs w')) w1"
    proof (cases "exDeleting e \<or> terminal e")
      case True
      then show ?thesis
        using wp_handleDeletion [OF c1 i1] wp_terminalCleanup [OF c1 i1] c(2)
        by (auto simp: terminal_def)
    next
      case False
      define mutated where "mutated = (stObservedGeneration (exStatus e) \<noteq> 0 \<and>
        exGeneration e \<noteq> stObservedGeneration (exStatus e))"
      show ?thesis
        unfolding mutated_def [symmetric]
        using False re di [OF c(2)] c(2) ab [of _ e]
        by (auto simp: terminal_def Let_def emitSpecMutated_def intro!: wp_emit)
    qed
    then show ?thesis using Pair Inr by (simp add: Reconcile_def wp_State)
  qed
qed

end

section \<open>Reachable states\<close>

text \<open>
  Between two reconciles users and other controllers may change the spec, request deletion or
  take the lock, and time passes. They do not write the status, and the API server keeps a
  resource as long as it has the finalizer.
\<close>

definition envStep :: "recAbs \<Rightarrow> recAbs \<Rightarrow> bool" where
  "envStep s s' =
     (aInjections s' = aInjections s \<and> (aFault s' \<longrightarrow> aFault s) \<and> (aGaveUp s \<longrightarrow> aGaveUp s') \<and>
      (case aCR s of
         None \<Rightarrow> aCR s' = None
       | Some e \<Rightarrow>
           (case aCR s' of
              None \<Rightarrow> \<not> hasFinalizer e
            | Some e' \<Rightarrow> exStatus e' = exStatus e \<and> (hasFinalizer e \<longrightarrow> hasFinalizer e'))))"

inductive reach :: "'w recEnv \<Rightarrow> ('w \<Rightarrow> recAbs) \<Rightarrow> 'w \<Rightarrow> 'w \<Rightarrow> bool" for env vw w0 where
  reach_start: "reach env vw w0 w0"
| reach_reconcile: "reach env vw w0 w \<Longrightarrow> run_state (Reconcile env) w = (r, w') \<Longrightarrow> reach env vw w0 w'"
| reach_env: "reach env vw w0 w \<Longrightarrow> envStep (vw w) (vw w') \<Longrightarrow> reach env vw w0 w'"

text \<open>A newly created experiment.\<close>

definition freshCR :: "recAbs \<Rightarrow> bool" where
  "freshCR s = (\<not> aFault s \<and> aInjections s = 0 \<and>
     (\<exists>e. aCR s = Some e \<and> phaseOf e = PhaseUnset \<and> stInjectionStartedAt (exStatus e) = None \<and>
          stFaultRevertedAt (exStatus e) = None))"

lemma freshCR_inv: "freshCR s \<Longrightarrow> recInv s"
  by (auto simp: freshCR_def recInv_def crInv_def)

lemma envStep_inv: "envStep s s' \<Longrightarrow> recInv s \<Longrightarrow> recInv s'"
  by (auto simp: envStep_def recInv_def crInv_def injectedPhase_def split: option.splits)

lemma controller_reach_inv:
  assumes "controller env vw expired" and "reach env vw w0 w" and "recInv (vw w0)"
  shows "recInv (vw w)"
  using assms(2,3)
proof induction
  case reach_start
  then show ?case .
next
  case (reach_reconcile w r w')
  then have "good (vw w) (vw w')"
    using controller.wp_Reconcile [OF assms(1), of w] by (simp add: wp_def)
  then show ?case by (simp add: good_def)
next
  case (reach_env w w')
  then show ?case using envStep_inv by blast
qed

section \<open>A controller in memory\<close>

text \<open>
  An instance of \<open>recEnv\<close>: the resource, the in-process lock, a fault that the injector switches
  on, and a script that says for each client or orchestrator call whether it fails.
\<close>

record ctlWorld =
  cwAbs :: recAbs
  cwNow :: timestamp
  cwScript :: "bool list"

definition fails :: "ctlWorld \<Rightarrow> bool \<times> ctlWorld" where
  "fails w = (case cwScript w of [] \<Rightarrow> (False, w) | b # bs \<Rightarrow> (b, w\<lparr>cwScript := bs\<rparr>))"

definition ctlErr :: goErr where
  "ctlErr = ApiOther ''injected failure''"

definition onAbs :: "(recAbs \<Rightarrow> recAbs) \<Rightarrow> ctlWorld \<Rightarrow> ctlWorld" where
  "onAbs f w = w\<lparr>cwAbs := f (cwAbs w)\<rparr>"

definition ctlWrite :: "(chaosExperiment \<Rightarrow> chaosExperiment) \<Rightarrow> ctlWorld \<Rightarrow>
    (goErr + chaosExperiment) \<times> ctlWorld" where
  "ctlWrite f w =
     (case fails w of (b, w1) \<Rightarrow>
       if b then (Inl ctlErr, w1)
       else case aCR (cwAbs w1) of
         None \<Rightarrow> (Inl ApiNotFound, w1)
       | Some cur \<Rightarrow>
           (Inr (f cur), onAbs (\<lambda>s. s\<lparr>aCR := (if exDeleting cur \<and> exFinalizers (f cur) = []
                                    then None else Some (f cur))\<rparr>) w1))"

definition ctlStatusWrite :: "chaosExperiment \<Rightarrow> ctlWorld \<Rightarrow> (goErr + chaosExperiment) \<times> ctlWorld" where
  "ctlStatusWrite e w =
     (case fails w of (b, w1) \<Rightarrow>
       if b then (Inl ctlErr, w1)
       else case aCR (cwAbs w1) of
         None \<Rightarrow> (Inl ApiNotFound, w1)
       | Some cur \<Rightarrow> let x = cur\<lparr>exStatus := exStatus e\<rparr>
                     in (Inr x, onAbs (\<lambda>s. s\<lparr>aCR := Some x\<rparr>) w1))"

definition ctlLock :: "(localLocks \<Rightarrow> goErr option \<times> localLocks) \<Rightarrow> ctlWorld \<Rightarrow> goErr option \<times> ctlWorld" where
  "ctlLock f w = (case f (aHolder (cwAbs w)) of (r, l) \<Rightarrow> (r, onAbs (\<lambda>s. s\<lparr>aHolder := l\<rparr>) w))"

definition passedRes :: checkResult where
  "passedRes = \<lparr>crPassed = True, crChecksRun = 0, crChecksPassed = 0, crDetails = [], crTimestamp = 0\<rparr>"

definition ctlEnv :: "ctlWorld recEnv" where
  "ctlEnv = \<lparr>
     rGet = \<lambda>w. (case fails w of (b, w1) \<Rightarrow> if b then (Inl ctlErr, w1)
              else case aCR (cwAbs w1) of None \<Rightarrow> (Inl ApiNotFound, w1) | Some e \<Rightarrow> (Inr e, w1)),
     rUpdate = \<lambda>e. ctlWrite (\<lambda>cur. cur\<lparr>exFinalizers := exFinalizers e, exGeneration := exGeneration cur + 1\<rparr>),
     rStatusUpdate = ctlStatusWrite,
     rValidate = \<lambda>e w. (None, w),
     rPreCheck = \<lambda>e w. (case fails w of (b, w1) \<Rightarrow> (if b then Inl ctlErr else Inr passedRes, w1)),
     rInject = \<lambda>e w. (case fails w of (b, w1) \<Rightarrow> (if b then Inl ctlErr else Inr [],
                  onAbs (\<lambda>s. s\<lparr>aFault := True, aInjections := Suc (aInjections s)\<rparr>) w1)),
     rRevert = \<lambda>e w. (case fails w of (b, w1) \<Rightarrow>
                  if b then (Some ctlErr, onAbs (\<lambda>s. s\<lparr>aGaveUp := aGaveUp s \<or> phaseOf e = PhaseAborted\<rparr>) w1)
                  else (None, onAbs (\<lambda>s. s\<lparr>aFault := False\<rparr>) w1)),
     rPoll = \<lambda>e w. (case fails w of (b, w1) \<Rightarrow> (if b then Inl ctlErr else Inr None, w1)),
     rPostFinal = \<lambda>e recon w. (case fails w of (b, w1) \<Rightarrow>
                  (if b then Inl ctlErr else Inr (passedRes, [steadyPassed]), w1)),
     rEvaluate = EvaluateFromFindings 10,
     rAcquire = \<lambda>p n d. ctlLock (localAcquire p n d),
     rRenew = \<lambda>p n. ctlLock (localRenew p n),
     rRelease = \<lambda>p n. ctlLock (localRelease p n),
     rEvent = \<lambda>ty reason msg w. w,
     rNow = cwNow\<rparr>"

lemma fails_abs: "fails w = (b, w1) \<Longrightarrow> cwAbs w1 = cwAbs w"
  by (auto simp: fails_def split: list.splits)

lemma cwAbs_onAbs [simp]: "cwAbs (onAbs f w) = f (cwAbs w)"
  by (simp add: onAbs_def)

lemma ctl_lock: "experiment_lock (rAcquire ctlEnv) (rRenew ctlEnv) (rRelease ctlEnv)
    (\<lambda>w. aHolder (cwAbs w)) (\<lambda>w p t. False) (rNow ctlEnv)"
  by unfold_locales
     (auto simp: ctlEnv_def ctlLock_def localAcquire_def localRenew_def localRelease_def fun_eq_iff
        split: option.splits if_splits prod.splits)

end
