(* ===== verification/KubeClient.thy ===== *)
theory KubeClient
  imports Prelude
begin

text \<open>
  The Kubernetes API client (controller-runtime's \<open>client.Client\<close>) as the code under
  verification sees it. The client is third-party code, so it is a parameter: the record
  \<open>kclient\<close> of its operations on objects of one kind. What the code relies on is stated by
  the locale \<open>kube_api\<close> over an abstraction \<open>st\<close> of the cluster state: a read returns the
  stored object and changes nothing; create fails if the object exists; update and delete
  fail unless the object has the version the caller read; a call that reports an error has
  no effect. \<open>memCreate\<close> and the other \<open>mem\<close> operations are an in-memory API server of the
  same kind as controller-runtime's fake client, used in witnesses and to show that the laws
  can hold.
\<close>

section \<open>Operations and laws\<close>

record ('w, 'k, 'o) kclient =
  kGet :: "'k \<Rightarrow> 'w \<Rightarrow> (goErr + 'o) \<times> 'w"
  kCreate :: "'k \<Rightarrow> 'o \<Rightarrow> 'w \<Rightarrow> goErr option \<times> 'w"
  kUpdate :: "'k \<Rightarrow> 'o \<Rightarrow> 'w \<Rightarrow> goErr option \<times> 'w"
  kDelete :: "'k \<Rightarrow> nat option \<Rightarrow> 'w \<Rightarrow> goErr option \<times> 'w"
  kPatch :: "'k \<Rightarrow> ('o \<Rightarrow> 'o) \<Rightarrow> 'w \<Rightarrow> goErr option \<times> 'w"

text \<open>
  \<open>rv\<close> is the resourceVersion of an object and \<open>content\<close> the rest of it. \<open>kDelete\<close> takes
  the resourceVersion precondition of the delete options, if any. A merge patch is the function
  that the server applies to the object it stores.
\<close>

locale kube_api =
  fixes c :: "('w, 'k, 'o) kclient"
    and st :: "'w \<Rightarrow> 'k \<rightharpoonup> 'o"
    and rv :: "'o \<Rightarrow> nat"
    and content :: "'o \<Rightarrow> 'd"
  assumes get_ok: "kGet c k w = (Inr x, w') \<Longrightarrow> st w k = Some x \<and> st w' = st w"
    and get_err: "kGet c k w = (Inl e, w') \<Longrightarrow> st w' = st w"
    and get_notfound: "kGet c k w = (Inl e, w') \<Longrightarrow> isNotFound e \<Longrightarrow> st w k = None"
    and create_ok: "kCreate c k x w = (None, w') \<Longrightarrow>
          st w k = None \<and> (\<exists>y. content y = content x \<and> st w' = (st w)(k \<mapsto> y))"
    and create_err: "kCreate c k x w = (Some e, w') \<Longrightarrow> st w' = st w"
    and create_exists: "kCreate c k x w = (Some e, w') \<Longrightarrow> isAlreadyExists e \<Longrightarrow>
          st w k \<noteq> None"
    and update_ok: "kUpdate c k x w = (None, w') \<Longrightarrow>
          (\<exists>cur y. st w k = Some cur \<and> rv cur = rv x \<and> content y = content x \<and>
                   st w' = (st w)(k \<mapsto> y))"
    and update_err: "kUpdate c k x w = (Some e, w') \<Longrightarrow> st w' = st w"
    and delete_ok: "kDelete c k p w = (None, w') \<Longrightarrow>
          (\<exists>cur. st w k = Some cur \<and> (p = None \<or> p = Some (rv cur))) \<and>
          st w' = (st w)(k := None)"
    and delete_err: "kDelete c k p w = (Some e, w') \<Longrightarrow> st w' = st w"
    and delete_notfound: "kDelete c k p w = (Some e, w') \<Longrightarrow> isNotFound e \<Longrightarrow> st w k = None"
    and patch_ok: "kPatch c k f w = (None, w') \<Longrightarrow>
          (\<exists>cur y. st w k = Some cur \<and> content y = content (f cur) \<and> st w' = (st w)(k \<mapsto> y))"
    and patch_err: "kPatch c k f w = (Some e, w') \<Longrightarrow> st w' = st w"
begin

lemma get_frame [frame_simps]: "st (snd (kGet c k w)) = st w"
proof (cases "kGet c k w")
  case (Pair r w')
  then show ?thesis by (cases r) (simp_all add: get_ok get_err)
qed

lemma update_keeps_other:
  "k' \<noteq> k \<Longrightarrow> st (snd (kUpdate c k x w)) k' = st w k'"
proof (cases "kUpdate c k x w")
  case (Pair r w')
  then show "k' \<noteq> k \<Longrightarrow> ?thesis"
    using update_ok [of k x w w'] update_err [of k x w] by (cases r) auto
qed

lemma create_keeps_existing:
  "st w k' = Some y \<Longrightarrow> st (snd (kCreate c k x w)) k' = Some y"
proof (cases "kCreate c k x w")
  case (Pair r w')
  then show "st w k' = Some y \<Longrightarrow> ?thesis"
    using create_ok [of k x w w'] create_err [of k x w] by (cases r) auto
qed

end

section \<open>An in-memory API server\<close>

record ('k, 'd) memWorld =
  memObjs :: "'k \<rightharpoonup> nat \<times> 'd"
  memNext :: nat
  memNow :: timestamp

type_synonym 'd versioned = "nat \<times> 'd"

definition memGet :: "'k \<Rightarrow> ('k, 'd) memWorld \<Rightarrow> (goErr + 'd versioned) \<times> ('k, 'd) memWorld" where
  "memGet k w = (case memObjs w k of None \<Rightarrow> (Inl ApiNotFound, w) | Some x \<Rightarrow> (Inr x, w))"

definition memPut :: "'k \<Rightarrow> 'd \<Rightarrow> ('k, 'd) memWorld \<Rightarrow> ('k, 'd) memWorld" where
  "memPut k d w = w\<lparr>memObjs := (memObjs w)(k \<mapsto> (memNext w, d)), memNext := memNext w + 1\<rparr>"

definition memCreate ::
  "'k \<Rightarrow> 'd versioned \<Rightarrow> ('k, 'd) memWorld \<Rightarrow> goErr option \<times> ('k, 'd) memWorld" where
  "memCreate k x w =
     (if memObjs w k = None then (None, memPut k (snd x) w) else (Some ApiAlreadyExists, w))"

definition memUpdate ::
  "'k \<Rightarrow> 'd versioned \<Rightarrow> ('k, 'd) memWorld \<Rightarrow> goErr option \<times> ('k, 'd) memWorld" where
  "memUpdate k x w =
     (case memObjs w k of
        None \<Rightarrow> (Some ApiNotFound, w)
      | Some cur \<Rightarrow> if fst cur = fst x then (None, memPut k (snd x) w)
                    else (Some ApiConflict, w))"

definition memDelete ::
  "'k \<Rightarrow> nat option \<Rightarrow> ('k, 'd) memWorld \<Rightarrow> goErr option \<times> ('k, 'd) memWorld" where
  "memDelete k p w =
     (case memObjs w k of
        None \<Rightarrow> (Some ApiNotFound, w)
      | Some cur \<Rightarrow> if p = None \<or> p = Some (fst cur)
                    then (None, w\<lparr>memObjs := (memObjs w)(k := None)\<rparr>)
                    else (Some ApiConflict, w))"

definition memPatch ::
  "'k \<Rightarrow> ('d versioned \<Rightarrow> 'd versioned) \<Rightarrow> ('k, 'd) memWorld \<Rightarrow> goErr option \<times> ('k, 'd) memWorld" where
  "memPatch k f w =
     (case memObjs w k of
        None \<Rightarrow> (Some ApiNotFound, w)
      | Some cur \<Rightarrow> (None, memPut k (snd (f cur)) w))"

definition memClient :: "(('k, 'd) memWorld, 'k, 'd versioned) kclient" where
  "memClient = \<lparr>kGet = memGet, kCreate = memCreate, kUpdate = memUpdate, kDelete = memDelete,
     kPatch = memPatch\<rparr>"

lemma memClient_simps [simp]:
  "kGet memClient = memGet" "kCreate memClient = memCreate"
  "kUpdate memClient = memUpdate" "kDelete memClient = memDelete" "kPatch memClient = memPatch"
  by (simp_all add: memClient_def)

lemmas mem_ops = memGet_def memCreate_def memUpdate_def memDelete_def memPut_def memPatch_def

interpretation memApi: kube_api memClient memObjs fst snd
  by unfold_locales (auto simp: mem_ops split: option.splits if_splits)

section \<open>Parts of a world\<close>

text \<open>A client for a part of the world.\<close>

definition onPart :: "('w \<Rightarrow> 'a) \<Rightarrow> ('a \<Rightarrow> 'w \<Rightarrow> 'w) \<Rightarrow> ('a \<Rightarrow> 'r \<times> 'a) \<Rightarrow> 'w \<Rightarrow> 'r \<times> 'w" where
  "onPart get put f w = (case f (get w) of (r, a) \<Rightarrow> (r, put a w))"

definition partClient :: "('w \<Rightarrow> 'a) \<Rightarrow> ('a \<Rightarrow> 'w \<Rightarrow> 'w) \<Rightarrow> ('a, 'k, 'o) kclient \<Rightarrow> ('w, 'k, 'o) kclient" where
  "partClient get put c = \<lparr>kGet = \<lambda>k. onPart get put (kGet c k), kCreate = \<lambda>k x. onPart get put (kCreate c k x),
     kUpdate = \<lambda>k x. onPart get put (kUpdate c k x), kDelete = \<lambda>k p. onPart get put (kDelete c k p),
     kPatch = \<lambda>k f. onPart get put (kPatch c k f)\<rparr>"

lemma part_kube_api:
  assumes "kube_api c st rv content" and "\<And>a w. get (put a w) = a"
  shows "kube_api (partClient get put c) (st \<circ> get) rv content"
proof -
  have eq: "onPart get put f w = (r, w') \<Longrightarrow> f (get w) = (r, get w')" for f :: "'a \<Rightarrow> 'r \<times> 'a" and w r w'
    using assms(2) by (auto simp: onPart_def split: prod.splits)
  note api = assms(1)
  note laws = kube_api.get_ok [OF api] kube_api.get_err [OF api] kube_api.create_ok [OF api]
    kube_api.create_err [OF api] kube_api.update_ok [OF api] kube_api.update_err [OF api]
    kube_api.delete_ok [OF api] kube_api.delete_err [OF api] kube_api.patch_ok [OF api]
    kube_api.patch_err [OF api]
  note refusals = kube_api.get_notfound [OF api] kube_api.create_exists [OF api] kube_api.delete_notfound [OF api]
  show ?thesis
    unfolding partClient_def
    by (unfold_locales; simp only: kclient.simps comp_apply; drule eq; (erule laws | erule refusals, assumption))
qed

end
