(* ===== verification/LeaseLock.thy ===== *)
theory LeaseLock
  imports ExpLock KubeClient
begin

text \<open>
  The distributed experiment lock of \<open>pkg/safety/lease.go\<close>, backed by Lease objects. The
  API client and the clock are parameters; the client satisfies \<open>kube_api\<close>. The lock is
  shown to be an \<open>experiment_lock\<close>, and the in-place reclaim of an expired Lease to be free
  of the race between two callers that its comment mentions.
\<close>

section \<open>Lease objects\<close>

record leaseObj =
  lsLabels :: strmap
  lsHolderIdentity :: "string option"
  lsDurationSeconds :: "int option"
  lsAcquireTime :: "timestamp option"
  lsRenewTime :: "timestamp option"

record 'w leaseLock =
  llClient :: "('w, string \<times> string, leaseObj versioned) kclient"
  llNamespace :: string
  llNow :: "'w \<Rightarrow> timestamp"

definition DefaultLeaseDurationSeconds :: int where
  "DefaultLeaseDurationSeconds = 900"

definition leaseName :: "string \<Rightarrow> string" where
  "leaseName operator = ''operator-chaos-lock-'' @ operator"

definition leaseKey :: "'w leaseLock \<Rightarrow> string \<Rightarrow> string \<times> string" where
  "leaseKey l operator = (llNamespace l, leaseName operator)"

definition holderOf :: "leaseObj \<Rightarrow> string" where
  "holderOf lease = (case lsHolderIdentity lease of None \<Rightarrow> '''' | Some h \<Rightarrow> h)"

text \<open>
  \<open>int32(d.Seconds())\<close>: whole seconds, toward zero, in 32 bits. \<open>Seconds\<close> is a float64; below
  \<open>2^22\<close> seconds its fraction has nanosecond precision, so the truncation is exact there.
\<close>

definition durationSeconds32 :: "duration \<Rightarrow> int" where
  "durationSeconds32 d = signed_take_bit 31 (sgn d * (\<bar>d\<bar> div second))"

definition leaseSeconds :: "duration \<Rightarrow> int" where
  "leaseSeconds d = (if durationSeconds32 d > DefaultLeaseDurationSeconds
     then durationSeconds32 d else DefaultLeaseDurationSeconds)"

definition leaseIsExpired :: "leaseObj \<Rightarrow> timestamp \<Rightarrow> bool" where
  "leaseIsExpired lease now =
     (case lsDurationSeconds lease of
        None \<Rightarrow> True
      | Some secs \<Rightarrow>
          (case (lsRenewTime lease, lsAcquireTime lease) of
             (Some t, _) \<Rightarrow> now > t + secs * second
           | (None, Some t) \<Rightarrow> now > t + secs * second
           | (None, None) \<Rightarrow> True))"

section \<open>Operations\<close>

definition newLease :: "string \<Rightarrow> int \<Rightarrow> timestamp \<Rightarrow> leaseObj" where
  "newLease experimentName secs now =
     \<lparr>lsLabels = [''app.kubernetes.io/managed-by'' \<mapsto> ''operator-chaos''],
      lsHolderIdentity = Some experimentName, lsDurationSeconds = Some secs,
      lsAcquireTime = Some now, lsRenewTime = None\<rparr>"

definition reclaimedLease :: "string \<Rightarrow> int \<Rightarrow> timestamp \<Rightarrow> leaseObj \<Rightarrow> leaseObj" where
  "reclaimedLease experimentName secs now lease =
     lease\<lparr>lsHolderIdentity := Some experimentName, lsDurationSeconds := Some secs,
       lsAcquireTime := Some now, lsRenewTime := None\<rparr>"

text \<open>The part of \<open>Acquire\<close> that runs once the existing Lease has been read.\<close>

definition leaseReclaim ::
  "'w leaseLock \<Rightarrow> string \<Rightarrow> string \<Rightarrow> int \<Rightarrow> leaseObj versioned \<Rightarrow> 'w \<Rightarrow> goErr option \<times> 'w" where
  "leaseReclaim l operator experimentName secs existing w =
     (if lsHolderIdentity (snd existing) = Some experimentName then (None, w)
      else if leaseIsExpired (snd existing) (llNow l w) then
        kUpdate (llClient l) (leaseKey l operator)
          (fst existing, reclaimedLease experimentName secs (llNow l w) (snd existing)) w
      else
        (Some (Errorf ''operator %s is locked by experiment %q: %w''
           [AStr operator, AStr (holderOf (snd existing)), AErr ErrLockContention]), w))"

definition leaseAcquire ::
  "'w leaseLock \<Rightarrow> string \<Rightarrow> string \<Rightarrow> duration \<Rightarrow> 'w \<Rightarrow> goErr option \<times> 'w" where
  "leaseAcquire l operator experimentName leaseDuration w =
     (let secs = leaseSeconds leaseDuration;
          lease = newLease experimentName secs (llNow l w)
      in case kCreate (llClient l) (leaseKey l operator) (0, lease) w of
        (None, w1) \<Rightarrow> (None, w1)
      | (Some err, w1) \<Rightarrow>
          if isAlreadyExists err then
            (case kGet (llClient l) (leaseKey l operator) w1 of
               (Inl getErr, w2) \<Rightarrow> (Some (Errorf ''checking existing lease: %w'' [AErr getErr]), w2)
             | (Inr existing, w2) \<Rightarrow> leaseReclaim l operator experimentName secs existing w2)
          else (Some err, w1))"

definition leaseRelease ::
  "'w leaseLock \<Rightarrow> string \<Rightarrow> string \<Rightarrow> 'w \<Rightarrow> goErr option \<times> 'w" where
  "leaseRelease l operator experimentName w =
     (case kGet (llClient l) (leaseKey l operator) w of
        (Inl err, w1) \<Rightarrow>
          (if isNotFound err
           then (Some (Errorf ''lease %s: %w'' [AStr (leaseName operator), AErr ErrLockNotFound]), w1)
           else (Some (Errorf ''getting lease for release: %w'' [AErr err]), w1))
      | (Inr existing, w1) \<Rightarrow>
          if holderOf (snd existing) \<noteq> experimentName then
            (Some (Errorf ''lock held by %q, release requested by %q: %w''
               [AStr (holderOf (snd existing)), AStr experimentName, AErr ErrHolderMismatch]), w1)
          else kDelete (llClient l) (leaseKey l operator) (Some (fst existing)) w1)"

definition leaseRenew ::
  "'w leaseLock \<Rightarrow> string \<Rightarrow> string \<Rightarrow> 'w \<Rightarrow> goErr option \<times> 'w" where
  "leaseRenew l operator experimentName w =
     (case kGet (llClient l) (leaseKey l operator) w of
        (Inl err, w1) \<Rightarrow>
          (if isNotFound err
           then (Some (Errorf ''lease %s: %w'' [AStr (leaseName operator), AErr ErrLockNotFound]), w1)
           else (Some (Errorf ''getting lease for renewal: %w'' [AErr err]), w1))
      | (Inr existing, w1) \<Rightarrow>
          if holderOf (snd existing) \<noteq> experimentName then
            (Some (Errorf ''lock held by %q, renew requested by %q: %w''
               [AStr (holderOf (snd existing)), AStr experimentName, AErr ErrHolderMismatch]), w1)
          else kUpdate (llClient l) (leaseKey l operator)
                 (fst existing, (snd existing)\<lparr>lsRenewTime := Some (llNow l w1)\<rparr>) w1)"

section \<open>The abstraction\<close>

type_synonym 'w leaseView = "'w \<Rightarrow> string \<times> string \<rightharpoonup> leaseObj versioned"

definition leaseHolder :: "'w leaseLock \<Rightarrow> 'w leaseView \<Rightarrow> 'w \<Rightarrow> string \<rightharpoonup> string" where
  "leaseHolder l st w operator = map_option (holderOf \<circ> snd) (st w (leaseKey l operator))"

definition leaseExpired :: "'w leaseLock \<Rightarrow> 'w leaseView \<Rightarrow> 'w \<Rightarrow> string \<Rightarrow> timestamp \<Rightarrow> bool" where
  "leaseExpired l st w operator t =
     (case st w (leaseKey l operator) of None \<Rightarrow> True | Some x \<Rightarrow> leaseIsExpired (snd x) t)"

text \<open>Time does not run backwards during a call of the client.\<close>

definition clockMonotone :: "('w, 'k, 'o) kclient \<Rightarrow> ('w \<Rightarrow> timestamp) \<Rightarrow> bool" where
  "clockMonotone c now =
     ((\<forall>k w. now w \<le> now (snd (kGet c k w))) \<and>
      (\<forall>k x w. now w \<le> now (snd (kCreate c k x w))) \<and>
      (\<forall>k x w. now w \<le> now (snd (kUpdate c k x w))) \<and>
      (\<forall>k p w. now w \<le> now (snd (kDelete c k p w))))"

lemma leaseKey_inj [simp]: "leaseKey l p = leaseKey l q \<longleftrightarrow> p = q"
  by (simp add: leaseKey_def leaseName_def)

lemma leaseHolder_upd:
  "st w' = (st w)(leaseKey l p \<mapsto> y) \<Longrightarrow>
   leaseHolder l st w' = (leaseHolder l st w)(p \<mapsto> holderOf (snd y))"
  by (intro ext) (auto simp: leaseHolder_def)

lemma leaseHolder_del:
  "st w' = (st w)(leaseKey l p := None) \<Longrightarrow>
   leaseHolder l st w' = (leaseHolder l st w)(p := None)"
  by (intro ext) (auto simp: leaseHolder_def)

lemma leaseHolder_same: "st w' = st w \<Longrightarrow> leaseHolder l st w' = leaseHolder l st w"
  by (intro ext) (simp add: leaseHolder_def)

lemma leaseIsExpired_mono: "leaseIsExpired x t \<Longrightarrow> t \<le> t' \<Longrightarrow> leaseIsExpired x t'"
  by (auto simp: leaseIsExpired_def split: option.splits)

lemma holderOf_new [simp]: "holderOf (newLease e secs now) = e"
  by (simp add: holderOf_def newLease_def)

lemma holderOf_reclaimed [simp]: "holderOf (reclaimedLease e secs now x) = e"
  by (simp add: holderOf_def reclaimedLease_def)

lemma holderOf_renew [simp]: "holderOf (x\<lparr>lsRenewTime := t\<rparr>) = holderOf x"
  by (simp add: holderOf_def)

section \<open>The lock keeps the contract\<close>

lemmas lease_ops = leaseAcquire_def leaseReclaim_def leaseRenew_def leaseRelease_def Let_def

locale lease_api = kube_api "llClient l" st fst snd
  for l :: "'w leaseLock" and st :: "'w leaseView" +
  assumes clock: "clockMonotone (llClient l) (llNow l)"
begin

lemma reclaim_ok:
  assumes "leaseReclaim l p e secs x w = (None, w')" and "st w (leaseKey l p) = Some x"
  shows "leaseHolder l st w' = (leaseHolder l st w)(p \<mapsto> e)"
proof (cases "lsHolderIdentity (snd x) = Some e")
  case True
  then show ?thesis using assms
    by (auto simp: leaseReclaim_def leaseHolder_def holderOf_def intro!: ext)
next
  case False
  then have "kUpdate (llClient l) (leaseKey l p)
      (fst x, reclaimedLease e secs (llNow l w) (snd x)) w = (None, w')"
    using assms(1) by (simp add: leaseReclaim_def split: if_splits)
  from update_ok [OF this] obtain y where
    "snd y = reclaimedLease e secs (llNow l w) (snd x)" "st w' = (st w)(leaseKey l p \<mapsto> y)"
    by auto
  then show ?thesis by (simp add: leaseHolder_upd)
qed

lemma reclaim_err: "leaseReclaim l p e secs x w = (Some err, w') \<Longrightarrow> st w' = st w"
  by (auto simp: leaseReclaim_def dest: update_err split: if_splits)

lemma reclaim_expired:
  assumes "leaseReclaim l p e secs x w = (None, w')" and "holderOf (snd x) \<noteq> e"
  shows "leaseIsExpired (snd x) (llNow l w')"
proof -
  have "lsHolderIdentity (snd x) \<noteq> Some e" using assms(2) by (auto simp: holderOf_def)
  then have up: "leaseIsExpired (snd x) (llNow l w)"
    "kUpdate (llClient l) (leaseKey l p)
       (fst x, reclaimedLease e secs (llNow l w) (snd x)) w = (None, w')"
    using assms(1) by (auto simp: leaseReclaim_def split: if_splits)
  have "llNow l w \<le> llNow l w'" using clock up(2) unfolding clockMonotone_def by (metis snd_conv)
  then show ?thesis using up(1) leaseIsExpired_mono by blast
qed

text \<open>The three ways through \<open>Acquire\<close>.\<close>

lemma acquire_cases:
  assumes "leaseAcquire l p e d w = (r, w')"
  obtains (created) "r = None" "st w (leaseKey l p) = None"
      "leaseHolder l st w' = (leaseHolder l st w)(p \<mapsto> e)"
    | (failed) err where "r = Some err" "st w' = st w"
    | (reclaim) x w2 where "st w (leaseKey l p) = Some x" "st w2 = st w"
      "leaseReclaim l p e (leaseSeconds d) x w2 = (r, w')"
proof -
  define x0 where "x0 = newLease e (leaseSeconds d) (llNow l w)"
  obtain r1 w1 where c: "kCreate (llClient l) (leaseKey l p) (0, x0) w = (r1, w1)" by fastforce
  show thesis
  proof (cases r1)
    case None
    from create_ok [OF c [unfolded None]] obtain y where
      y: "st w (leaseKey l p) = None" "snd y = x0" "st w1 = (st w)(leaseKey l p \<mapsto> y)" by auto
    have "r = None" "w' = w1" using assms c None by (simp_all add: leaseAcquire_def Let_def x0_def)
    then show thesis using created y by (simp add: leaseHolder_upd x0_def)
  next
    case (Some err)
    have s1: "st w1 = st w" using create_err [OF c [unfolded Some]] .
    show thesis
    proof (cases "isAlreadyExists err")
      case False
      then have "r = Some err" "w' = w1"
        using assms c Some by (simp_all add: leaseAcquire_def Let_def x0_def)
      then show thesis using failed s1 by simp
    next
      case True
      obtain r2 w2 where g: "kGet (llClient l) (leaseKey l p) w1 = (r2, w2)" by fastforce
      show thesis
      proof (cases r2)
        case (Inl ge)
        then have "r = Some (Errorf ''checking existing lease: %w'' [AErr ge])" "w' = w2"
          using assms c Some True g by (simp_all add: leaseAcquire_def Let_def x0_def)
        then show thesis using failed get_err [OF g [unfolded Inl]] s1 by simp
      next
        case (Inr x)
        then have "leaseReclaim l p e (leaseSeconds d) x w2 = (r, w')"
          using assms c Some True g by (simp add: leaseAcquire_def Let_def x0_def)
        moreover have "st w (leaseKey l p) = Some x" "st w2 = st w"
          using get_ok [OF g [unfolded Inr]] s1 by simp_all
        ultimately show thesis by (intro reclaim)
      qed
    qed
  qed
qed

lemma renew_cases:
  assumes "leaseRenew l p e w = (r, w')"
  shows "(r = None \<longrightarrow> leaseHolder l st w p = Some e) \<and> leaseHolder l st w' = leaseHolder l st w"
proof -
  obtain r1 w1 where g: "kGet (llClient l) (leaseKey l p) w = (r1, w1)" by fastforce
  show ?thesis
  proof (cases r1)
    case (Inl ge)
    then show ?thesis using assms g get_err [OF g [unfolded Inl]] leaseHolder_same
      by (auto simp: leaseRenew_def split: if_splits)
  next
    case (Inr x)
    have gx: "st w (leaseKey l p) = Some x" "st w1 = st w" using get_ok [OF g [unfolded Inr]] by auto
    show ?thesis
    proof (cases "holderOf (snd x) = e")
      case False
      then have "w' = w1 \<and> r \<noteq> None" using assms g Inr by (auto simp: leaseRenew_def)
      then show ?thesis using gx leaseHolder_same by auto
    next
      case True
      then have u: "kUpdate (llClient l) (leaseKey l p)
          (fst x, (snd x)\<lparr>lsRenewTime := Some (llNow l w1)\<rparr>) w1 = (r, w')"
        using assms g Inr by (simp add: leaseRenew_def)
      have h: "leaseHolder l st w p = Some e" using gx True by (simp add: leaseHolder_def)
      show ?thesis
      proof (cases r)
        case None
        from update_ok [OF u [unfolded None]] obtain y where
          "snd y = (snd x)\<lparr>lsRenewTime := Some (llNow l w1)\<rparr>"
          "st w' = (st w1)(leaseKey l p \<mapsto> y)" by auto
        then have "leaseHolder l st w' = (leaseHolder l st w1)(p \<mapsto> e)"
          using True by (simp add: leaseHolder_upd)
        then show ?thesis using h gx leaseHolder_same [of st w1 w] by (auto simp: map_upd_triv)
      next
        case (Some err)
        then show ?thesis
          using h gx update_err [OF u [unfolded Some]] leaseHolder_same [of st w' w] by auto
      qed
    qed
  qed
qed

lemma release_cases:
  assumes "leaseRelease l p e w = (r, w')"
  shows "(case r of None \<Rightarrow> leaseHolder l st w p = Some e \<and>
                            leaseHolder l st w' = (leaseHolder l st w)(p := None)
                  | Some _ \<Rightarrow> st w' = st w)"
proof -
  obtain r1 w1 where g: "kGet (llClient l) (leaseKey l p) w = (r1, w1)" by fastforce
  show ?thesis
  proof (cases r1)
    case (Inl ge)
    then show ?thesis using assms g get_err [OF g [unfolded Inl]]
      by (auto simp: leaseRelease_def split: if_splits)
  next
    case (Inr x)
    have gx: "st w (leaseKey l p) = Some x" "st w1 = st w" using get_ok [OF g [unfolded Inr]] by auto
    show ?thesis
    proof (cases "holderOf (snd x) = e")
      case False
      then show ?thesis using assms g Inr gx by (auto simp: leaseRelease_def)
    next
      case True
      then have u: "kDelete (llClient l) (leaseKey l p) (Some (fst x)) w1 = (r, w')"
        using assms g Inr by (simp add: leaseRelease_def)
      have h: "leaseHolder l st w p = Some e" using gx True by (simp add: leaseHolder_def)
      show ?thesis
      proof (cases r)
        case None
        then show ?thesis using delete_ok [OF u [unfolded None]] h gx leaseHolder_same [of st w1 w]
          by (simp add: leaseHolder_del)
      next
        case (Some err)
        then show ?thesis using delete_err [OF u [unfolded Some]] gx by simp
      qed
    qed
  qed
qed

end

sublocale lease_api \<subseteq> lock: experiment_lock "leaseAcquire l" "leaseRenew l" "leaseRelease l"
  "leaseHolder l st" "leaseExpired l st" "llNow l"
proof unfold_locales
  fix p e d s s'
  assume a: "leaseAcquire l p e d s = (None, s')"
  show "leaseHolder l st s' = (leaseHolder l st s)(p \<mapsto> e)"
    using a
  proof (cases rule: acquire_cases)
    case (reclaim x w2)
    then have "leaseHolder l st s' = (leaseHolder l st w2)(p \<mapsto> e)" by (intro reclaim_ok) auto
    then show ?thesis using leaseHolder_same [of st w2 s] reclaim by simp
  qed auto
  fix h assume h: "leaseHolder l st s p = Some h" "h \<noteq> e"
  show "leaseExpired l st s p (llNow l s')"
    using a
  proof (cases rule: acquire_cases)
    case (reclaim x w2)
    then have "leaseIsExpired (snd x) (llNow l s')"
      using h by (intro reclaim_expired) (auto simp: leaseHolder_def)
    then show ?thesis using reclaim by (simp add: leaseExpired_def)
  qed (use h in \<open>auto simp: leaseHolder_def\<close>)
next
  fix p e d s err s'
  assume "leaseAcquire l p e d s = (Some err, s')"
  then have "st s' = st s" by (cases rule: acquire_cases) (auto dest: reclaim_err)
  then show "leaseHolder l st s' = leaseHolder l st s" by (rule leaseHolder_same)
next
  fix p e s s'
  show "leaseRenew l p e s = (None, s') \<Longrightarrow>
        leaseHolder l st s p = Some e \<and> leaseHolder l st s' = leaseHolder l st s"
    using renew_cases [of p e s None s'] by simp
  show "leaseRelease l p e s = (None, s') \<Longrightarrow>
        leaseHolder l st s p = Some e \<and> leaseHolder l st s' = (leaseHolder l st s)(p := None)"
    using release_cases [of p e s None s'] by simp
next
  fix p e s err s'
  show "leaseRenew l p e s = (Some err, s') \<Longrightarrow> leaseHolder l st s' = leaseHolder l st s"
    using renew_cases [of p e s "Some err" s'] by blast
  show "leaseRelease l p e s = (Some err, s') \<Longrightarrow> leaseHolder l st s' = leaseHolder l st s"
    using release_cases [of p e s "Some err" s'] leaseHolder_same [of st s' s] by simp
qed

context lease_api
begin

lemma lock_contract: "experiment_lock (leaseAcquire l) (leaseRenew l) (leaseRelease l)
    (leaseHolder l st) (leaseExpired l st) (llNow l)"
  by (rule lock.experiment_lock_axioms)

text \<open>
  Between the read of the Lease and the reclaiming update other callers may have moved the
  cluster from the state that was read to any state \<open>w\<close>.
\<close>

lemma reclaim_interleaved:
  assumes "leaseReclaim l p e secs x w = (None, w')" and "lsHolderIdentity (snd x) \<noteq> Some e"
  shows "\<exists>cur. st w (leaseKey l p) = Some cur \<and> fst cur = fst x \<and>
    leaseIsExpired (snd x) (llNow l w) \<and>
    leaseHolder l st w' = (leaseHolder l st w)(p \<mapsto> e)"
proof -
  have u: "leaseIsExpired (snd x) (llNow l w)"
    "kUpdate (llClient l) (leaseKey l p)
       (fst x, reclaimedLease e secs (llNow l w) (snd x)) w = (None, w')"
    using assms by (auto simp: leaseReclaim_def split: if_splits)
  from update_ok [OF u(2)] obtain cur y where
    "st w (leaseKey l p) = Some cur" "fst cur = fst x"
    "snd y = reclaimedLease e secs (llNow l w) (snd x)" "st w' = (st w)(leaseKey l p \<mapsto> y)"
    by auto
  then show ?thesis using u(1) by (auto simp: leaseHolder_upd)
qed

end

text \<open>The lock on the in-memory API server.\<close>

definition memLeaseLock :: "(string \<times> string, leaseObj) memWorld leaseLock" where
  "memLeaseLock = \<lparr>llClient = memClient, llNamespace = ''operator-chaos-system'', llNow = memNow\<rparr>"

lemma memLeaseLock_simps [simp]:
  "llClient memLeaseLock = memClient" "llNow memLeaseLock = memNow"
  "llNamespace memLeaseLock = ''operator-chaos-system''"
  by (simp_all add: memLeaseLock_def)

lemma clockMonotone_mem: "clockMonotone memClient memNow"
  by (auto simp: clockMonotone_def mem_ops split: option.splits)

interpretation memLease: lease_api memLeaseLock memObjs
  using memApi.kube_api_axioms clockMonotone_mem
  by (simp add: lease_api_def lease_api_axioms_def)

section \<open>Properties\<close>

text \<open>C10. Mutual exclusion of the Lease lock: while another experiment holds an operator's lock
  and its Lease has not expired by the time the call returns, \<open>Acquire\<close> reports an error and
  leaves every holder as it was; and a successful \<open>Acquire\<close> records the caller as the holder
  of that operator and of no other one.\<close>

theorem lease_acquire_exclusive:
  assumes "lease_api l st"
  shows "(leaseHolder l st w p = Some h \<and> h \<noteq> e \<and>
          \<not> leaseExpired l st w p (llNow l (snd (leaseAcquire l p e d w))) \<longrightarrow>
            fst (leaseAcquire l p e d w) \<noteq> None \<and>
            leaseHolder l st (snd (leaseAcquire l p e d w)) = leaseHolder l st w)
       \<and> (fst (leaseAcquire l p e d w) = None \<longrightarrow>
            leaseHolder l st (snd (leaseAcquire l p e d w)) = (leaseHolder l st w)(p \<mapsto> e))"
proof -
  note c = lease_api.lock_contract [OF assms]
  show ?thesis
    using experiment_lock.acquire_contended [OF c] experiment_lock.acquire_holder [OF c] by auto
qed

definition heldWorld :: "timestamp \<Rightarrow> (string \<times> string, leaseObj) memWorld" where
  "heldWorld t = \<lparr>memObjs = [leaseKey memLeaseLock ''kserve'' \<mapsto>
       (7, newLease ''exp-a'' 900 0)], memNext = 8, memNow = t\<rparr>"

theorem lease_acquire_exclusive_witness:
  "fst (leaseAcquire memLeaseLock ''kserve'' ''exp-b'' second (heldWorld second)) \<noteq> None \<and>
   leaseHolder memLeaseLock memObjs
     (snd (leaseAcquire memLeaseLock ''kserve'' ''exp-b'' second (heldWorld second)))
   = leaseHolder memLeaseLock memObjs (heldWorld second)"
proof -
  have "leaseHolder memLeaseLock memObjs (heldWorld second) ''kserve'' = Some ''exp-a''"
    by (simp add: leaseHolder_def heldWorld_def)
  moreover have "memNow (snd (leaseAcquire memLeaseLock ''kserve'' ''exp-b'' second
      (heldWorld second))) = second"
    by (simp add: lease_ops mem_ops heldWorld_def leaseIsExpired_def newLease_def second_def)
  moreover have "\<not> leaseExpired memLeaseLock memObjs (heldWorld second) ''kserve'' second"
    by (simp add: leaseExpired_def heldWorld_def leaseIsExpired_def newLease_def second_def)
  ultimately show ?thesis
    using lease_acquire_exclusive [OF memLease.lease_api_axioms, of "heldWorld second" "''kserve''"
        "''exp-a''" "''exp-b''" second] by simp
qed




text \<open>An experiment that acquires a lock it already holds gets it as it is: the Lease is not
  extended, so when its old Lease has expired, \<open>Acquire\<close> succeeds and the lock can be taken by
  another experiment at once. (The command line runs the whole experiment on that lock.)\<close>

theorem lease_reacquire_not_extended:
  "let w0 = heldWorld (2000 * second);
       (r1, w1) = leaseAcquire memLeaseLock ''kserve'' ''exp-a'' (3600 * second) w0;
       (r2, w2) = leaseAcquire memLeaseLock ''kserve'' ''exp-b'' (3600 * second) w1
   in r1 = None \<and> memObjs w1 = memObjs w0 \<and> r2 = None \<and>
      leaseHolder memLeaseLock memObjs w2 ''kserve'' = Some ''exp-b''"
  by (simp add: lease_ops mem_ops heldWorld_def newLease_def leaseIsExpired_def second_def
      leaseHolder_def holderOf_def reclaimedLease_def)

end
