(* ===== verification/ReconcilerProps.thy ===== *)
theory ReconcilerProps
  imports ReconcilerSafety LeaseLock
begin

text \<open>
  The properties of the controller, from the step lemma \<open>wp_Reconcile\<close> and from the handlers'
  definitions, and the interpretation of the locale \<open>controller\<close> on the in-memory controller.
\<close>

section \<open>The interpretation\<close>

lemma ctlEnv_sel:
  "rUpdate ctlEnv e = ctlWrite (\<lambda>cur. cur\<lparr>exFinalizers := exFinalizers e, exGeneration := exGeneration cur + 1\<rparr>)"
  "rStatusUpdate ctlEnv = ctlStatusWrite" "rValidate ctlEnv e w = (None, w)"
  "rAcquire ctlEnv p n d = ctlLock (localAcquire p n d)"
  "rRenew ctlEnv p n = ctlLock (localRenew p n)" "rRelease ctlEnv p n = ctlLock (localRelease p n)"
  "rEvent ctlEnv ty reason msg w = w"
  by (simp_all add: ctlEnv_def)

lemma ctlWrite_ok:
  "ctlWrite f w = (Inr x, w') \<Longrightarrow> \<exists>cur. aCR (cwAbs w) = Some cur \<and> x = f cur \<and>
     cwAbs w' = (cwAbs w)\<lparr>aCR := (if exDeleting cur \<and> exFinalizers (f cur) = [] then None else Some x)\<rparr>"
proof -
  assume h: "ctlWrite f w = (Inr x, w')"
  obtain b w1 where f: "fails w = (b, w1)" by fastforce
  show ?thesis
    using h f fails_abs [OF f]
    by (cases b; cases "aCR (cwAbs w1)") (auto simp: ctlWrite_def)
qed

lemma ctlWrite_err: "ctlWrite f w = (Inl err, w') \<Longrightarrow> cwAbs w' = cwAbs w"
  by (auto simp: ctlWrite_def dest!: fails_abs split: prod.splits if_splits option.splits)

lemma ctlStatusWrite_ok:
  "ctlStatusWrite e w = (Inr x, w') \<Longrightarrow> \<exists>cur. aCR (cwAbs w) = Some cur \<and>
     x = cur\<lparr>exStatus := exStatus e\<rparr> \<and> cwAbs w' = (cwAbs w)\<lparr>aCR := Some x\<rparr>"
  by (auto simp: ctlStatusWrite_def Let_def dest!: fails_abs split: prod.splits if_splits option.splits)

lemma ctlStatusWrite_err: "ctlStatusWrite e w = (Inl err, w') \<Longrightarrow> cwAbs w' = cwAbs w"
  by (auto simp: ctlStatusWrite_def Let_def dest!: fails_abs split: prod.splits if_splits option.splits)

lemma ctlGet_ok: "rGet ctlEnv w = (Inr e, w') \<Longrightarrow> aCR (cwAbs w) = Some e \<and> cwAbs w' = cwAbs w"
  by (auto simp: ctlEnv_def dest!: fails_abs split: prod.splits if_splits option.splits)

lemma ctlGet_err: "rGet ctlEnv w = (Inl e, w') \<Longrightarrow> cwAbs w' = cwAbs w"
  by (auto simp: ctlEnv_def dest!: fails_abs split: prod.splits if_splits option.splits)

lemma ctlInject: "rInject ctlEnv e w = (r, w') \<Longrightarrow>
    \<exists>b. cwAbs w' = (cwAbs w)\<lparr>aFault := b, aInjections := Suc (aInjections (cwAbs w))\<rparr>"
  by (auto simp: ctlEnv_def dest!: fails_abs split: prod.splits)

lemma ctlRevert_ok: "rRevert ctlEnv e w = (None, w') \<Longrightarrow> cwAbs w' = (cwAbs w)\<lparr>aFault := False\<rparr>"
  by (auto simp: ctlEnv_def dest!: fails_abs split: prod.splits if_splits)

lemma ctlRevert_err:
  "rRevert ctlEnv e w = (Some err, w') \<Longrightarrow> \<exists>b. (b \<longrightarrow> aFault (cwAbs w)) \<and>
     cwAbs w' = (cwAbs w)\<lparr>aFault := b, aGaveUp := aGaveUp (cwAbs w) \<or> phaseOf e = PhaseAborted\<rparr>"
  by (intro exI [of _ "aFault (cwAbs w)"])
     (auto simp: ctlEnv_def dest!: fails_abs split: prod.splits if_splits)

lemma ctl_frames:
  "cwAbs (snd (rPreCheck ctlEnv e w)) = cwAbs w" "cwAbs (snd (rPoll ctlEnv e w)) = cwAbs w"
  "cwAbs (snd (rPostFinal ctlEnv e recon w)) = cwAbs w"
  by (auto simp: ctlEnv_def dest!: fails_abs split: prod.splits)

lemma ctlLock_frame:
  "cwAbs (snd (ctlLock f w)) = (cwAbs w)\<lparr>aHolder := aHolder (cwAbs (snd (ctlLock f w)))\<rparr>"
  by (simp add: ctlLock_def split: prod.split)

interpretation ctl: controller ctlEnv cwAbs "\<lambda>w p t. False"
proof (intro controller.intro controller_axioms.intro ctl_lock)
  show "\<And>e w x w'. rUpdate ctlEnv e w = (Inr x, w') \<Longrightarrow> \<exists>cur g. aCR (cwAbs w) = Some cur \<and>
          x = cur\<lparr>exFinalizers := exFinalizers e, exGeneration := g\<rparr> \<and>
          cwAbs w' = (cwAbs w)\<lparr>aCR := (if exDeleting cur \<and> exFinalizers e = [] then None else Some x)\<rparr>"
    unfolding ctlEnv_sel by (drule ctlWrite_ok, elim exE conjE, intro exI conjI) simp_all
qed (simp_all only: ctlEnv_sel ctl_frames ctlLock_frame [symmetric] snd_conv ctlGet_ok ctlGet_err
      ctlStatusWrite_ok ctlStatusWrite_err ctlWrite_err ctlInject ctlRevert_ok ctlRevert_err)

section \<open>Invariants over all reconciles\<close>

lemma reach_inv:
  assumes "controller env vw expired" and "freshCR (vw w0)" and "reach env vw w0 w"
  shows "recInv (vw w)"
  using controller_reach_inv [OF assms(1,3)] freshCR_inv [OF assms(2)] by blast

text \<open>C1. At most one injection: however often the controller reconciles an experiment, with
  whatever failures or crashes at any call and whatever its users do to it meanwhile, the fault is
  injected at most once.\<close>

theorem injected_at_most_once:
  assumes "controller env vw expired" and "freshCR (vw w0)" and "reach env vw w0 w"
  shows "aInjections (vw w) \<le> 1"
  using reach_inv [OF assms] by (simp add: recInv_def)



text \<open>C4. One reconcile moves an experiment at most one step along the phase machine (or aborts it),
  leaves its spec alone, removes the resource only when its deletion was requested, and changes no
  lock but its own: it takes the lock only while pending, and gives it up only once the stored
  experiment is terminal or being deleted.\<close>

theorem reconcile_phase_step:
  assumes "controller env vw expired" and "recInv (vw w)" and "run_state (Reconcile env) w = (r, w')"
    and "aCR (vw w) = Some e"
  shows "(case aCR (vw w') of
            None \<Rightarrow> exDeleting e
          | Some e' \<Rightarrow> phaseStep (phaseOf e) (phaseOf e') \<and> exSpec e' = exSpec e)
       \<and> lockStep e (vw w) (vw w')"
proof -
  have "good (vw w) (vw w')"
    using controller.wp_Reconcile [OF assms(1,2)] assms(3) by (simp add: wp_def)
  then show ?thesis using assms(4) by (auto simp: good_def crStep_def split: option.splits)
qed

lemma phaseStep_notEvaluating:
  "phaseStep p q \<Longrightarrow> p \<noteq> PhaseEvaluating \<Longrightarrow> q \<noteq> PhaseEvaluating"
  by (auto simp: phaseStep_def)

lemma reach_induct_step:
  assumes "controller env vw expired" and "reach env vw w0 w" and "recInv (vw w0)"
    and "\<And>e. aCR (vw w0) = Some e \<Longrightarrow> P (phaseOf e)"
    and "\<And>p q. phaseStep p q \<Longrightarrow> P p \<Longrightarrow> P q"
    and "aCR (vw w) = Some e"
  shows "P (phaseOf e)"
proof -
  have "\<forall>e. aCR (vw w) = Some e \<longrightarrow> P (phaseOf e)"
    using assms(2)
  proof induction
    case reach_start
    then show ?case using assms(4) by blast
  next
    case (reach_reconcile w r w')
    have "recInv (vw w)" using controller_reach_inv [OF assms(1) reach_reconcile(1) assms(3)] .
    then have "good (vw w) (vw w')"
      using controller.wp_Reconcile [OF assms(1), of w] reach_reconcile(2) by (simp add: wp_def)
    then show ?case using reach_reconcile(3) assms(5)
      by (auto simp: good_def crStep_def split: option.splits)
  next
    case (reach_env w w')
    then show ?case by (auto simp: envStep_def split: option.splits)
  qed
  then show ?thesis using assms(6) by blast
qed

text \<open>The phase \<open>Evaluating\<close> is never persisted: the status of an experiment passes from
  \<open>SteadyStatePost\<close> to \<open>Complete\<close> in one write, so the crash recovery of \<open>reconcileEvaluate\<close> is
  not reachable.\<close>

theorem evaluating_never_persisted:
  assumes "controller env vw expired" and "freshCR (vw w0)" and "reach env vw w0 w"
    and "aCR (vw w) = Some e"
  shows "phaseOf e \<noteq> PhaseEvaluating"
  by (rule reach_induct_step [OF assms(1,3) freshCR_inv [OF assms(2)] _ _ assms(4)])
     (use assms(2) phaseStep_notEvaluating in \<open>auto simp: freshCR_def\<close>)


section \<open>Timing of the observation\<close>

text \<open>When the fault, not yet reverted, is due for its revert.\<close>

definition revertDeadline :: "chaosExperiment \<Rightarrow> duration" where
  "revertDeadline e = (if injTTL (spInjection (exSpec e)) > 0 then injTTL (spInjection (exSpec e))
     else ResolvedRecoveryTimeout e)"

text \<open>The observation phase waits, and touches nothing while it waits: a fault with a TTL stays
  active for its full TTL, one without for the recovery timeout; after the revert the controller
  waits a full recovery timeout, counted from the revert, before the post-check. The next reconcile
  is scheduled after at most 30 seconds and never later than the end of the wait.\<close>

theorem observe_waits:
  assumes "stInjectionStartedAt (exStatus e) = Some started"
  shows "(stFaultRevertedAt (exStatus e) = None \<and> rNow env w - started < revertDeadline e \<longrightarrow>
           (\<exists>d. run_state (reconcileObserve env e) w = ((d, None), w) \<and> 0 < d \<and>
                d \<le> maxObserveRequeue \<and> rNow env w + d \<le> started + revertDeadline e))
       \<and> (\<forall>r. stFaultRevertedAt (exStatus e) = Some r \<and> rNow env w - r < ResolvedRecoveryTimeout e \<longrightarrow>
           (\<exists>d. run_state (reconcileObserve env e) w = ((d, None), w) \<and> 0 < d \<and>
                d \<le> maxObserveRequeue \<and> rNow env w + d \<le> r + ResolvedRecoveryTimeout e))"
  using assms
  by (auto simp: reconcileObserve_def Let_def revertDeadline_def cappedRequeue_def
      maxObserveRequeue_def second_def)

text \<open>Conversely the controller enters the post-check only when the recovery window is over:
  from any state in which the fault was reverted, the phase \<open>SteadyStatePost\<close> is stored only if at
  least the recovery timeout has passed since the revert, and without another revert or injection.\<close>

theorem postcheck_after_window:
  assumes "stInjectionStartedAt (exStatus e) = Some started" and "stFaultRevertedAt (exStatus e) = Some r"
  shows "run_state (reconcileObserve env e) w =
    (if ResolvedRecoveryTimeout e \<le> rNow env w - r
     then run_state (statusUpdateThen env (setStatus (\<lambda>s. s\<lparr>stPhase := PhaseSteadyStatePost\<rparr>) e)
                      (\<lambda>_. ret immediateRequeue None)) w
     else ((cappedRequeue (ResolvedRecoveryTimeout e - (rNow env w - r)), None), w))"
  using assms by (simp add: reconcileObserve_def Let_def)

text \<open>The lease that the controller asks for covers the whole run: for TTL and recovery timeout
  within the validated bounds the conversion to 32-bit seconds does not wrap, and the lease lasts at
  least the TTL plus two recovery timeouts, less the truncated fraction of a second.\<close>

theorem lease_covers_run:
  assumes "injTTL (spInjection (exSpec e)) \<le> MaxInjectionTTL"
    and "hypRecoveryTimeout (spHypothesis (exSpec e)) \<le> MaxRecoveryTimeout"
  shows "leaseDurationFor e < leaseSeconds (leaseDurationFor e) * second + second
       \<and> leaseSeconds (leaseDurationFor e) \<le> int32_max
       \<and> (0 < injTTL (spInjection (exSpec e)) \<longrightarrow>
            leaseDurationFor e = injTTL (spInjection (exSpec e)) + 2 * ResolvedRecoveryTimeout e)"
proof -
  define R where "R = ResolvedRecoveryTimeout e"
  have rt: "0 < R" "R \<le> MaxRecoveryTimeout"
    using ResolvedRecoveryTimeout_le [OF assms(2)] by (simp_all add: R_def)
  have d: "0 < leaseDurationFor e" "leaseDurationFor e \<le> 10800 * second"
    using rt assms(1) unfolding leaseDurationFor_def Let_def R_def [symmetric]
    by (simp_all add: MaxInjectionTTL_def MaxRecoveryTimeout_def second_def)
  have s: "durationSeconds32 (leaseDurationFor e) = leaseDurationFor e div second"
  proof -
    have "leaseDurationFor e div second \<le> 10800" "0 \<le> leaseDurationFor e div second"
      using d by (auto simp: second_def pos_imp_zdiv_nonneg_iff)
    then show ?thesis using d(1)
      by (simp add: durationSeconds32_def signed_take_bit_int_eq_self)
  qed
  have "leaseDurationFor e < leaseDurationFor e div second * second + second"
    by (simp add: second_def)
  moreover have "leaseDurationFor e div second \<le> 10800" using d by (simp add: second_def)
  ultimately show ?thesis
    using d(1) unfolding leaseSeconds_def s DefaultLeaseDurationSeconds_def int32_max_def
    by (auto simp: leaseDurationFor_def Let_def second_def)
qed

section \<open>Branches that deserve care\<close>

text \<open>When the lease check before the revert fails, the controller aborts, and the abort reverts
  the fault, even if the lock has meanwhile passed to another experiment.\<close>

theorem abort_reverts_after_lost_lease:
  assumes "phaseOf e = PhaseObserving"
    and "stInjectionStartedAt (exStatus e) = Some started" and "stFaultRevertedAt (exStatus e) = None"
    and "injTTL (spInjection (exSpec e)) = 0" and "revertDeadline e \<le> rNow env w - started"
    and "rRenew env (tgtOperator (spTarget (exSpec e))) (exName e) w = (Some err, w1)"
  shows "run_state (reconcileObserve env e) w =
    (case rRevert env e w1 of (r, w2) \<Rightarrow>
       run_state (abortFinish env e (Msg ''pre-revert lease check failed: %v'' [AText err])
         (abortRevertError r)) w2)"
  using assms by (simp add: reconcileObserve_def Let_def revertDeadline_def renew_def abort_def revert_def
      split: prod.split)

text \<open>Deleting an experiment before its injection does not release its lock: without the
  cleanup finalizer the controller leaves the world as it is.\<close>

theorem deletion_without_finalizer:
  assumes "rGet env w = (Inr e, w1)" and "exDeleting e" and "\<not> hasFinalizer e"
  shows "run_state (Reconcile env) w = ((0, None), w1)"
  using assms by (simp add: Reconcile_def handleDeletion_def)

section \<open>Concrete runs\<close>

definition demoSpec :: experimentSpec where
  "demoSpec = \<lparr>
     spTarget = \<lparr>tgtOperator = ''kserve'', tgtComponent = ''controller'', tgtResource = ''''\<rparr>,
     spSteadyState = \<lparr>ssChecks = [], ssTimeout = 0\<rparr>,
     spInjection = \<lparr>injType = PodKill, injParams = [''labelSelector'' \<mapsto> ''app=x''], injCount = 1,
       injTTL = 0, injDanger = DangerUnset\<rparr>,
     spBlastRadius = \<lparr>brMaxPodsAffected = 1, brAllowedNamespaces = [''ns1''],
       brForbiddenResources = [], brAllowDangerous = False, brDryRun = False\<rparr>,
     spHypothesis = \<lparr>hypDescription = '''', hypRecoveryTimeout = 60 * second\<rparr>, spTier = 1\<rparr>"

definition demoExp :: chaosExperiment where
  "demoExp = \<lparr>exName = ''exp'', exNamespace = ''ns1'', exGeneration = 1, exDeleting = False,
     exFinalizers = [], exSpec = demoSpec, exStatus = freshStatus\<rparr>"

definition ctlStart :: "chaosExperiment \<Rightarrow> bool list \<Rightarrow> ctlWorld" where
  "ctlStart e script = \<lparr>cwAbs = \<lparr>aCR = Some e, aFault = False, aInjections = 0, aGaveUp = False,
     aHolder = NewLocalExperimentLock\<rparr>, cwNow = 0, cwScript = script\<rparr>"

text \<open>Time passes, then the controller reconciles.\<close>

definition tickReconcile :: "duration \<Rightarrow> ctlWorld \<Rightarrow> ctlWorld" where
  "tickReconcile d w = snd (run_state (Reconcile ctlEnv) (w\<lparr>cwNow := cwNow w + d\<rparr>))"

definition ctlRun :: "duration list \<Rightarrow> ctlWorld \<Rightarrow> ctlWorld" where
  "ctlRun ds w = fold tickReconcile ds w"

lemma reach_ctlRun: "reach ctlEnv cwAbs w (ctlRun ds w)"
proof -
  have *: "reach ctlEnv cwAbs w0 w \<Longrightarrow> reach ctlEnv cwAbs w0 (fold tickReconcile ds w)" for w0 w
  proof (induction ds arbitrary: w)
    case Nil
    then show ?case by simp
  next
    case (Cons d ds)
    have "envStep (cwAbs w) (cwAbs (w\<lparr>cwNow := cwNow w + d\<rparr>))"
      by (simp add: envStep_def split: option.split)
    then have "reach ctlEnv cwAbs w0 (w\<lparr>cwNow := cwNow w + d\<rparr>)" using Cons.prems by (rule reach_env [rotated])
    then have "reach ctlEnv cwAbs w0 (tickReconcile d w)"
      unfolding tickReconcile_def by (rule reach_reconcile [OF _ surjective_pairing])
    then show ?case using Cons.IH by simp
  qed
  show ?thesis unfolding ctlRun_def by (rule * [OF reach_start])
qed

lemma fresh_demo: "freshCR (cwAbs (ctlStart demoExp script))"
  by (simp add: freshCR_def ctlStart_def demoExp_def freshStatus_def)

lemmas demo_simps = ctlStart_def demoExp_def demoSpec_def freshStatus_def NewLocalExperimentLock_def

lemmas handler_defs = Reconcile_def dispatch_def reconcilePending_def reconcilePreCheck_def
  reconcileInject_def injectNow_def reconcileObserve_def reconcilePostCheck_def doEvaluate_def
  terminalCleanup_def backfillAborted_def handleDeletion_def abort_def abortFinish_def
  statusUpdateThen_def updateThen_def statusUpdate_def update_def release_def revert_def renew_def

lemmas emit_defs = emit_def emitExperimentStarted_def emitPreCheckComplete_def
  emitPostCheckComplete_def emitFaultInjected_def emitInjectionFailed_def emitFaultReverted_def
  emitRevertFailed_def emitLeaseRenewalFailed_def emitVerdictReached_def emitExperimentComplete_def
  emitObserverFindings_def emitRecoveryDetected_def emitExperimentAborted_def emitTTLExceeded_def
  emitLockContention_def emitSpecMutated_def emitCleanupError_def

lemmas ctl_defs = ctlEnv_def ctlWrite_def ctlStatusWrite_def ctlLock_def fails_def onAbs_def
  localAcquire_def localRenew_def localRelease_def

lemmas run_simps = ctlRun_def tickReconcile_def handler_defs emit_defs ctl_defs demo_simps Let_def
  setStatus_def setCondition_def hasFinalizer_def addFinalizer_def removeFinalizer_def
  cleanupFinalizer_def passedRes_def

definition freshExp :: "string \<Rightarrow> string \<Rightarrow> int \<Rightarrow> experimentSpec \<Rightarrow> chaosExperiment" where
  "freshExp name ns g sp = \<lparr>exName = name, exNamespace = ns, exGeneration = g, exDeleting = False,
     exFinalizers = [], exSpec = sp, exStatus = freshStatus\<rparr>"

text \<open>What the steps of a run without failures need to know about the world.\<close>

definition healthyAt ::
  "ctlWorld \<Rightarrow> chaosExperiment \<Rightarrow> experimentSpec \<Rightarrow> experimentPhase \<Rightarrow> bool \<Rightarrow> nat \<Rightarrow> bool" where
  "healthyAt w e sp p f n =
     (cwScript w = [] \<and> aCR (cwAbs w) = Some e \<and> exSpec e = sp \<and> phaseOf e = p \<and>
      \<not> exDeleting e \<and> stObservedGeneration (exStatus e) \<in> {0, exGeneration e} \<and>
      aFault (cwAbs w) = f \<and> aInjections (cwAbs w) = n \<and>
      aHolder (cwAbs w) = (if p \<in> {PhaseUnset, PhaseComplete} then Map.empty
        else [tgtOperator (spTarget sp) \<mapsto> exName e]))"

lemma healthy_pending:
  assumes "healthyAt w e sp PhaseUnset False 0" and "exFinalizers e = []"
    and "stInjectionStartedAt (exStatus e) = None" "stFaultRevertedAt (exStatus e) = None"
      "stPostCheckStartedAt (exStatus e) = None"
  shows "\<exists>e'. healthyAt (tickReconcile 0 w) e' sp PhaseSteadyStatePre False 0 \<and> exFinalizers e' = [] \<and>
    stInjectionStartedAt (exStatus e') = None \<and> stFaultRevertedAt (exStatus e') = None \<and>
    stPostCheckStartedAt (exStatus e') = None"
  using assms by (auto simp: healthyAt_def run_simps)

lemma healthy_precheck:
  assumes "healthyAt w e sp PhaseSteadyStatePre False 0" and "exFinalizers e = []"
    and "stInjectionStartedAt (exStatus e) = None" "stFaultRevertedAt (exStatus e) = None"
      "stPostCheckStartedAt (exStatus e) = None"
  shows "\<exists>e'. healthyAt (tickReconcile 0 w) e' sp PhaseInjecting False 0 \<and> exFinalizers e' = [] \<and>
    stInjectionStartedAt (exStatus e') = None \<and> stFaultRevertedAt (exStatus e') = None \<and>
    stPostCheckStartedAt (exStatus e') = None"
  using assms by (auto simp: healthyAt_def run_simps)

lemma healthy_inject:
  assumes "healthyAt w e sp PhaseInjecting False 0" and "exFinalizers e = []"
    and "stInjectionStartedAt (exStatus e) = None" "stFaultRevertedAt (exStatus e) = None"
      "stPostCheckStartedAt (exStatus e) = None"
  shows "\<exists>e'. healthyAt (tickReconcile 0 w) e' sp PhaseObserving True 1 \<and>
    exFinalizers e' = [cleanupFinalizer] \<and>
    stInjectionStartedAt (exStatus e') = Some (cwNow (tickReconcile 0 w)) \<and>
    stFaultRevertedAt (exStatus e') = None \<and> stPostCheckStartedAt (exStatus e') = None"
  using assms by (auto simp: healthyAt_def run_simps)

lemma ResolvedRecoveryTimeout_spec:
  "exSpec e' = exSpec e \<Longrightarrow> ResolvedRecoveryTimeout e' = ResolvedRecoveryTimeout e"
  by (simp add: ResolvedRecoveryTimeout_def)

lemma revertDeadline_spec: "exSpec e' = exSpec e \<Longrightarrow> revertDeadline e' = revertDeadline e"
  by (simp add: revertDeadline_def ResolvedRecoveryTimeout_def)

lemma healthy_revert:
  assumes "healthyAt w e sp PhaseObserving True 1" and "exFinalizers e = [cleanupFinalizer]"
    and "stInjectionStartedAt (exStatus e) = Some (cwNow w)" "stFaultRevertedAt (exStatus e) = None"
      "stPostCheckStartedAt (exStatus e) = None" and "d = revertDeadline e"
  shows "\<exists>e'. healthyAt (tickReconcile d w) e' sp PhaseObserving False 1 \<and>
    exFinalizers e' = [cleanupFinalizer] \<and> stInjectionStartedAt (exStatus e') = Some (cwNow w) \<and>
    stFaultRevertedAt (exStatus e') = Some (cwNow (tickReconcile d w)) \<and>
    stPostCheckStartedAt (exStatus e') = None"
  using assms
  by (cases "injTTL (spInjection (exSpec e)) > 0")
     (auto simp: healthyAt_def run_simps revertDeadline_def ResolvedRecoveryTimeout_def)

lemma healthy_window:
  assumes "healthyAt w e sp PhaseObserving False 1" and "exFinalizers e = [cleanupFinalizer]"
    and "stInjectionStartedAt (exStatus e) = Some t" "stFaultRevertedAt (exStatus e) = Some (cwNow w)"
      "stPostCheckStartedAt (exStatus e) = None" and "d = ResolvedRecoveryTimeout e"
  shows "\<exists>e'. healthyAt (tickReconcile d w) e' sp PhaseSteadyStatePost False 1 \<and>
    exFinalizers e' = [cleanupFinalizer] \<and> stPostCheckStartedAt (exStatus e') = None"
  using assms by (auto simp: healthyAt_def run_simps ResolvedRecoveryTimeout_def)

lemma healthy_barrier:
  assumes "healthyAt w e sp PhaseSteadyStatePost False 1" and "exFinalizers e = [cleanupFinalizer]"
    and "stPostCheckStartedAt (exStatus e) = None"
  shows "\<exists>e'. healthyAt (tickReconcile 0 w) e' sp PhaseSteadyStatePost False 1 \<and>
    exFinalizers e' = [cleanupFinalizer] \<and> stPostCheckStartedAt (exStatus e') \<noteq> None"
  using assms by (auto simp: healthyAt_def run_simps)

lemma healthy_verdict:
  "evVerdict (EvaluateFromFindings 10 [steadyPassed] h) = Resilient"
  by (simp add: EvaluateFromFindings_verdict steadyFinding_def steadyPassed_def passedCheck_def
      collateralFailures_def maxOf_def)

lemma healthy_recovery: "evRecoveryTime (EvaluateFromFindings m [steadyPassed] h) = 0"
  by (simp add: EvaluateFromFindings_def steadyFinding_def steadyPassed_def aggregateStep_def
      split: prod.split)

lemma healthy_evaluate:
  assumes "healthyAt w e sp PhaseSteadyStatePost False 1" and "exFinalizers e = [cleanupFinalizer]"
    and "stPostCheckStartedAt (exStatus e) \<noteq> None"
  shows "\<exists>e'. healthyAt (tickReconcile 0 w) e' sp PhaseComplete False 1 \<and>
    exFinalizers e' = [cleanupFinalizer] \<and> stVerdict (exStatus e') = Resilient"
  using assms by (auto simp: healthyAt_def run_simps healthy_verdict healthy_recovery)

lemma healthy_cleanup:
  assumes "healthyAt w e sp PhaseComplete False 1" and "exFinalizers e = [cleanupFinalizer]"
    and "stVerdict (exStatus e) = Resilient"
  shows "\<exists>e'. aCR (cwAbs (tickReconcile 0 w)) = Some e' \<and> phaseOf e' = PhaseComplete \<and>
    exFinalizers e' = [] \<and> stVerdict (exStatus e') = Resilient \<and>
    \<not> aFault (cwAbs (tickReconcile 0 w)) \<and> aInjections (cwAbs (tickReconcile 0 w)) = 1 \<and>
    aHolder (cwAbs (tickReconcile 0 w)) = Map.empty"
  using assms by (auto simp: healthyAt_def run_simps)

lemma healthy_injected:
  "\<exists>e. healthyAt (ctlRun [0, 0, 0] (ctlStart (freshExp name ns g sp) [])) e sp PhaseObserving True 1 \<and>
    exFinalizers e = [cleanupFinalizer] \<and>
    stInjectionStartedAt (exStatus e) =
      Some (cwNow (ctlRun [0, 0, 0] (ctlStart (freshExp name ns g sp) []))) \<and>
    stFaultRevertedAt (exStatus e) = None \<and> stPostCheckStartedAt (exStatus e) = None"
proof -
  let ?e = "freshExp name ns g sp"
  have "healthyAt (ctlStart ?e []) ?e sp PhaseUnset False 0"
    by (simp add: healthyAt_def freshExp_def demo_simps)
  from healthy_pending [OF this] obtain e1 where
    e1: "healthyAt (tickReconcile 0 (ctlStart ?e [])) e1 sp PhaseSteadyStatePre False 0"
      "exFinalizers e1 = []" "stInjectionStartedAt (exStatus e1) = None"
      "stFaultRevertedAt (exStatus e1) = None" "stPostCheckStartedAt (exStatus e1) = None"
    by (auto simp: freshExp_def freshStatus_def)
  from healthy_precheck [OF e1] obtain e2 where
    e2: "healthyAt (ctlRun [0, 0] (ctlStart ?e [])) e2 sp PhaseInjecting False 0"
      "exFinalizers e2 = []" "stInjectionStartedAt (exStatus e2) = None"
      "stFaultRevertedAt (exStatus e2) = None" "stPostCheckStartedAt (exStatus e2) = None"
    by (auto simp: ctlRun_def)
  from healthy_inject [OF e2] show ?thesis by (simp add: ctlRun_def)
qed

lemma healthy_completed:
  assumes "e = freshExp name ns g sp"
  shows "\<exists>e'. healthyAt (ctlRun [0, 0, 0, revertDeadline e, ResolvedRecoveryTimeout e, 0, 0] (ctlStart e []))
      e' sp PhaseComplete False 1 \<and>
    exFinalizers e' = [cleanupFinalizer] \<and> stVerdict (exStatus e') = Resilient"
proof -
  define w3 where "w3 = ctlRun [0, 0, 0] (ctlStart e [])"
  from healthy_injected [of name ns g sp, folded assms, folded w3_def] obtain e3 where
    e3: "healthyAt w3 e3 sp PhaseObserving True 1" "exFinalizers e3 = [cleanupFinalizer]"
      "stInjectionStartedAt (exStatus e3) = Some (cwNow w3)"
      "stFaultRevertedAt (exStatus e3) = None" "stPostCheckStartedAt (exStatus e3) = None" by blast
  have sp3: "exSpec e3 = sp" "exSpec e = sp"
    using e3(1) by (simp_all add: healthyAt_def freshExp_def assms)
  define w4 where "w4 = tickReconcile (revertDeadline e) w3"
  have d: "revertDeadline e = revertDeadline e3" using sp3 by (intro revertDeadline_spec) simp
  from healthy_revert [OF e3 d] obtain e4 where
    e4: "healthyAt w4 e4 sp PhaseObserving False 1" "exFinalizers e4 = [cleanupFinalizer]"
      "stInjectionStartedAt (exStatus e4) = Some (cwNow w3)"
      "stFaultRevertedAt (exStatus e4) = Some (cwNow w4)" "stPostCheckStartedAt (exStatus e4) = None"
    by (auto simp: w4_def)
  define w5 where "w5 = tickReconcile (ResolvedRecoveryTimeout e) w4"
  have r: "ResolvedRecoveryTimeout e = ResolvedRecoveryTimeout e4"
    using sp3(2) e4(1) by (intro ResolvedRecoveryTimeout_spec) (simp add: healthyAt_def)
  from healthy_window [OF e4 r] obtain e5 where
    e5: "healthyAt w5 e5 sp PhaseSteadyStatePost False 1" "exFinalizers e5 = [cleanupFinalizer]"
      "stPostCheckStartedAt (exStatus e5) = None"
    by (auto simp: w5_def)
  from healthy_barrier [OF e5] obtain e6 where
    e6: "healthyAt (tickReconcile 0 w5) e6 sp PhaseSteadyStatePost False 1"
      "exFinalizers e6 = [cleanupFinalizer]" "stPostCheckStartedAt (exStatus e6) \<noteq> None" by blast
  from healthy_evaluate [OF e6] show ?thesis by (simp add: ctlRun_def w3_def w4_def w5_def)
qed


section \<open>Witnesses\<close>

theorem injected_at_most_once_witness:
  "aInjections (cwAbs (ctlRun [0, 0, 0, 60 * second, 0] (ctlStart demoExp []))) \<le> 1"
  by (rule injected_at_most_once [OF ctl.controller_axioms fresh_demo reach_ctlRun])

lemma demo_fresh: "demoExp = freshExp ''exp'' ''ns1'' 1 demoSpec"
  by (simp add: demoExp_def freshExp_def)


lemma demo_start [simp]: "aCR (cwAbs (ctlStart e script)) = Some e"
  by (simp add: ctlStart_def)


theorem reconcile_phase_step_witness:
  "lockStep demoExp (cwAbs (ctlStart demoExp []))
     (cwAbs (snd (run_state (Reconcile ctlEnv) (ctlStart demoExp []))))"
  using reconcile_phase_step [OF ctl.controller_axioms freshCR_inv [OF fresh_demo] surjective_pairing
      demo_start] by blast

theorem evaluating_never_persisted_witness:
  "phaseOf demoExp \<noteq> PhaseEvaluating"
  by (rule evaluating_never_persisted [OF ctl.controller_axioms fresh_demo reach_start demo_start])

definition doneExp :: chaosExperiment where
  "doneExp = demoExp\<lparr>exStatus := freshStatus\<lparr>stPhase := PhaseComplete\<rparr>\<rparr>"


definition observingExp :: chaosExperiment where
  "observingExp = demoExp\<lparr>exFinalizers := [cleanupFinalizer], exStatus := freshStatus
     \<lparr>stPhase := PhaseObserving, stInjectionStartedAt := Some 0, stObservedGeneration := 1\<rparr>\<rparr>"

lemma observing_simps:
  "stInjectionStartedAt (exStatus observingExp) = Some 0"
  "stFaultRevertedAt (exStatus observingExp) = None" "phaseOf observingExp = PhaseObserving"
  "injTTL (spInjection (exSpec observingExp)) = 0"
  "revertDeadline observingExp = 60 * second" "ResolvedRecoveryTimeout observingExp = 60 * second"
  by (simp_all add: observingExp_def demo_simps revertDeadline_def ResolvedRecoveryTimeout_def second_def)

theorem observe_waits_witness:
  "\<exists>d. run_state (reconcileObserve ctlEnv observingExp) (ctlStart observingExp []) =
     ((d, None), ctlStart observingExp []) \<and> d \<le> maxObserveRequeue"
  using observe_waits [of observingExp 0 ctlEnv "ctlStart observingExp []"]
  by (auto simp: observing_simps ctlStart_def ctlEnv_def second_def)

definition revertedExp :: chaosExperiment where
  "revertedExp = observingExp\<lparr>exStatus := (exStatus observingExp)\<lparr>stFaultRevertedAt := Some 0\<rparr>\<rparr>"

theorem postcheck_after_window_witness:
  "run_state (reconcileObserve ctlEnv revertedExp) (ctlStart revertedExp []) =
     ((30 * second, None), ctlStart revertedExp [])"
  using postcheck_after_window [of revertedExp 0 0 ctlEnv "ctlStart revertedExp []"]
  by (simp add: revertedExp_def observing_simps ctlStart_def ctlEnv_def second_def cappedRequeue_def
      maxObserveRequeue_def)

theorem lease_covers_run_witness:
  "leaseDurationFor demoExp < leaseSeconds (leaseDurationFor demoExp) * second + second"
  using lease_covers_run [of demoExp]
  by (simp add: demo_simps MaxInjectionTTL_def MaxRecoveryTimeout_def second_def)

text \<open>The lock was taken by another experiment while the fault was active.\<close>

definition lostWorld :: ctlWorld where
  "lostWorld = \<lparr>cwAbs = \<lparr>aCR = Some observingExp, aFault = True, aInjections = 1, aGaveUp = False,
     aHolder = [''kserve'' \<mapsto> ''other'']\<rparr>, cwNow = 60 * second, cwScript = []\<rparr>"

theorem abort_reverts_after_lost_lease_witness:
  "\<not> aFault (cwAbs (snd (run_state (reconcileObserve ctlEnv observingExp) lostWorld))) \<and>
   aHolder (cwAbs (snd (run_state (reconcileObserve ctlEnv observingExp) lostWorld))) ''kserve''
     = Some ''other''"
proof -
  have op: "tgtOperator (spTarget (exSpec observingExp)) = ''kserve''" "exName observingExp = ''exp''"
    by (simp_all add: observingExp_def demo_simps)
  have "rRenew ctlEnv ''kserve'' ''exp'' lostWorld =
    (Some (Errorf ''lock held by %q, renew requested by %q: %w''
               [AStr ''other'', AStr ''exp'', AErr ErrHolderMismatch]), lostWorld)"
    by (simp add: lostWorld_def ctl_defs)
  from abort_reverts_after_lost_lease [OF observing_simps(3,1,2,4) _ this [folded op]]
  show ?thesis
    by (simp add: observing_simps lostWorld_def ctl_defs abortFinish_def emit_defs statusUpdateThen_def
        statusUpdate_def release_def Let_def setStatus_def setCondition_def op)
qed

definition deletedExp :: chaosExperiment where
  "deletedExp = demoExp\<lparr>exDeleting := True, exStatus := freshStatus\<lparr>stPhase := PhaseSteadyStatePre\<rparr>\<rparr>"

theorem deletion_without_finalizer_witness:
  "let w = onAbs (\<lambda>s. s\<lparr>aHolder := [''kserve'' \<mapsto> ''exp'']\<rparr>) (ctlStart deletedExp [])
   in snd (run_state (Reconcile ctlEnv) w) = w"
  using deletion_without_finalizer [of ctlEnv
      "onAbs (\<lambda>s. s\<lparr>aHolder := [''kserve'' \<mapsto> ''exp'']\<rparr>) (ctlStart deletedExp [])" deletedExp
      "onAbs (\<lambda>s. s\<lparr>aHolder := [''kserve'' \<mapsto> ''exp'']\<rparr>) (ctlStart deletedExp [])"]
  by (simp add: ctlEnv_def fails_def ctlStart_def onAbs_def deletedExp_def demo_simps hasFinalizer_def)

text \<open>The price of a best-effort cleanup: when the revert fails in the terminal cleanup of an
  aborted experiment, the finalizer is removed and the lock released all the same, and the fault
  stays active.\<close>

theorem aborted_cleanup_gives_up:
  "let e = observingExp\<lparr>exStatus := (exStatus observingExp)\<lparr>stPhase := PhaseAborted\<rparr>\<rparr>;
       w = \<lparr>cwAbs = \<lparr>aCR = Some e, aFault = True, aInjections = 1, aGaveUp = False,
              aHolder = [''kserve'' \<mapsto> ''exp'']\<rparr>, cwNow = 0, cwScript = [False, True]\<rparr>;
       s = cwAbs (snd (run_state (Reconcile ctlEnv) w))
   in aFault s \<and> aGaveUp s \<and> aHolder s = Map.empty \<and> (\<exists>e'. aCR s = Some e' \<and> \<not> hasFinalizer e')"
  by (simp add: run_simps observingExp_def)

end
