(* ===== verification/Report.thy ===== *)
theory Report
  imports Evaluator
begin

text \<open>
  The report of an experiment (\<open>pkg/reporter/json.go\<close>), the summary of several reports
  (\<open>reporter.go\<close>) and the JUnit suite built from them (\<open>junit.go\<close>). Encoding the values as JSON,
  XML or HTML is left to the libraries that the reporters call. Seconds in floating point are
  the duration they are computed from; the pass rate is the quotient.
\<close>

record collateralReport =
  clOperator :: string
  clComponent :: string
  clPassed :: bool
  clChecks :: "checkResult option"

record injectionReport =
  irType :: injectionType
  irTargets :: "string list"
  irTimestamp :: timestamp

record experimentReport =
  rpExperiment :: string
  rpTimestamp :: timestamp
  rpTier :: int
  rpTarget :: targetSpec
  rpInjection :: injectionReport
  rpEvaluation :: evaluationResult
  rpPre :: checkResult
  rpPost :: checkResult
  rpReconciliation :: "reconciliationResult option"
  rpCleanupError :: "goErr option"
  rpCollateral :: "collateralReport list"

section \<open>Summary\<close>

record reportSummary =
  smTotal :: int
  smResilient :: int
  smDegraded :: int
  smFailed :: int
  smInconclusive :: int
  smPassRate :: rat
  smTotalTime :: duration

definition summaryStep :: "experimentReport \<Rightarrow> reportSummary \<Rightarrow> reportSummary" where
  "summaryStep r s =
     (let s1 = s\<lparr>smTotalTime := smTotalTime s + evRecoveryTime (rpEvaluation r)\<rparr>
      in case evVerdict (rpEvaluation r) of
           Resilient \<Rightarrow> s1\<lparr>smResilient := smResilient s + 1\<rparr>
         | Degraded \<Rightarrow> s1\<lparr>smDegraded := smDegraded s + 1\<rparr>
         | Failed \<Rightarrow> s1\<lparr>smFailed := smFailed s + 1\<rparr>
         | Inconclusive \<Rightarrow> s1\<lparr>smInconclusive := smInconclusive s + 1\<rparr>
         | VerdictUnset \<Rightarrow> s1)"

definition ComputeSummary :: "experimentReport list \<Rightarrow> reportSummary" where
  "ComputeSummary reports =
     (let s = fold summaryStep reports
        \<lparr>smTotal = int (length reports), smResilient = 0, smDegraded = 0, smFailed = 0,
         smInconclusive = 0, smPassRate = 0, smTotalTime = 0\<rparr>
      in if smTotal s > 0
         then s\<lparr>smPassRate := of_int (smResilient s) / of_int (smTotal s)\<rparr> else s)"

section \<open>JUnit\<close>

datatype junitOutcome =
    JUnitPassed
  | JUnitFailure string string message
  | JUnitSkipped message

record junitTestCase =
  jcName :: string
  jcClassName :: message
  jcTime :: duration
  jcOutcome :: junitOutcome
  jcSystemErr :: "goErr option"

record junitTestSuite =
  jsName :: string
  jsTests :: int
  jsFailures :: int
  jsTime :: duration
  jsCases :: "junitTestCase list"

definition junitClassName :: "experimentReport \<Rightarrow> message" where
  "junitClassName r =
     (if rpTier r > 0 then Msg ''chaos.T%d.%s'' [AInt (rpTier r), AStr (tgtComponent (rpTarget r))]
      else Msg ''chaos.%s'' [AStr (tgtComponent (rpTarget r))])"

definition prefixMessage :: "string \<Rightarrow> message \<Rightarrow> message" where
  "prefixMessage p m = (case m of Msg f as \<Rightarrow> Msg (p @ f) as)"

definition junitOutcomeOf :: "evaluationResult \<Rightarrow> junitOutcome" where
  "junitOutcomeOf ev =
     (case evVerdict ev of
        Failed \<Rightarrow> JUnitFailure ''Chaos experiment failed'' ''FAILED'' (evConfidence ev)
      | Degraded \<Rightarrow> JUnitFailure ''System degraded under chaos'' ''DEGRADED'' (evConfidence ev)
      | Inconclusive \<Rightarrow> JUnitSkipped (prefixMessage ''Could not establish baseline: '' (evConfidence ev))
      | _ \<Rightarrow> JUnitPassed)"

definition junitStep :: "experimentReport \<Rightarrow> junitTestSuite \<Rightarrow> junitTestSuite" where
  "junitStep r s =
     (let oc = junitOutcomeOf (rpEvaluation r);
          tc = \<lparr>jcName = rpExperiment r, jcClassName = junitClassName r,
                jcTime = evRecoveryTime (rpEvaluation r), jcOutcome = oc, jcSystemErr = rpCleanupError r\<rparr>
      in s\<lparr>jsTime := jsTime s + evRecoveryTime (rpEvaluation r),
           jsFailures := jsFailures s + (case oc of JUnitFailure _ _ _ \<Rightarrow> 1 | _ \<Rightarrow> 0),
           jsCases := jsCases s @ [tc]\<rparr>)"

definition WriteSuite :: "string \<Rightarrow> experimentReport list \<Rightarrow> junitTestSuite" where
  "WriteSuite name reports = fold junitStep reports
     \<lparr>jsName = name, jsTests = int (length reports), jsFailures = 0, jsTime = 0, jsCases = []\<rparr>"

section \<open>Lemmas\<close>

definition countVerdict :: "verdict \<Rightarrow> experimentReport list \<Rightarrow> int" where
  "countVerdict v rs = int (length (filter (\<lambda>r. evVerdict (rpEvaluation r) = v) rs))"

lemma fold_summary:
  "fold summaryStep rs s =
     s\<lparr>smResilient := smResilient s + countVerdict Resilient rs,
       smDegraded := smDegraded s + countVerdict Degraded rs,
       smFailed := smFailed s + countVerdict Failed rs,
       smInconclusive := smInconclusive s + countVerdict Inconclusive rs,
       smTotalTime := smTotalTime s + (\<Sum>r\<leftarrow>rs. evRecoveryTime (rpEvaluation r))\<rparr>"
proof (induction rs arbitrary: s)
  case (Cons r rs)
  then show ?case
    by (cases "evVerdict (rpEvaluation r)") (simp_all add: summaryStep_def countVerdict_def Let_def)
qed (simp add: countVerdict_def)

lemma fold_junit:
  "jsName (fold junitStep rs s) = jsName s \<and> jsTests (fold junitStep rs s) = jsTests s \<and>
   map jcName (jsCases (fold junitStep rs s)) = map jcName (jsCases s) @ map rpExperiment rs \<and>
   jsFailures (fold junitStep rs s) = jsFailures s + countVerdict Failed rs + countVerdict Degraded rs"
proof (induction rs arbitrary: s)
  case (Cons r rs)
  then show ?case
    by (cases "evVerdict (rpEvaluation r)")
       (simp_all add: junitStep_def junitOutcomeOf_def countVerdict_def Let_def)
qed (simp add: countVerdict_def)

lemma countVerdict_total:
  "countVerdict Resilient rs + countVerdict Degraded rs + countVerdict Failed rs +
     countVerdict Inconclusive rs + countVerdict VerdictUnset rs = int (length rs)"
proof (induction rs)
  case (Cons r rs)
  then show ?case by (cases "evVerdict (rpEvaluation r)") (simp_all add: countVerdict_def)
qed (simp add: countVerdict_def)

lemma countVerdict_Nil [simp]: "countVerdict v [] = 0"
  by (simp add: countVerdict_def)

lemma countVerdict_nonneg:  "0 \<le> countVerdict v rs"
  by (simp add: countVerdict_def)

text \<open>The two summaries of a run agree and lose nothing: the counts add up to the number of
  reports with a verdict, the pass rate lies between 0 and 1, the JUnit suite has one case per
  report in order, and its failures are the failed and the degraded experiments.\<close>

theorem summaries_agree:
  "(let s = ComputeSummary rs; j = WriteSuite name rs
    in smResilient s + smDegraded s + smFailed s + smInconclusive s + countVerdict VerdictUnset rs
         = smTotal s \<and>
       smTotal s = jsTests j \<and> jsFailures j = smFailed s + smDegraded s \<and>
       map jcName (jsCases j) = map rpExperiment rs \<and> 0 \<le> smPassRate s \<and> smPassRate s \<le> 1)"
proof -
  have le: "countVerdict Resilient rs \<le> int (length rs)"
    by (simp add: countVerdict_def length_filter_le)
  have q: "0 \<le> (of_int (countVerdict Resilient rs) :: rat) / of_int (int (length rs))"
    using countVerdict_nonneg [of Resilient rs] by simp
  have "(of_int (countVerdict Resilient rs) :: rat) \<le> of_int (int (length rs))"
    using le by (simp only: of_int_le_iff)
  then have "(of_int (countVerdict Resilient rs) :: rat) / of_int (int (length rs)) \<le> 1"
    by (cases "rs = []") (simp_all add: divide_le_eq)
  with q show ?thesis using countVerdict_total [of rs]
    by (simp add: ComputeSummary_def WriteSuite_def fold_summary fold_junit Let_def)
qed

end
