(* ===== verification/Names.thy ===== *)
theory Names
  imports ApiTypes
begin

text \<open>
  The name, label and path validators of \<open>pkg/injection/validate.go\<close> and the deny-lists it
  consults. The regular expressions of the file contain ASCII classes only, so they are
  predicates on bytes. \<open>isChaosManaged\<close> and \<open>protectedNamespace\<close> are the specifications that
  the properties use.
\<close>

named_theorems name_simps \<open>characterisations of the validators\<close>

section \<open>Patterns\<close>

definition maxNameLength :: nat where "maxNameLength = 253"

definition maxParameterValueLength :: nat where "maxParameterValueLength = 65536"

definition isAlnum :: "char \<Rightarrow> bool" where
  "isAlnum c = (isLower c \<or> isUpper c \<or> isDigit c)"

definition validNamePattern :: "string \<Rightarrow> bool" where
  "validNamePattern = edgePattern (\<lambda>c. isLower c \<or> isDigit c)
     (\<lambda>c. isLower c \<or> isDigit c \<or> c = CHR ''.'' \<or> c = CHR ''-'')"

definition validResourceNamePattern :: "string \<Rightarrow> bool" where
  "validResourceNamePattern = edgePattern isAlnum (\<lambda>c. isAlnum c \<or> c = CHR ''.'' \<or> c = CHR ''-'')"

definition validFieldPattern :: "string \<Rightarrow> bool" where
  "validFieldPattern = headPattern (\<lambda>c. isLower c \<or> isUpper c \<or> c = CHR ''_'')
     (\<lambda>c. isAlnum c \<or> c = CHR ''_'' \<or> c = CHR ''-'')"

definition validPathSegmentPattern :: "string \<Rightarrow> bool" where
  "validPathSegmentPattern = headPattern (\<lambda>c. isLower c \<or> isUpper c \<or> c = CHR ''_'')
     (\<lambda>c. isAlnum c \<or> c = CHR ''_'' \<or> c = CHR ''-'')"

definition validLabelNamePattern :: "string \<Rightarrow> bool" where
  "validLabelNamePattern = edgePattern isAlnum
     (\<lambda>c. isAlnum c \<or> c = CHR ''.'' \<or> c = CHR ''_'' \<or> c = CHR ''-'')"

definition validLabelValuePattern :: "string \<Rightarrow> bool" where
  "validLabelValuePattern s = (s = '''' \<or> validLabelNamePattern s)"

section \<open>Validators\<close>

definition validateK8sName :: "string \<Rightarrow> string \<Rightarrow> goErr option" where
  "validateK8sName paramName value = firstErr
     [failIf (length value = 0) (Errorf ''%s must not be empty'' [AStr paramName]),
      failIf (length value > maxNameLength)
        (Errorf ''%s exceeds maximum length of %d characters'' [AStr paramName, AInt (int maxNameLength)]),
      failIf (\<not> validNamePattern value)
        (Errorf ''%s %q is not a valid Kubernetes name (must match RFC 1123 DNS subdomain)''
           [AStr paramName, AStr value])]"

definition validateK8sResourceName :: "string \<Rightarrow> string \<Rightarrow> goErr option" where
  "validateK8sResourceName paramName value = firstErr
     [failIf (length value = 0) (Errorf ''%s must not be empty'' [AStr paramName]),
      failIf (length value > maxNameLength)
        (Errorf ''%s exceeds maximum length of %d characters'' [AStr paramName, AInt (int maxNameLength)]),
      failIf (\<not> validResourceNamePattern value)
        (Errorf ''%s %q is not a valid Kubernetes resource name'' [AStr paramName, AStr value])]"

definition ValidateTargetSpec :: "targetSpec \<Rightarrow> goErr option" where
  "ValidateTargetSpec target = firstErr
     [validateK8sName ''operator'' (tgtOperator target),
      validateK8sName ''component'' (tgtComponent target)]"

definition validateFieldName :: "string \<Rightarrow> string \<Rightarrow> goErr option" where
  "validateFieldName paramName value = firstErr
     [failIf (length value = 0) (Errorf ''%s must not be empty'' [AStr paramName]),
      failIf (length value > maxNameLength)
        (Errorf ''%s exceeds maximum length of %d characters'' [AStr paramName, AInt (int maxNameLength)]),
      failIf (\<not> validFieldPattern value)
        (Errorf ''%s %q is not a valid field name'' [AStr paramName, AStr value])]"

definition dangerousPaths :: "string list" where
  "dangerousPaths =
     [''apiVersion'', ''kind'', ''metadata.name'', ''metadata.namespace'', ''metadata.uid'',
      ''metadata.resourceVersion'', ''metadata.generation'', ''metadata.creationTimestamp'',
      ''metadata.deletionTimestamp'', ''metadata.deletionGracePeriodSeconds'']"

definition validateJSONPath :: "string \<Rightarrow> string \<Rightarrow> goErr option" where
  "validateJSONPath paramName path = firstErr
     [failIf (length path = 0) (Errorf ''%s must not be empty'' [AStr paramName]),
      failIf (length path > maxNameLength)
        (Errorf ''%s exceeds maximum length of %d characters'' [AStr paramName, AInt (int maxNameLength)]),
      failIf (hasPrefix path ''.'' \<or> hasSuffix path ''.'')
        (Errorf ''%s %q must not start or end with a dot'' [AStr paramName, AStr path]),
      failIf (strContains path ''..'')
        (Errorf ''%s %q contains empty segment (consecutive dots)'' [AStr paramName, AStr path]),
      firstErr (map (\<lambda>seg. failIf (\<not> validPathSegmentPattern seg)
        (Errorf ''%s segment %q is not a valid field name'' [AStr paramName, AStr seg]))
        (splitOn CHR ''.'' path)),
      failIf (path \<in> set dangerousPaths)
        (Errorf ''CRDMutation cannot target %q (resource identity field)'' [AStr path])]"

definition rejectChaosMetadataPath :: "string \<Rightarrow> goErr option" where
  "rejectChaosMetadataPath path = failIf
     (path = ''metadata'' \<or> path = ''metadata.annotations'' \<or>
      hasPrefix path ''metadata.annotations.chaos.operatorchaos.io/'' \<or>
      hasPrefix path ''metadata.labels.chaos.operatorchaos.io/'')
     (Errorf ''CRDMutation path %q targets chaos-managed metadata and cannot be mutated'' [AStr path])"

text \<open>\<open>strings.LastIndex(key, sep)\<close> of one byte, as the text before and after the last one.\<close>

definition splitLast :: "char \<Rightarrow> string \<Rightarrow> (string \<times> string) option" where
  "splitLast d key =
     (case splitFirst d (rev key) of
        (a, None) \<Rightarrow> None
      | (a, Some b) \<Rightarrow> Some (rev b, rev a))"

definition validateLabelName :: "string \<Rightarrow> goErr option" where
  "validateLabelName name = firstErr
     [failIf (length name = 0) (Errorf ''name portion must not be empty'' []),
      failIf (length name > 63) (Errorf ''name portion exceeds 63 characters'' []),
      failIf (\<not> validLabelNamePattern name)
        (Errorf ''name %q is not valid (must match [a-zA-Z0-9]([a-zA-Z0-9._-]*[a-zA-Z0-9])?)'' [AStr name])]"

definition validateLabelKey :: "string \<Rightarrow> goErr option" where
  "validateLabelKey key = firstErr
     [failIf (length key = 0) (Errorf ''must not be empty'' []),
      (case splitLast CHR ''/'' key of
         Some (pre, name) \<Rightarrow> firstErr
           [failIf (length pre = 0) (Errorf ''prefix before / must not be empty'' []),
            failIf (length pre > 253) (Errorf ''prefix exceeds 253 characters'' []),
            failIf (\<not> validNamePattern pre)
              (Errorf ''prefix %q is not a valid DNS subdomain'' [AStr pre]),
            validateLabelName name]
       | None \<Rightarrow> validateLabelName key)]"

definition validateLabelValue :: "string \<Rightarrow> goErr option" where
  "validateLabelValue value = firstErr
     [failIf (length value > 63) (Errorf ''exceeds 63 characters'' []),
      failIf (\<not> validLabelValuePattern value) (Errorf ''%q is not a valid label value'' [AStr value])]"

section \<open>Deny-lists\<close>

definition chaosManagedPrefixes :: "string list" where
  "chaosManagedPrefixes = [''chaos-rollback-'', ''chaos-result-'', ''operator-chaos-'',
     ''chaos-controller-'', ''chaos-backup-'']"

definition rejectChaosManagedResource :: "string \<Rightarrow> string \<Rightarrow> goErr option" where
  "rejectChaosManagedResource injTy name = firstErr
     (map (\<lambda>pre. failIf (hasPrefix name pre)
        (Errorf ''%s cannot target chaos-managed resource %q (prefix %q is reserved)''
           [AStr injTy, AStr name, AStr pre])) chaosManagedPrefixes)"

definition sensitiveSpecFields :: "string list" where
  "sensitiveSpecFields =
     [''replicas'', ''serviceAccountName'', ''serviceAccount'', ''hostNetwork'', ''hostPID'',
      ''hostIPC'', ''securityContext'', ''volumes'', ''containers'', ''initContainers'',
      ''nodeName'', ''nodeSelector'', ''template'', ''selector'', ''strategy'',
      ''updateStrategy'', ''affinity'', ''tolerations'', ''priorityClassName'',
      ''runtimeClassName'', ''automountServiceAccountToken'', ''dnsPolicy'',
      ''shareProcessNamespace'', ''schedulerName'']"

definition isCoreKubernetesType :: "string \<Rightarrow> bool" where
  "isCoreKubernetesType apiVersion = (apiVersion = ''v1'' \<or>
     list_ex (hasPrefix apiVersion)
       [''apps/'', ''batch/'', ''networking.k8s.io/'', ''policy/'', ''rbac.authorization.k8s.io/'',
        ''storage.k8s.io/'', ''admissionregistration.k8s.io/'', ''authentication.k8s.io/'',
        ''authorization.k8s.io/'', ''autoscaling/'', ''certificates.k8s.io/'',
        ''coordination.k8s.io/'', ''discovery.k8s.io/'', ''events.k8s.io/'',
        ''flowcontrol.apiserver.k8s.io/'', ''node.k8s.io/'', ''scheduling.k8s.io/'',
        ''apiextensions.k8s.io/'', ''apiregistration.k8s.io/'', ''route.openshift.io/''])"

definition systemCriticalConfigs :: "string list" where
  "systemCriticalConfigs =
     [''kube-root-ca.crt'', ''coredns'', ''kube-proxy'', ''cluster-info'',
      ''extension-apiserver-authentication'', ''kubeadm-config'', ''kubelet-config'',
      ''kube-apiserver'', ''scheduler-config'']"

definition systemCriticalSecrets :: "string list" where
  "systemCriticalSecrets =
     [''etcd-client'', ''apiserver-etcd-client'', ''service-account-key'', ''oauth-serving-cert'']"

definition systemCriticalConfigPrefixes :: "string list" where
  "systemCriticalConfigPrefixes = [''etcd-'', ''kube-apiserver-'', ''openshift-service-ca'']"

definition systemCriticalWebhooks :: "string list" where
  "systemCriticalWebhooks =
     [''validate-policy.kyverno.io'', ''gatekeeper-validating-webhook-configuration'',
      ''gatekeeper-mutating-webhook-configuration'', ''cert-manager-webhook'',
      ''istio-sidecar-injector'']"

definition systemCriticalBindings :: "string list" where
  "systemCriticalBindings =
     [''cluster-admin'', ''system:node'', ''system:kube-controller-manager'',
      ''system:kube-scheduler'', ''system:volume-scheduler'', ''system:kube-dns'',
      ''system:discovery'', ''system:basic-user'', ''system:public-info-viewer'']"

definition finalizerBlockForbiddenKinds :: "string list" where
  "finalizerBlockForbiddenKinds = [''Namespace'', ''Node'']"

definition ownerRefOrphanForbiddenKinds :: "string list" where
  "ownerRefOrphanForbiddenKinds = [''Namespace'', ''Node'']"

definition systemLabelPatterns :: "string list" where
  "systemLabelPatterns = [''kubernetes.io/'', ''k8s.io/'', ''node-role.kubernetes.io/'']"

definition forbiddenNamespaces :: "string list" where
  "forbiddenNamespaces = [''default'', ''kube-system'', ''kube-public'', ''kube-node-lease'']"

definition forbiddenNamespacePrefixes :: "string list" where
  "forbiddenNamespacePrefixes = [''openshift-'', ''chaos-'']"

definition controllerNamespace :: string where
  "controllerNamespace = ''operator-chaos-system''"

definition systemCriticalServices :: "string list" where
  "systemCriticalServices = [''kubernetes'', ''openshift-apiserver'', ''dns-default'', ''kube-dns'']"

definition systemCriticalServiceAccounts :: "string list" where
  "systemCriticalServiceAccounts = [''default'', ''deployer'', ''builder'', ''pipeline'']"

definition clusterScopedKinds :: "string list" where
  "clusterScopedKinds = [''Namespace'', ''Node'', ''ClusterRole'', ''ClusterRoleBinding'',
     ''CustomResourceDefinition'', ''PersistentVolume'']"

section \<open>What the validators accept\<close>

definition isK8sName :: "string \<Rightarrow> bool" where
  "isK8sName s = (length s \<le> 253 \<and> validNamePattern s)"

definition isChaosManaged :: "string \<Rightarrow> bool" where
  "isChaosManaged name = list_ex (hasPrefix name) chaosManagedPrefixes"

definition protectedNamespace :: "string \<Rightarrow> bool" where
  "protectedNamespace ns = (ns \<in> set forbiddenNamespaces \<or>
     list_ex (hasPrefix ns) forbiddenNamespacePrefixes)"

lemma validNamePattern_nonempty [simp]: "\<not> validNamePattern ''''"
  by (simp add: validNamePattern_def edgePattern_def)

lemma validateK8sName_None [name_simps]: "validateK8sName p s = None \<longleftrightarrow> isK8sName s"
  by (auto simp: validateK8sName_def isK8sName_def maxNameLength_def)

lemma rejectChaosManagedResource_None [name_simps]:
  "rejectChaosManagedResource t name = None \<longleftrightarrow> \<not> isChaosManaged name"
  by (simp add: rejectChaosManagedResource_def firstErr_map_None isChaosManaged_def list_ex_iff)

lemma denied_prefix_None [name_simps]:
  "firstErr (map (\<lambda>pre. failIf (hasPrefix name pre) (e pre)) ps) = None \<longleftrightarrow>
     \<not> list_ex (hasPrefix name) ps"
  by (simp add: firstErr_map_None list_ex_iff)

lemma validPathSegment_no_dot:
  assumes "validPathSegmentPattern seg" shows "seg \<noteq> '''' \<and> CHR ''.'' \<notin> set seg"
  using assms
  by (auto simp: validPathSegmentPattern_def headPattern_def isAlnum_def isLower_def isUpper_def
      isDigit_def list_all_iff split: list.splits)

lemma validateJSONPath_None:
  "validateJSONPath p path = None \<longleftrightarrow>
     path \<noteq> '''' \<and> length path \<le> maxNameLength \<and> \<not> hasPrefix path ''.'' \<and> \<not> hasSuffix path ''.'' \<and>
     \<not> strContains path ''..'' \<and> list_all validPathSegmentPattern (splitOn CHR ''.'' path) \<and>
     path \<notin> set dangerousPaths"
  by (auto simp: validateJSONPath_def firstErr_map_None list_all_iff)

end
