(* ===== verification/Validation.thy ===== *)
theory Validation
  imports Names
begin

text \<open>
  \<open>ValidateInjectionParams\<close> of \<open>pkg/injection/validate.go\<close>: the parameter checks of every
  injection type, in the order of the code, with the errors they return. What the code asks of
  libraries is the record \<open>paramLib\<close>: the label selector parser of apimachinery (\<open>labels.Parse\<close>,
  by the number of its requirements), \<open>encoding/json\<close> on a value of any type and on the fault
  map, and \<open>time.ParseDuration\<close>, whose arithmetic is in floating point.
\<close>

record faultEntry =
  feErrorRate :: rat
  feError :: string
  feDelay :: string
  feMaxDelay :: string

record paramLib =
  plParseSelector :: "string \<Rightarrow> goErr + nat"
  plJsonCompound :: "string \<Rightarrow> bool"
  plUnmarshalFaults :: "string \<Rightarrow> goErr + (string \<times> faultEntry) list"
  plMarshalFaults :: "(string \<times> faultEntry) list \<Rightarrow> goErr + string"
  plParseDuration :: "string \<Rightarrow> goErr + duration"

abbreviation param :: "injectionSpec \<Rightarrow> string \<Rightarrow> string" where
  "param spec k \<equiv> mget (injParams spec) k"

abbreviation hasParam :: "injectionSpec \<Rightarrow> string \<Rightarrow> bool" where
  "hasParam spec k \<equiv> injParams spec k \<noteq> None"

abbreviation highDanger :: "injectionSpec \<Rightarrow> bool" where
  "highDanger spec \<equiv> injDanger spec = DangerLevelHigh"

section \<open>Selectors\<close>

definition validateLabelSelector :: "paramLib \<Rightarrow> injectionSpec \<Rightarrow> string \<Rightarrow> goErr option" where
  "validateLabelSelector lib spec injectorName = firstErr
     [failIf (param spec ''labelSelector'' = '''')
        (Errorf ''%s requires non-empty labelSelector parameter'' [AStr injectorName]),
      (case plParseSelector lib (param spec ''labelSelector'') of
         Inl err \<Rightarrow> Some (Errorf ''invalid labelSelector %q: %w''
                            [AStr (param spec ''labelSelector''), AErr err])
       | Inr reqs \<Rightarrow> failIf (reqs = 0) (Errorf
           ''labelSelector must have at least one requirement to prevent matching all pods'' []))]"

definition validatePodKillParams :: "paramLib \<Rightarrow> injectionSpec \<Rightarrow> blastRadiusSpec \<Rightarrow> goErr option" where
  "validatePodKillParams lib spec blast =
     (let cnt = (if injCount spec \<le> 0 then 1 else injCount spec)
      in firstErr
       [failIf (cnt > brMaxPodsAffected blast)
          (Errorf ''pod kill count %d exceeds blast radius %d'' [AInt cnt, AInt (brMaxPodsAffected blast)]),
        validateLabelSelector lib spec ''PodKill''])"

definition validateNetworkPartitionParams :: "paramLib \<Rightarrow> injectionSpec \<Rightarrow> goErr option" where
  "validateNetworkPartitionParams lib spec = validateLabelSelector lib spec ''NetworkPartition''"

section \<open>Mutation of resources\<close>

definition targetField :: "injectionSpec \<Rightarrow> string" where
  "targetField spec = (if param spec ''path'' \<noteq> '''' then last (splitOn CHR ''.'' (param spec ''path''))
     else param spec ''field'')"

definition validateCRDMutationParams :: "paramLib \<Rightarrow> injectionSpec \<Rightarrow> goErr option" where
  "validateCRDMutationParams lib spec =
     (let apiVersion = param spec ''apiVersion''; kind = param spec ''kind'';
          name = param spec ''name''; value = param spec ''value'';
          hasField = param spec ''field'' \<noteq> ''''; hasPath = param spec ''path'' \<noteq> ''''
      in firstErr
       [failIf (apiVersion = '''') (Errorf ''CRDMutation requires non-empty apiVersion parameter'' []),
        failIf (kind = '''') (Errorf ''CRDMutation requires non-empty kind parameter'' []),
        failIf (kind = ''ChaosExperiment'' \<and> strContains apiVersion ''chaos.operatorchaos.io'')
          (Errorf ''CRDMutation cannot target ChaosExperiment CRs (self-modification is forbidden)'' []),
        failIf (\<not> hasParam spec ''name'') (Errorf ''CRDMutation requires name parameter'' []),
        validateK8sName ''name'' name,
        rejectChaosManagedResource ''CRDMutation'' name,
        failIf (hasField \<and> hasPath)
          (Errorf ''CRDMutation accepts either field or path parameter, not both'' []),
        failIf (\<not> hasField \<and> \<not> hasPath) (Errorf ''CRDMutation requires field or path parameter'' []),
        (if hasField then validateFieldName ''field'' (param spec ''field'') else None),
        (if hasPath then firstErr [validateJSONPath ''path'' (param spec ''path''),
           rejectChaosMetadataPath (param spec ''path'')] else None),
        failIf (\<not> hasParam spec ''value'')
          (Errorf ''CRDMutation requires value parameter (JSON value to set)'' []),
        failIf (length value > maxParameterValueLength)
          (Errorf ''CRDMutation value exceeds maximum length of %d bytes'' [AInt (int maxParameterValueLength)]),
        failIf (plJsonCompound lib value \<and> \<not> highDanger spec)
          (Errorf ''CRDMutation value must be a scalar (string, number, boolean), not a JSON object or array; set dangerLevel: high to allow complex values'' []),
        failIf (trimSpace value = ''null'' \<and> \<not> highDanger spec)
          (Errorf ''CRDMutation value of null causes field deletion via merge patch; requires dangerLevel: high'' []),
        failIf (targetField spec \<in> set sensitiveSpecFields \<and> \<not> highDanger spec)
          (Errorf ''CRDMutation targeting sensitive field %q requires dangerLevel: high''
             [AStr (targetField spec)]),
        failIf (isCoreKubernetesType apiVersion \<and> \<not> highDanger spec)
          (Errorf ''CRDMutation targeting core Kubernetes type (apiVersion=%s) requires dangerLevel: high''
             [AStr apiVersion])])"

definition rollbackSecretName :: "injectionSpec \<Rightarrow> string" where
  "rollbackSecretName spec = ''chaos-rollback-'' @ param spec ''name'' @ ''-'' @ param spec ''key''"

definition validateConfigDriftParams :: "injectionSpec \<Rightarrow> goErr option" where
  "validateConfigDriftParams spec =
     (let name = param spec ''name''; resourceType = param spec ''resourceType'';
          key = param spec ''key''
      in firstErr
       [failIf (\<not> hasParam spec ''name'') (Errorf ''ConfigDrift requires name parameter'' []),
        validateK8sName ''name'' name,
        rejectChaosManagedResource ''ConfigDrift'' name,
        (if resourceType = ''Secret'' then firstErr
           [failIf (\<not> highDanger spec) (Errorf ''ConfigDrift targeting Secrets requires dangerLevel: high (rollback stores original values in plaintext)'' []),
            failIf (name \<in> set systemCriticalSecrets)
              (Errorf ''ConfigDrift cannot target system-critical Secret %q'' [AStr name])]
         else failIf (name \<in> set systemCriticalConfigs)
           (Errorf ''targeting system-critical config %q is not allowed'' [AStr name])),
        firstErr (map (\<lambda>pre. failIf (hasPrefix name pre)
          (Errorf ''ConfigDrift cannot target system-critical config %q (matches prefix %q)''
             [AStr name, AStr pre])) systemCriticalConfigPrefixes),
        failIf (\<not> hasParam spec ''key'') (Errorf ''ConfigDrift requires key parameter (data key to modify)'' []),
        failIf (\<not> hasParam spec ''value'') (Errorf ''ConfigDrift requires value parameter (corrupted value)'' []),
        failIf (length (param spec ''value'') > maxParameterValueLength)
          (Errorf ''ConfigDrift value exceeds maximum length of %d bytes'' [AInt (int maxParameterValueLength)]),
        failIf (resourceType \<noteq> '''' \<and> resourceType \<noteq> ''ConfigMap'' \<and> resourceType \<noteq> ''Secret'')
          (Errorf ''ConfigDrift resourceType must be ConfigMap or Secret, got %q'' [AStr resourceType]),
        (if resourceType = ''Secret'' then firstErr
           [failIf (strContains key ''/'' \<or> strContains key ''..'') (Errorf
              ''ConfigDrift key contains invalid characters for rollback Secret name construction'' []),
            failIf (length (rollbackSecretName spec) > maxNameLength)
              (Errorf ''rollback Secret name %q exceeds %d character limit''
                 [AStr (rollbackSecretName spec), AInt (int maxNameLength)])]
         else None)])"

section \<open>Webhooks and bindings\<close>

definition checkResolvedWebhookDenyList :: "string \<Rightarrow> goErr option" where
  "checkResolvedWebhookDenyList name = firstErr
     [failIf (name \<in> set systemCriticalWebhooks)
        (Errorf ''targeting system-critical webhook %q is not allowed'' [AStr name]),
      failIf (hasPrefix name ''system:'')
        (Errorf ''targeting system webhook %q is not allowed'' [AStr name]),
      failIf (hasPrefix name ''openshift-'')
        (Errorf ''targeting OpenShift webhook %q is not allowed'' [AStr name])]"

definition validateWebhookDisruptParams :: "paramLib \<Rightarrow> injectionSpec \<Rightarrow> goErr option" where
  "validateWebhookDisruptParams lib spec =
     (let webhookName = param spec ''webhookName''; labelSelector = param spec ''webhookLabelSelector'';
          hasName = webhookName \<noteq> ''''; hasSelector = labelSelector \<noteq> '''';
          wt = param spec ''webhookType''
      in firstErr
       [failIf (\<not> hasName \<and> \<not> hasSelector)
          (Errorf ''WebhookDisrupt requires either webhookName or webhookLabelSelector parameter'' []),
        failIf (hasName \<and> hasSelector)
          (Errorf ''WebhookDisrupt accepts either webhookName or webhookLabelSelector, not both'' []),
        (if hasName then firstErr [checkResolvedWebhookDenyList webhookName,
           validateK8sResourceName ''webhookName'' webhookName] else None),
        (if hasSelector then
           (case plParseSelector lib labelSelector of
              Inl err \<Rightarrow> Some (Errorf ''invalid webhookLabelSelector %q: %w'' [AStr labelSelector, AErr err])
            | Inr reqs \<Rightarrow> failIf (reqs = 0)
                (Errorf ''webhookLabelSelector must have at least one requirement'' []))
         else None),
        failIf (\<not> hasParam spec ''action'') (Errorf ''WebhookDisrupt requires action parameter'' []),
        failIf (param spec ''action'' \<noteq> ''setFailurePolicy'')
          (Errorf ''unsupported action %q; supported actions: setFailurePolicy'' [AStr (param spec ''action'')]),
        failIf (hasParam spec ''webhookType'' \<and> wt \<noteq> ''validating'' \<and> wt \<noteq> ''mutating'')
          (Errorf ''invalid webhookType %q; must be validating or mutating'' [AStr wt])])"

definition validateRBACRevokeParams :: "injectionSpec \<Rightarrow> goErr option" where
  "validateRBACRevokeParams spec =
     (let bindingName = param spec ''bindingName''; bindingType = param spec ''bindingType''
      in firstErr
       [failIf (\<not> hasParam spec ''bindingName'') (Errorf ''RBACRevoke requires bindingName parameter'' []),
        failIf (\<not> hasParam spec ''bindingType'') (Errorf ''RBACRevoke requires bindingType parameter'' []),
        failIf (bindingType \<noteq> ''ClusterRoleBinding'' \<and> bindingType \<noteq> ''RoleBinding'')
          (Errorf ''RBACRevoke bindingType must be ClusterRoleBinding or RoleBinding, got %q'' [AStr bindingType]),
        failIf (bindingType = ''ClusterRoleBinding'' \<and> bindingName \<in> set systemCriticalBindings)
          (Errorf ''targeting system-critical ClusterRoleBinding %q is not allowed'' [AStr bindingName]),
        failIf (hasPrefix bindingName ''system:'')
          (Errorf ''targeting system binding %q is not allowed'' [AStr bindingName]),
        validateK8sResourceName ''bindingName'' bindingName,
        rejectChaosManagedResource ''RBACRevoke'' bindingName])"

definition coreKinds :: "string list" where
  "coreKinds = [''Secret'', ''ConfigMap'', ''ServiceAccount'', ''PersistentVolume'',
     ''PersistentVolumeClaim'', ''Service'', ''Endpoints'']"

definition validateFinalizerBlockParams :: "injectionSpec \<Rightarrow> goErr option" where
  "validateFinalizerBlockParams spec =
     (let kind = param spec ''kind''; apiVersion = param spec ''apiVersion''; name = param spec ''name''
      in firstErr
       [failIf (kind = '''') (Errorf ''FinalizerBlock requires non-empty kind parameter'' []),
        failIf (kind \<in> set finalizerBlockForbiddenKinds)
          (Errorf ''FinalizerBlock targeting %q resources is not allowed'' [AStr kind]),
        failIf (kind = ''ChaosExperiment'' \<and>
                (apiVersion = '''' \<or> strContains apiVersion ''chaos.operatorchaos.io''))
          (Errorf ''FinalizerBlock cannot target ChaosExperiment CRs (self-sabotage is forbidden)'' []),
        failIf (\<not> hasParam spec ''name'') (Errorf ''FinalizerBlock requires name parameter'' []),
        validateK8sName ''name'' name,
        rejectChaosManagedResource ''FinalizerBlock'' name,
        failIf (param spec ''finalizerName'' = ''chaos.operatorchaos.io/cleanup'')
          (Errorf ''FinalizerBlock cannot use finalizer name %q (conflicts with controller cleanup finalizer)''
             [AStr (param spec ''finalizerName'')]),
        failIf ((apiVersion = '''' \<or> apiVersion = ''v1'') \<and> kind \<in> set coreKinds \<and> \<not> highDanger spec)
          (Errorf ''FinalizerBlock targeting core Kubernetes type %q requires dangerLevel: high'' [AStr kind])])"

section \<open>Client faults\<close>

definition validClientFaultOperations :: "string list" where
  "validClientFaultOperations = [''get'', ''list'', ''create'', ''update'', ''delete'', ''patch'',
     ''deleteAllOf'', ''reconcile'', ''apply'']"

definition maxClientFaultDelay :: duration where
  "maxClientFaultDelay = 300 * second"

definition validateFaultDelay ::
  "paramLib \<Rightarrow> string \<Rightarrow> string \<Rightarrow> string \<Rightarrow> string \<Rightarrow> goErr option" where
  "validateFaultDelay lib invalid exceeds opn delay =
     (if delay = '''' then None
      else case plParseDuration lib delay of
        Inl err \<Rightarrow> Some (Errorf invalid [AStr opn, AStr delay, AErr err])
      | Inr d \<Rightarrow> failIf (d > maxClientFaultDelay)
          (Errorf exceeds [AStr opn, ADur d, ADur maxClientFaultDelay]))"

definition validateFaultEntry :: "paramLib \<Rightarrow> string \<times> faultEntry \<Rightarrow> goErr option" where
  "validateFaultEntry lib f = (case f of (opn, entry) \<Rightarrow> firstErr
     [failIf (opn \<notin> set validClientFaultOperations)
        (Errorf ''ClientFault: unknown operation %q; valid operations: get, list, create, update, delete, patch, deleteAllOf, reconcile, apply'' [AStr opn]),
      failIf (feErrorRate entry < 0 \<or> feErrorRate entry > 1)
        (Errorf ''ClientFault: operation %q errorRate must be in [0.0, 1.0], got %f'' [AStr opn, ARat (feErrorRate entry)]),
      validateFaultDelay lib ''ClientFault: operation %q has invalid delay %q: %w''
        ''ClientFault: operation %q delay %v exceeds maximum allowed %v'' opn (feDelay entry),
      validateFaultDelay lib ''ClientFault: operation %q has invalid maxDelay %q: %w''
        ''ClientFault: operation %q maxDelay %v exceeds maximum allowed %v'' opn (feMaxDelay entry)])"

definition chaosConfigMapPrefix :: string where
  "chaosConfigMapPrefix = ''operator-chaos-''"

definition validateClientFaultParams :: "paramLib \<Rightarrow> injectionSpec \<Rightarrow> goErr option" where
  "validateClientFaultParams lib spec =
     (let name = param spec ''configMapName''
      in firstErr
       [failIf (param spec ''faults'' = '''')
          (Errorf ''ClientFault requires faults parameter (JSON map of operation to fault spec)'' []),
        (case plUnmarshalFaults lib (param spec ''faults'') of
           Inl err \<Rightarrow> Some (Errorf ''ClientFault: error parsing faults parameter: %w'' [AErr err])
         | Inr faults \<Rightarrow> firstErr
             (failIf (faults = []) (Errorf ''ClientFault faults must contain at least one operation entry'' [])
              # map (validateFaultEntry lib) faults)),
        (if name \<noteq> '''' then firstErr
           [validateK8sName ''configMapName'' name,
            failIf (\<not> hasPrefix name chaosConfigMapPrefix)
              (Errorf ''ClientFault configMapName must start with %s prefix, got %q''
                 [AStr chaosConfigMapPrefix, AStr name])]
         else None)])"

section \<open>Owner references, quotas, webhook latency, labels\<close>

definition validateOwnerRefOrphanParams :: "injectionSpec \<Rightarrow> goErr option" where
  "validateOwnerRefOrphanParams spec =
     (let apiVersion = param spec ''apiVersion''; kind = param spec ''kind''; name = param spec ''name''
      in firstErr
       [failIf (apiVersion = '''') (Errorf ''OwnerRefOrphan requires non-empty apiVersion parameter'' []),
        failIf (kind = '''') (Errorf ''OwnerRefOrphan requires non-empty kind parameter'' []),
        failIf (kind \<in> set ownerRefOrphanForbiddenKinds)
          (Errorf ''OwnerRefOrphan targeting %q resources is not allowed'' [AStr kind]),
        failIf (kind = ''ChaosExperiment'' \<and> strContains apiVersion ''chaos.operatorchaos.io'')
          (Errorf ''OwnerRefOrphan cannot target ChaosExperiment CRs'' []),
        failIf (name = '''') (Errorf ''OwnerRefOrphan requires name parameter'' []),
        validateK8sName ''name'' name,
        rejectChaosManagedResource ''OwnerRefOrphan'' name])"

definition quotaLimitKeys :: "string list" where
  "quotaLimitKeys = [''cpu'', ''memory'', ''pods'', ''services'', ''configmaps'', ''secrets'']"

definition validateQuotaExhaustionParams :: "injectionSpec \<Rightarrow> goErr option" where
  "validateQuotaExhaustionParams spec =
     (let quotaName = param spec ''quotaName''
      in firstErr
       [failIf (quotaName = '''') (Errorf ''QuotaExhaustion requires non-empty quotaName parameter'' []),
        validateK8sName ''quotaName'' quotaName,
        rejectChaosManagedResource ''QuotaExhaustion'' quotaName,
        failIf (\<not> list_ex (\<lambda>key. param spec key \<noteq> '''') quotaLimitKeys)
          (Errorf ''QuotaExhaustion requires at least one resource limit (cpu, memory, pods, services, configmaps, secrets)'' [])])"

definition validateWebhookLatencyParams :: "paramLib \<Rightarrow> injectionSpec \<Rightarrow> goErr option" where
  "validateWebhookLatencyParams lib spec = firstErr
     [failIf (\<not> highDanger spec)
        (Errorf ''WebhookLatency requires dangerLevel: high (deploys webhook pods)'' []),
      failIf (param spec ''resources'' = '''') (Errorf ''WebhookLatency requires resources parameter (comma-separated list of resources to intercept, e.g. deployments,services)'' []),
      failIf (param spec ''apiGroups'' = '''') (Errorf ''WebhookLatency requires apiGroups parameter (comma-separated API groups, e.g. apps or *)'' []),
      (if param spec ''delay'' = '''' then None
       else case plParseDuration lib (param spec ''delay'') of
         Inl err \<Rightarrow> Some (Errorf ''WebhookLatency: invalid delay %q: %w'' [AStr (param spec ''delay''), AErr err])
       | Inr d \<Rightarrow> firstErr
           [failIf (d > 29 * second)
              (Errorf ''WebhookLatency: delay %v exceeds 29s (API server timeout is 30s)'' [ADur d]),
            failIf (d < 1 * second)
              (Errorf ''WebhookLatency: delay %v is too short to be useful (minimum 1s)'' [ADur d])])]"

definition matchedSystemLabel :: "string \<Rightarrow> string option" where
  "matchedSystemLabel labelKey = find (strContains labelKey) systemLabelPatterns"

definition validateLabelStompingParams :: "injectionSpec \<Rightarrow> goErr option" where
  "validateLabelStompingParams spec =
     (let apiVersion = param spec ''apiVersion''; kind = param spec ''kind''; name = param spec ''name'';
          labelKey = param spec ''labelKey''; action = param spec ''action'';
          nv = (if param spec ''newValue'' = '''' then ''chaos-stomped'' else param spec ''newValue'')
      in firstErr
       [failIf (apiVersion = '''') (Errorf ''LabelStomping requires non-empty apiVersion parameter'' []),
        failIf (kind = '''') (Errorf ''LabelStomping requires non-empty kind parameter'' []),
        failIf (name = '''') (Errorf ''LabelStomping requires name parameter'' []),
        validateK8sName ''name'' name,
        rejectChaosManagedResource ''LabelStomping'' name,
        failIf (labelKey = '''') (Errorf ''LabelStomping requires non-empty labelKey parameter'' []),
        wrapErr ''LabelStomping labelKey: %w'' [] (validateLabelKey labelKey),
        failIf (labelKey = ''app.kubernetes.io/managed-by'')
          (Errorf ''LabelStomping cannot modify chaos-owned label %q'' [AStr labelKey]),
        failIf (hasPrefix labelKey ''chaos.operatorchaos.io/'')
          (Errorf ''LabelStomping cannot modify chaos-owned label %q (prefix chaos.operatorchaos.io/ is reserved)'' [AStr labelKey]),
        failIf (action = '''') (Errorf ''LabelStomping requires action parameter (overwrite or delete)'' []),
        failIf (action \<noteq> ''overwrite'' \<and> action \<noteq> ''delete'')
          (Errorf ''LabelStomping action must be overwrite or delete, got %q'' [AStr action]),
        (if action = ''overwrite'' then wrapErr ''LabelStomping newValue: %w'' [] (validateLabelValue nv)
         else None),
        (case matchedSystemLabel labelKey of
           None \<Rightarrow> None
         | Some pat \<Rightarrow> failIf (\<not> highDanger spec)
             (Errorf ''LabelStomping targeting system label %q (matches %q) requires dangerLevel: high''
                [AStr labelKey, AStr pat]))])"

section \<open>Deletions\<close>

definition validateNamespaceDeletionParams :: "injectionSpec \<Rightarrow> goErr option" where
  "validateNamespaceDeletionParams spec =
     (let ns = param spec ''namespace''
      in firstErr
       [failIf (\<not> highDanger spec) (Errorf ''NamespaceDeletion requires dangerLevel: high'' []),
        failIf (ns = '''') (Errorf ''NamespaceDeletion requires non-empty namespace parameter'' []),
        validateK8sName ''namespace'' ns,
        failIf (ns \<in> set forbiddenNamespaces)
          (Errorf ''NamespaceDeletion cannot target protected namespace %q'' [AStr ns]),
        failIf (ns = controllerNamespace)
          (Errorf ''NamespaceDeletion cannot target controller namespace %q'' [AStr ns]),
        firstErr (map (\<lambda>pre. failIf (hasPrefix ns pre)
          (Errorf ''NamespaceDeletion cannot target namespace %q (prefix %q is protected)'' [AStr ns, AStr pre]))
          forbiddenNamespacePrefixes)])"

definition backupSecretName :: "string \<Rightarrow> string" where
  "backupSecretName name = ''chaos-backup-secret-'' @ name"

definition backupLeaseName :: "string \<Rightarrow> string" where
  "backupLeaseName name = ''chaos-backup-lease-'' @ name"

definition backupResourceName :: "string \<Rightarrow> string \<Rightarrow> string" where
  "backupResourceName kind name = ''chaos-backup-resource-'' @ toLower kind @ ''-'' @ name"

definition validateOptionalNamespace :: "string \<Rightarrow> string \<Rightarrow> string \<Rightarrow> goErr option" where
  "validateOptionalNamespace protMsg prefMsg ns =
     (if ns = '''' then None
      else firstErr
       [validateK8sName ''namespace'' ns,
        failIf (ns \<in> set forbiddenNamespaces) (Errorf protMsg [AStr ns]),
        firstErr (map (\<lambda>pre. failIf (hasPrefix ns pre) (Errorf prefMsg [AStr ns, AStr pre]))
          forbiddenNamespacePrefixes)])"

definition validateSecretDeletionParams :: "injectionSpec \<Rightarrow> goErr option" where
  "validateSecretDeletionParams spec =
     (let name = param spec ''name''
      in firstErr
       [failIf (\<not> highDanger spec) (Errorf ''SecretDeletion requires dangerLevel: high'' []),
        failIf (name = '''') (Errorf ''SecretDeletion requires non-empty name parameter'' []),
        validateK8sName ''name'' name,
        rejectChaosManagedResource ''SecretDeletion'' name,
        failIf (name \<in> set systemCriticalSecrets)
          (Errorf ''SecretDeletion cannot target system-critical Secret %q'' [AStr name]),
        firstErr (map (\<lambda>pre. failIf (hasPrefix name pre)
          (Errorf ''SecretDeletion cannot target Secret with system-critical prefix %q'' [AStr pre]))
          systemCriticalConfigPrefixes),
        validateOptionalNamespace ''SecretDeletion cannot target Secrets in protected namespace %q''
          ''SecretDeletion cannot target Secrets in namespace %q (matches forbidden prefix %q)''
          (param spec ''namespace''),
        failIf (length (backupSecretName name) > maxNameLength)
          (Errorf ''backup Secret name %q exceeds %d character limit''
             [AStr (backupSecretName name), AInt (int maxNameLength)])])"

definition validateHighDangerName :: "string \<Rightarrow> injectionSpec \<Rightarrow> goErr option" where
  "validateHighDangerName injTy spec = firstErr
     [failIf (\<not> highDanger spec) (Errorf (injTy @ '' requires dangerLevel: high'') []),
      failIf (param spec ''name'' = '''') (Errorf (injTy @ '' requires non-empty name parameter'') []),
      validateK8sName ''name'' (param spec ''name''),
      rejectChaosManagedResource injTy (param spec ''name'')]"

definition validateScaleZeroParams :: "injectionSpec \<Rightarrow> goErr option" where
  "validateScaleZeroParams spec = validateHighDangerName ''DeploymentScaleZero'' spec"

definition validateLeaseElectionParams :: "injectionSpec \<Rightarrow> goErr option" where
  "validateLeaseElectionParams spec = firstErr
     [validateHighDangerName ''LeaderElectionDisrupt'' spec,
      failIf (length (backupLeaseName (param spec ''name'')) > maxNameLength)
        (Errorf ''backup ConfigMap name %q exceeds %d character limit''
           [AStr (backupLeaseName (param spec ''name'')), AInt (int maxNameLength)])]"

definition validateImageCorruptParams :: "injectionSpec \<Rightarrow> goErr option" where
  "validateImageCorruptParams spec = validateHighDangerName ''ImageCorrupt'' spec"

definition validateCrashLoopParams :: "injectionSpec \<Rightarrow> goErr option" where
  "validateCrashLoopParams spec = firstErr
     [validateHighDangerName ''CrashLoopInject'' spec,
      (if param spec ''containerName'' \<noteq> ''''
       then validateK8sName ''containerName'' (param spec ''containerName'') else None)]"

definition validateResourceDeletionParams :: "injectionSpec \<Rightarrow> goErr option" where
  "validateResourceDeletionParams spec =
     (let apiVersion = param spec ''apiVersion''; kind = param spec ''kind''; name = param spec ''name''
      in firstErr
       [failIf (\<not> highDanger spec) (Errorf ''ResourceDeletion requires dangerLevel: high'' []),
        failIf (apiVersion = '''') (Errorf ''ResourceDeletion requires non-empty apiVersion parameter'' []),
        failIf (kind = '''') (Errorf ''ResourceDeletion requires non-empty kind parameter'' []),
        failIf (name = '''') (Errorf ''ResourceDeletion requires non-empty name parameter'' []),
        validateK8sName ''name'' name,
        rejectChaosManagedResource ''ResourceDeletion'' name,
        failIf (kind \<in> set clusterScopedKinds)
          (Errorf ''ResourceDeletion cannot target cluster-scoped kind %q (only namespaced resources are supported)'' [AStr kind]),
        (if kind = ''Secret'' then firstErr
           [failIf (name \<in> set systemCriticalSecrets)
              (Errorf ''ResourceDeletion cannot target system-critical Secret %q'' [AStr name]),
            firstErr (map (\<lambda>pre. failIf (hasPrefix name pre)
              (Errorf ''ResourceDeletion cannot target system-critical Secret %q (matches prefix %q)''
                 [AStr name, AStr pre])) systemCriticalConfigPrefixes)]
         else None),
        failIf (kind = ''Service'' \<and> name \<in> set systemCriticalServices)
          (Errorf ''ResourceDeletion cannot target system-critical Service %q'' [AStr name]),
        failIf (kind = ''ServiceAccount'' \<and> name \<in> set systemCriticalServiceAccounts)
          (Errorf ''ResourceDeletion cannot target system-critical ServiceAccount %q'' [AStr name]),
        validateOptionalNamespace ''ResourceDeletion cannot target resources in protected namespace %q''
          ''ResourceDeletion cannot target resources in namespace %q (prefix %q is protected)''
          (param spec ''namespace''),
        failIf (length (backupResourceName kind name) > maxNameLength)
          (Errorf ''backup Secret name %q exceeds %d character limit''
             [AStr (backupResourceName kind name), AInt (int maxNameLength)])])"

definition validSelectorPart :: "string \<Rightarrow> bool" where
  "validSelectorPart part =
     (case splitFirst CHR ''='' part of
        (k, Some v) \<Rightarrow> k \<noteq> '''' \<and> v \<noteq> ''''
      | (k, None) \<Rightarrow> False)"

definition validatePDBBlockParams :: "injectionSpec \<Rightarrow> goErr option" where
  "validatePDBBlockParams spec =
     (let parts = map trimSpace (splitOn CHR '','' (param spec ''labelSelector''))
      in firstErr
       [failIf (\<not> highDanger spec) (Errorf ''PDBBlock requires dangerLevel: high'' []),
        failIf (param spec ''labelSelector'' = '''')
          (Errorf ''PDBBlock requires non-empty labelSelector parameter'' []),
        firstErr (map (\<lambda>part. failIf (part \<noteq> '''' \<and> \<not> validSelectorPart part)
          (Errorf ''PDBBlock labelSelector part %q is not valid key=value format'' [AStr part])) parts),
        (if param spec ''name'' \<noteq> '''' then validateK8sName ''name'' (param spec ''name'') else None)])"

section \<open>Dispatch\<close>

definition ValidateInjectionParams ::
  "paramLib \<Rightarrow> injectionSpec \<Rightarrow> blastRadiusSpec \<Rightarrow> goErr option" where
  "ValidateInjectionParams lib spec blast =
     (case ValidateInjectionType (injType spec) of
        Some err \<Rightarrow> Some err
      | None \<Rightarrow>
          (case injType spec of
             PodKill \<Rightarrow> validatePodKillParams lib spec blast
           | NetworkPartition \<Rightarrow> validateNetworkPartitionParams lib spec
           | CRDMutation \<Rightarrow> validateCRDMutationParams lib spec
           | ConfigDrift \<Rightarrow> validateConfigDriftParams spec
           | WebhookDisrupt \<Rightarrow> validateWebhookDisruptParams lib spec
           | RBACRevoke \<Rightarrow> validateRBACRevokeParams spec
           | FinalizerBlock \<Rightarrow> validateFinalizerBlockParams spec
           | ClientFault \<Rightarrow> validateClientFaultParams lib spec
           | OwnerRefOrphan \<Rightarrow> validateOwnerRefOrphanParams spec
           | QuotaExhaustion \<Rightarrow> validateQuotaExhaustionParams spec
           | WebhookLatency \<Rightarrow> validateWebhookLatencyParams lib spec
           | NamespaceDeletion \<Rightarrow> validateNamespaceDeletionParams spec
           | LabelStomping \<Rightarrow> validateLabelStompingParams spec
           | SecretDeletion \<Rightarrow> validateSecretDeletionParams spec
           | DeploymentScaleZero \<Rightarrow> validateScaleZeroParams spec
           | LeaderElectionDisrupt \<Rightarrow> validateLeaseElectionParams spec
           | CrashLoopInject \<Rightarrow> validateCrashLoopParams spec
           | ImageCorrupt \<Rightarrow> validateImageCorruptParams spec
           | ResourceDeletion \<Rightarrow> validateResourceDeletionParams spec
           | PDBBlock \<Rightarrow> validatePDBBlockParams spec
           | OtherInjection t \<Rightarrow>
               Some (Errorf ''no parameter validation implemented for injection type %q'' [AStr t])))"

end
