(* ===== verification/Safety.thy ===== *)
theory Safety
  imports ApiTypes
begin

text \<open>
  The static guard rails of \<open>pkg/safety/blastradius.go\<close>: the blast radius check on the
  target namespace, target resource and number of affected objects, and the opt-in for
  dangerous injections.
\<close>

definition effectiveCount :: "int \<Rightarrow> int" where
  "effectiveCount n = (if n \<le> 0 then 1 else n)"

definition ValidateBlastRadius ::
  "blastRadiusSpec \<Rightarrow> string \<Rightarrow> string \<Rightarrow> int \<Rightarrow> goErr option" where
  "ValidateBlastRadius spec targetNamespace targetResource affectedCount =
     (let affectedCount = effectiveCount affectedCount in
      if brMaxPodsAffected spec \<le> 0 then
        Some (Errorf ''maxPodsAffected must be > 0, got %d'' [AInt (brMaxPodsAffected spec)])
      else if affectedCount > brMaxPodsAffected spec then
        Some (Errorf ''blast radius exceeded: %d affected > %d max''
          [AInt affectedCount, AInt (brMaxPodsAffected spec)])
      else if \<not> list_ex (\<lambda>ns. ns = targetNamespace) (brAllowedNamespaces spec) then
        Some (Errorf ''namespace %q not in allowed list %v''
          [AStr targetNamespace, AStrs (brAllowedNamespaces spec)])
      else if list_ex (\<lambda>forbidden. forbidden = targetResource) (brForbiddenResources spec) then
        Some (Errorf ''resource %q is forbidden'' [AStr targetResource])
      else None)"

definition CheckDangerLevel :: "dangerLevel \<Rightarrow> bool \<Rightarrow> goErr option" where
  "CheckDangerLevel level allowDangerous =
     failIf (level = DangerLevelHigh \<and> \<not> allowDangerous)
       (Errorf ''injection with dangerLevel=high requires blastRadius.allowDangerous=true'' [])"

lemma effectiveCount_pos [simp]: "0 < effectiveCount n"
  by (simp add: effectiveCount_def)

lemma ValidateBlastRadius_None:
  "ValidateBlastRadius spec ns res n = None \<longleftrightarrow>
     0 < brMaxPodsAffected spec \<and> effectiveCount n \<le> brMaxPodsAffected spec \<and>
     ns \<in> set (brAllowedNamespaces spec) \<and> res \<notin> set (brForbiddenResources spec)"
  by (auto simp: ValidateBlastRadius_def Let_def list_ex_iff)

lemma CheckDangerLevel_None:
  "CheckDangerLevel level allow = None \<longleftrightarrow> (level = DangerLevelHigh \<longrightarrow> allow)"
  by (auto simp: CheckDangerLevel_def)

end
