(* ===== verification/Orchestrator.thy ===== *)
theory Orchestrator
  imports Report Validation Safety ExpLock
begin

text \<open>
  The orchestrator of the command line, \<open>pkg/orchestrator/lifecycle.go\<close>, with the registry of
  injectors (\<open>pkg/injection/engine.go\<close>) and \<open>RunContributors\<close>. The record \<open>orchestrator\<close> holds
  the engines behind the Go interfaces: injectors, observer, reconciliation checker, lock. A
  cleanup function is a state transformer, \<open>None\<close> for \<open>nil\<close>. \<open>orWait\<close> is the \<open>select\<close> on
  \<open>time.After\<close> and the context: its flag says that the context was cancelled. Writing report
  files is the parameter \<open>orWriteFiles\<close>, and \<open>orMerge\<close> is the order in which concurrent
  contributors append to the board.
\<close>

section \<open>Registry\<close>

type_synonym 'w cleanupFunc = "'w \<Rightarrow> goErr option \<times> 'w"

record 'w injector =
  inValidate :: "injectionSpec \<Rightarrow> blastRadiusSpec \<Rightarrow> goErr option"
  inInject :: "injectionSpec \<Rightarrow> string \<Rightarrow> 'w \<Rightarrow>
    (goErr + 'w cleanupFunc option \<times> injectionEvent list) \<times> 'w"
  inRevert :: "injectionSpec \<Rightarrow> string \<Rightarrow> 'w \<Rightarrow> goErr option \<times> 'w"

type_synonym 'w registry = "(injectionType \<times> 'w injector) list"

definition NewRegistry :: "'w registry" where
  "NewRegistry = []"

definition Register :: "injectionType \<Rightarrow> 'w injector \<Rightarrow> 'w registry \<Rightarrow> 'w registry" where
  "Register t i r = (t, i) # filter (\<lambda>p. fst p \<noteq> t) r"

definition ListTypes :: "'w registry \<Rightarrow> injectionType list" where
  "ListTypes r = map fst r"

definition registryGet :: "'w registry \<Rightarrow> injectionType \<Rightarrow> goErr + 'w injector" where
  "registryGet r t =
     (case map_of r t of
        Some i \<Rightarrow> Inr i
      | None \<Rightarrow> Inl (Errorf ''unknown injection type %q; registered types: %v''
          [AStr (injectionTypeName t), AStrs (map injectionTypeName (ListTypes r))]))"

definition NewEvent ::
  "timestamp \<Rightarrow> injectionType \<Rightarrow> string \<Rightarrow> string \<Rightarrow> strmap \<Rightarrow> injectionEvent" where
  "NewEvent now t target action details =
     \<lparr>ieTimestamp = now, ieType = t, ieTarget = target, ieAction = action, ieDetails = details\<rparr>"

section \<open>Orchestrator\<close>

record configMapObj =
  cmoLabels :: strmap
  cmoAnnotations :: strmap
  cmoData :: strmap

record 'w reconChecker =
  rcCheck :: "componentModel \<Rightarrow> string \<Rightarrow> duration \<Rightarrow> 'w \<Rightarrow>
    ((goErr option \<times> reconciliationResult) \<times> 'w) option"
  rcOnce :: "componentModel \<Rightarrow> string \<Rightarrow> 'w \<Rightarrow> (goErr + reconciliationResult) \<times> 'w"

record 'w orchestrator =
  orRegistry :: "'w registry"
  orObserver :: "'w steadyChecker"
  orReconciler :: "'w reconChecker option"
  orMaxCycles :: int
  orAcquire :: "string \<Rightarrow> string \<Rightarrow> duration \<Rightarrow> 'w \<Rightarrow> goErr option \<times> 'w"
  orRenew :: "string \<Rightarrow> string \<Rightarrow> 'w \<Rightarrow> goErr option \<times> 'w"
  orRelease :: "string \<Rightarrow> string \<Rightarrow> 'w \<Rightarrow> goErr option \<times> 'w"
  orKnowledge :: "operatorKnowledge option"
  orDepGraph :: "dependencyGraph option"
  orStore :: "(string \<Rightarrow> string \<Rightarrow> configMapObj \<Rightarrow> 'w \<Rightarrow> goErr option \<times> 'w) option"
  orWriteFiles :: "experimentReport \<Rightarrow> 'w \<Rightarrow> 'w"
  orMarshal :: "experimentReport \<Rightarrow> goErr + string"
  orFormatStamp :: "timestamp \<Rightarrow> string"
  orFormatRFC3339 :: "timestamp \<Rightarrow> string"
  orMerge :: "finding list list \<Rightarrow> finding list"
  orRetryInterval :: duration
  orWait :: "duration \<Rightarrow> 'w \<Rightarrow> bool \<times> 'w"
  orNow :: "'w \<Rightarrow> timestamp"

record experimentResult =
  erExperiment :: string
  erPhase :: experimentPhase
  erVerdict :: verdict
  erEvaluation :: "evaluationResult option"
  erReport :: "experimentReport option"
  erError :: "goErr option"
  erCleanupError :: "goErr option"
  erTier :: int

definition resolveNamespace :: "chaosExperiment \<Rightarrow> string" where
  "resolveNamespace cr =
     (case brAllowedNamespaces (spBlastRadius (exSpec cr)) of
        [ns] \<Rightarrow> ns
      | _ \<Rightarrow>
        (case find (\<lambda>check. chkNamespace check \<noteq> '''') (ssChecks (spSteadyState (exSpec cr))) of
           Some check \<Rightarrow> chkNamespace check
         | None \<Rightarrow> if exNamespace cr \<noteq> '''' then exNamespace cr else DefaultNamespace))"

definition orClusterScopedKinds :: "string list" where
  "orClusterScopedKinds =
     [''Namespace'', ''Node'', ''ClusterRole'', ''ClusterRoleBinding'', ''CustomResourceDefinition'',
      ''PersistentVolume'', ''StorageClass'', ''IngressClass'', ''PriorityClass'',
      ''ValidatingWebhookConfiguration'', ''MutatingWebhookConfiguration'', ''APIService'',
      ''Kueue'', ''ClusterQueue'', ''ResourceFlavor'', ''WorkloadPriorityClass'', ''Cohort'',
      ''AdmissionCheck'', ''MultiKueueCluster'', ''MultiKueueConfig'',
      ''ProvisioningRequestConfig'', ''Topology'']"

definition isClusterScopedInjection :: "injectionType \<Rightarrow> strmap \<Rightarrow> bool" where
  "isClusterScopedInjection t params =
     (let byKind = hasPrefix (mget params ''apiVersion'') ''apiextensions.k8s.io/'' \<or>
                   hasPrefix (mget params ''apiVersion'') ''apiregistration.k8s.io/'' \<or>
                   mget params ''kind'' \<in> set orClusterScopedKinds
      in case t of
           RBACRevoke \<Rightarrow> mget params ''bindingType'' = ''ClusterRoleBinding''
         | WebhookDisrupt \<Rightarrow> True
         | CRDMutation \<Rightarrow> byKind
         | FinalizerBlock \<Rightarrow> byKind
         | _ \<Rightarrow> False)"

definition orForbiddenNamespaces :: "string list" where
  "orForbiddenNamespaces = [''kube-system'', ''kube-public'', ''kube-node-lease'', ''default'']"

definition orForbiddenNamespacePrefixes :: "string list" where
  "orForbiddenNamespacePrefixes = [''openshift-'']"

definition checkForbiddenNamespace :: "string \<Rightarrow> string \<Rightarrow> bool \<Rightarrow> goErr option" where
  "checkForbiddenNamespace ns context allowDangerous =
     (if ns \<in> set orForbiddenNamespaces then
        Some (Errorf ''%s namespace %q is forbidden'' [AStr context, AStr ns])
      else if \<not> allowDangerous then
        firstErr (map (\<lambda>pre. failIf (hasPrefix ns pre)
          (Errorf ''%s namespace %q matches forbidden prefix %q'' [AStr context, AStr ns, AStr pre]))
          orForbiddenNamespacePrefixes)
      else None)"

text \<open>The discriminated union of a steady-state check; \<open>i\<close> is its index.\<close>

definition validateCheckFields :: "int \<Rightarrow> steadyStateCheck \<Rightarrow> goErr option" where
  "validateCheckFields i check =
     (let unnamed = chkKind check = '''' \<or> chkName check = ''''
      in case chkType check of
        CheckConditionTrue \<Rightarrow> failIf (unnamed \<or> chkConditionType check = '''')
          (Errorf ''steadyState.checks[%d]: type conditionTrue requires kind, name, and conditionType'' [AInt i])
      | CheckResourceExists \<Rightarrow> failIf unnamed
          (Errorf ''steadyState.checks[%d]: type resourceExists requires kind and name'' [AInt i])
      | CheckFieldEquals \<Rightarrow>
          failIf (unnamed \<or> chkFieldPath check = '''' \<or> chkExpectedValue check = '''')
          (Errorf ''steadyState.checks[%d]: type fieldEquals requires kind, name, fieldPath, and expectedValue'' [AInt i])
      | CheckUnset \<Rightarrow> Some (Errorf ''steadyState.checks[%d]: type is required'' [AInt i])
      | OtherCheck t \<Rightarrow> Some (Errorf ''steadyState.checks[%d]: unknown type %q'' [AInt i, AStr t]))"

fun validateChecks :: "int \<Rightarrow> steadyStateCheck list \<Rightarrow> goErr option" where
  "validateChecks i [] = None"
| "validateChecks i (c # cs) = firstErr [validateCheckFields i c, validateChecks (i + 1) cs]"

definition targetResource :: "chaosExperiment \<Rightarrow> string" where
  "targetResource cr =
     (let t = spTarget (exSpec cr)
      in if tgtResource t = '''' then tgtComponent t @ ''/'' @ exName cr else tgtResource t)"

definition ValidateExperiment :: "'w orchestrator \<Rightarrow> chaosExperiment \<Rightarrow> goErr option" where
  "ValidateExperiment orc cr =
     (let namespace = resolveNamespace cr; sp = exSpec cr; inj = spInjection sp;
          blast = spBlastRadius sp; allowDangerous = brAllowDangerous blast;
          checks = ssChecks (spSteadyState sp)
      in firstErr
       [wrapErr ''target validation failed: %w'' [] (ValidateTargetSpec (spTarget sp)),
        checkForbiddenNamespace namespace ''experiment target'' allowDangerous,
        firstErr (map (\<lambda>ns. checkForbiddenNamespace ns ''blast radius'' allowDangerous)
          (brAllowedNamespaces blast)),
        firstErr (map (\<lambda>check. if chkNamespace check \<noteq> ''''
          then checkForbiddenNamespace (chkNamespace check) ''steady-state check'' allowDangerous
          else None) checks),
        validateChecks 0 checks,
        failIf (hypRecoveryTimeout (spHypothesis sp) > MaxRecoveryTimeout)
          (Errorf ''recoveryTimeout %v exceeds maximum allowed %v''
             [ADur (hypRecoveryTimeout (spHypothesis sp)), ADur MaxRecoveryTimeout]),
        failIf (injTTL inj > MaxInjectionTTL)
          (Errorf ''injection TTL %v exceeds maximum allowed %v'' [ADur (injTTL inj), ADur MaxInjectionTTL]),
        (if isClusterScopedInjection (injType inj) (injParams inj) then firstErr
           [failIf (injDanger inj \<noteq> DangerLevelHigh)
              (Errorf ''cluster-scoped injection type %s requires dangerLevel: high to acknowledge cluster-wide impact''
                 [AStr (injectionTypeName (injType inj))]),
            failIf (brAllowedNamespaces blast \<noteq> [])
              (Errorf ''cluster-scoped injection type %s ignores AllowedNamespaces; blast radius cannot be namespace-scoped for cluster-scoped resources''
                 [AStr (injectionTypeName (injType inj))])]
         else firstErr
           [failIf (brAllowedNamespaces blast = [])
              (Errorf ''namespace-scoped injection type %s requires at least one AllowedNamespaces entry''
                 [AStr (injectionTypeName (injType inj))]),
            wrapErr ''blast radius validation failed: %w'' []
              (ValidateBlastRadius blast namespace (targetResource cr) (injCount inj))]),
        wrapErr ''danger level check failed: %w'' []
          (CheckDangerLevel (injDanger inj) allowDangerous),
        (case registryGet (orRegistry orc) (injType inj) of
           Inl err \<Rightarrow> Some (Errorf ''unknown injection type: %w'' [AErr err])
         | Inr i \<Rightarrow> wrapErr ''injection validation failed: %w'' [] (inValidate i inj blast))])"

section \<open>Phases\<close>

definition passedCheckAt :: "timestamp \<Rightarrow> checkResult" where
  "passedCheckAt t = \<lparr>crPassed = True, crChecksRun = 0, crChecksPassed = 0, crDetails = [],
     crTimestamp = t\<rparr>"

definition RunPreCheck ::
  "'w orchestrator \<Rightarrow> chaosExperiment \<Rightarrow> 'w \<Rightarrow> (goErr + checkResult) \<times> 'w" where
  "RunPreCheck orc cr w =
     (let checks = ssChecks (spSteadyState (exSpec cr))
      in if checks \<noteq> [] then orObserver orc checks (resolveNamespace cr) w
         else (Inr (passedCheckAt (orNow orc w)), w))"

definition InjectFault ::
  "'w orchestrator \<Rightarrow> chaosExperiment \<Rightarrow> 'w \<Rightarrow>
   (goErr + 'w cleanupFunc option \<times> injectionEvent list) \<times> 'w" where
  "InjectFault orc cr w =
     (case registryGet (orRegistry orc) (injType (spInjection (exSpec cr))) of
        Inl err \<Rightarrow> (Inl (Errorf ''unknown injection type: %w'' [AErr err]), w)
      | Inr i \<Rightarrow> inInject i (spInjection (exSpec cr)) (resolveNamespace cr) w)"

definition RevertFault ::
  "'w orchestrator \<Rightarrow> chaosExperiment \<Rightarrow> 'w \<Rightarrow> goErr option \<times> 'w" where
  "RevertFault orc cr w =
     (case registryGet (orRegistry orc) (injType (spInjection (exSpec cr))) of
        Inl err \<Rightarrow> (Some (Errorf ''unknown injection type: %w'' [AErr err]), w)
      | Inr i \<Rightarrow> inRevert i (spInjection (exSpec cr)) (resolveNamespace cr) w)"

text \<open>\<open>RunContributors\<close>: every contributor runs, their findings reach the board in some order.\<close>

type_synonym 'w contributor = "'w \<Rightarrow> (finding list \<times> goErr option) \<times> 'w"

fun runAll :: "'w contributor list \<Rightarrow> 'w \<Rightarrow> (finding list list \<times> goErr list) \<times> 'w" where
  "runAll [] w = (([], []), w)"
| "runAll (c # cs) w =
     (case c w of ((fs, e), w1) \<Rightarrow>
        (case runAll cs w1 of ((fss, es), w2) \<Rightarrow>
           ((fs # fss, (case e of None \<Rightarrow> es | Some err \<Rightarrow> err # es)), w2)))"

definition RunContributors ::
  "(finding list list \<Rightarrow> finding list) \<Rightarrow> 'w contributor list \<Rightarrow> board \<Rightarrow> 'w \<Rightarrow>
   (board \<times> goErr list) \<times> 'w" where
  "RunContributors merge cs b w =
     (if cs = [] then ((b, []), w)
      else case runAll cs w of ((fss, es), w1) \<Rightarrow> ((b @ merge fss, es), w1))"

definition collateralContributors ::
  "'w orchestrator \<Rightarrow> chaosExperiment \<Rightarrow> 'w contributor list" where
  "collateralContributors orc cr =
     (case orDepGraph orc of
        None \<Rightarrow> []
      | Some g \<Rightarrow>
          (let t = spTarget (exSpec cr);
               dependents = DirectDependents g
                 \<lparr>rfOperator = tgtOperator t, rfComponent = tgtComponent t\<rparr>
           in if dependents \<noteq> [] then [observeCollateral (orObserver orc) dependents] else []))"

definition postCheckPhase2 ::
  "'w orchestrator \<Rightarrow> chaosExperiment \<Rightarrow> board \<Rightarrow> 'w \<Rightarrow> (checkResult \<times> finding list) \<times> 'w" where
  "postCheckPhase2 orc cr b w =
     (let checks = ssChecks (spSteadyState (exSpec cr));
          b1 = (if checks \<noteq> [] then b
                else AddFinding \<lparr>fdSource = SourceSteadyState, fdComponent = '''', fdOperator = '''',
                  fdPassed = True, fdDetails = None, fdChecks = Some (passedCheckAt (orNow orc w)),
                  fdReconciliationResult = None\<rparr> b);
          cs = (if checks \<noteq> [] then [observeSteadyState (orObserver orc) (orNow orc) checks
                  (resolveNamespace cr)] else []) @ collateralContributors orc cr
      in case RunContributors (orMerge orc) cs b1 w of ((b2, _), w1) \<Rightarrow>
           (let steady = FindingsBySource SourceSteadyState b2;
                postCheck = (if steady = [] then None else fdChecks (last steady))
            in (((case postCheck of None \<Rightarrow> passedCheckAt (orNow orc w1) | Some c \<Rightarrow> c), b2), w1)))"

definition RunPostCheck ::
  "'w orchestrator \<Rightarrow> chaosExperiment \<Rightarrow> 'w \<Rightarrow> ((checkResult \<times> finding list) \<times> 'w) option" where
  "RunPostCheck orc cr w =
     (case (Option.bind (orKnowledge orc) (\<lambda>k. GetComponent k (tgtComponent (spTarget (exSpec cr)))),
            orReconciler orc) of
        (Some component, Some rc) \<Rightarrow>
          (case rcCheck rc component (resolveNamespace cr) (ResolvedRecoveryTimeout cr) w of
             None \<Rightarrow> None
           | Some (r, w1) \<Rightarrow>
               Some (postCheckPhase2 orc cr
                 (fold AddFinding (fst (observeReconciliation component r)) NewObservationBoard) w1))
      | _ \<Rightarrow> Some (postCheckPhase2 orc cr NewObservationBoard w))"

definition PollPostCheckOnce ::
  "'w orchestrator \<Rightarrow> chaosExperiment \<Rightarrow> 'w \<Rightarrow> (goErr + reconciliationResult option) \<times> 'w" where
  "PollPostCheckOnce orc cr w =
     (case (Option.bind (orKnowledge orc) (\<lambda>k. GetComponent k (tgtComponent (spTarget (exSpec cr)))),
            orReconciler orc) of
        (Some component, Some rc) \<Rightarrow>
          (case rcOnce rc component (resolveNamespace cr) w of
             (Inl err, w1) \<Rightarrow> (Inl err, w1)
           | (Inr r, w1) \<Rightarrow> (Inr (Some r), w1))
      | _ \<Rightarrow> (Inr None, w))"

definition RunPostCheckFinal ::
  "'w orchestrator \<Rightarrow> chaosExperiment \<Rightarrow> reconciliationResult option \<Rightarrow> 'w \<Rightarrow>
   (checkResult \<times> finding list) \<times> 'w" where
  "RunPostCheckFinal orc cr recon w =
     postCheckPhase2 orc cr
       (case recon of
          None \<Rightarrow> NewObservationBoard
        | Some r \<Rightarrow> AddFinding \<lparr>fdSource = SourceReconciliation,
            fdComponent = tgtComponent (spTarget (exSpec cr)), fdOperator = '''',
            fdPassed = rrAllReconciled r, fdDetails = None, fdChecks = None,
            fdReconciliationResult = Some r\<rparr> NewObservationBoard) w"

definition EvaluateExperiment ::
  "'w orchestrator \<Rightarrow> finding list \<Rightarrow> hypothesisSpec \<Rightarrow> evaluationResult" where
  "EvaluateExperiment orc findings hyp = EvaluateFromFindings (orMaxCycles orc) findings hyp"

text \<open>A cleanup function that reports success has removed the fault.\<close>

definition cleans :: "('w \<Rightarrow> bool) \<Rightarrow> 'w cleanupFunc \<Rightarrow> bool" where
  "cleans active c = (\<forall>v v'. c v = (None, v') \<longrightarrow> \<not> active v')"

section \<open>Revert at the TTL\<close>

text \<open>
  The retry loop of \<open>revertAtTTL\<close>. It may go on for ever while reverts fail and renewals
  succeed, so it is a partial function.
\<close>

partial_function (option) revertRetry ::
  "'w orchestrator \<Rightarrow> chaosExperiment \<Rightarrow> 'w cleanupFunc \<Rightarrow> 'w \<Rightarrow>
   (('w cleanupFunc option \<times> goErr option) \<times> 'w) option" where
  "revertRetry orc cr cleanup w =
     (case cleanup w of
        (None, w1) \<Rightarrow>
          Some ((None, None), snd (orRenew orc (tgtOperator (spTarget (exSpec cr))) (exName cr) w1))
      | (Some cleanErr, w1) \<Rightarrow>
          (case orRenew orc (tgtOperator (spTarget (exSpec cr))) (exName cr) w1 of
             (Some err, w2) \<Rightarrow>
               Some ((Some cleanup, Some (Errorf ''lock renewal during fault revert: %w'' [AErr err])), w2)
           | (None, w2) \<Rightarrow>
               (case orWait orc (orRetryInterval orc) w2 of (cancelled, w3) \<Rightarrow>
                  if cancelled then Some ((Some cleanup, Some CtxErr), w3)
                  else revertRetry orc cr cleanup w3)))"

definition revertAtTTL ::
  "'w orchestrator \<Rightarrow> chaosExperiment \<Rightarrow> 'w cleanupFunc option \<Rightarrow> duration \<Rightarrow> 'w \<Rightarrow>
   (('w cleanupFunc option \<times> goErr option) \<times> 'w) option" where
  "revertAtTTL orc cr cleanup ttl w =
     (case orWait orc ttl w of
        (True, w1) \<Rightarrow> Some ((cleanup, Some CtxErr), w1)
      | (False, w1) \<Rightarrow>
          (case cleanup of
             None \<Rightarrow> Some ((None, None), w1)
           | Some c \<Rightarrow> revertRetry orc cr c w1))"

section \<open>Results\<close>

definition labelValueMaxLen :: nat where "labelValueMaxLen = 63"

definition configMapNameMaxLen :: nat where "configMapNameMaxLen = 253"

definition truncateLabel :: "string \<Rightarrow> string" where
  "truncateLabel s = (if length s \<le> labelValueMaxLen then s else take labelValueMaxLen s)"

definition resultConfigMapName :: "string \<Rightarrow> string \<Rightarrow> string" where
  "resultConfigMapName name stamp =
     (let cmName = ''chaos-result-'' @ name @ ''-'' @ stamp;
          cmName1 = (if length cmName > configMapNameMaxLen then take configMapNameMaxLen cmName
                     else cmName)
      in trimRight cmName1 ''-._'')"

fun verdictText :: "verdict \<Rightarrow> string" where
  "verdictText VerdictUnset = ''''"
| "verdictText Resilient = ''Resilient''"
| "verdictText Degraded = ''Degraded''"
| "verdictText Failed = ''Failed''"
| "verdictText Inconclusive = ''Inconclusive''"

definition resultConfigMap ::
  "'w orchestrator \<Rightarrow> chaosExperiment \<Rightarrow> experimentReport \<Rightarrow> string \<Rightarrow> configMapObj" where
  "resultConfigMap orc cr report json =
     \<lparr>cmoLabels = [''app.kubernetes.io/managed-by'' \<mapsto> ''operator-chaos'',
        ''chaos.operatorchaos.io/experiment'' \<mapsto> truncateLabel (exName cr),
        ''chaos.operatorchaos.io/verdict'' \<mapsto> toLower (verdictText (evVerdict (rpEvaluation report)))],
      cmoAnnotations = [''chaos.operatorchaos.io/timestamp'' \<mapsto> orFormatRFC3339 orc (rpTimestamp report)],
      cmoData = [''result.json'' \<mapsto> json]\<rparr>"

definition storeResultConfigMap ::
  "'w orchestrator \<Rightarrow> chaosExperiment \<Rightarrow> string \<Rightarrow> experimentReport \<Rightarrow> 'w \<Rightarrow> 'w" where
  "storeResultConfigMap orc cr namespace report w =
     (case orStore orc of
        None \<Rightarrow> w
      | Some store \<Rightarrow>
          (case orMarshal orc report of
             Inl err \<Rightarrow> w
           | Inr json \<Rightarrow>
               snd (store namespace (resultConfigMapName (exName cr) (orFormatStamp orc (orNow orc w)))
                 (resultConfigMap orc cr report json) w)))"

definition buildReport ::
  "'w orchestrator \<Rightarrow> chaosExperiment \<Rightarrow> checkResult \<Rightarrow> checkResult \<Rightarrow> finding list \<Rightarrow>
   injectionEvent list \<Rightarrow> evaluationResult \<Rightarrow> 'w \<Rightarrow> experimentReport" where
  "buildReport orc cr pre post findings events ev w =
     (let recons = filter (\<lambda>f. fdSource f = SourceReconciliation) findings
      in \<lparr>rpExperiment = exName cr, rpTimestamp = orNow orc w, rpTier = spTier (exSpec cr),
          rpTarget = spTarget (exSpec cr),
          rpInjection = \<lparr>irType = injType (spInjection (exSpec cr)),
            irTargets = filter (\<lambda>t. t \<noteq> '''') (map ieTarget events), irTimestamp = orNow orc w\<rparr>,
          rpEvaluation = ev, rpPre = pre, rpPost = post,
          rpReconciliation = (if recons = [] then None else fdReconciliationResult (last recons)),
          rpCleanupError = None,
          rpCollateral = map (\<lambda>f. \<lparr>clOperator = fdOperator f, clComponent = fdComponent f,
              clPassed = fdPassed f, clChecks = fdChecks f\<rparr>)
            (filter (\<lambda>f. fdSource f = SourceCollateral) findings)\<rparr>)"

section \<open>Run\<close>

type_synonym runResult = "experimentResult \<times> goErr option"

definition aborted :: "goErr option \<Rightarrow> experimentResult \<Rightarrow> experimentResult" where
  "aborted err r = r\<lparr>erPhase := PhaseAborted, erError := err\<rparr>"

text \<open>Steps 5 to 7, after the observation window.\<close>

definition runFinish ::
  "'w orchestrator \<Rightarrow> chaosExperiment \<Rightarrow> checkResult \<Rightarrow> injectionEvent list \<Rightarrow> experimentResult \<Rightarrow> 'w \<Rightarrow>
   (runResult \<times> 'w) option" where
  "runFinish orc cr pre events r w =
     (case RunPostCheck orc cr w of
        None \<Rightarrow> None
      | Some ((post, findings), w1) \<Rightarrow>
          (let ev = EvaluateExperiment orc findings (spHypothesis (exSpec cr));
               report = buildReport orc cr pre post findings events ev w1;
               w2 = storeResultConfigMap orc cr (resolveNamespace cr) report (orWriteFiles orc report w1)
           in Some ((r\<lparr>erEvaluation := Some ev, erVerdict := evVerdict ev, erReport := Some report,
                       erPhase := PhaseComplete\<rparr>, None), w2)))"

text \<open>
  Steps 4 to 7: observe, then finish. The result comes with the cleanup function that the
  deferred call still has to run.
\<close>

definition runObserve ::
  "'w orchestrator \<Rightarrow> chaosExperiment \<Rightarrow> checkResult \<Rightarrow> injectionEvent list \<Rightarrow> 'w cleanupFunc option \<Rightarrow>
   experimentResult \<Rightarrow> 'w \<Rightarrow> ((runResult \<times> 'w cleanupFunc option) \<times> 'w) option" where
  "runObserve orc cr pre events cleanup r w =
     (let ttl = injTTL (spInjection (exSpec cr));
          window = (\<lambda>cleanup w.
            (case orWait orc (ResolvedRecoveryTimeout cr) w of
               (True, w1) \<Rightarrow>
                 Some (((aborted (Some (Errorf
                   ''experiment interrupted: context cancelled during observation'' [])) r, Some CtxErr),
                   cleanup), w1)
             | (False, w1) \<Rightarrow>
                 map_option (\<lambda>(res, w2). ((res, cleanup), w2)) (runFinish orc cr pre events r w1)))
      in if ttl > 0 then
           (case revertAtTTL orc cr cleanup ttl w of
              None \<Rightarrow> None
            | Some ((cleanup1, Some err), w1) \<Rightarrow>
                Some (((aborted (Some (Errorf ''experiment aborted during fault revert: %v'' [AText err])) r,
                  Some err), cleanup1), w1)
            | Some ((cleanup1, None), w1) \<Rightarrow> window cleanup1 w1)
         else window cleanup w)"

text \<open>The deferred cleanup: its error reaches the result and the report.\<close>

definition deferredCleanup ::
  "'w cleanupFunc option \<Rightarrow> experimentResult \<Rightarrow> 'w \<Rightarrow> experimentResult \<times> 'w" where
  "deferredCleanup cleanup r w =
     (case cleanup of
        None \<Rightarrow> (r, w)
      | Some c \<Rightarrow>
          (case c w of
             (None, w1) \<Rightarrow> (r, w1)
           | (Some err, w1) \<Rightarrow>
               (r\<lparr>erCleanupError := Some err,
                  erReport := map_option (rpCleanupError_update (\<lambda>_. Some err)) (erReport r)\<rparr>, w1)))"

text \<open>Steps 2 and 3 and what follows, with the lock held.\<close>

definition runLocked ::
  "'w orchestrator \<Rightarrow> chaosExperiment \<Rightarrow> experimentResult \<Rightarrow> 'w \<Rightarrow> (runResult \<times> 'w) option" where
  "runLocked orc cr r w =
     (case RunPreCheck orc cr w of
        (Inl err, w1) \<Rightarrow>
          Some ((aborted (Some (Errorf ''steady state pre-check error: %v'' [AText err])) r,
            Some (Errorf ''pre-check: %w'' [AErr err])), w1)
      | (Inr pre, w1) \<Rightarrow>
          if \<not> crPassed pre then
            (let ev = Evaluate (orMaxCycles orc) (Some pre) (Some pre) False 0 0 (spHypothesis (exSpec cr))
             in Some ((r\<lparr>erEvaluation := Some ev, erVerdict := evVerdict ev, erPhase := PhaseAborted\<rparr>,
                  Some (Errorf ''pre-check failed: system not in steady state'' [])), w1))
          else
            (case InjectFault orc cr w1 of
               (Inl err, w2) \<Rightarrow>
                 Some ((aborted (Some (Errorf ''injection failed: %v'' [AText err])) r,
                   Some (Errorf ''injection: %w'' [AErr err])), w2)
             | (Inr (cleanup, events), w2) \<Rightarrow>
                 (case runObserve orc cr pre events cleanup r w2 of
                    None \<Rightarrow> None
                  | Some (((r1, err), cleanup1), w3) \<Rightarrow>
                      (case deferredCleanup cleanup1 r1 w3 of (r2, w4) \<Rightarrow> Some ((r2, err), w4)))))"

definition runLeaseDuration :: "chaosExperiment \<Rightarrow> duration" where
  "runLeaseDuration cr =
     (let recoveryTimeout = ResolvedRecoveryTimeout cr; ttl = injTTL (spInjection (exSpec cr))
      in if ttl > 0 then ttl + recoveryTimeout * 2 else recoveryTimeout * 2)"

definition Run :: "'w orchestrator \<Rightarrow> chaosExperiment \<Rightarrow> 'w \<Rightarrow> (runResult \<times> 'w) option" where
  "Run orc cr w =
     (let opr = tgtOperator (spTarget (exSpec cr));
          r = \<lparr>erExperiment = exName cr, erPhase = PhasePending, erVerdict = VerdictUnset,
               erEvaluation = None, erReport = None, erError = None, erCleanupError = None,
               erTier = spTier (exSpec cr)\<rparr>
      in case ValidateExperiment orc cr of
           Some err \<Rightarrow> Some ((aborted (Some err) r, Some (Errorf ''validation failed: %w'' [AErr err])), w)
         | None \<Rightarrow>
             if brDryRun (spBlastRadius (exSpec cr)) then
               Some ((r\<lparr>erPhase := PhaseComplete, erVerdict := Inconclusive\<rparr>, None), w)
             else
               (case orAcquire orc opr (exName cr) (runLeaseDuration cr) w of
                  (Some err, w1) \<Rightarrow>
                    Some ((aborted (Some (Errorf ''lock acquisition failed: %v'' [AText err])) r,
                      Some (Errorf ''lock: %w'' [AErr err])), w1)
                | (None, w1) \<Rightarrow>
                    map_option (\<lambda>(res, w2). (res, snd (orRelease orc opr (exName cr) w2)))
                      (runLocked orc cr r w1)))"

end
