(* ===== verification/Strconv.thy ===== *)
theory Strconv
  imports Prelude
begin

text \<open>
  Go's \<open>strconv.Itoa\<close> and \<open>strconv.Atoi\<close> on 64-bit integers, the conversion to \<open>int32\<close> and
  \<open>fmt.Sprintf("%t")\<close>, as far as the injectors use them.
\<close>

definition digitChar :: "nat \<Rightarrow> char" where
  "digitChar d = char_of (48 + d)"

definition digitValue :: "char \<Rightarrow> nat" where
  "digitValue c = of_char c - 48"

fun showNat :: "nat \<Rightarrow> string" where
  "showNat n = (if n < 10 then [digitChar n] else showNat (n div 10) @ [digitChar (n mod 10)])"

declare showNat.simps [simp del]

definition itoa :: "int \<Rightarrow> string" where
  "itoa n = (if n < 0 then CHR ''-'' # showNat (nat (- n)) else showNat (nat n))"

definition parseDigits :: "string \<Rightarrow> nat option" where
  "parseDigits s = (if s = [] \<or> \<not> list_all isDigit s then None
     else Some (foldl (\<lambda>n c. 10 * n + digitValue c) 0 s))"

text \<open>\<open>Atoi\<close>: an optional sign and digits, within the range of an \<open>int64\<close>.\<close>

definition atoi :: "string \<Rightarrow> goErr + int" where
  "atoi s =
     (let bad = Inl (Errorf ''strconv.Atoi: parsing %q: invalid syntax or out of range'' [AStr s]);
          result = (\<lambda>r sgn. case r of
             None \<Rightarrow> bad
           | Some n \<Rightarrow> (if sgn * int n < - int64_max - 1 \<or> sgn * int n > int64_max then bad
                       else Inr (sgn * int n)))
      in case s of
           [] \<Rightarrow> bad
         | c # cs \<Rightarrow> if c = CHR ''-'' then result (parseDigits cs) (-1)
                     else if c = CHR ''+'' then result (parseDigits cs) 1
                     else result (parseDigits s) 1)"

definition toInt32 :: "int \<Rightarrow> int" where
  "toInt32 n = (n + 2147483648) mod 4294967296 - 2147483648"

definition boolText :: "bool \<Rightarrow> string" where
  "boolText b = (if b then ''true'' else ''false'')"

lemma of_char_digitChar: "d < 10 \<Longrightarrow> (of_char (digitChar d) :: nat) = 48 + d"
  by (simp add: digitChar_def of_char_of)

lemma digitChar_digit [simp]: "d < 10 \<Longrightarrow> isDigit (digitChar d)"
  by (simp add: isDigit_def of_char_digitChar)

lemma digitValue_digitChar [simp]: "d < 10 \<Longrightarrow> digitValue (digitChar d) = d"
  by (simp add: digitValue_def of_char_digitChar)

lemma showNat_nonempty [simp]: "showNat n \<noteq> []"
  by (subst showNat.simps) simp

lemma showNat_digits: "list_all isDigit (showNat n)"
proof (induction n rule: showNat.induct)
  case (1 n)
  then show ?case by (subst showNat.simps) simp
qed

lemma foldl_showNat: "foldl (\<lambda>n c. 10 * n + digitValue c) 0 (showNat n) = n"
proof (induction n rule: showNat.induct)
  case (1 n)
  show ?case
  proof (cases "n < 10")
    case True
    then show ?thesis by (subst showNat.simps) simp
  next
    case False
    then have "foldl (\<lambda>n c. 10 * n + digitValue c) 0 (showNat n) =
        10 * (n div 10) + n mod 10"
      using 1 [OF False] by (subst showNat.simps) simp
    then show ?thesis by simp
  qed
qed

lemma parseDigits_showNat [simp]: "parseDigits (showNat n) = Some n"
  by (simp add: parseDigits_def showNat_digits foldl_showNat)

lemma showNat_hd: "hd (showNat n) \<noteq> CHR ''-'' \<and> hd (showNat n) \<noteq> CHR ''+''"
proof -
  have "isDigit (hd (showNat n))"
    using showNat_digits [of n] by (cases "showNat n") auto
  then show ?thesis by (auto simp: isDigit_def)
qed

lemma atoi_itoa:
  assumes "- int64_max - 1 \<le> n" "n \<le> int64_max"
  shows "atoi (itoa n) = Inr n"
proof (cases "n < 0")
  case True
  then show ?thesis using assms by (simp add: atoi_def itoa_def Let_def)
next
  case False
  obtain c cs where s: "showNat (nat n) = c # cs" by (cases "showNat (nat n)") auto
  then have "c \<noteq> CHR ''-''" "c \<noteq> CHR ''+''" using showNat_hd [of "nat n"] by auto
  moreover have "parseDigits (c # cs) = Some (nat n)" using s parseDigits_showNat [of "nat n"] by simp
  ultimately show ?thesis using assms False s by (simp add: atoi_def itoa_def Let_def)
qed

lemma toInt32_id: "- 2147483648 \<le> n \<Longrightarrow> n \<le> int32_max \<Longrightarrow> toInt32 n = n"
  by (simp add: toInt32_def int32_max_def)

lemma boolText_false [simp]: "boolText b = ''false'' \<longleftrightarrow> \<not> b"
  by (simp add: boolText_def)

end
