(* ===== verification/Rollback.thy ===== *)
theory Rollback
  imports ApiTypes KubeClient Strconv
begin

text \<open>
  The objects that the injectors read and write, and \<open>pkg/safety/rollback.go\<close>: the chaos
  labels and the rollback annotation with its integrity envelope. An object is a \<open>kobject\<close>
  (metadata and a body for the kinds used) with its resourceVersion, found under kind,
  namespace and name. The JSON codec and SHA-256 are parameters (\<open>rollbackLib\<close>).
\<close>

section \<open>Objects\<close>

type_synonym objKey = "string \<times> string \<times> string"

record container =
  ctName :: string
  ctImage :: string
  ctCommand :: "string list"
  ctArgs :: "string list"

record ownerRef =
  owAPIVersion :: string
  owKind :: string
  owName :: string
  owUID :: string
  owController :: "bool option"
  owBlockDeletion :: "bool option"

record webhookEntry =
  weName :: string
  wePolicy :: "string option"
  weService :: "(string \<times> string \<times> string) option"
  weCABundle :: string
  weOperations :: "string list"
  weGroups :: "string list"
  weVersions :: "string list"
  weResources :: "string list"
  weSideEffects :: "string option"
  weTimeout :: "int option"
  weReviewVersions :: "string list"

text \<open>
  The bodies of the kinds that are used. \<open>BServer\<close> is the Deployment of the slow webhook server:
  selector, replicas, container, ports, volume mounts, volumes; \<open>BNamespace\<close> says whether the
  namespace is terminating.
\<close>

datatype objBody =
    BEmpty
  | BData strmap
  | BDeployment "int option" "container list"
  | BSubjects "subject list"
  | BQuota strmap
  | BPolicy strmap "string list"
  | BBudget int strmap
  | BWebhooks "webhookEntry list"
  | BServer strmap int container "int list" "(string \<times> string) list" "(string \<times> string) list"
  | BService strmap "(int \<times> int) list"
  | BNamespace bool
and subject = Subject string string string string

record kobject =
  obLabels :: strmap
  obAnnotations :: strmap
  obFinalizers :: "string list"
  obOwnerRefs :: "ownerRef list"
  obBody :: objBody

type_synonym vobject = "kobject versioned"

definition setLabels :: "strmap \<Rightarrow> vobject \<Rightarrow> vobject" where
  "setLabels m x = (fst x, (snd x)\<lparr>obLabels := m\<rparr>)"

definition setAnnotations :: "strmap \<Rightarrow> vobject \<Rightarrow> vobject" where
  "setAnnotations m x = (fst x, (snd x)\<lparr>obAnnotations := m\<rparr>)"

definition setBody :: "objBody \<Rightarrow> vobject \<Rightarrow> vobject" where
  "setBody b x = (fst x, (snd x)\<lparr>obBody := b\<rparr>)"

definition newObject :: "strmap \<Rightarrow> strmap \<Rightarrow> objBody \<Rightarrow> vobject" where
  "newObject labels annotations b =
     (0, \<lparr>obLabels = labels, obAnnotations = annotations, obFinalizers = [], obOwnerRefs = [],
          obBody = b\<rparr>)"

definition dataOf :: "vobject \<Rightarrow> strmap" where
  "dataOf x = (case obBody (snd x) of BData m \<Rightarrow> m | _ \<Rightarrow> Map.empty)"

text \<open>
  \<open>client.MergeFrom(orig)\<close>: the patch from the object as it was read to the object as it was
  changed, applied by the server to what it stores. Unchanged entries are not in the patch.
\<close>

definition mergeMap :: "('k \<rightharpoonup> 'v) \<Rightarrow> ('k \<rightharpoonup> 'v) \<Rightarrow> ('k \<rightharpoonup> 'v) \<Rightarrow> 'k \<rightharpoonup> 'v" where
  "mergeMap orig new cur = (\<lambda>k. if new k = orig k then cur k else new k)"

lemma mergeMap_same [simp]: "mergeMap m new m = new"
  by (rule ext) (simp add: mergeMap_def)

definition mergeBody :: "objBody \<Rightarrow> objBody \<Rightarrow> objBody \<Rightarrow> objBody" where
  "mergeBody orig new cur =
     (let other = (if new = orig then cur else new)
      in case orig of
           BDeployment r cs \<Rightarrow>
             (case new of
                BDeployment r' cs' \<Rightarrow>
                  (case cur of
                     BDeployment r'' cs'' \<Rightarrow>
                       BDeployment (if r' = r then r'' else r') (if cs' = cs then cs'' else cs')
                   | _ \<Rightarrow> other)
              | _ \<Rightarrow> other)
         | BData m \<Rightarrow>
             (case new of
                BData m' \<Rightarrow> (case cur of BData m'' \<Rightarrow> BData (mergeMap m m' m'') | _ \<Rightarrow> other)
              | _ \<Rightarrow> other)
         | _ \<Rightarrow> other)"

lemma mergeBody_same [simp]: "mergeBody b new b = new"
  by (auto simp: mergeBody_def Let_def split: objBody.split)

definition mergeFrom :: "vobject \<Rightarrow> vobject \<Rightarrow> vobject \<Rightarrow> vobject" where
  "mergeFrom orig new cur =
     (fst cur, (snd cur)
       \<lparr>obLabels := mergeMap (obLabels (snd orig)) (obLabels (snd new)) (obLabels (snd cur)),
        obAnnotations := mergeMap (obAnnotations (snd orig)) (obAnnotations (snd new))
          (obAnnotations (snd cur)),
        obBody := mergeBody (obBody (snd orig)) (obBody (snd new)) (obBody (snd cur))\<rparr>)"

lemma mergeFrom_same:
  "obFinalizers (snd new) = obFinalizers (snd orig) \<Longrightarrow> obOwnerRefs (snd new) = obOwnerRefs (snd orig) \<Longrightarrow>
   snd (mergeFrom orig new orig) = snd new"
  by (auto simp: mergeFrom_def)

section \<open>Chaos metadata\<close>

definition RollbackAnnotationKey :: string where
  "RollbackAnnotationKey = ''chaos.operatorchaos.io/rollback-data''"

definition ManagedByLabel :: string where
  "ManagedByLabel = ''app.kubernetes.io/managed-by''"

definition ManagedByValue :: string where
  "ManagedByValue = ''operator-chaos''"

definition ChaosTypeLabel :: string where
  "ChaosTypeLabel = ''chaos.operatorchaos.io/type''"

definition ChaosLabels :: "string \<Rightarrow> strmap" where
  "ChaosLabels injTy = [ManagedByLabel \<mapsto> ManagedByValue, ChaosTypeLabel \<mapsto> injTy]"

definition ApplyChaosMetadata :: "string \<Rightarrow> string \<Rightarrow> vobject \<Rightarrow> vobject" where
  "ApplyChaosMetadata rollbackData injTy x =
     setLabels (obLabels (snd x) ++ ChaosLabels injTy)
       (setAnnotations ((obAnnotations (snd x))(RollbackAnnotationKey \<mapsto> rollbackData)) x)"

definition RemoveChaosMetadata :: "string \<Rightarrow> vobject \<Rightarrow> vobject" where
  "RemoveChaosMetadata injTy x =
     setLabels (obLabels (snd x) |` (- dom (ChaosLabels injTy)))
       (setAnnotations ((obAnnotations (snd x))(RollbackAnnotationKey := None)) x)"

lemma chaos_keys_distinct [simp]: "ManagedByLabel \<noteq> ChaosTypeLabel"
  by (simp add: ManagedByLabel_def ChaosTypeLabel_def)

lemma ChaosLabels_dom [simp]: "dom (ChaosLabels t) = {ManagedByLabel, ChaosTypeLabel}"
  by (auto simp: ChaosLabels_def)

section \<open>Integrity envelope\<close>

type_synonym rollbackInfo = "(string \<times> string) list"

record 'i rollbackLib =
  rlMarshal :: "'i \<Rightarrow> goErr + string"
  rlUnmarshal :: "string \<Rightarrow> goErr + 'i"
  rlHash :: "string \<Rightarrow> string"
  rlEncode :: "string \<times> string \<Rightarrow> goErr + string"
  rlDecode :: "string \<Rightarrow> goErr + string option \<times> string"

definition maxRollbackDataSize :: nat where "maxRollbackDataSize = 200000"

definition WrapRollbackData :: "'i rollbackLib \<Rightarrow> 'i \<Rightarrow> goErr + string" where
  "WrapRollbackData lib info =
     (case rlMarshal lib info of
        Inl err \<Rightarrow> Inl err
      | Inr raw \<Rightarrow>
          if length raw > maxRollbackDataSize then
            Inl (Errorf ''rollback data too large (%d bytes, max %d); reduce target resource complexity''
              [AInt (int (length raw)), AInt (int maxRollbackDataSize)])
          else rlEncode lib (raw, rlHash lib raw))"

definition UnwrapRollbackData :: "'i rollbackLib \<Rightarrow> string \<Rightarrow> goErr + 'i" where
  "UnwrapRollbackData lib raw =
     (case rlDecode lib raw of
        Inl err \<Rightarrow> Inl (Errorf ''rollback data is not valid JSON: %w'' [AErr err])
      | Inr (None, checksum) \<Rightarrow> Inl (Errorf ''rollback data missing integrity envelope (legacy format is no longer supported; re-run the experiment to upgrade)'' [])
      | Inr (Some d, checksum) \<Rightarrow>
          if checksum = '''' then Inl (Errorf ''rollback data missing integrity envelope (legacy format is no longer supported; re-run the experiment to upgrade)'' [])
          else if checksum \<noteq> rlHash lib d then
            Inl (Errorf ''rollback data checksum mismatch: expected %s, got %s''
              [AStr (rlHash lib d), AStr checksum])
          else rlUnmarshal lib d)"

text \<open>What the codec and the hash are relied on for: decoding inverts encoding, a hash is not empty.\<close>

locale rollback_codec =
  fixes lib :: "'i rollbackLib"
  assumes unmarshal_marshal: "rlMarshal lib info = Inr raw \<Longrightarrow> rlUnmarshal lib raw = Inr info"
    and decode_encode: "rlEncode lib (d, h) = Inr s \<Longrightarrow> rlDecode lib s = Inr (Some d, h)"
    and hash_nonempty: "rlHash lib d \<noteq> ''''"
begin

lemma unwrap_wrap: "WrapRollbackData lib info = Inr s \<Longrightarrow> UnwrapRollbackData lib s = Inr info"
  by (auto simp: WrapRollbackData_def UnwrapRollbackData_def hash_nonempty decode_encode
      unmarshal_marshal split: sum.splits if_splits)

end

section \<open>A codec\<close>

text \<open>
  A codec for the laws: a byte is escaped by a marker, a string ends with a dot, and the hash of
  a string is its length in unary.
\<close>

fun encStr :: "string \<Rightarrow> string" where
  "encStr [] = ''.''"
| "encStr (c # s) = CHR ''c'' # c # encStr s"

fun decStr :: "string \<Rightarrow> (string \<times> string) option" where
  "decStr (x # c # r) =
     (if x = CHR ''.'' then Some ('''', c # r)
      else if x = CHR ''c'' then map_option (\<lambda>(s, r'). (c # s, r')) (decStr r)
      else None)"
| "decStr [x] = (if x = CHR ''.'' then Some ('''', '''') else None)"
| "decStr [] = None"

lemma decStr_encStr [simp]: "decStr (encStr s @ r) = Some (s, r)"
proof (induction s)
  case Nil
  then show ?case by (cases r) simp_all
qed simp

fun encInfo :: "rollbackInfo \<Rightarrow> string" where
  "encInfo [] = ''.''"
| "encInfo ((a, b) # ps) = CHR ''p'' # encStr a @ encStr b @ encInfo ps"

fun decInfo :: "nat \<Rightarrow> string \<Rightarrow> rollbackInfo option" where
  "decInfo 0 s = None"
| "decInfo (Suc n) s =
     (case s of
        [] \<Rightarrow> None
      | c # r \<Rightarrow>
          if c = CHR ''.'' then (if r = [] then Some [] else None)
          else (case decStr r of
                  None \<Rightarrow> None
                | Some (a, r1) \<Rightarrow>
                    (case decStr r1 of
                       None \<Rightarrow> None
                     | Some (b, r2) \<Rightarrow> map_option (\<lambda>ps. (a, b) # ps) (decInfo n r2))))"

lemma decInfo_encInfo: "length ps < n \<Longrightarrow> decInfo n (encInfo ps) = Some ps"
proof (induction ps arbitrary: n)
  case Nil
  then show ?case by (cases n) simp_all
next
  case (Cons p ps)
  then show ?case by (cases n; cases p) simp_all
qed

lemma length_encInfo: "length ps < length (encInfo ps)"
proof (induction ps)
  case (Cons p ps)
  then show ?case by (cases p) simp
qed simp

definition noCodec :: goErr where
  "noCodec = ApiOther ''codec''"

definition demoRollbackLib :: "rollbackInfo rollbackLib" where
  "demoRollbackLib =
     \<lparr>rlMarshal = \<lambda>info. Inr (encInfo info),
      rlUnmarshal = \<lambda>s. (case decInfo (length s) s of None \<Rightarrow> Inl noCodec | Some i \<Rightarrow> Inr i),
      rlHash = \<lambda>s. CHR ''h'' # map (\<lambda>_. CHR ''x'') s,
      rlEncode = \<lambda>(d, h). Inr (encStr d @ encStr h),
      rlDecode = \<lambda>s. (case decStr s of
         None \<Rightarrow> Inl noCodec
       | Some (d, r) \<Rightarrow> (case decStr r of None \<Rightarrow> Inl noCodec | Some (h, _) \<Rightarrow> Inr (Some d, h)))\<rparr>"

interpretation demoCodec: rollback_codec demoRollbackLib
proof unfold_locales
  fix info raw assume "rlMarshal demoRollbackLib info = Inr raw"
  then show "rlUnmarshal demoRollbackLib raw = Inr info"
    by (auto simp: demoRollbackLib_def decInfo_encInfo length_encInfo)
next
  fix d h s assume "rlEncode demoRollbackLib (d, h) = Inr s"
  then show "rlDecode demoRollbackLib s = Inr (Some d, h)"
    using decStr_encStr [of h "''''"] by (auto simp: demoRollbackLib_def)
qed (simp add: demoRollbackLib_def)

lemma restrict_two:
  fixes m :: strmap
  shows "m |` (- {a, b}) = m \<longleftrightarrow> m a = None \<and> m b = None"
proof
  assume *: "m |` (- {a, b}) = m"
  have "m a = (m |` (- {a, b})) a" "m b = (m |` (- {a, b})) b" by (simp_all only: *)
  then show "m a = None \<and> m b = None" by simp
next
  assume n: "m a = None \<and> m b = None"
  show "m |` (- {a, b}) = m"
  proof (rule ext)
    fix x show "(m |` (- {a, b})) x = m x" using n by (cases "x = a"; cases "x = b") simp_all
  qed
qed

section \<open>Properties\<close>

text \<open>C30. Rollback data survives its envelope: what \<open>UnwrapRollbackData\<close> returns is what
  \<open>WrapRollbackData\<close> was given. Data that does not carry its own checksum is refused, and data
  above the size limit is never written.\<close>

theorem rollback_roundtrip:
  assumes "rollback_codec lib"
  shows "(\<forall>s. WrapRollbackData lib info = Inr s \<longrightarrow> UnwrapRollbackData lib s = Inr info) \<and>
    (\<forall>s d h. rlDecode lib s = Inr (d, h) \<longrightarrow> isl (UnwrapRollbackData lib s) \<or> d \<noteq> None \<and> h = rlHash lib (the d)) \<and>
    (\<forall>raw. rlMarshal lib info = Inr raw \<longrightarrow> length raw > 200000 \<longrightarrow> isl (WrapRollbackData lib info))"
proof (intro conjI allI impI)
  fix s assume "WrapRollbackData lib info = Inr s"
  then show "UnwrapRollbackData lib s = Inr info" by (rule rollback_codec.unwrap_wrap [OF assms])
next
  fix s d h assume "rlDecode lib s = Inr (d, h)"
  then show "isl (UnwrapRollbackData lib s) \<or> d \<noteq> None \<and> h = rlHash lib (the d)"
    by (auto simp: UnwrapRollbackData_def split: option.split)
next
  fix raw assume "rlMarshal lib info = Inr raw" "length raw > 200000"
  then show "isl (WrapRollbackData lib info)"
    by (simp add: WrapRollbackData_def maxRollbackDataSize_def)
qed

lemma length_encStr [simp]: "length (encStr s) = 2 * length s + 1"
  by (induction s) simp_all

lemma demo_wrap:
  "length (encInfo info) \<le> maxRollbackDataSize \<Longrightarrow> \<exists>s. WrapRollbackData demoRollbackLib info = Inr s"
  by (simp add: WrapRollbackData_def demoRollbackLib_def)

theorem rollback_roundtrip_witness:
  "\<exists>s. WrapRollbackData demoRollbackLib [(''k'', ''v'')] = Inr s \<and>
       UnwrapRollbackData demoRollbackLib s = Inr [(''k'', ''v'')]"
proof -
  have "length (encInfo [(''k'', ''v'')]) = 8" by (simp del: encStr.simps)
  then obtain s where "WrapRollbackData demoRollbackLib [(''k'', ''v'')] = Inr s"
    using demo_wrap [of "[(''k'', ''v'')]"] by (auto simp: maxRollbackDataSize_def)
  with rollback_roundtrip [OF demoCodec.rollback_codec_axioms, of "[(''k'', ''v'')]"] show ?thesis by blast
qed

text \<open>Applying and removing the chaos metadata leaves an object as it was exactly when it carried
  none of the chaos keys; a \<open>managed-by\<close> label that the object had before is lost.\<close>

theorem chaos_metadata_roundtrip:
  "(RemoveChaosMetadata t (ApplyChaosMetadata r t x) = x) =
     (obAnnotations (snd x) RollbackAnnotationKey = None \<and> obLabels (snd x) ManagedByLabel = None \<and>
      obLabels (snd x) ChaosTypeLabel = None)"
proof -
  have l: "(obLabels (snd x) ++ ChaosLabels t) |` (- {ManagedByLabel, ChaosTypeLabel}) =
      obLabels (snd x) |` (- {ManagedByLabel, ChaosTypeLabel})"
    by (rule ext) (simp add: restrict_map_def ChaosLabels_def map_add_def)
  note e = restrict_two
  obtain v k where x: "x = (v, k)" by (cases x)
  have "RemoveChaosMetadata t (ApplyChaosMetadata r t x) =
     (v, k\<lparr>obLabels := obLabels k |` (- {ManagedByLabel, ChaosTypeLabel}),
           obAnnotations := (obAnnotations k)(RollbackAnnotationKey := None)\<rparr>)"
    using l by (simp add: RemoveChaosMetadata_def ApplyChaosMetadata_def setLabels_def setAnnotations_def x)
  moreover have "k\<lparr>obLabels := l, obAnnotations := a\<rparr> = k \<longleftrightarrow> l = obLabels k \<and> a = obAnnotations k" for l a
    by (cases k) auto
  moreover have "m(q := None) = m \<longleftrightarrow> m q = None" for m :: strmap and q
    by (auto simp: fun_eq_iff)
  ultimately show ?thesis using e [of "obLabels k" ManagedByLabel ChaosTypeLabel] by (simp add: x) blast
qed

section \<open>TTL annotation\<close>

definition TTLAnnotationKey :: string where
  "TTLAnnotationKey = ''chaos.operatorchaos.io/expires''"

definition TTLExpiry :: "(timestamp \<Rightarrow> string) \<Rightarrow> timestamp \<Rightarrow> duration \<Rightarrow> string" where
  "TTLExpiry format now d = format (now + d)"

definition IsExpired :: "(string \<Rightarrow> timestamp option) \<Rightarrow> timestamp \<Rightarrow> string \<Rightarrow> bool" where
  "IsExpired parse now annotation =
     (case parse annotation of None \<Rightarrow> True | Some t \<Rightarrow> now > t)"

end
