(* ===== verification/Cluster.thy ===== *)
theory Cluster
  imports Rollback
begin

text \<open>
  The cluster as the injectors use it: a client for objects of every kind, found under kind,
  namespace and name, together with the codecs that injectors keep their backups with. The locale
  \<open>cluster_api\<close> is a cluster whose client obeys the laws of the API. The code's recurring
  call patterns (read or give up, delete unless gone, create or take over one's own) are
  definitions with one law each.
\<close>

section \<open>Clusters\<close>

text \<open>
  \<open>cdSelector\<close> is \<open>labels.Parse\<close> with the equality requirements that have a single value,
  \<open>cdQuantity\<close> is \<open>resource.ParseQuantity\<close> in canonical form, \<open>cdHex\<close> is the hexadecimal SHA-256.
  \<open>clReturned\<close> is the resourceVersion that the last write of an object returned to its caller;
  \<open>clKind\<close> is the REST mapping of an apiVersion and a kind that come as strings.
\<close>

record codecs =
  cdRollback :: "rollbackInfo rollbackLib"
  cdSubjects :: "subject list rollbackLib"
  cdLabel :: "(string \<times> string \<times> bool) rollbackLib"
  cdMarshalObj :: "objKey \<times> kobject \<Rightarrow> goErr + string"
  cdUnmarshalObj :: "string \<Rightarrow> goErr + objKey \<times> kobject"
  cdData :: "strmap rollbackLib"
  cdMarshalOwners :: "ownerRef list \<Rightarrow> goErr + string"
  cdUnmarshalOwners :: "string \<Rightarrow> goErr + ownerRef list"
  cdMarshalStrs :: "string list \<Rightarrow> goErr + string"
  cdUnmarshalStrs :: "string \<Rightarrow> goErr + string list"
  cdSelector :: "string \<Rightarrow> goErr + (string \<times> string) list"
  cdMatches :: "string \<Rightarrow> goErr + (strmap \<Rightarrow> bool)"
  cdMarshalMap :: "strmap \<Rightarrow> goErr + string"
  cdUnmarshalMap :: "string \<Rightarrow> goErr + strmap"
  cdQuantity :: "string \<Rightarrow> goErr + string"
  cdHex :: "string \<Rightarrow> string"
  cdFormatTime :: "timestamp \<Rightarrow> string"

record 'w cluster =
  cl :: "('w, objKey, vobject) kclient"
  clNow :: "'w \<Rightarrow> timestamp"
  clReturned :: "objKey \<Rightarrow> 'w \<Rightarrow> nat"
  clList :: "string \<Rightarrow> string option \<Rightarrow> (strmap \<Rightarrow> bool) \<Rightarrow> 'w \<Rightarrow> (goErr + (objKey \<times> vobject) list) \<times> 'w"
  clKind :: "string \<Rightarrow> string \<Rightarrow> string"
  clCodecs :: codecs

text \<open>What a list call selects: the objects of a kind, in one namespace or in all of them, whose
  labels satisfy the selector.\<close>

definition listed ::
  "(objKey \<rightharpoonup> vobject) \<Rightarrow> string \<Rightarrow> string option \<Rightarrow> (strmap \<Rightarrow> bool) \<Rightarrow> objKey \<Rightarrow> vobject \<Rightarrow> bool" where
  "listed m kd nso p key x =
     (m key = Some x \<and> fst key = kd \<and> (nso = None \<or> nso = Some (fst (snd key))) \<and> p (obLabels (snd x)))"

locale cluster_api = kube_api "cl k" st fst snd
  for k :: "'w cluster" and st :: "'w \<Rightarrow> objKey \<rightharpoonup> vobject" +
  assumes returned: "st w key = Some x \<Longrightarrow> clReturned k key w = fst x"
    and list_ok: "clList k kd nso p w = (Inr xs, w') \<Longrightarrow> st w' = st w \<and> distinct (map fst xs) \<and>
          (\<forall>key x. (key, x) \<in> set xs \<longleftrightarrow> listed (st w) kd nso p key x)"
    and list_err: "clList k kd nso p w = (Inl e, w') \<Longrightarrow> st w' = st w"

text \<open>\<open>NamespacedName.String\<close>.\<close>

definition keyText :: "string \<Rightarrow> string \<Rightarrow> string" where
  "keyText ns name = ns @ ''/'' @ name"

section \<open>Call patterns\<close>

text \<open>Read an object; an error is wrapped and ends the operation.\<close>

definition fetch ::
  "'w cluster \<Rightarrow> objKey \<Rightarrow> (goErr \<Rightarrow> goErr) \<Rightarrow> (vobject \<Rightarrow> 'w \<Rightarrow> (goErr + 'a) \<times> 'w) \<Rightarrow> 'w \<Rightarrow>
   (goErr + 'a) \<times> 'w" where
  "fetch k key wrap body w =
     (case kGet (cl k) key w of
        (Inl err, w1) \<Rightarrow> (Inl (wrap err), w1)
      | (Inr x, w1) \<Rightarrow> body x w1)"

text \<open>Read an object that need not exist: when it is gone there is nothing to do.\<close>

definition onFound ::
  "'w cluster \<Rightarrow> objKey \<Rightarrow> (goErr \<Rightarrow> goErr) \<Rightarrow> (vobject \<Rightarrow> 'w \<Rightarrow> goErr option \<times> 'w) \<Rightarrow> 'w \<Rightarrow>
   goErr option \<times> 'w" where
  "onFound k key wrap body w =
     (case kGet (cl k) key w of
        (Inl err, w1) \<Rightarrow> if isNotFound err then (None, w1) else (Some (wrap err), w1)
      | (Inr x, w1) \<Rightarrow> body x w1)"

text \<open>Read an object that must exist.\<close>

definition reread ::
  "'w cluster \<Rightarrow> objKey \<Rightarrow> (goErr \<Rightarrow> goErr) \<Rightarrow> (vobject \<Rightarrow> 'w \<Rightarrow> goErr option \<times> 'w) \<Rightarrow> 'w \<Rightarrow>
   goErr option \<times> 'w" where
  "reread k key wrap body w =
     (case kGet (cl k) key w of
        (Inl err, w1) \<Rightarrow> (Some (wrap err), w1)
      | (Inr x, w1) \<Rightarrow> body x w1)"

definition wrapW :: "(goErr \<Rightarrow> goErr) \<Rightarrow> goErr option \<times> 'w \<Rightarrow> goErr option \<times> 'w" where
  "wrapW wrap r = (map_option wrap (fst r), snd r)"

definition andThen :: "goErr option \<times> 'w \<Rightarrow> ('w \<Rightarrow> goErr option \<times> 'w) \<Rightarrow> goErr option \<times> 'w" where
  "andThen r f = (case r of (Some err, w) \<Rightarrow> (Some err, w) | (None, w) \<Rightarrow> f w)"

text \<open>Delete an object unless it is gone already.\<close>

definition deleteGone ::
  "'w cluster \<Rightarrow> objKey \<Rightarrow> (goErr \<Rightarrow> goErr) \<Rightarrow> 'w \<Rightarrow> goErr option \<times> 'w" where
  "deleteGone k key wrap w =
     (case kDelete (cl k) key None w of
        (Some err, w1) \<Rightarrow> if isNotFound err then (None, w1) else (Some (wrap err), w1)
      | (None, w1) \<Rightarrow> (None, w1))"

text \<open>A write that ends an injection: on success the cleanup function and the events.\<close>

definition finishInject ::
  "goErr option \<times> 'w \<Rightarrow> (goErr \<Rightarrow> goErr) \<Rightarrow> ('w \<Rightarrow> 'a) \<Rightarrow> (goErr + 'a) \<times> 'w" where
  "finishInject r wrap result =
     (case r of (Some err, w) \<Rightarrow> (Inl (wrap err), w) | (None, w) \<Rightarrow> (Inr (result w), w))"

text \<open>The object exists and satisfies a property.\<close>

definition objAt :: "(kobject \<Rightarrow> bool) \<Rightarrow> (objKey \<rightharpoonup> vobject) \<Rightarrow> objKey \<Rightarrow> bool" where
  "objAt P m key = (case m key of None \<Rightarrow> False | Some x \<Rightarrow> P (snd x))"

definition isManaged :: "vobject \<Rightarrow> bool" where
  "isManaged x = (obLabels (snd x) ManagedByLabel = Some ManagedByValue)"

text \<open>
  Create an object, or replace the labels and the body of one that the framework created
  before; an object of the same name that is not managed is left alone. The three errors are
  those of the refusal, the update, the create and the read.
\<close>

definition putManaged ::
  "'w cluster \<Rightarrow> objKey \<Rightarrow> strmap \<Rightarrow> objBody \<Rightarrow> goErr \<Rightarrow> (goErr \<Rightarrow> goErr) \<Rightarrow> (goErr \<Rightarrow> goErr) \<Rightarrow>
   (goErr \<Rightarrow> goErr) \<Rightarrow> 'w \<Rightarrow> goErr option \<times> 'w" where
  "putManaged k key labels body refuse onUpdate onCreate onGet w =
     (case kGet (cl k) key w of
        (Inr existing, w1) \<Rightarrow>
          if \<not> isManaged existing then (Some refuse, w1)
          else wrapW onUpdate (kUpdate (cl k) key (setBody body (setLabels labels existing)) w1)
      | (Inl err, w1) \<Rightarrow>
          if isNotFound err then wrapW onCreate (kCreate (cl k) key (newObject labels Map.empty body) w1)
          else (Some (onGet err), w1))"

lemma object_simps [simp]:
  "fst (setAnnotations m x) = fst x" "obAnnotations (snd (setAnnotations m x)) = m"
  "obBody (snd (setAnnotations m x)) = obBody (snd x)" "obLabels (snd (setAnnotations m x)) = obLabels (snd x)"
  "obFinalizers (snd (setAnnotations m x)) = obFinalizers (snd x)"
  "obOwnerRefs (snd (setAnnotations m x)) = obOwnerRefs (snd x)"
  "fst (setBody b x) = fst x" "obAnnotations (snd (setBody b x)) = obAnnotations (snd x)"
  "obBody (snd (setBody b x)) = b" "obLabels (snd (setBody b x)) = obLabels (snd x)"
  "obFinalizers (snd (setBody b x)) = obFinalizers (snd x)"
  "obOwnerRefs (snd (setBody b x)) = obOwnerRefs (snd x)"
  "fst (setLabels l x) = fst x" "obLabels (snd (setLabels l x)) = l"
  "obAnnotations (snd (setLabels l x)) = obAnnotations (snd x)" "obBody (snd (setLabels l x)) = obBody (snd x)"
  "obFinalizers (snd (setLabels l x)) = obFinalizers (snd x)"
  "obOwnerRefs (snd (setLabels l x)) = obOwnerRefs (snd x)"
  by (simp_all add: setAnnotations_def setBody_def setLabels_def)

lemma newObject_simps [simp]:
  "obLabels (snd (newObject l a b)) = l" "obAnnotations (snd (newObject l a b)) = a"
  "obBody (snd (newObject l a b)) = b" "obFinalizers (snd (newObject l a b)) = []"
  by (simp_all add: newObject_def)

lemma isManaged_chaos [simp]: "obLabels (snd x) = ChaosLabels t \<Longrightarrow> isManaged x"
  by (simp add: isManaged_def ChaosLabels_def)

lemma mergeFrom_self [simp]:
  "obFinalizers (snd new) = obFinalizers (snd x) \<Longrightarrow> obOwnerRefs (snd new) = obOwnerRefs (snd x) \<Longrightarrow>
   snd (mergeFrom x new x) = snd new"
  by (rule mergeFrom_same)

section \<open>Laws of the patterns\<close>

lemma wrapW_eq: "wrapW f r = (q, w) \<longleftrightarrow> (\<exists>q'. r = (q', w) \<and> q = map_option f q')"
  by (cases r) (auto simp: wrapW_def)

lemma andThen_eq:
  "andThen r f = (None, w') \<longleftrightarrow> (\<exists>w. r = (None, w) \<and> f w = (None, w'))"
  by (cases r) (auto simp: andThen_def split: option.splits)

lemma finishInject_eq:
  "finishInject r f g = (Inl e, w) \<longleftrightarrow> (\<exists>e'. r = (Some e', w) \<and> e = f e')"
  "finishInject r f g = (Inr x, w) \<longleftrightarrow> r = (None, w) \<and> x = g w"
  by (cases r; auto simp: finishInject_def split: option.splits)+

context cluster_api
begin

lemma fetch_cases [consumes 1, case_names Failed Found]:
  assumes "fetch k key wrap body w = (r, w')"
  obtains e where "r = Inl e" "st w' = st w"
  | x w1 where "st w key = Some x" "st w1 = st w" "body x w1 = (r, w')"
proof -
  obtain q w1 where g: "kGet (cl k) key w = (q, w1)" by fastforce
  show thesis
  proof (cases q)
    case (Inl err)
    show thesis by (rule that(1)) (use assms g Inl get_err [of key w err w1] in \<open>auto simp: fetch_def\<close>)
  next
    case (Inr x)
    show thesis by (rule that(2)) (use assms g Inr get_ok [of key w x w1] in \<open>auto simp: fetch_def\<close>)
  qed
qed

lemma onFound_cases [consumes 1, case_names Failed Gone Found]:
  assumes "onFound k key wrap body w = (r, w')"
  obtains e where "r = Some e" "st w' = st w"
  | "r = None" "st w key = None" "st w' = st w"
  | x w1 where "st w key = Some x" "st w1 = st w" "body x w1 = (r, w')"
proof -
  obtain q w1 where g: "kGet (cl k) key w = (q, w1)" by fastforce
  show thesis
  proof (cases q)
    case (Inl err)
    note e = get_err [of key w err w1] get_notfound [of key w err w1]
    show thesis
    proof (cases "isNotFound err")
      case True
      show thesis by (rule that(2)) (use assms g Inl True e in \<open>auto simp: onFound_def\<close>)
    next
      case False
      show thesis by (rule that(1)) (use assms g Inl False e in \<open>auto simp: onFound_def\<close>)
    qed
  next
    case (Inr x)
    show thesis by (rule that(3)) (use assms g Inr get_ok [of key w x w1] in \<open>auto simp: onFound_def\<close>)
  qed
qed

lemma reread_cases [consumes 1, case_names Failed Found]:
  assumes "reread k key wrap body w = (r, w')"
  obtains e where "r = Some e" "st w' = st w"
  | x w1 where "st w key = Some x" "st w1 = st w" "body x w1 = (r, w')"
proof -
  obtain q w1 where g: "kGet (cl k) key w = (q, w1)" by fastforce
  show thesis
  proof (cases q)
    case (Inl err)
    show thesis by (rule that(1)) (use assms g Inl get_err [of key w err w1] in \<open>auto simp: reread_def\<close>)
  next
    case (Inr x)
    show thesis by (rule that(2)) (use assms g Inr get_ok [of key w x w1] in \<open>auto simp: reread_def\<close>)
  qed
qed

lemma patch_cases [consumes 1, case_names Failed Patched]:
  assumes "kPatch (cl k) key f w = (r, w')"
  obtains e where "r = Some e" "st w' = st w"
  | x y where "r = None" "st w key = Some x" "snd y = snd (f x)" "st w' = (st w)(key \<mapsto> y)"
proof (cases r)
  case None
  from patch_ok [OF assms [unfolded None]] show thesis by (elim exE conjE) (rule that(2) [OF None])
next
  case (Some e)
  show thesis by (rule that(1) [OF Some patch_err [OF assms [unfolded Some]]])
qed

lemma update_cases [consumes 1, case_names Failed Updated]:
  assumes "kUpdate (cl k) key x w = (r, w')"
  obtains e where "r = Some e" "st w' = st w"
  | cur y where "r = None" "st w key = Some cur" "fst cur = fst x" "snd y = snd x"
      "st w' = (st w)(key \<mapsto> y)"
proof (cases r)
  case None
  from update_ok [OF assms [unfolded None]] show thesis by (elim exE conjE) (rule that(2) [OF None])
next
  case (Some e)
  show thesis by (rule that(1) [OF Some update_err [OF assms [unfolded Some]]])
qed

lemma create_cases [consumes 1, case_names Failed Exists Created]:
  assumes "kCreate (cl k) key x w = (r, w')"
  obtains e where "r = Some e" "\<not> isAlreadyExists e" "st w' = st w"
  | e where "r = Some e" "isAlreadyExists e" "st w key \<noteq> None" "st w' = st w"
  | y where "r = None" "st w key = None" "snd y = snd x" "st w' = (st w)(key \<mapsto> y)"
proof (cases r)
  case None
  from create_ok [OF assms [unfolded None]] show thesis by (elim exE conjE) (rule that(3) [OF None])
next
  case (Some e)
  note s = create_err [OF assms [unfolded Some]] and ex = create_exists [OF assms [unfolded Some]]
  show thesis by (cases "isAlreadyExists e") (use that(1,2) [OF Some] s ex in blast)+
qed

lemma deleteGone_cases [consumes 1, case_names Failed Deleted]:
  assumes "deleteGone k key wrap w = (r, w')"
  obtains e where "r = Some e" "st w' = st w"
  | "r = None" "st w' = (st w)(key := None)"
proof -
  obtain q w1 where d: "kDelete (cl k) key None w = (q, w1)" by fastforce
  show thesis
  proof (cases q)
    case None
    show thesis
      by (rule that(2)) (use assms d None delete_ok [of key None w w1] in \<open>auto simp: deleteGone_def\<close>)
  next
    case (Some e)
    then have s: "st w1 = st w" and n: "isNotFound e \<Longrightarrow> st w key = None"
      using d delete_err [of key None w e w1] delete_notfound [of key None w e w1] by auto
    show thesis
    proof (cases "isNotFound e")
      case True
      then have "st w1 = (st w)(key := None)" using s n by auto
      then show thesis
        by (intro that(2)) (use assms d Some True in \<open>auto simp: deleteGone_def\<close>)
    next
      case False
      show thesis by (rule that(1)) (use assms d Some False s in \<open>auto simp: deleteGone_def\<close>)
    qed
  qed
qed

lemma deleteGone_clears:
  "deleteGone k key wrap w = (None, w') \<Longrightarrow> st w' key = None"
  by (erule deleteGone_cases) simp_all

lemma update_done:
  "kUpdate (cl k) key y v = (None, w') \<Longrightarrow> \<exists>z. st w' = (st v)(key \<mapsto> z) \<and> snd z = snd y"
  by (erule update_cases) auto

lemma patch_done:
  "kPatch (cl k) key p v = (None, w') \<Longrightarrow> st v key = Some x \<Longrightarrow> \<exists>z. st w' = (st v)(key \<mapsto> z) \<and> snd z = snd (p x)"
  by (erule patch_cases) auto

lemma putManaged_cases [consumes 1, case_names Failed Put]:
  assumes "putManaged k key labels body e1 e2 e3 e4 w = (r, w')"
  obtains e where "r = Some e" "st w' = st w"
  | y where "r = None" "st w' = (st w)(key \<mapsto> y)" "obLabels (snd y) = labels" "obBody (snd y) = body"
      "\<And>x. st w key = Some x \<Longrightarrow> isManaged x"
proof -
  obtain q w1 where g: "kGet (cl k) key w = (q, w1)" by fastforce
  show thesis
  proof (cases q)
    case (Inl err)
    then have s: "st w1 = st w" using g get_err by blast
    show thesis
    proof (cases "isNotFound err")
      case True
      then have n: "st w key = None" using get_notfound g Inl by blast
      obtain c where c: "kCreate (cl k) key (newObject labels Map.empty body) w1 = (c, w')"
        and r: "r = map_option e3 c"
        using assms g Inl True by (auto simp: putManaged_def wrapW_eq)
      from c show thesis by (cases rule: create_cases) (use r s n that in auto)
    next
      case False
      show thesis by (rule that(1)) (use assms g Inl False s in \<open>auto simp: putManaged_def\<close>)
    qed
  next
    case (Inr x)
    then have s: "st w1 = st w" "st w key = Some x" using g get_ok by auto
    show thesis
    proof (cases "isManaged x")
      case True
      then obtain c where c: "kUpdate (cl k) key (setBody body (setLabels labels x)) w1 = (c, w')"
        and r: "r = map_option e2 c"
        using assms g Inr by (auto simp: putManaged_def wrapW_eq)
      from c show thesis by (cases rule: update_cases) (use r s True that in auto)
    next
      case False
      show thesis by (rule that(1)) (use assms g Inr False s in \<open>auto simp: putManaged_def\<close>)
    qed
  qed
qed

end

declare split_paired_Ex [simp del] split_paired_All [simp del]

section \<open>What the client leaves alone\<close>

text \<open>A function of the world, such as the clock, that no call of the client changes is not changed
  by what is put together from the call patterns either.\<close>

definition clientKeeps :: "('w \<Rightarrow> 'b) \<Rightarrow> 'w cluster \<Rightarrow> bool" where
  "clientKeeps P k =
     ((\<forall>key w. P (snd (kGet (cl k) key w)) = P w) \<and>
      (\<forall>key x w. P (snd (kCreate (cl k) key x w)) = P w) \<and>
      (\<forall>key x w. P (snd (kUpdate (cl k) key x w)) = P w) \<and>
      (\<forall>key p w. P (snd (kDelete (cl k) key p w)) = P w) \<and>
      (\<forall>key f w. P (snd (kPatch (cl k) key f w)) = P w) \<and>
      (\<forall>kd nso p w. P (snd (clList k kd nso p w)) = P w))"


lemma snd_wrapW [simp]: "snd (wrapW f r) = snd r"
  by (simp add: wrapW_def)

lemma snd_finishInject [simp]: "snd (finishInject r f g) = snd r"
  by (simp add: finishInject_def split: prod.split option.split)

lemma keeps_ops:
  "clientKeeps P k \<Longrightarrow> P (snd (kGet (cl k) key w)) = P w"
  "clientKeeps P k \<Longrightarrow> P (snd (kCreate (cl k) key x w)) = P w"
  "clientKeeps P k \<Longrightarrow> P (snd (kUpdate (cl k) key x w)) = P w"
  "clientKeeps P k \<Longrightarrow> P (snd (kDelete (cl k) key p w)) = P w"
  "clientKeeps P k \<Longrightarrow> P (snd (kPatch (cl k) key f w)) = P w"
  "clientKeeps P k \<Longrightarrow> P (snd (clList k kd nso p' w)) = P w"
  by (simp_all add: clientKeeps_def)

lemma keeps_fetch:
  assumes "clientKeeps P k" and "\<And>x v. P (snd (body x v)) = P v"
  shows "P (snd (fetch k key wrap body w)) = P w"
  using keeps_ops(1) [OF assms(1), of key w] assms(2)
  by (auto simp: fetch_def split: prod.split sum.split)

lemma keeps_onFound:
  assumes "clientKeeps P k" and "\<And>x v. P (snd (body x v)) = P v"
  shows "P (snd (onFound k key wrap body w)) = P w"
  using keeps_ops(1) [OF assms(1), of key w] assms(2)
  by (auto simp: onFound_def split: prod.split sum.split)

lemma keeps_reread:
  assumes "clientKeeps P k" and "\<And>x v. P (snd (body x v)) = P v"
  shows "P (snd (reread k key wrap body w)) = P w"
  using keeps_ops(1) [OF assms(1), of key w] assms(2)
  by (auto simp: reread_def split: prod.split sum.split)

lemma keeps_andThen:
  assumes "P (snd r) = P w" and "\<And>v. P (snd (f v)) = P v"
  shows "P (snd (andThen r f)) = P w"
  using assms by (auto simp: andThen_def split: prod.split option.split)

lemma keeps_deleteGone: "clientKeeps P k \<Longrightarrow> P (snd (deleteGone k key wrap w)) = P w"
  using keeps_ops(4) [of P k key None w]
  by (auto simp: deleteGone_def split: prod.split option.split)

lemma keeps_putManaged: "clientKeeps P k \<Longrightarrow> P (snd (putManaged k key l b e1 e2 e3 e4 w)) = P w"
proof -
  assume k: "clientKeeps P k"
  obtain q w1 where g: "kGet (cl k) key w = (q, w1)" by (rule prod.exhaust)
  have "P w1 = P w" using keeps_ops(1) [OF k, of key w] g by simp
  then show ?thesis
    using keeps_ops(2,3) [OF k] g by (cases q) (simp_all add: putManaged_def)
qed

section \<open>An in-memory cluster\<close>

definition noRollbackLib :: "'i rollbackLib" where
  "noRollbackLib = \<lparr>rlMarshal = \<lambda>i. Inl noCodec, rlUnmarshal = \<lambda>s. Inl noCodec, rlHash = \<lambda>s. ''h'',
     rlEncode = \<lambda>p. Inl noCodec, rlDecode = \<lambda>s. Inl noCodec\<rparr>"

definition demoCodecs :: codecs where
  "demoCodecs = \<lparr>cdRollback = demoRollbackLib, cdSubjects = noRollbackLib, cdLabel = noRollbackLib,
     cdMarshalObj = \<lambda>x. Inl noCodec, cdUnmarshalObj = \<lambda>s. Inl noCodec,
     cdData = noRollbackLib, cdMarshalOwners = \<lambda>x. Inl noCodec, cdUnmarshalOwners = \<lambda>s. Inl noCodec,
     cdMarshalStrs = \<lambda>x. Inl noCodec, cdUnmarshalStrs = \<lambda>s. Inl noCodec,
     cdSelector = \<lambda>s. Inr [], cdMatches = \<lambda>s. Inr (\<lambda>m. m ''app'' = Some s),
     cdMarshalMap = \<lambda>m. Inl noCodec, cdUnmarshalMap = \<lambda>s. Inl noCodec,
     cdQuantity = Inr, cdHex = \<lambda>s. [], cdFormatTime = \<lambda>t. []\<rparr>"

definition memReturned :: "'k \<Rightarrow> ('k, 'd) memWorld \<Rightarrow> nat" where
  "memReturned key w = (case memObjs w key of None \<Rightarrow> 0 | Some x \<Rightarrow> fst x)"

definition memList ::
  "string \<Rightarrow> string option \<Rightarrow> (strmap \<Rightarrow> bool) \<Rightarrow> (objKey, kobject) memWorld \<Rightarrow>
   (goErr + (objKey \<times> vobject) list) \<times> (objKey, kobject) memWorld" where
  "memList kd nso p w =
     (let K = {key. \<exists>x. listed (memObjs w) kd nso p key x}
      in if finite K then (Inr (map (\<lambda>key. (key, the (memObjs w key))) (sorted_list_of_set K)), w)
         else (Inl noCodec, w))"

lemma memList_ok:
  assumes "memList kd nso p w = (Inr xs, w')"
  shows "w' = w" "distinct (map fst xs)" "(key, x) \<in> set xs \<longleftrightarrow> listed (memObjs w) kd nso p key x"
proof -
  let ?K = "{key. \<exists>x. listed (memObjs w) kd nso p key x}"
  have r: "finite ?K" "w' = w" "xs = map (\<lambda>key. (key, the (memObjs w key))) (sorted_list_of_set ?K)"
    using assms by (auto simp: memList_def Let_def split: if_splits)
  then show "w' = w" "distinct (map fst xs)" by (simp_all add: comp_def)
  have "(key, x) \<in> set xs \<longleftrightarrow> key \<in> ?K \<and> x = the (memObjs w key)" using r by auto
  also have "\<dots> \<longleftrightarrow> listed (memObjs w) kd nso p key x" by (auto simp: listed_def)
  finally show "(key, x) \<in> set xs \<longleftrightarrow> listed (memObjs w) kd nso p key x" .
qed

definition memCluster :: "(objKey, kobject) memWorld cluster" where
  "memCluster = \<lparr>cl = memClient, clNow = memNow, clReturned = memReturned, clList = memList,
     clKind = \<lambda>apiVersion kind. kind, clCodecs = demoCodecs\<rparr>"

lemma memCluster_simps [simp]:
  "cl memCluster = memClient" "clNow memCluster = memNow" "clReturned memCluster = memReturned"
  "clList memCluster = memList"
  "clCodecs memCluster = demoCodecs" "clKind memCluster a kd = kd"
  by (simp_all add: memCluster_def)

lemma mem_patterns:
  "memObjs w key = Some x \<Longrightarrow> fetch memCluster key wrap body w = body x w"
  "memObjs w key = Some x \<Longrightarrow> onFound memCluster key wrap' body' w = body' x w"
  "memObjs w key = None \<Longrightarrow> onFound memCluster key wrap' body' w = (None, w)"
  "memObjs w key = Some x \<Longrightarrow> memPatch key f w = (None, memPut key (snd (f x)) w)"
  by (simp_all add: fetch_def onFound_def mem_ops)

interpretation memCl: cluster_api memCluster memObjs
proof (intro cluster_api.intro cluster_api_axioms.intro)
  show "kube_api (cl memCluster) memObjs fst snd" using memApi.kube_api_axioms by simp
next
  fix kd nso p and w w' :: "(objKey, kobject) memWorld" and xs
  assume "clList memCluster kd nso p w = (Inr xs, w')"
  then have "memList kd nso p w = (Inr xs, w')" by simp
  from memList_ok [OF this] show "memObjs w' = memObjs w \<and> distinct (map fst xs) \<and>
      (\<forall>key x. (key, x) \<in> set xs \<longleftrightarrow> listed (memObjs w) kd nso p key x)" by simp
next
  fix kd nso p and w w' :: "(objKey, kobject) memWorld" and e
  assume "clList memCluster kd nso p w = (Inl e, w')"
  then show "memObjs w' = memObjs w" by (auto simp: memList_def Let_def split: if_splits)
next
  fix w :: "(objKey, kobject) memWorld" and key x assume "memObjs w key = Some x"
  then show "clReturned memCluster key w = fst x" by (simp add: memReturned_def)
qed

end
