(* ===== verification/Injectors.thy ===== *)
theory Injectors
  imports Orchestrator Cluster
begin

text \<open>
  The contract of the injectors (\<open>pkg/injection/engine.go\<close>). The locale \<open>fault_injector\<close> says
  what \<open>Inject\<close>, the cleanup function and \<open>Revert\<close> promise about the fault (\<open>active\<close>); most
  injectors restore the same way in both (\<open>restoring_injector\<close>). Each injector is shown to keep
  the contract over every cluster that obeys the laws of the API.
\<close>

declare split_paired_Ex [simp del] split_paired_All [simp del]

section \<open>The contract\<close>

locale fault_injector =
  fixes inj :: "'w injector" and spec :: injectionSpec and ns :: string and active :: "'w \<Rightarrow> bool"
  assumes inject_cleanup: "inInject inj spec ns w = (Inr (co, ev), w') \<Longrightarrow>
            (case co of None \<Rightarrow> active w' = active w | Some c \<Rightarrow> cleans active c)"
    and inject_fails: "inInject inj spec ns w = (Inl e, w') \<Longrightarrow> active w' \<Longrightarrow> active w"
    and revert_cleans: "inRevert inj spec ns w = (None, w') \<Longrightarrow> \<not> active w'"
    and revert_inactive: "inRevert inj spec ns w = (r, w') \<Longrightarrow> \<not> active w \<Longrightarrow> \<not> active w'"
begin

text \<open>Reverting is safe to repeat: a second revert, or one after the cleanup, finds no fault and
  brings none back.\<close>

lemma revert_again:
  assumes "inRevert inj spec ns w = (None, w1)" and "inRevert inj spec ns w1 = (r, w2)"
  shows "\<not> active w1 \<and> \<not> active w2"
  using revert_cleans [OF assms(1)] revert_inactive [OF assms(2)] by blast

lemma revert_after_cleanup:
  assumes "inInject inj spec ns w = (Inr (Some c, ev), w1)" and "c v = (None, v1)"
    and "inRevert inj spec ns v1 = (r, w2)"
  shows "\<not> active v1 \<and> \<not> active w2"
  using inject_cleanup [OF assms(1)] assms(2) revert_inactive [OF assms(3)] by (auto simp: cleans_def)

end

locale restoring_injector =
  fixes inj :: "'w injector" and spec :: injectionSpec and ns :: string and active :: "'w \<Rightarrow> bool"
    and restore :: "'w cleanupFunc"
  assumes cleanup_restore: "inInject inj spec ns w = (Inr (co, ev), w') \<Longrightarrow> co = Some restore"
    and revert_restore: "inRevert inj spec ns w = restore w"
    and inject_error: "inInject inj spec ns w = (Inl e, w') \<Longrightarrow> active w' \<Longrightarrow> active w"
    and restore_cleans: "restore w = (None, w') \<Longrightarrow> \<not> active w'"
    and restore_inactive: "restore w = (r, w') \<Longrightarrow> \<not> active w \<Longrightarrow> \<not> active w'"

sublocale restoring_injector \<subseteq> fault_injector
proof unfold_locales
  fix w co ev w' assume "inInject inj spec ns w = (Inr (co, ev), w')"
  then have "co = Some restore" by (rule cleanup_restore)
  then show "case co of None \<Rightarrow> active w' = active w | Some c \<Rightarrow> cleans active c"
    using restore_cleans by (simp add: cleans_def)
qed (use inject_error restore_cleans restore_inactive revert_restore in auto)

section \<open>Changes in place\<close>

text \<open>
  One branch of a restore that has read the object \<open>x\<close>: it gives up, or it leaves the object
  as it is although the property \<open>P\<close> of the fault does not hold of it, or it writes an object
  without the property. One branch of an injection: it gives up, or its last step is a write.
\<close>

definition clearsStep ::
  "'w cluster \<Rightarrow> objKey \<Rightarrow> (kobject \<Rightarrow> bool) \<Rightarrow> vobject \<Rightarrow> 'w \<Rightarrow> goErr option \<times> 'w \<Rightarrow> bool" where
  "clearsStep k key P x w r =
     ((\<exists>q. r = (q, w) \<and> (q = None \<longrightarrow> \<not> P (snd x))) \<or>
      (\<exists>f p. r = wrapW f (kPatch (cl k) key p w) \<and> \<not> P (snd (p x))) \<or>
      (\<exists>f y. r = wrapW f (kUpdate (cl k) key y w) \<and> \<not> P (snd y)))"

definition doesStep ::
  "'w cluster \<Rightarrow> objKey \<Rightarrow> ('w cleanupFunc \<Rightarrow> bool) \<Rightarrow> 'w \<Rightarrow>
   (goErr + 'w cleanupFunc option \<times> injectionEvent list) \<times> 'w \<Rightarrow> bool" where
  "doesStep k key Q w r =
     ((\<exists>e. r = (Inl e, w)) \<or>
      (\<exists>f g p. r = finishInject (kPatch (cl k) key p w) f g \<and> (\<forall>v. \<exists>c. fst (g v) = Some c \<and> Q c)) \<or>
      (\<exists>f g y. r = finishInject (kUpdate (cl k) key y w) f g \<and> (\<forall>v. \<exists>c. fst (g v) = Some c \<and> Q c)))"

lemma wrapW_id [simp]: "wrapW (\<lambda>e. e) r = r"
  by (cases r) (simp add: wrapW_def option.map_ident)

lemma clearsStep_simps [simp]:
  "q = None \<longrightarrow> \<not> P (snd x) \<Longrightarrow> clearsStep k key P x w (q, w)"
  "\<not> P (snd (p x)) \<Longrightarrow> clearsStep k key P x w (wrapW f (kPatch (cl k) key p w))"
  "\<not> P (snd (p x)) \<Longrightarrow> clearsStep k key P x w (kPatch (cl k) key p w)"
  "\<not> P (snd y) \<Longrightarrow> clearsStep k key P x w (wrapW f (kUpdate (cl k) key y w))"
  "\<not> P (snd y) \<Longrightarrow> clearsStep k key P x w (kUpdate (cl k) key y w)"
  unfolding clearsStep_def by (blast | metis wrapW_id)+

lemma doesStep_simps [simp]:
  "doesStep k key Q w (Inl e, w)"
  "\<forall>v. \<exists>c. fst (g v) = Some c \<and> Q c \<Longrightarrow> doesStep k key Q w (finishInject (kPatch (cl k) key p w) f g)"
  "\<forall>v. \<exists>c. fst (g v) = Some c \<and> Q c \<Longrightarrow> doesStep k key Q w (finishInject (kUpdate (cl k) key y w) f g)"
  unfolding doesStep_def by blast+

context cluster_api
begin

lemma clearsStep_effect:
  assumes "clearsStep k key P x w (r, w')" and "st w key = Some x"
  shows "(r = None \<longrightarrow> \<not> objAt P (st w') key) \<and> (\<not> objAt P (st w) key \<longrightarrow> \<not> objAt P (st w') key)"
  using assms(1) unfolding clearsStep_def
proof (elim disjE exE conjE)
  fix q assume "(r, w') = (q, w)" "q = None \<longrightarrow> \<not> P (snd x)"
  then show ?thesis using assms(2) by (simp add: objAt_def)
next
  fix f p assume e: "(r, w') = wrapW f (kPatch (cl k) key p w)" and n: "\<not> P (snd (p x))"
  then obtain c where c: "kPatch (cl k) key p w = (c, w')" and r: "r = map_option f c"
    unfolding eq_commute [of "(r, w')"] wrapW_eq by blast
  from c show ?thesis by (cases rule: patch_cases) (use r n assms(2) in \<open>simp_all add: objAt_def\<close>)
next
  fix f y assume e: "(r, w') = wrapW f (kUpdate (cl k) key y w)" and n: "\<not> P (snd y)"
  then obtain c where c: "kUpdate (cl k) key y w = (c, w')" and r: "r = map_option f c"
    unfolding eq_commute [of "(r, w')"] wrapW_eq by blast
  from c show ?thesis by (cases rule: update_cases) (use r n assms(2) in \<open>simp_all add: objAt_def\<close>)
qed

lemma doesStep_effect:
  assumes "doesStep k key Q w (r, w')"
  shows "(\<forall>e. r = Inl e \<longrightarrow> st w' = st w) \<and> (\<forall>co ev. r = Inr (co, ev) \<longrightarrow> (\<exists>c. co = Some c \<and> Q c))"
  using assms unfolding doesStep_def
proof (elim disjE exE conjE)
  fix f g p assume e: "(r, w') = finishInject (kPatch (cl k) key p w) f g"
    and Q: "\<forall>v. \<exists>c. fst (g v) = Some c \<and> Q c"
  obtain q v where q: "kPatch (cl k) key p w = (q, v)" by (rule prod.exhaust)
  show ?thesis
    using e Q [THEN spec, of w'] patch_err [of key p w _ w'] q
    by (cases q) (auto simp: finishInject_def)
next
  fix f g y assume e: "(r, w') = finishInject (kUpdate (cl k) key y w) f g"
    and Q: "\<forall>v. \<exists>c. fst (g v) = Some c \<and> Q c"
  obtain q v where q: "kUpdate (cl k) key y w = (q, v)" by (rule prod.exhaust)
  show ?thesis
    using e Q [THEN spec, of w'] update_err [of key y w _ w'] q
    by (cases q) (auto simp: finishInject_def)
qed simp

lemma onFound_clears:
  assumes "onFound k key wrap body w = (r, w')" and "\<And>x v. clearsStep k key P x v (body x v)"
  shows "(r = None \<longrightarrow> \<not> objAt P (st w') key) \<and> (\<not> objAt P (st w) key \<longrightarrow> \<not> objAt P (st w') key)"
  using assms(1)
proof (cases rule: onFound_cases)
  case (Found x v)
  then show ?thesis using clearsStep_effect [of key P x v r w'] assms(2) [of x v] by simp
qed (simp_all add: objAt_def)

lemma reread_clears:
  assumes "\<And>x v. clearsStep k key P x v (body x v)"
  shows "cleans (\<lambda>w. objAt P (st w) key) (reread k key wrap body)"
  unfolding cleans_def
proof (intro allI impI)
  fix w w' assume "reread k key wrap body w = (None, w')"
  then show "\<not> objAt P (st w') key"
  proof (cases rule: reread_cases)
    case (Found x v)
    then show ?thesis using clearsStep_effect [of key P x v None w'] assms [of x v] by simp
  qed simp
qed

lemma fetch_does:
  assumes "fetch k key wrap body w = (r, w')" and "\<And>x v. doesStep k key Q v (body x v)"
  shows "(\<forall>e. r = Inl e \<longrightarrow> st w' = st w) \<and> (\<forall>co ev. r = Inr (co, ev) \<longrightarrow> (\<exists>c. co = Some c \<and> Q c))"
  using assms(1)
proof (cases rule: fetch_cases)
  case (Found x v)
  have "doesStep k key Q v (r, w')" using assms(2) [where x = x and v = v] Found(3) by simp
  from doesStep_effect [OF this] show ?thesis using Found(2) by simp
qed simp

text \<open>Injectors that change one object in place, and those whose cleanup is the revert.\<close>

lemma in_place_injector:
  fixes i :: "'w injector"
  assumes inject: "inInject i spec ns = fetch k key wrap body"
    and revert: "inRevert i spec ns = onFound k key wrap' body'"
    and does: "\<And>x v. doesStep k key Q v (body x v)"
    and cleanup: "\<And>c. Q c \<Longrightarrow> cleans (\<lambda>w. objAt P (st w) key) c"
    and undo: "\<And>x v. clearsStep k key P x v (body' x v)"
  shows "fault_injector i spec ns (\<lambda>w. objAt P (st w) key)"
proof
  fix w co ev w' assume "inInject i spec ns w = (Inr (co, ev), w')"
  from fetch_does [OF this [unfolded inject] does] obtain c where "co = Some c" "Q c" by blast
  then show "case co of None \<Rightarrow> objAt P (st w') key = objAt P (st w) key
      | Some c \<Rightarrow> cleans (\<lambda>w. objAt P (st w) key) c"
    using cleanup by simp
next
  fix w e w' assume "inInject i spec ns w = (Inl e, w')" "objAt P (st w') key"
  then show "objAt P (st w) key" using fetch_does [OF _ does] unfolding inject by fastforce
next
  fix w w' assume "inRevert i spec ns w = (None, w')"
  then show "\<not> objAt P (st w') key" using onFound_clears [OF _ undo] unfolding revert by simp
next
  fix w r w' assume "inRevert i spec ns w = (r, w')" "\<not> objAt P (st w) key"
  then show "\<not> objAt P (st w') key" using onFound_clears [OF _ undo] unfolding revert by blast
qed

lemma in_place_restoring:
  fixes i :: "'w injector"
  assumes inject: "inInject i spec ns = fetch k key wrap body"
    and revert: "inRevert i spec ns = onFound k key wrap' body'"
    and does: "\<And>x v. doesStep k key (\<lambda>c. c = inRevert i spec ns) v (body x v)"
    and undo: "\<And>x v. clearsStep k key P x v (body' x v)"
  shows "restoring_injector i spec ns (\<lambda>w. objAt P (st w) key) (inRevert i spec ns)"
proof
  fix w co ev w' assume "inInject i spec ns w = (Inr (co, ev), w')"
  from fetch_does [OF this [unfolded inject] does] show "co = Some (inRevert i spec ns)" by blast
next
  fix w e w' assume "inInject i spec ns w = (Inl e, w')" "objAt P (st w') key"
  then show "objAt P (st w) key" using fetch_does [OF _ does] unfolding inject by fastforce
next
  fix w w' assume "inRevert i spec ns w = (None, w')"
  then show "\<not> objAt P (st w') key" using onFound_clears [OF _ undo] unfolding revert by simp
next
  fix w r w' assume "inRevert i spec ns w = (r, w')" "\<not> objAt P (st w) key"
  then show "\<not> objAt P (st w') key" using onFound_clears [OF _ undo] unfolding revert by blast
qed simp

end

end
