(* ===== verification/InjectMutation.thy ===== *)
theory InjectMutation
  imports Injectors Validation
begin

text \<open>
  Mutation of a field of any resource (\<open>crdmutation.go\<close>). The injector works on unstructured objects,
  so an object is a JSON tree here, with its resourceVersion. A patch is a JSON tree too, which the
  server applies as RFC 7396 says (\<open>mergePatch\<close>). An absent field, a null and Go's nil are all \<open>JNull\<close>.
\<close>

section \<open>Fields\<close>

definition setField :: "string \<Rightarrow> json \<Rightarrow> (string \<times> json) list \<Rightarrow> (string \<times> json) list" where
  "setField f v kvs = (f, v) # filter (\<lambda>p. fst p \<noteq> f) kvs"

definition dropField :: "string \<Rightarrow> (string \<times> json) list \<Rightarrow> (string \<times> json) list" where
  "dropField f kvs = filter (\<lambda>p. fst p \<noteq> f) kvs"

lemma map_of_dropField [simp]: "map_of (dropField f kvs) g = (if g = f then None else map_of kvs g)"
  by (induction kvs) (auto simp: dropField_def)

lemma map_of_setField [simp]: "map_of (setField f v kvs) g = (if g = f then Some v else map_of kvs g)"
  using map_of_dropField [of f kvs g] by (simp add: setField_def dropField_def)

fun jsonFields :: "json \<Rightarrow> (string \<times> json) list" where
  "jsonFields (JObj kvs) = kvs"
| "jsonFields _ = []"

definition fieldOf :: "(string \<times> json) list \<Rightarrow> string \<Rightarrow> json" where
  "fieldOf kvs f = (case map_of kvs f of None \<Rightarrow> JNull | Some v \<Rightarrow> v)"

lemma fieldOf_simps [simp]:
  "fieldOf (setField f v kvs) g = (if g = f then v else fieldOf kvs g)"
  "fieldOf (dropField f kvs) g = (if g = f then JNull else fieldOf kvs g)"
  by (simp_all add: fieldOf_def)

definition isObj :: "json \<Rightarrow> bool" where
  "isObj j = (\<exists>kvs. j = JObj kvs)"

lemma isObj_simps [simp]:
  "isObj (JObj kvs)" "\<not> isObj JNull" "\<not> isObj (JBool b)" "\<not> isObj (JInt i)" "\<not> isObj (JFloat s)" "\<not> isObj (JStr s)"
  "\<not> isObj (JArr js)"
  by (simp_all add: isObj_def)

lemma isObj_code [code]: "isObj j = (case j of JObj kvs \<Rightarrow> True | _ \<Rightarrow> False)"
  by (simp split: json.split)

text \<open>\<open>unstructured.NestedFieldCopy\<close>, its error ignored.\<close>

fun nestedField :: "string list \<Rightarrow> json \<Rightarrow> json" where
  "nestedField [] j = j"
| "nestedField (f # fs) j = nestedField fs (fieldOf (jsonFields j) f)"

lemma nestedField_JNull [simp]: "nestedField fs JNull = JNull"
  by (induction fs) (simp_all add: fieldOf_def)

section \<open>Merge patches\<close>

function mergePatch :: "json \<Rightarrow> json \<Rightarrow> json"
  and mergeFields :: "(string \<times> json) list \<Rightarrow> (string \<times> json) list \<Rightarrow> (string \<times> json) list" where
  "mergePatch t (JObj ps) = JObj (mergeFields (jsonFields t) ps)"
| "mergePatch t JNull = JNull"
| "mergePatch t (JBool b) = JBool b"
| "mergePatch t (JInt i) = JInt i"
| "mergePatch t (JFloat s) = JFloat s"
| "mergePatch t (JStr s) = JStr s"
| "mergePatch t (JArr js) = JArr js"
| "mergeFields kvs [] = kvs"
| "mergeFields kvs ((f, v) # ps) =
     (if v = JNull then dropField f (mergeFields kvs ps)
      else setField f (mergePatch (fieldOf kvs f) v) (mergeFields kvs ps))"
  by pat_completeness auto
termination by (relation "measure (\<lambda>x. case x of Inl (t, p) \<Rightarrow> size p | Inr (kvs, ps) \<Rightarrow> size_list (size_prod (\<lambda>x. 0) size) ps)") auto

text \<open>\<open>deepMerge\<close>: where both have an object under a key the objects are merged, otherwise the second wins.\<close>

function deepMerge :: "(string \<times> json) list \<Rightarrow> (string \<times> json) list \<Rightarrow> (string \<times> json) list" where
  "deepMerge a [] = a"
| "deepMerge a ((f, v) # b) =
     setField f (case (map_of a f, v) of (Some (JObj x), JObj y) \<Rightarrow> JObj (deepMerge x y) | _ \<Rightarrow> v) (deepMerge a b)"
  by pat_completeness auto
termination by (relation "measure (\<lambda>(a, b). size_list (size_prod (\<lambda>x. 0) size) b)") auto

fun buildNestedMap :: "string list \<Rightarrow> json \<Rightarrow> json" where
  "buildNestedMap [] v = JNull"
| "buildNestedMap [f] v = JObj [(f, v)]"
| "buildNestedMap (f # fs) v = JObj [(f, buildNestedMap fs v)]"

definition mergeJson :: "json \<Rightarrow> json \<Rightarrow> json" where
  "mergeJson a b = JObj (deepMerge (jsonFields a) (jsonFields b))"

section \<open>Operations\<close>

text \<open>A client for unstructured objects, with the clock, the REST mapping, the codec of the rollback data and
  \<open>json.Unmarshal\<close> into a value of any type.\<close>

type_synonym jobject = "nat \<times> json"

record 'w jsonCluster =
  jc :: "('w, objKey, jobject) kclient"
  jcNow :: "'w \<Rightarrow> timestamp"
  jcKind :: "string \<Rightarrow> string \<Rightarrow> string"
  jcRollback :: "(string \<times> json) list rollbackLib"
  jcParse :: "string \<Rightarrow> goErr + json"

definition applyPatch :: "json \<Rightarrow> jobject \<Rightarrow> jobject" where
  "applyPatch p x = (fst x, mergePatch (snd x) p)"

definition annotationOf :: "json \<Rightarrow> string \<Rightarrow> string option" where
  "annotationOf j a = (case nestedField [''metadata'', ''annotations'', a] j of JStr s \<Rightarrow> Some s | _ \<Rightarrow> None)"

definition resolveMutationPath :: "injectionSpec \<Rightarrow> string list" where
  "resolveMutationPath spec =
     (if param spec ''path'' \<noteq> '''' then splitOn CHR ''.'' (param spec ''path'') else [''spec'', param spec ''field''])"

definition parseTypedValue :: "(string \<Rightarrow> goErr + json) \<Rightarrow> string \<Rightarrow> json" where
  "parseTypedValue parse raw = (case parse raw of Inl err \<Rightarrow> JStr raw | Inr parsed \<Rightarrow> parsed)"

definition metadataJson :: "json \<Rightarrow> json \<Rightarrow> json \<Rightarrow> json" where
  "metadataJson rollback managed chaosType =
     JObj [(''metadata'', JObj
       [(''annotations'', JObj [(RollbackAnnotationKey, rollback)]),
        (''labels'', JObj [(ManagedByLabel, managed), (ChaosTypeLabel, chaosType)])])]"

definition applyMetadata :: "string \<Rightarrow> json" where
  "applyMetadata rollbackStr =
     metadataJson (JStr rollbackStr) (JStr ManagedByValue) (JStr (injectionTypeName CRDMutation))"

definition removeMetadata :: json where
  "removeMetadata = metadataJson JNull JNull JNull"

text \<open>
  The restore that the cleanup function and \<open>Revert\<close> share, up to the texts of the errors: a scalar or a
  list in one patch; an object (or the removal of the field) in two, since a merge patch with
  an object would leave injected keys in place. The rollback annotation goes with the last patch.
\<close>

datatype restoreStep = ScalarPatch | NullPatch | Refetch | ObjectPatch | MetadataPatch

fun cleanupErr :: "restoreStep \<Rightarrow> goErr \<Rightarrow> goErr" where
  "cleanupErr ScalarPatch err = Errorf ''applying restore patch for cleanup: %w'' [AErr err]"
| "cleanupErr NullPatch err = Errorf ''applying null patch for cleanup: %w'' [AErr err]"
| "cleanupErr Refetch err = Errorf ''re-fetching resource after null patch: %w'' [AErr err]"
| "cleanupErr ObjectPatch err = Errorf ''applying restore patch: %w'' [AErr err]"
| "cleanupErr MetadataPatch err = Errorf ''applying metadata patch for cleanup: %w'' [AErr err]"

fun revertErr :: "restoreStep \<Rightarrow> goErr \<Rightarrow> goErr" where
  "revertErr ScalarPatch err = Errorf ''applying restore patch for revert: %w'' [AErr err]"
| "revertErr NullPatch err = Errorf ''applying null patch for revert: %w'' [AErr err]"
| "revertErr Refetch err = Errorf ''re-fetching resource after null revert: %w'' [AErr err]"
| "revertErr ObjectPatch err = Errorf ''applying restore patch for revert: %w'' [AErr err]"
| "revertErr MetadataPatch err = Errorf ''applying metadata patch for revert: %w'' [AErr err]"

definition restoreField ::
  "'w jsonCluster \<Rightarrow> objKey \<Rightarrow> string list \<Rightarrow> json \<Rightarrow> (restoreStep \<Rightarrow> goErr \<Rightarrow> goErr) \<Rightarrow> 'w \<Rightarrow> goErr option \<times> 'w" where
  "restoreField c key path originalValue wrap w =
     (let restorePatch = mergeJson (buildNestedMap path originalValue) removeMetadata
      in if originalValue \<noteq> JNull \<and> \<not> isObj originalValue then
           wrapW (wrap ScalarPatch) (kPatch (jc c) key (applyPatch restorePatch) w)
         else andThen
           (wrapW (wrap NullPatch) (kPatch (jc c) key (applyPatch (buildNestedMap path JNull)) w))
           (\<lambda>w1.
              if originalValue \<noteq> JNull then
                (case kGet (jc c) key w1 of
                   (Inl err, w2) \<Rightarrow> (Some (wrap Refetch err), w2)
                 | (Inr current, w2) \<Rightarrow>
                     wrapW (wrap ObjectPatch) (kPatch (jc c) key (applyPatch restorePatch) w2))
              else wrapW (wrap MetadataPatch) (kPatch (jc c) key (applyPatch removeMetadata) w1)))"

definition mutationKey :: "'w jsonCluster \<Rightarrow> injectionSpec \<Rightarrow> string \<Rightarrow> objKey" where
  "mutationKey c spec ns = (jcKind c (param spec ''apiVersion'') (param spec ''kind''), ns, param spec ''name'')"

definition mutationCleanup :: "'w jsonCluster \<Rightarrow> objKey \<Rightarrow> string list \<Rightarrow> json \<Rightarrow> 'w \<Rightarrow> goErr option \<times> 'w" where
  "mutationCleanup c key path originalValue w =
     (case kGet (jc c) key w of
        (Inl err, w1) \<Rightarrow> (Some (Errorf ''re-fetching resource for cleanup: %w'' [AErr err]), w1)
      | (Inr current, w1) \<Rightarrow> restoreField c key path originalValue cleanupErr w1)"

definition rollbackFields :: "injectionSpec \<Rightarrow> string list \<Rightarrow> json \<Rightarrow> (string \<times> json) list" where
  "rollbackFields spec path originalValue =
     [(''apiVersion'', JStr (param spec ''apiVersion'')), (''kind'', JStr (param spec ''kind'')),
      (''path'', JStr (joinWith CHR ''.'' path)), (''originalValue'', originalValue)] @
     (if param spec ''field'' \<noteq> '''' then [(''field'', JStr (param spec ''field''))] else [])"

definition mutationInject ::
  "'w jsonCluster \<Rightarrow> injectionSpec \<Rightarrow> string \<Rightarrow> 'w \<Rightarrow>
   (goErr + 'w cleanupFunc option \<times> injectionEvent list) \<times> 'w" where
  "mutationInject c spec ns w =
     (let key = mutationKey c spec ns; kind = param spec ''kind''; name = param spec ''name'';
          path = resolveMutationPath spec
      in case kGet (jc c) key w of
           (Inl err, w1) \<Rightarrow> (Inl (Errorf ''getting resource %s/%s: %w'' [AStr kind, AStr name, AErr err]), w1)
         | (Inr x, w1) \<Rightarrow>
             (let originalValue = nestedField path (snd x)
              in case WrapRollbackData (jcRollback c) (rollbackFields spec path originalValue) of
                   Inl err \<Rightarrow> (Inl (Errorf ''serializing rollback data for %s/%s: %w'' [AStr kind, AStr name, AErr err]), w1)
                 | Inr rollbackStr \<Rightarrow>
                     finishInject
                       (kPatch (jc c) key
                         (applyPatch (mergeJson
                           (buildNestedMap path (parseTypedValue (jcParse c) (param spec ''value'')))
                           (applyMetadata rollbackStr))) w1)
                       (\<lambda>err. Errorf ''applying mutation: %w'' [AErr err])
                       (\<lambda>w2. (Some (mutationCleanup c key path originalValue),
                         [NewEvent (jcNow c w2) CRDMutation (keyText ns name) ''mutated''
                           [''path'' \<mapsto> joinWith CHR ''.'' path, ''value'' \<mapsto> param spec ''value'']]))))"

definition rollbackPath :: "(string \<times> json) list \<Rightarrow> string list option" where
  "rollbackPath info =
     (case fieldOf info ''path'' of
        JStr p \<Rightarrow> if p \<noteq> '''' then Some (splitOn CHR ''.'' p)
          else (case fieldOf info ''field'' of JStr f \<Rightarrow> if f \<noteq> '''' then Some [''spec'', f] else None | _ \<Rightarrow> None)
      | _ \<Rightarrow> (case fieldOf info ''field'' of JStr f \<Rightarrow> if f \<noteq> '''' then Some [''spec'', f] else None | _ \<Rightarrow> None))"

definition mutationRevert :: "'w jsonCluster \<Rightarrow> injectionSpec \<Rightarrow> string \<Rightarrow> 'w \<Rightarrow> goErr option \<times> 'w" where
  "mutationRevert c spec ns w =
     (let key = mutationKey c spec ns; kind = param spec ''kind''; name = param spec ''name''
      in case kGet (jc c) key w of
           (Inl err, w1) \<Rightarrow>
             if isNotFound err then (None, w1)
             else (Some (Errorf ''getting resource %s/%s for revert: %w'' [AStr kind, AStr name, AErr err]), w1)
         | (Inr x, w1) \<Rightarrow>
             (case annotationOf (snd x) RollbackAnnotationKey of
                None \<Rightarrow> (None, w1)
              | Some rollbackStr \<Rightarrow>
                  (case UnwrapRollbackData (jcRollback c) rollbackStr of
                     Inl err \<Rightarrow> (Some (Errorf ''unwrapping rollback data for %s/%s: %w'' [AStr kind, AStr name, AErr err]), w1)
                   | Inr info \<Rightarrow>
                       (case rollbackPath info of
                          None \<Rightarrow> (Some (Errorf ''rollback data missing 'path' or 'field' key for %s/%s'' [AStr kind, AStr name]), w1)
                        | Some path \<Rightarrow>
                            restoreField c key path (fieldOf info ''originalValue'') revertErr w1))))"

definition mutationInjector :: "paramLib \<Rightarrow> 'w jsonCluster \<Rightarrow> 'w injector" where
  "mutationInjector lib c =
     \<lparr>inValidate = \<lambda>spec blast. validateCRDMutationParams lib spec,
      inInject = mutationInject c, inRevert = mutationRevert c\<rparr>"

section \<open>Laws of patches\<close>

lemma map_of_mergeFields:
  "map_of (mergeFields kvs ps) f =
     (case map_of ps f of None \<Rightarrow> map_of kvs f
      | Some v \<Rightarrow> if v = JNull then None else Some (mergePatch (fieldOf kvs f) v))"
  by (induction ps) auto

lemma map_of_deepMerge:
  "map_of (deepMerge a b) f =
     (case map_of b f of None \<Rightarrow> map_of a f
      | Some v \<Rightarrow> Some (case (map_of a f, v) of (Some (JObj x), JObj y) \<Rightarrow> JObj (deepMerge x y) | _ \<Rightarrow> v))"
proof (induction b)
  case (Cons p b)
  then show ?case by (cases p) simp
qed simp

lemma fieldOf_mergeFields:
  "fieldOf (mergeFields kvs ps) f =
     (case map_of ps f of None \<Rightarrow> fieldOf kvs f | Some v \<Rightarrow> mergePatch (fieldOf kvs f) v)"
  by (auto simp: fieldOf_def map_of_mergeFields split: option.split)

text \<open>A patch leaves a field alone when it does not lead there.\<close>

fun untouched :: "string list \<Rightarrow> json \<Rightarrow> bool" where
  "untouched [] p = False"
| "untouched (f # fs) p =
     (isObj p \<and> (case map_of (jsonFields p) f of None \<Rightarrow> True | Some v \<Rightarrow> untouched fs v))"

lemma mergePatch_untouched: "untouched q p \<Longrightarrow> nestedField q (mergePatch t p) = nestedField q t"
proof (induction q arbitrary: p t)
  case (Cons f fs)
  then obtain ps where p: "p = JObj ps" by (auto simp: isObj_def)
  show ?case
    using Cons by (auto simp: p fieldOf_mergeFields split: option.splits)
qed simp

lemma untouched_mergeJson:
  assumes "untouched q a" and "untouched q b"
  shows "untouched q (mergeJson a b)"
  using assms
proof (induction q arbitrary: a b)
  case (Cons f fs)
  show ?case
  proof (cases "map_of (jsonFields b) f")
    case None
    then show ?thesis using Cons.prems by (simp add: mergeJson_def map_of_deepMerge)
  next
    case (Some v)
    show ?thesis
    proof (cases "\<exists>x y. map_of (jsonFields a) f = Some (JObj x) \<and> v = JObj y")
      case True
      then obtain x y where xy: "map_of (jsonFields a) f = Some (JObj x)" "v = JObj y" by blast
      then have "untouched fs (mergeJson (JObj x) (JObj y))" using Cons Some by auto
      then show ?thesis using xy Some by (simp add: mergeJson_def map_of_deepMerge)
    next
      case False
      then have "(case (map_of (jsonFields a) f, v) of (Some (JObj x), JObj y) \<Rightarrow> JObj (deepMerge x y) | _ \<Rightarrow> v) = v"
        by (auto split: option.splits json.splits)
      then show ?thesis using Some Cons.prems(2) by (simp add: mergeJson_def map_of_deepMerge)
    qed
  qed
qed simp

text \<open>Where a patch has a leaf (a null, scalar or list at the end of a path of objects) the object gets it.\<close>

fun leafAt :: "string list \<Rightarrow> json \<Rightarrow> json \<Rightarrow> bool" where
  "leafAt [] v p = (p = v \<and> \<not> isObj v)"
| "leafAt (f # fs) v p = (\<exists>x. isObj p \<and> map_of (jsonFields p) f = Some x \<and> leafAt fs v x)"

lemma mergePatch_leaf: "leafAt q v p \<Longrightarrow> nestedField q (mergePatch t p) = v"
proof (induction q arbitrary: p t)
  case Nil
  then show ?case by (cases v) auto
next
  case (Cons f fs)
  then obtain ps where "p = JObj ps" by (auto simp: isObj_def)
  with Cons show ?case by (auto simp: fieldOf_mergeFields)
qed

lemma leafAt_mergeJson_right:
  assumes "leafAt q v b" and "q \<noteq> []"
  shows "leafAt q v (mergeJson a b)"
  using assms
proof (induction q arbitrary: a b)
  case (Cons f fs)
  then obtain w where w: "map_of (jsonFields b) f = Some w" "leafAt fs v w" by auto
  show ?case
  proof (cases "fs = []")
    case True
    then have "\<not> isObj w" using w(2) by auto
    then have "(case (map_of (jsonFields a) f, w) of (Some (JObj x), JObj y) \<Rightarrow> JObj (deepMerge x y) | _ \<Rightarrow> w) = w"
      by (auto split: option.splits json.splits)
    then show ?thesis using w by (simp add: mergeJson_def map_of_deepMerge)
  next
    case False
    then obtain y where y: "w = JObj y" using w(2) by (cases fs) (auto simp: isObj_def)
    show ?thesis
    proof (cases "\<exists>x. map_of (jsonFields a) f = Some (JObj x)")
      case True
      then obtain x where "map_of (jsonFields a) f = Some (JObj x)" by blast
      moreover have "leafAt fs v (mergeJson (JObj x) w)" using Cons.IH [OF w(2) False] .
      ultimately show ?thesis using w y by (simp add: mergeJson_def map_of_deepMerge)
    next
      case False
      then have "(case (map_of (jsonFields a) f, w) of (Some (JObj x), JObj y) \<Rightarrow> JObj (deepMerge x y) | _ \<Rightarrow> w) = w"
        by (auto split: option.splits json.splits)
      then show ?thesis using w by (simp add: mergeJson_def map_of_deepMerge)
    qed
  qed
qed simp

section \<open>The contract\<close>

definition annotationPath :: "string list" where
  "annotationPath = [''metadata'', ''annotations'', RollbackAnnotationKey]"

lemma leafAt_metadata [simp]: "\<not> isObj r \<Longrightarrow> leafAt annotationPath r (metadataJson r m t)"
  by (simp add: annotationPath_def metadataJson_def)

lemma annotation_removed [simp]:
  "annotationOf (mergePatch t (mergeJson a removeMetadata)) RollbackAnnotationKey = None"
  "annotationOf (mergePatch t removeMetadata) RollbackAnnotationKey = None"
proof -
  have l: "leafAt annotationPath JNull removeMetadata" by (simp add: removeMetadata_def)
  have "leafAt annotationPath JNull (mergeJson a removeMetadata)"
    by (rule leafAt_mergeJson_right [OF l]) (simp add: annotationPath_def)
  from mergePatch_leaf [OF this, of t] mergePatch_leaf [OF l, of t]
  show "annotationOf (mergePatch t (mergeJson a removeMetadata)) RollbackAnnotationKey = None"
    "annotationOf (mergePatch t removeMetadata) RollbackAnnotationKey = None"
    by (simp_all add: annotationOf_def annotationPath_def)
qed

lemma annotation_applied [simp]:
  "annotationOf (mergePatch t (mergeJson a (applyMetadata s))) RollbackAnnotationKey = Some s"
proof -
  have "leafAt annotationPath (JStr s) (mergeJson a (applyMetadata s))"
    by (rule leafAt_mergeJson_right) (simp_all add: applyMetadata_def, simp add: annotationPath_def)
  from mergePatch_leaf [OF this, of t] show ?thesis by (simp add: annotationOf_def annotationPath_def)
qed

definition mutationActive :: "('w \<Rightarrow> objKey \<rightharpoonup> jobject) \<Rightarrow> objKey \<Rightarrow> 'w \<Rightarrow> bool" where
  "mutationActive st key w =
     (case st w key of None \<Rightarrow> False | Some x \<Rightarrow> annotationOf (snd x) RollbackAnnotationKey \<noteq> None)"

locale json_api = kube_api "jc c" st fst snd
  for c :: "'w jsonCluster" and st :: "'w \<Rightarrow> objKey \<rightharpoonup> jobject"
begin

lemma patch_json:
  assumes "kPatch (jc c) key (applyPatch p) w = (None, w')"
  shows "\<exists>x y. st w key = Some x \<and> st w' = (st w)(key \<mapsto> y) \<and> snd y = mergePatch (snd x) p"
  using patch_ok [OF assms] by (auto simp: applyPatch_def)

text \<open>A successful restore ends with a patch that takes the annotation away; what it makes of the object.\<close>

lemma restoreField_done:
  assumes "restoreField c key path v wrap w = (None, w')"
  shows "\<exists>x z. st w key = Some x \<and> st w' key = Some z \<and>
    snd z = (let removal = mergePatch (snd x) (buildNestedMap path JNull);
                 restore = mergeJson (buildNestedMap path v) removeMetadata
             in if v = JNull then mergePatch removal removeMetadata
                else if isObj v then mergePatch removal restore
                else mergePatch (snd x) restore)"
proof -
  let ?restore = "mergeJson (buildNestedMap path v) removeMetadata"
  show ?thesis
  proof (cases "v \<noteq> JNull \<and> \<not> isObj v")
    case True
    then have "kPatch (jc c) key (applyPatch ?restore) w = (None, w')"
      using assms by (auto simp: restoreField_def Let_def wrapW_eq)
    from patch_json [OF this] True show ?thesis by (auto simp: Let_def)
  next
    case False
    obtain q w1 where q: "kPatch (jc c) key (applyPatch (buildNestedMap path JNull)) w = (q, w1)"
      by (rule prod.exhaust)
    have n: "q = None" using assms False q by (cases q) (auto simp: restoreField_def Let_def wrapW_def andThen_def)
    from patch_json [OF q [unfolded n]] obtain x y where
      x: "st w key = Some x" "st w1 = (st w)(key \<mapsto> y)" "snd y = mergePatch (snd x) (buildNestedMap path JNull)" by blast
    show ?thesis
    proof (cases "v = JNull")
      case True
      then have "wrapW (wrap MetadataPatch) (kPatch (jc c) key (applyPatch removeMetadata) w1) = (None, w')"
        using assms False q n by (simp add: restoreField_def Let_def andThen_def wrapW_def)
      then have "kPatch (jc c) key (applyPatch removeMetadata) w1 = (None, w')" by (auto simp: wrapW_eq)
      from patch_json [OF this] True x show ?thesis by (auto simp: Let_def)
    next
      case v: False
      then obtain g w2 where g: "kGet (jc c) key w1 = (g, w2)" by (meson prod.exhaust)
      obtain cur where cur: "g = Inr cur"
        using assms False v q n g by (cases g) (auto simp: restoreField_def Let_def wrapW_def andThen_def)
      have "st w2 = st w1" using get_ok [OF g [unfolded cur]] by simp
      moreover have "wrapW (wrap ObjectPatch) (kPatch (jc c) key (applyPatch ?restore) w2) = (None, w')"
        using assms False v q n g cur by (simp add: restoreField_def Let_def andThen_def wrapW_def)
      then have "kPatch (jc c) key (applyPatch ?restore) w2 = (None, w')" by (auto simp: wrapW_eq)
      ultimately show ?thesis using patch_json [of key ?restore w2 w'] False v x by (auto simp: Let_def)
    qed
  qed
qed

lemma restoreField_clears:
  "restoreField c key path v wrap w = (None, w') \<Longrightarrow> \<not> mutationActive st key w'"
  by (drule restoreField_done) (auto simp: mutationActive_def Let_def split: if_splits)

lemma mutationInject_cases [consumes 1, case_names Failed Mutated]:
  assumes "mutationInject c spec ns w = (r, w')"
  obtains e where "r = Inl e" "st w' = st w"
  | x s y ev where "st w (mutationKey c spec ns) = Some x"
      "r = Inr (Some (mutationCleanup c (mutationKey c spec ns) (resolveMutationPath spec)
         (nestedField (resolveMutationPath spec) (snd x))), ev)"
      "WrapRollbackData (jcRollback c) (rollbackFields spec (resolveMutationPath spec)
         (nestedField (resolveMutationPath spec) (snd x))) = Inr s"
      "snd y = mergePatch (snd x) (mergeJson
         (buildNestedMap (resolveMutationPath spec) (parseTypedValue (jcParse c) (param spec ''value''))) (applyMetadata s))"
      "st w' = (st w)(mutationKey c spec ns \<mapsto> y)"
proof -
  let ?key = "mutationKey c spec ns" and ?path = "resolveMutationPath spec"
  obtain g w1 where g: "kGet (jc c) ?key w = (g, w1)" by (rule prod.exhaust)
  note d = assms [unfolded mutationInject_def Let_def g prod.case]
  show thesis
  proof (cases g)
    case (Inl e)
    show thesis by (rule that(1)) (use d Inl get_err [OF g [unfolded Inl]] in auto)
  next
    case (Inr x)
    have x: "st w ?key = Some x" "st w1 = st w" using get_ok [OF g [unfolded Inr]] by simp_all
    show thesis
    proof (cases "WrapRollbackData (jcRollback c) (rollbackFields spec ?path (nestedField ?path (snd x)))")
      case (Inl e)
      show thesis by (rule that(1)) (use d \<open>g = Inr x\<close> Inl x in auto)
    next
      case (Inr s)
      let ?p = "mergeJson (buildNestedMap ?path (parseTypedValue (jcParse c) (param spec ''value''))) (applyMetadata s)"
      obtain q w2 where q: "kPatch (jc c) ?key (applyPatch ?p) w1 = (q, w2)" by (rule prod.exhaust)
      show thesis
      proof (cases q)
        case (Some e)
        show thesis
          by (rule that(1)) (use d \<open>g = Inr x\<close> Inr x q Some patch_err [OF q [unfolded Some]] in \<open>auto simp: finishInject_def\<close>)
      next
        case None
        from patch_json [OF q [unfolded None]] x obtain y where y: "st w2 = (st w)(?key \<mapsto> y)"
          "snd y = mergePatch (snd x) ?p" by auto
        show thesis
          by (rule that(2) [OF x(1) _ Inr y(2)]) (use d \<open>g = Inr x\<close> Inr q None y(1) in \<open>auto simp: finishInject_def\<close>)
      qed
    qed
  qed
qed

lemma mutationRevert_none:
  assumes "mutationRevert c spec ns w = (None, w')"
  shows "\<not> mutationActive st (mutationKey c spec ns) w'"
proof -
  let ?key = "mutationKey c spec ns"
  obtain g w1 where g: "kGet (jc c) ?key w = (g, w1)" by (rule prod.exhaust)
  note d = assms [unfolded mutationRevert_def Let_def g prod.case]
  show ?thesis
  proof (cases g)
    case (Inl e)
    then have "isNotFound e" "w' = w1" using d by (auto split: if_splits)
    then show ?thesis using get_notfound [OF g [unfolded Inl]] get_err [OF g [unfolded Inl]] by (simp add: mutationActive_def)
  next
    case (Inr x)
    have x: "st w1 ?key = Some x" using get_ok [OF g [unfolded Inr]] by simp
    show ?thesis
    proof (cases "annotationOf (snd x) RollbackAnnotationKey")
      case None
      then show ?thesis using d Inr x by (simp add: mutationActive_def)
    next
      case (Some s)
      then obtain info path where "restoreField c ?key path (fieldOf info ''originalValue'') revertErr w1 = (None, w')"
        using d Inr by (auto split: sum.splits option.splits)
      then show ?thesis by (rule restoreField_clears)
    qed
  qed
qed

end

sublocale json_api \<subseteq> mutation: fault_injector "mutationInjector lib c" spec ns "mutationActive st (mutationKey c spec ns)"
  for lib spec ns
proof
  fix w co ev w' assume "inInject (mutationInjector lib c) spec ns w = (Inr (co, ev), w')"
  then have "mutationInject c spec ns w = (Inr (co, ev), w')" by (simp add: mutationInjector_def)
  then show "case co of None \<Rightarrow> mutationActive st (mutationKey c spec ns) w' = mutationActive st (mutationKey c spec ns) w
      | Some f \<Rightarrow> cleans (mutationActive st (mutationKey c spec ns)) f"
    by (cases rule: mutationInject_cases)
       (auto simp: cleans_def mutationCleanup_def split: prod.splits sum.splits dest: restoreField_clears)
next
  fix w e w' assume "inInject (mutationInjector lib c) spec ns w = (Inl e, w')"
    and a: "mutationActive st (mutationKey c spec ns) w'"
  then have "mutationInject c spec ns w = (Inl e, w')" by (simp add: mutationInjector_def)
  then show "mutationActive st (mutationKey c spec ns) w"
    by (cases rule: mutationInject_cases) (use a in \<open>simp_all add: mutationActive_def\<close>)
next
  fix w w' assume "inRevert (mutationInjector lib c) spec ns w = (None, w')"
  then show "\<not> mutationActive st (mutationKey c spec ns) w'"
    using mutationRevert_none by (simp add: mutationInjector_def)
next
  fix w r w' assume r: "inRevert (mutationInjector lib c) spec ns w = (r, w')"
    and a: "\<not> mutationActive st (mutationKey c spec ns) w"
  obtain g w1 where g: "kGet (jc c) (mutationKey c spec ns) w = (g, w1)" by (rule prod.exhaust)
  have "st w' = st w"
  proof (cases g)
    case (Inl e)
    then show ?thesis
      using r g get_err [OF g [unfolded Inl]] by (auto simp: mutationInjector_def mutationRevert_def Let_def split: if_splits)
  next
    case (Inr x)
    then have "annotationOf (snd x) RollbackAnnotationKey = None"
      using get_ok [OF g [unfolded Inr]] a by (simp add: mutationActive_def)
    then show ?thesis
      using r g Inr get_ok [OF g [unfolded Inr]] by (auto simp: mutationInjector_def mutationRevert_def Let_def)
  qed
  then show "\<not> mutationActive st (mutationKey c spec ns) w'" using a by (simp add: mutationActive_def)
qed

section \<open>Round trip\<close>

text \<open>Two paths part when neither leads to the other.\<close>

fun part :: "string list \<Rightarrow> string list \<Rightarrow> bool" where
  "part (f # fs) (g # gs) = (f \<noteq> g \<or> part fs gs)"
| "part _ _ = False"

lemma untouched_nested: "part q p \<Longrightarrow> untouched q (buildNestedMap p v)"
proof (induction q p rule: part.induct)
  case (1 f fs g gs)
  then show ?case by (cases gs) auto
qed simp_all

lemma untouched_metadata: "q \<noteq> [] \<Longrightarrow> hd q \<noteq> ''metadata'' \<Longrightarrow> untouched q (metadataJson r m t)"
  by (cases q) (auto simp: metadataJson_def)

lemma nested_is_obj: "p \<noteq> [] \<Longrightarrow> isObj (buildNestedMap p v)"
  by (induction p v rule: buildNestedMap.induct) simp_all

lemma nested_not_null [simp]: "buildNestedMap (f # fs) v \<noteq> JNull"
  using nested_is_obj [of "f # fs" v] by (auto simp: isObj_def)

lemma mergePatch_nested:
  "p \<noteq> [] \<Longrightarrow> nestedField p (mergePatch t (buildNestedMap p v)) = mergePatch (nestedField p t) v"
proof (induction p arbitrary: t)
  case (Cons f fs)
  then show ?case by (cases fs) (auto simp: fieldOf_mergeFields)
qed simp

lemma mergePatch_spec:
  assumes "p \<noteq> []" and "hd p \<noteq> ''metadata''"
  shows "nestedField p (mergePatch t (mergeJson (buildNestedMap p v) (metadataJson r m ty))) = mergePatch (nestedField p t) v"
proof -
  obtain f fs where p: "p = f # fs" using assms(1) by (cases p) auto
  obtain ps where ps: "buildNestedMap p v = JObj ps" using nested_is_obj [OF assms(1)] by (auto simp: isObj_def)
  have "map_of (jsonFields (metadataJson r m ty)) f = None" using assms(2) p by (simp add: metadataJson_def)
  then have "nestedField p (mergePatch t (mergeJson (JObj ps) (metadataJson r m ty))) = nestedField p (mergePatch t (JObj ps))"
    by (simp add: p mergeJson_def fieldOf_mergeFields map_of_deepMerge)
  then show ?thesis using mergePatch_nested [OF assms(1)] by (simp add: ps [symmetric])
qed

lemma part_untouched:
  assumes "part q p" and "hd q \<noteq> ''metadata''"
  shows "nestedField q (mergePatch t (buildNestedMap p v)) = nestedField q t"
    "nestedField q (mergePatch t (mergeJson (buildNestedMap p v) (metadataJson r m ty))) = nestedField q t"
    "nestedField q (mergePatch t (metadataJson r m ty)) = nestedField q t"
proof -
  have q: "q \<noteq> []" using assms(1) by auto
  note u = untouched_nested [OF assms(1)] untouched_metadata [OF q assms(2)]
  show "nestedField q (mergePatch t (buildNestedMap p v)) = nestedField q t"
    by (rule mergePatch_untouched [OF u(1)])
  show "nestedField q (mergePatch t (mergeJson (buildNestedMap p v) (metadataJson r m ty))) = nestedField q t"
    by (rule mergePatch_untouched [OF untouched_mergeJson [OF u]])
  show "nestedField q (mergePatch t (metadataJson r m ty)) = nestedField q t"
    by (rule mergePatch_untouched [OF u(2)])
qed

text \<open>Values that a merge patch can write: no nulls in objects, no repeated fields. Go reads JSON numbers as
  \<open>float64\<close>, so only integers up to \<open>2 ^ 53\<close> survive the rollback annotation.\<close>

fun patchable :: "json \<Rightarrow> bool" where
  "patchable (JObj kvs) = (distinct (map fst kvs) \<and> (\<forall>(f, v) \<in> set kvs. v \<noteq> JNull \<and> patchable v))"
| "patchable j = True"

fun floatSafe :: "json \<Rightarrow> bool" where
  "floatSafe (JObj kvs) = (\<forall>(f, v) \<in> set kvs. floatSafe v)"
| "floatSafe (JArr js) = (\<forall>v \<in> set js. floatSafe v)"
| "floatSafe (JInt i) = (\<bar>i\<bar> \<le> 2 ^ 53)"
| "floatSafe j = True"

definition json_rollback :: "(string \<times> json) list rollbackLib \<Rightarrow> bool" where
  "json_rollback lib = (\<forall>info s. WrapRollbackData lib info = Inr s \<longrightarrow> (\<forall>v \<in> snd ` set info. floatSafe v) \<longrightarrow>
     UnwrapRollbackData lib s = Inr info)"

lemma mergeFields_fresh:
  "distinct (map fst ps) \<Longrightarrow> \<forall>(f, v) \<in> set ps. v \<noteq> JNull \<and> mergePatch JNull v = v \<Longrightarrow> mergeFields [] ps = ps"
proof (induction ps)
  case (Cons p ps)
  obtain f v where p: "p = (f, v)" by (cases p)
  have "filter (\<lambda>q. fst q \<noteq> f) ps = ps" using Cons.prems(1) p by (auto simp: filter_id_conv)
  then show ?case using Cons p by (auto simp: setField_def fieldOf_def)
qed simp

lemma mergePatch_fresh: "patchable v \<Longrightarrow> mergePatch JNull v = v"
proof (induction v rule: patchable.induct)
  case (1 kvs)
  then have "mergeFields [] kvs = kvs" by (intro mergeFields_fresh) auto
  then show ?case by simp
qed simp_all

lemma rollbackPath_fields:
  assumes "CHR ''.'' \<notin> set (param spec ''field'')"
  shows "rollbackPath (rollbackFields spec (resolveMutationPath spec) v) = Some (resolveMutationPath spec)"
proof (cases "param spec ''path'' = ''''")
  case False
  then show ?thesis
    by (simp add: rollbackPath_def rollbackFields_def resolveMutationPath_def fieldOf_def)
next
  case True
  have "splitOn CHR ''.'' (joinWith CHR ''.'' [''spec'', param spec ''field'']) = [''spec'', param spec ''field'']"
    by (rule splitOn_joinWith) (use assms in auto)
  then show ?thesis using True
    by (simp add: rollbackPath_def rollbackFields_def resolveMutationPath_def fieldOf_def)
qed

lemma fieldOf_rollback [simp]: "fieldOf (rollbackFields spec path v) ''originalValue'' = v"
  by (simp add: rollbackFields_def fieldOf_def)

context json_api
begin

lemma mutation_run:
  assumes "json_rollback (jcRollback c)" and "CHR ''.'' \<notin> set (param spec ''field'')"
    and "mutationInject c spec ns w = (Inr res, w1)" and "mutationRevert c spec ns w1 = (None, w2)"
    and "\<And>x. st w (mutationKey c spec ns) = Some x \<Longrightarrow> floatSafe (nestedField (resolveMutationPath spec) (snd x))"
  shows "\<exists>x y z s. st w (mutationKey c spec ns) = Some x \<and> st w1 (mutationKey c spec ns) = Some y \<and>
    snd y = mergePatch (snd x) (mergeJson (buildNestedMap (resolveMutationPath spec)
      (parseTypedValue (jcParse c) (param spec ''value''))) (applyMetadata s)) \<and>
    st w2 (mutationKey c spec ns) = Some z \<and>
    snd z = (let path = resolveMutationPath spec; v = nestedField path (snd x);
                 removal = mergePatch (snd y) (buildNestedMap path JNull);
                 restore = mergeJson (buildNestedMap path v) removeMetadata
             in if v = JNull then mergePatch removal removeMetadata
                else if isObj v then mergePatch removal restore
                else mergePatch (snd y) restore)"
  using assms(3)
proof (cases rule: mutationInject_cases)
  case (Mutated x s y ev)
  let ?key = "mutationKey c spec ns" and ?path = "resolveMutationPath spec"
  let ?v = "nestedField ?path (snd x)"
  obtain g v1 where g: "kGet (jc c) ?key w1 = (g, v1)" by (rule prod.exhaust)
  note d = assms(4) [unfolded mutationRevert_def Let_def g prod.case]
  have y: "st w1 ?key = Some y" using Mutated(5) by simp
  have "\<not> isl g"
  proof
    assume "isl g"
    then obtain e where e: "g = Inl e" by (cases g) auto
    then have "isNotFound e" using d by (auto split: if_splits)
    then show False using get_notfound [OF g [unfolded e]] y by simp
  qed
  then obtain cur where cur: "g = Inr cur" by (cases g) auto
  have c: "cur = y" "st v1 = st w1" using get_ok [OF g [unfolded cur]] y by auto
  have u: "UnwrapRollbackData (jcRollback c) s = Inr (rollbackFields spec ?path ?v)"
    using assms(1) Mutated(3) assms(5) [OF Mutated(1)]
    unfolding json_rollback_def by (auto simp: rollbackFields_def)
  have "annotationOf (snd y) RollbackAnnotationKey = Some s" using Mutated(4) by simp
  then have "restoreField c ?key ?path ?v revertErr v1 = (None, w2)"
    using d cur c u rollbackPath_fields [OF assms(2)] by simp
  from restoreField_done [OF this] obtain x' z where "st v1 ?key = Some x'" and z: "st w2 ?key = Some z"
    and sz: "snd z = (let removal = mergePatch (snd x') (buildNestedMap ?path JNull);
                 restore = mergeJson (buildNestedMap ?path ?v) removeMetadata
             in if ?v = JNull then mergePatch removal removeMetadata
                else if isObj ?v then mergePatch removal restore
                else mergePatch (snd x') restore)" by blast
  then have "x' = y" using y c by simp
  then show ?thesis using Mutated(1,4) y z sz
    by (intro exI [of _ x] exI [of _ y] exI [of _ z] exI [of _ s]) (simp add: Let_def)
qed simp

end


text \<open>A path that leads through a scalar is not refused: the error of \<open>NestedFieldCopy\<close> is ignored, the scalar
  is replaced by an object, and the revert removes the field but does not bring the scalar back.\<close>

theorem mutation_scalar_parent_lost:
  assumes "json_api c st" and "json_rollback (jcRollback c)" and "CHR ''.'' \<notin> set (param spec ''field'')"
    and "resolveMutationPath spec = parent @ [f]" and "parent \<noteq> []" and "hd parent \<noteq> ''metadata''"
    and "st w (mutationKey c spec ns) = Some x" and "nestedField parent (snd x) = JInt n"
    and "inInject (mutationInjector lib c) spec ns w = (Inr res, w1)"
    and "inRevert (mutationInjector lib c) spec ns w1 = (None, w2)"
  shows "\<exists>z. st w2 (mutationKey c spec ns) = Some z \<and> isObj (nestedField parent (snd z))"
proof -
  have i: "mutationInject c spec ns w = (Inr res, w1)" and r: "mutationRevert c spec ns w1 = (None, w2)"
    using assms(9,10) by (simp_all add: mutationInjector_def)
  have null: "nestedField (parent @ [f]) (snd x) = JNull"
  proof -
    have "nestedField (ps @ [f]) t = nestedField [f] (nestedField ps t)" for ps t by (induction ps arbitrary: t) simp_all
    then show ?thesis by (simp add: assms(8) fieldOf_def)
  qed
  have safe: "floatSafe (nestedField (resolveMutationPath spec) (snd x'))" if "st w (mutationKey c spec ns) = Some x'" for x'
    using that assms(7) null by (simp add: assms(4))
  obtain x' y z s where x': "st w (mutationKey c spec ns) = Some x'" "st w1 (mutationKey c spec ns) = Some y"
      "st w2 (mutationKey c spec ns) = Some z"
    and "snd y = mergePatch (snd x') (mergeJson (buildNestedMap (resolveMutationPath spec)
      (parseTypedValue (jcParse c) (param spec ''value''))) (applyMetadata s))"
    and z: "snd z = (let v = nestedField (resolveMutationPath spec) (snd x');
                 removal = mergePatch (snd y) (buildNestedMap (resolveMutationPath spec) JNull);
                 restore = mergeJson (buildNestedMap (resolveMutationPath spec) v) removeMetadata
             in if v = JNull then mergePatch removal removeMetadata
                else if isObj v then mergePatch removal restore
                else mergePatch (snd y) restore)"
    using json_api.mutation_run [OF assms(1-3) i r safe] unfolding Let_def by blast
  have nest: "ps \<noteq> [] \<Longrightarrow> buildNestedMap (ps @ [f]) JNull = buildNestedMap ps (JObj [(f, JNull)])" for ps
  proof (induction ps)
    case (Cons a ps)
    then show ?case by (cases ps) simp_all
  qed simp
  have "snd z = mergePatch (mergePatch (snd y) (buildNestedMap (parent @ [f]) JNull)) removeMetadata"
    using z x' assms(7) null by (simp add: assms(4))
  moreover have "untouched parent removeMetadata"
    unfolding removeMetadata_def by (rule untouched_metadata [OF assms(5,6)])
  ultimately have "nestedField parent (snd z) = mergePatch (nestedField parent (snd y)) (JObj [(f, JNull)])"
    using mergePatch_untouched mergePatch_nested [OF assms(5)] nest [OF assms(5)] by simp
  then show ?thesis using x'(3) by simp
qed

section \<open>Witnesses\<close>

definition mutationDemoSpec :: injectionSpec where
  "mutationDemoSpec = \<lparr>injType = CRDMutation, injParams = [''apiVersion'' \<mapsto> ''v1'', ''kind'' \<mapsto> ''Dsc'', ''name'' \<mapsto> ''d'',
     ''path'' \<mapsto> ''spec.size'', ''value'' \<mapsto> ''0''], injCount = 1, injTTL = 0, injDanger = DangerLevelHigh\<rparr>"

definition mutationDemoObject :: json where
  "mutationDemoObject = JObj [(''spec'', JObj [(''size'', JInt 3), (''mode'', JStr ''a'')])]"

definition mutationDemoLib :: "(string \<times> json) list rollbackLib" where
  "mutationDemoLib = \<lparr>rlMarshal = \<lambda>i. if i = rollbackFields mutationDemoSpec [''spec'', ''size''] (JInt 3) then Inr ''0'' else Inl noCodec,
     rlUnmarshal = \<lambda>s. Inr (rollbackFields mutationDemoSpec [''spec'', ''size''] (JInt 3)), rlHash = \<lambda>s. ''h'',
     rlEncode = \<lambda>(d, h). Inr ''e'', rlDecode = \<lambda>s. Inr (Some ''0'', ''h'')\<rparr>"

definition mutationDemoCluster :: "(objKey, json) memWorld jsonCluster" where
  "mutationDemoCluster = \<lparr>jc = memClient, jcNow = memNow, jcKind = \<lambda>a k. k, jcRollback = mutationDemoLib,
     jcParse = \<lambda>s. if s = ''0'' then Inr (JInt 0) else Inl noCodec\<rparr>"

definition mutationDemoWorld :: "(objKey, json) memWorld" where
  "mutationDemoWorld = \<lparr>memObjs = [(''Dsc'', ''ns1'', ''d'') \<mapsto> (0, mutationDemoObject)], memNext = 1, memNow = 0\<rparr>"

interpretation memJson: json_api mutationDemoCluster memObjs
  unfolding json_api_def using memApi.kube_api_axioms by (simp add: mutationDemoCluster_def)

lemma mutationDemo_path: "resolveMutationPath mutationDemoSpec = [''spec'', ''size'']"
  by (simp add: resolveMutationPath_def mutationDemoSpec_def mget_def)

definition mutationDemoParams :: paramLib where
  "mutationDemoParams = \<lparr>plParseSelector = \<lambda>s. Inr 1, plJsonCompound = \<lambda>s. False, plUnmarshalFaults = \<lambda>s. Inr [],
     plMarshalFaults = \<lambda>fs. Inr ''{}'', plParseDuration = \<lambda>s. Inr second\<rparr>"


end
