(* ===== verification/JsonWf.thy ===== *)
theory JsonWf
  imports InjectMutation
begin

text \<open>
  The well-formedness of the objects that \<open>crdmutation.go\<close> handles: a JSON object has every field at most
  once, at every depth, as a Go map does. Merge patches, the merge of two patches and the patches that the
  injector builds keep it, and so do its operations, for every object of the cluster.
\<close>

declare split_paired_Ex [simp del] split_paired_All [simp del]

fun wfJson :: "json \<Rightarrow> bool" where
  "wfJson (JObj kvs) = (distinct (map fst kvs) \<and> (\<forall>p \<in> set kvs. wfJson (snd p)))"
| "wfJson (JArr js) = (\<forall>v \<in> set js. wfJson v)"
| "wfJson j = True"

lemma wf_fieldOf: "wfJson (JObj kvs) \<Longrightarrow> wfJson (fieldOf kvs f)"
  by (force simp: fieldOf_def split: option.split dest: map_of_SomeD)

lemma wf_fields [simp]: "wfJson j \<Longrightarrow> wfJson (JObj (jsonFields j))"
  by (cases j) simp_all

lemma wf_nestedField: "wfJson j \<Longrightarrow> wfJson (nestedField fs j)"
  by (induction fs arbitrary: j) (simp_all add: wf_fieldOf del: wfJson.simps(1))

lemma wf_dropField: "wfJson (JObj kvs) \<Longrightarrow> wfJson (JObj (dropField f kvs))"
  by (auto simp: dropField_def distinct_map_filter)

lemma wf_setField: "wfJson (JObj kvs) \<Longrightarrow> wfJson v \<Longrightarrow> wfJson (JObj (setField f v kvs))"
  using wf_dropField [of kvs f] by (auto simp: setField_def dropField_def)

lemma wf_mergePatch:
  "wfJson t \<Longrightarrow> wfJson p \<Longrightarrow> wfJson (mergePatch t p)"
  "wfJson (JObj kvs) \<Longrightarrow> wfJson (JObj ps) \<Longrightarrow> wfJson (JObj (mergeFields kvs ps))"
proof (induction t p and kvs ps rule: mergePatch_mergeFields.induct)
  case (1 t ps)
  then show ?case using wf_fields [of t] by (simp del: wfJson.simps(1) wf_fields)
next
  case (9 kvs f v ps)
  have ps: "wfJson (JObj ps)" "wfJson v" using 9(5) by simp_all
  have rest: "wfJson (JObj (mergeFields kvs ps))" using 9(1,3,4) ps by blast
  show ?case
  proof (cases "v = JNull")
    case True
    then show ?thesis using wf_dropField [OF rest] by simp
  next
    case False
    then have "wfJson (mergePatch (fieldOf kvs f) v)" using 9(2,4) ps wf_fieldOf by blast
    then show ?thesis using False wf_setField [OF rest] by simp
  qed
qed simp_all

lemma wf_choice:
  assumes "\<And>x y. m = Some (JObj x) \<Longrightarrow> v = JObj y \<Longrightarrow> wfJson (JObj (g x y))" and "wfJson v"
  shows "wfJson (case (m, v) of (Some (JObj x), JObj y) \<Rightarrow> JObj (g x y) | _ \<Rightarrow> v)"
proof (cases "\<exists>x y. m = Some (JObj x) \<and> v = JObj y")
  case True
  then show ?thesis using assms(1) by auto
next
  case False
  then have "(case (m, v) of (Some (JObj x), JObj y) \<Rightarrow> JObj (g x y) | _ \<Rightarrow> v) = v"
    by (auto split: option.splits json.splits)
  then show ?thesis using assms(2) by simp
qed

lemma wf_deepMerge: "wfJson (JObj a) \<Longrightarrow> wfJson (JObj b) \<Longrightarrow> wfJson (JObj (deepMerge a b))"
proof (induction a b rule: deepMerge.induct)
  case (2 a f v b)
  have inner: "wfJson (JObj (deepMerge x y))" if "map_of a f = Some (JObj x)" "v = JObj y" for x y
  proof (rule "2.IH"(1))
    show "wfJson (JObj x)" using 2(3) that wf_fieldOf [of a f] by (simp add: fieldOf_def)
    show "wfJson (JObj y)" using 2(4) that by simp
  qed (use that in simp_all)
  have "wfJson v" using 2(4) by simp
  with inner have "wfJson (case (map_of a f, v) of (Some (JObj x), JObj y) \<Rightarrow> JObj (deepMerge x y) | _ \<Rightarrow> v)"
    by (rule wf_choice)
  moreover have "wfJson (JObj (deepMerge a b))" using 2(2-4) by simp
  ultimately show ?case using wf_setField by simp
qed simp

lemma wf_buildNestedMap: "wfJson v \<Longrightarrow> wfJson (buildNestedMap path v)"
  by (induction path v rule: buildNestedMap.induct) simp_all

lemma wf_mergeJson: "wfJson a \<Longrightarrow> wfJson b \<Longrightarrow> wfJson (mergeJson a b)"
  unfolding mergeJson_def by (intro wf_deepMerge wf_fields)

lemma wf_metadata: "wfJson (applyMetadata s)" "wfJson removeMetadata"
  by (simp_all add: applyMetadata_def removeMetadata_def metadataJson_def ManagedByLabel_def ChaosTypeLabel_def)

definition wfStore :: "(objKey \<rightharpoonup> jobject) \<Rightarrow> bool" where
  "wfStore m = (\<forall>key x. m key = Some x \<longrightarrow> wfJson (snd x))"

context json_api
begin

lemma wf_get: "kGet (jc c) key w = (r, w') \<Longrightarrow> st w' = st w"
  using get_ok get_err by (cases r) blast+

lemma wf_patch:
  assumes "kPatch (jc c) key (applyPatch p) w = (r, w')" and "wfStore (st w)" and "wfJson p"
  shows "wfStore (st w')"
proof (cases r)
  case None
  from patch_json [OF assms(1) [unfolded None]] obtain x y where
    "st w key = Some x" "st w' = (st w)(key \<mapsto> y)" "snd y = mergePatch (snd x) p" by blast
  then show ?thesis using assms(2,3) wf_mergePatch(1) by (auto simp: wfStore_def)
next
  case (Some e)
  then show ?thesis using patch_err [OF assms(1) [unfolded Some]] assms(2) by simp
qed

lemma wf_wrapped:
  "wrapW f (kPatch (jc c) key (applyPatch p) w) = (r, w') \<Longrightarrow> wfStore (st w) \<Longrightarrow> wfJson p \<Longrightarrow> wfStore (st w')"
  unfolding wrapW_eq using wf_patch by blast

lemma restoreField_wf:
  assumes "restoreField c key path v wrap w = (r, w')" and "wfStore (st w)" and "wfJson v"
  shows "wfStore (st w')"
proof -
  have p: "wfJson (mergeJson (buildNestedMap path v) removeMetadata)" "wfJson (buildNestedMap path JNull)"
    using assms(3) by (simp_all add: wf_mergeJson wf_buildNestedMap wf_metadata)
  show ?thesis
  proof (cases "v \<noteq> JNull \<and> \<not> isObj v")
    case True
    then show ?thesis using assms(1) wf_wrapped [OF _ assms(2) p(1)] by (auto simp: restoreField_def Let_def)
  next
    case False
    obtain q w1 where q: "wrapW (wrap NullPatch) (kPatch (jc c) key (applyPatch (buildNestedMap path JNull)) w) = (q, w1)"
      by (rule prod.exhaust)
    have w1: "wfStore (st w1)" by (rule wf_wrapped [OF q assms(2) p(2)])
    note d = assms(1) [unfolded restoreField_def Let_def if_not_P [OF False] q andThen_def prod.case]
    show ?thesis
    proof (cases "q \<noteq> None \<or> v = JNull")
      case True
      then show ?thesis using d w1 wf_wrapped [OF _ w1 wf_metadata(2)] by (cases q) auto
    next
      case False
      obtain g w2 where g: "kGet (jc c) key w1 = (g, w2)" by (rule prod.exhaust)
      have "wfStore (st w2)" using wf_get [OF g] w1 by simp
      then show ?thesis using d False g wf_wrapped [OF _ _ p(1)] by (cases g) auto
    qed
  qed
qed

lemma mutationInject_wf:
  assumes "mutationInject c spec ns w = (r, w')" and "wfStore (st w)"
    and "\<And>s v. jcParse c s = Inr v \<Longrightarrow> wfJson v"
  shows "wfStore (st w')" and "r = Inr (Some f, ev) \<Longrightarrow> f v = (q, v') \<Longrightarrow> wfStore (st v) \<Longrightarrow> wfStore (st v')"
proof -
  have typed: "wfJson (parseTypedValue (jcParse c) s)" for s
    using assms(3) by (auto simp: parseTypedValue_def split: sum.split)
  show "wfStore (st w')" using assms(1)
  proof (cases rule: mutationInject_cases)
    case (Mutated x s y ev)
    then show ?thesis
      using assms(2) wf_mergePatch(1) [OF _ wf_mergeJson [OF wf_buildNestedMap [OF typed] wf_metadata(1)]]
      by (auto simp: wfStore_def)
  qed (use assms(2) in simp)
  show "wfStore (st v')" if "r = Inr (Some f, ev)" "f v = (q, v')" "wfStore (st v)"
    using assms(1)
  proof (cases rule: mutationInject_cases)
    case (Mutated x s y ev')
    let ?old = "nestedField (resolveMutationPath spec) (snd x)"
    have old: "wfJson ?old" using Mutated assms(2) wf_nestedField by (auto simp: wfStore_def)
    have f: "mutationCleanup c (mutationKey c spec ns) (resolveMutationPath spec) ?old v = (q, v')" using Mutated that by simp
    obtain g v1 where g: "kGet (jc c) (mutationKey c spec ns) v = (g, v1)" by (rule prod.exhaust)
    have "wfStore (st v1)" using wf_get [OF g] that by simp
    then show ?thesis using f g restoreField_wf [OF _ _ old] by (cases g) (auto simp: mutationCleanup_def)
  qed (use that in simp)
qed

lemma mutationRevert_wf:
  assumes "mutationRevert c spec ns w = (r, w')" and "wfStore (st w)"
    and "\<And>s info. UnwrapRollbackData (jcRollback c) s = Inr info \<Longrightarrow> wfJson (JObj info)"
  shows "wfStore (st w')"
proof -
  obtain g w1 where g: "kGet (jc c) (mutationKey c spec ns) w = (g, w1)" by (rule prod.exhaust)
  have w1: "wfStore (st w1)" using wf_get [OF g] assms(2) by simp
  have step: "wfStore (st w')" if "restoreField c (mutationKey c spec ns) path (fieldOf info ''originalValue'') revertErr w1 = (r, w')"
    and "UnwrapRollbackData (jcRollback c) s = Inr info" for path info s
    using restoreField_wf [OF that(1) w1 wf_fieldOf] assms(3) that(2) by blast
  show ?thesis using assms(1) g w1 step unfolding mutationRevert_def Let_def
    by (auto split: sum.splits option.splits if_splits)
qed

end





end
