(* ===== verification/ValidationProps.thy ===== *)
theory ValidationProps
  imports Validation
begin

text \<open>
  What an accepted injection guarantees, whatever its type: it targets no resource of the chaos
  framework, the destructive types are declared dangerous, protected namespaces stay out of
  reach, and the names that the injectors derive are names that Kubernetes accepts.
\<close>

section \<open>Targets\<close>

text \<open>The parameter that names the resource an injector modifies, if its type has one.\<close>

definition targetResourceName :: "injectionSpec \<Rightarrow> string option" where
  "targetResourceName spec =
     (if injType spec \<in> {CRDMutation, ConfigDrift, FinalizerBlock, OwnerRefOrphan, LabelStomping,
         SecretDeletion, DeploymentScaleZero, LeaderElectionDisrupt, CrashLoopInject, ImageCorrupt,
         ResourceDeletion} then Some (param spec ''name'')
      else if injType spec = RBACRevoke then Some (param spec ''bindingName'')
      else if injType spec = QuotaExhaustion then Some (param spec ''quotaName'')
      else None)"

definition destructiveTypes :: "injectionType list" where
  "destructiveTypes = [WebhookLatency, NamespaceDeletion, SecretDeletion, DeploymentScaleZero,
     LeaderElectionDisrupt, CrashLoopInject, ImageCorrupt, ResourceDeletion, PDBBlock]"

lemmas validator_defs = validatePodKillParams_def validateNetworkPartitionParams_def
  validateCRDMutationParams_def validateConfigDriftParams_def validateWebhookDisruptParams_def
  validateRBACRevokeParams_def validateFinalizerBlockParams_def validateClientFaultParams_def
  validateOwnerRefOrphanParams_def validateQuotaExhaustionParams_def
  validateWebhookLatencyParams_def validateNamespaceDeletionParams_def
  validateLabelStompingParams_def validateSecretDeletionParams_def validateScaleZeroParams_def
  validateLeaseElectionParams_def validateCrashLoopParams_def validateImageCorruptParams_def
  validateResourceDeletionParams_def validatePDBBlockParams_def validateHighDangerName_def

lemma ValidateInjectionParams_known:
  "ValidateInjectionParams lib spec blast = None \<Longrightarrow> injType spec \<in> set validInjectionTypes"
  by (auto simp: ValidateInjectionParams_def ValidateInjectionType_def split: option.splits)

lemma known_type: "ValidateInjectionType t = None \<longleftrightarrow> t \<in> set validInjectionTypes"
  by (simp add: ValidateInjectionType_def)

text \<open>Per type: what acceptance says, read off the handler of the type.\<close>

lemma accepted_handler:
  assumes "ValidateInjectionParams lib spec blast = None"
  shows "injType spec = CRDMutation \<Longrightarrow> validateCRDMutationParams lib spec = None"
    and "injType spec = ConfigDrift \<Longrightarrow> validateConfigDriftParams spec = None"
    and "injType spec = RBACRevoke \<Longrightarrow> validateRBACRevokeParams spec = None"
    and "injType spec = FinalizerBlock \<Longrightarrow> validateFinalizerBlockParams spec = None"
    and "injType spec = OwnerRefOrphan \<Longrightarrow> validateOwnerRefOrphanParams spec = None"
    and "injType spec = QuotaExhaustion \<Longrightarrow> validateQuotaExhaustionParams spec = None"
    and "injType spec = WebhookLatency \<Longrightarrow> validateWebhookLatencyParams lib spec = None"
    and "injType spec = NamespaceDeletion \<Longrightarrow> validateNamespaceDeletionParams spec = None"
    and "injType spec = LabelStomping \<Longrightarrow> validateLabelStompingParams spec = None"
    and "injType spec = SecretDeletion \<Longrightarrow> validateSecretDeletionParams spec = None"
    and "injType spec = DeploymentScaleZero \<Longrightarrow> validateScaleZeroParams spec = None"
    and "injType spec = LeaderElectionDisrupt \<Longrightarrow> validateLeaseElectionParams spec = None"
    and "injType spec = CrashLoopInject \<Longrightarrow> validateCrashLoopParams spec = None"
    and "injType spec = ImageCorrupt \<Longrightarrow> validateImageCorruptParams spec = None"
    and "injType spec = ResourceDeletion \<Longrightarrow> validateResourceDeletionParams spec = None"
    and "injType spec = PDBBlock \<Longrightarrow> validatePDBBlockParams spec = None"
  using assms by (simp_all add: ValidateInjectionParams_def split: option.splits)

lemma resourceName_nonempty:
  "validateK8sResourceName p s = None \<Longrightarrow> s \<noteq> '''' \<and> length s \<le> 253"
  by (auto simp: validateK8sResourceName_def maxNameLength_def)

lemma isK8sName_nonempty: "isK8sName s \<Longrightarrow> s \<noteq> '''' \<and> length s \<le> 253"
  by (auto simp: isK8sName_def)

lemma target_CRDMutation:
  "validateCRDMutationParams lib spec = None \<Longrightarrow>
     isK8sName (param spec ''name'') \<and> \<not> isChaosManaged (param spec ''name'')"
  by (simp add: validateCRDMutationParams_def Let_def name_simps)

lemma target_ConfigDrift:
  "validateConfigDriftParams spec = None \<Longrightarrow>
     isK8sName (param spec ''name'') \<and> \<not> isChaosManaged (param spec ''name'')"
  by (simp add: validateConfigDriftParams_def Let_def name_simps)

lemma target_FinalizerBlock:
  "validateFinalizerBlockParams spec = None \<Longrightarrow>
     isK8sName (param spec ''name'') \<and> \<not> isChaosManaged (param spec ''name'')"
  by (simp add: validateFinalizerBlockParams_def Let_def name_simps)

lemma target_OwnerRefOrphan:
  "validateOwnerRefOrphanParams spec = None \<Longrightarrow>
     isK8sName (param spec ''name'') \<and> \<not> isChaosManaged (param spec ''name'')"
  by (simp add: validateOwnerRefOrphanParams_def Let_def name_simps)

lemma target_LabelStomping:
  "validateLabelStompingParams spec = None \<Longrightarrow>
     isK8sName (param spec ''name'') \<and> \<not> isChaosManaged (param spec ''name'')"
  by (simp add: validateLabelStompingParams_def Let_def name_simps)

lemma target_HighDanger:
  "validateHighDangerName t spec = None \<longleftrightarrow> highDanger spec \<and>
     isK8sName (param spec ''name'') \<and> \<not> isChaosManaged (param spec ''name'')"
  by (auto simp: validateHighDangerName_def name_simps dest: isK8sName_nonempty)

lemma target_SecretDeletion:
  "validateSecretDeletionParams spec = None \<Longrightarrow> highDanger spec \<and>
     isK8sName (param spec ''name'') \<and> \<not> isChaosManaged (param spec ''name'')"
  by (simp add: validateSecretDeletionParams_def Let_def name_simps)

lemma target_ResourceDeletion:
  "validateResourceDeletionParams spec = None \<Longrightarrow> highDanger spec \<and>
     isK8sName (param spec ''name'') \<and> \<not> isChaosManaged (param spec ''name'')"
  by (simp add: validateResourceDeletionParams_def Let_def name_simps)

lemma target_QuotaExhaustion:
  "validateQuotaExhaustionParams spec = None \<Longrightarrow>
     isK8sName (param spec ''quotaName'') \<and> \<not> isChaosManaged (param spec ''quotaName'')"
  by (simp add: validateQuotaExhaustionParams_def Let_def name_simps)

lemma target_RBACRevoke:
  "validateRBACRevokeParams spec = None \<Longrightarrow>
     param spec ''bindingName'' \<noteq> '''' \<and> length (param spec ''bindingName'') \<le> 253 \<and>
     \<not> isChaosManaged (param spec ''bindingName'')"
  by (auto simp: validateRBACRevokeParams_def Let_def name_simps dest: resourceName_nonempty)

lemma target_ScaleZero:
  "validateScaleZeroParams spec = None \<Longrightarrow>
     isK8sName (param spec ''name'') \<and> \<not> isChaosManaged (param spec ''name'')"
  by (simp add: validateScaleZeroParams_def target_HighDanger)

lemma target_LeaseElection:
  "validateLeaseElectionParams spec = None \<Longrightarrow>
     isK8sName (param spec ''name'') \<and> \<not> isChaosManaged (param spec ''name'')"
  by (simp add: validateLeaseElectionParams_def target_HighDanger)

lemma target_CrashLoop:
  "validateCrashLoopParams spec = None \<Longrightarrow>
     isK8sName (param spec ''name'') \<and> \<not> isChaosManaged (param spec ''name'')"
  by (simp add: validateCrashLoopParams_def target_HighDanger)

lemma target_ImageCorrupt:
  "validateImageCorruptParams spec = None \<Longrightarrow>
     isK8sName (param spec ''name'') \<and> \<not> isChaosManaged (param spec ''name'')"
  by (simp add: validateImageCorruptParams_def target_HighDanger)


section \<open>Danger\<close>

lemma accepted_danger_high:
  assumes "ValidateInjectionParams lib spec blast = None" and "injType spec \<in> set destructiveTypes"
  shows "highDanger spec"
  using accepted_handler(7,8,10-16) [OF assms(1)] assms(2)
  by (auto simp: destructiveTypes_def validateWebhookLatencyParams_def Let_def
      validateNamespaceDeletionParams_def validateSecretDeletionParams_def
      validateScaleZeroParams_def validateLeaseElectionParams_def validateCrashLoopParams_def
      validateImageCorruptParams_def validateResourceDeletionParams_def
      validatePDBBlockParams_def target_HighDanger)

text \<open>C25. The destructive injection types are accepted only when the experiment declares them
  dangerous; and a CRD mutation that is not declared dangerous changes neither a sensitive spec
  field nor a core Kubernetes type, and writes neither \<open>null\<close> nor an object or array.\<close>

theorem accepted_danger:
  assumes "ValidateInjectionParams lib spec blast = None" and "\<not> highDanger spec"
  shows "injType spec \<notin> set destructiveTypes \<and>
    (injType spec = CRDMutation \<longrightarrow>
      targetField spec \<notin> set sensitiveSpecFields \<and> \<not> isCoreKubernetesType (param spec ''apiVersion'') \<and>
      \<not> plJsonCompound lib (param spec ''value'') \<and> trimSpace (param spec ''value'') \<noteq> ''null'')"
proof (intro conjI impI)
  note h = accepted_handler [OF assms(1)]
  show "injType spec \<notin> set destructiveTypes" using accepted_danger_high [OF assms(1)] assms(2) by blast
  assume "injType spec = CRDMutation"
  from h(1) [OF this] assms(2)
  show "targetField spec \<notin> set sensitiveSpecFields" "\<not> isCoreKubernetesType (param spec ''apiVersion'')"
    "\<not> plJsonCompound lib (param spec ''value'')" "trimSpace (param spec ''value'') \<noteq> ''null''"
    by (simp_all add: validateCRDMutationParams_def Let_def)
qed

section \<open>Namespaces and derived names\<close>

lemma optional_namespace:
  "validateOptionalNamespace m m' ns = None \<longleftrightarrow>
     ns = '''' \<or> isK8sName ns \<and> \<not> protectedNamespace ns"
  by (auto simp: validateOptionalNamespace_def name_simps protectedNamespace_def)

text \<open>The protected namespaces (\<open>default\<close>, \<open>kube-system\<close>, \<open>openshift-\<close>*, \<open>chaos-\<close>*, ...) cannot
  be named by an accepted deletion of a namespace, a Secret or a resource.\<close>

theorem accepted_namespace:
  assumes "ValidateInjectionParams lib spec blast = None"
    and "injType spec \<in> {NamespaceDeletion, SecretDeletion, ResourceDeletion}"
  shows "\<not> protectedNamespace (param spec ''namespace'') \<and>
    (injType spec = NamespaceDeletion \<longrightarrow>
       isK8sName (param spec ''namespace'') \<and> param spec ''namespace'' \<noteq> controllerNamespace)"
proof -
  note h = accepted_handler [OF assms(1)]
  have e: "\<not> protectedNamespace ''''"
    by (simp add: protectedNamespace_def forbiddenNamespaces_def forbiddenNamespacePrefixes_def)
  consider (ns) "injType spec = NamespaceDeletion" | (sec) "injType spec = SecretDeletion"
    | (res) "injType spec = ResourceDeletion" using assms(2) by auto
  then show ?thesis
  proof cases
    case ns
    then show ?thesis using h(8)
      by (simp add: validateNamespaceDeletionParams_def Let_def name_simps protectedNamespace_def)
  next
    case sec
    then have "validateOptionalNamespace ''SecretDeletion cannot target Secrets in protected namespace %q''
        ''SecretDeletion cannot target Secrets in namespace %q (matches forbidden prefix %q)''
        (param spec ''namespace'') = None"
      using h(10) by (simp add: validateSecretDeletionParams_def Let_def)
    then show ?thesis using e sec by (auto simp: optional_namespace)
  next
    case res
    then have "validateOptionalNamespace ''ResourceDeletion cannot target resources in protected namespace %q''
        ''ResourceDeletion cannot target resources in namespace %q (prefix %q is protected)''
        (param spec ''namespace'') = None"
      using h(15) by (simp add: validateResourceDeletionParams_def Let_def)
    then show ?thesis using e res by (auto simp: optional_namespace)
  qed
qed

lemma edgePattern_append:
  assumes "edgePattern edge mid a" "list_all mid (b :: string)" "edgePattern edge mid c"
    and "\<And>x. edge x \<Longrightarrow> mid x"
  shows "edgePattern edge mid (a @ b @ c)"
proof -
  have ca: "list_all mid a" and cc: "list_all mid c"
    using edgePattern_chars [OF assms(1) assms(4)] edgePattern_chars [OF assms(3) assms(4)]
    by (auto simp: list_all_iff)
  have ne: "a \<noteq> []" "c \<noteq> []" using assms(1,3) by (auto dest: edgePattern_nonempty)
  obtain x xs where a: "a = x # xs" "edge x" using assms(1) by (auto simp: edgePattern_def split: list.splits)
  have last: "edge (last c)"
    using assms(3) by (auto simp: edgePattern_def split: list.splits if_splits)
  have "list_all mid (butlast c)" using cc by (auto simp: list_all_iff dest: in_set_butlastD)
  then have "list_all mid (butlast (xs @ b @ c))"
    using ca assms(2) a ne by (simp add: butlast_append)
  then show ?thesis using a ne last by (simp add: edgePattern_def)
qed

lemma backup_name_valid:
  assumes "isK8sName name" "validNamePattern p" "length p + 1 + length name \<le> 253"
  shows "isK8sName (p @ ''-'' @ name)"
  using assms edgePattern_append [of "\<lambda>c. isLower c \<or> isDigit c"
      "\<lambda>c. isLower c \<or> isDigit c \<or> c = CHR ''.'' \<or> c = CHR ''-''" p "''-''" name]
  by (auto simp: isK8sName_def validNamePattern_def)

text \<open>The names of the objects that hold the rollback data of an accepted deletion are valid
  Kubernetes names, so the backup cannot be refused for its name.\<close>

theorem accepted_backup_names:
  assumes "ValidateInjectionParams lib spec blast = None"
  shows "(injType spec = SecretDeletion \<longrightarrow> isK8sName (backupSecretName (param spec ''name''))) \<and>
    (injType spec = LeaderElectionDisrupt \<longrightarrow> isK8sName (backupLeaseName (param spec ''name'')))"
proof (intro conjI impI)
  note h = accepted_handler [OF assms]
  assume "injType spec = SecretDeletion"
  with h(10) have "isK8sName (param spec ''name'')" "length (backupSecretName (param spec ''name'')) \<le> 253"
    by (simp_all add: validateSecretDeletionParams_def Let_def name_simps maxNameLength_def)
  then show "isK8sName (backupSecretName (param spec ''name''))"
    using backup_name_valid [of "param spec ''name''" "''chaos-backup-secret''"]
    by (simp add: backupSecretName_def validNamePattern_def edgePattern_def isLower_def isDigit_def)
next
  note h = accepted_handler [OF assms]
  assume "injType spec = LeaderElectionDisrupt"
  with h(12) have "isK8sName (param spec ''name'')" "length (backupLeaseName (param spec ''name'')) \<le> 253"
    by (simp_all add: validateLeaseElectionParams_def target_HighDanger maxNameLength_def)
  then show "isK8sName (backupLeaseName (param spec ''name''))"
    using backup_name_valid [of "param spec ''name''" "''chaos-backup-lease''"]
    by (simp add: backupLeaseName_def validNamePattern_def edgePattern_def isLower_def isDigit_def)
qed

section \<open>Paths and labels\<close>

lemma splitOn_sep: "splitOn d (u @ d # v) = splitOn d u @ splitOn d v"
proof (induction u)
  case (Cons c u)
  then show ?case by (cases "splitOn d u") auto
qed simp

lemma empty_segment:
  assumes "hasPrefix s [d] \<or> hasSuffix s [d] \<or> strContains s [d, d]"
  shows "[] \<in> set (splitOn d s)"
proof -
  have "\<exists>u v. s = u @ d # v \<and> (u = [] \<or> v = [] \<or> (\<exists>v'. v = d # v'))"
    using assms by (auto simp: hasPrefix_prefix hasSuffix_suffix strContains_sublist prefix_def suffix_def
        sublist_def)
  then show ?thesis by (auto simp: splitOn_sep)
qed

text \<open>The dot rules of the JSON path validator are what the segments say: a path is accepted
  exactly when it is at most 253 bytes long, every segment between dots is a field name and the
  path is not one of the identity fields; joining the segments gives the path back.\<close>

theorem validateJSONPath_segments:
  "(validateJSONPath p path = None) =
     (length path \<le> 253 \<and> list_all validPathSegmentPattern (splitOn CHR ''.'' path) \<and>
      path \<notin> set dangerousPaths) \<and>
   joinWith CHR ''.'' (splitOn CHR ''.'' path) = path"
proof -
  have "\<not> hasPrefix path ''.'' \<and> \<not> hasSuffix path ''.'' \<and> \<not> strContains path ''..'' \<and> path \<noteq> ''''"
    if "list_all validPathSegmentPattern (splitOn CHR ''.'' path)"
    using that empty_segment [of path "CHR ''.''"] validPathSegment_no_dot [of "[]"]
    by (auto simp: list_all_iff)
  then show ?thesis by (auto simp: validateJSONPath_None maxNameLength_def)
qed

lemma splitFirst_join:
  "d \<notin> set (fst (splitFirst d s)) \<and>
   s = fst (splitFirst d s) @ (case snd (splitFirst d s) of None \<Rightarrow> [] | Some b \<Rightarrow> d # b)"
proof (induction s)
  case (Cons c s)
  then show ?case by (cases "splitFirst d s") simp
qed simp

lemma splitFirst_no_sep: "d \<notin> set a \<Longrightarrow> splitFirst d a = (a, None)"
  by (induction a) auto

lemma splitFirst_at_sep: "d \<notin> set a \<Longrightarrow> splitFirst d (a @ d # b) = (a, Some b)"
  by (induction a) auto

lemma splitFirst_None: "splitFirst d s = (a, None) \<longleftrightarrow> d \<notin> set s \<and> a = s"
proof
  assume "splitFirst d s = (a, None)"
  with splitFirst_join [of d s] show "d \<notin> set s \<and> a = s" by simp
qed (simp add: splitFirst_no_sep)

lemma splitFirst_Some: "splitFirst d s = (a, Some b) \<longleftrightarrow> s = a @ d # b \<and> d \<notin> set a"
proof
  assume "splitFirst d s = (a, Some b)"
  with splitFirst_join [of d s] show "s = a @ d # b \<and> d \<notin> set a" by simp
qed (simp add: splitFirst_at_sep)

lemma splitLast_None: "splitLast d s = None \<longleftrightarrow> d \<notin> set s"
proof (cases "splitFirst d (rev s)")
  case (Pair a b)
  show ?thesis
  proof (cases b)
    case None
    then have "d \<notin> set (rev s)" using Pair by (simp add: splitFirst_None)
    then show ?thesis using Pair None by (simp add: splitLast_def)
  next
    case (Some b')
    then have "rev s = a @ d # b'" using Pair by (simp add: splitFirst_Some)
    then have "d \<in> set s" by (metis in_set_conv_decomp set_rev)
    then show ?thesis using Pair Some by (simp add: splitLast_def)
  qed
qed

lemma splitLast_Some: "splitLast d s = Some (a, b) \<longleftrightarrow> s = a @ d # b \<and> d \<notin> set b"
proof -
  have "splitLast d s = Some (a, b) \<longleftrightarrow> splitFirst d (rev s) = (rev b, Some (rev a))"
  proof (cases "splitFirst d (rev s)")
    case (Pair x y)
    then show ?thesis by (cases y) (simp_all add: splitLast_def rev_swap conj_commute)
  qed
  also have "\<dots> \<longleftrightarrow> rev s = rev b @ d # rev a \<and> d \<notin> set b" by (simp add: splitFirst_Some)
  also have "rev s = rev b @ d # rev a \<longleftrightarrow> s = a @ d # b"
    by (metis append.assoc append_Cons append_Nil rev.simps(2) rev_append rev_rev_ident)
  finally show ?thesis .
qed

definition isLabelName :: "string \<Rightarrow> bool" where
  "isLabelName s = (length s \<le> 63 \<and> validLabelNamePattern s)"

lemma validateLabelName_None: "validateLabelName s = None \<longleftrightarrow> isLabelName s"
  by (auto simp: validateLabelName_def isLabelName_def validLabelNamePattern_def edgePattern_def)

lemma validNamePattern_no_slash: "validNamePattern s \<Longrightarrow> CHR ''/'' \<notin> set s"
  using edgePattern_chars [of "\<lambda>c. isLower c \<or> isDigit c"
      "\<lambda>c. isLower c \<or> isDigit c \<or> c = CHR ''.'' \<or> c = CHR ''-''" s "CHR ''/''"]
  by (auto simp: validNamePattern_def isLower_def isDigit_def)


section \<open>Client faults\<close>


text \<open>The path that the metadata check leaves out: the annotations as a whole are protected, the
  labels as a whole are not, although the labels of the framework live there.\<close>

theorem crdMutation_labels_unprotected:
  "rejectChaosMetadataPath ''metadata.annotations'' \<noteq> None \<and>
   rejectChaosMetadataPath ''metadata.labels.chaos.operatorchaos.io/type'' \<noteq> None \<and>
   rejectChaosMetadataPath ''metadata.labels'' = None \<and>
   validateJSONPath ''path'' ''metadata.labels'' = None"
  by code_simp

section \<open>Witnesses\<close>

text \<open>A library that parses every selector to one requirement and every duration to a second.\<close>

definition demoLib :: paramLib where
  "demoLib = \<lparr>plParseSelector = \<lambda>s. Inr 1, plJsonCompound = \<lambda>s. False,
     plUnmarshalFaults = \<lambda>s. Inr [(''get'', \<lparr>feErrorRate = 1, feError = ''e'', feDelay = ''1s'',
       feMaxDelay = ''''\<rparr>)],
     plMarshalFaults = \<lambda>fs. Inr ''{}'', plParseDuration = \<lambda>s. Inr second\<rparr>"

definition demoInjection :: "injectionType \<Rightarrow> strmap \<Rightarrow> dangerLevel \<Rightarrow> injectionSpec" where
  "demoInjection t ps d = \<lparr>injType = t, injParams = ps, injCount = 1, injTTL = 0, injDanger = d\<rparr>"

definition demoBlast :: blastRadiusSpec where
  "demoBlast = \<lparr>brMaxPodsAffected = 1, brAllowedNamespaces = [''ns1''], brForbiddenResources = [],
     brAllowDangerous = True, brDryRun = False\<rparr>"

lemmas accept_simps = demoInjection_def known_type validInjectionTypes_def name_simps
  optional_namespace protectedNamespace_def isK8sName_def isChaosManaged_def chaosManagedPrefixes_def
  systemCriticalSecrets_def systemCriticalConfigs_def systemCriticalConfigPrefixes_def
  forbiddenNamespaces_def forbiddenNamespacePrefixes_def backupSecretName_def maxNameLength_def
  maxParameterValueLength_def validNamePattern_def edgePattern_def isLower_def isDigit_def mget_def

lemma accept_handlers:
  "injType spec = ConfigDrift \<Longrightarrow> ValidateInjectionParams lib spec blast = validateConfigDriftParams spec"
  "injType spec = SecretDeletion \<Longrightarrow> ValidateInjectionParams lib spec blast = validateSecretDeletionParams spec"
  by (simp_all add: ValidateInjectionParams_def ValidateInjectionType_def validInjectionTypes_def)

lemma demo_drift_accepted:
  "ValidateInjectionParams demoLib (demoInjection ConfigDrift
     [''name'' \<mapsto> ''cfg'', ''key'' \<mapsto> ''k'', ''value'' \<mapsto> ''v''] DangerLevelLow) demoBlast = None"
  by (subst accept_handlers(1)) (simp_all add: validateConfigDriftParams_def Let_def accept_simps)

lemma demo_secret_accepted:
  "ValidateInjectionParams demoLib (demoInjection SecretDeletion
     [''name'' \<mapsto> ''creds'', ''namespace'' \<mapsto> ''ns1''] DangerLevelHigh) demoBlast = None"
  by (subst accept_handlers(2)) (simp_all add: validateSecretDeletionParams_def Let_def accept_simps)


theorem accepted_danger_witness:
  "ConfigDrift \<notin> set destructiveTypes"
  using accepted_danger [OF demo_drift_accepted] by (simp add: demoInjection_def)

theorem accepted_namespace_witness:
  "\<not> protectedNamespace ''ns1''"
  using accepted_namespace [OF demo_secret_accepted] by (simp add: demoInjection_def)

theorem accepted_backup_names_witness:
  "isK8sName (backupSecretName ''creds'')"
  using accepted_backup_names [OF demo_secret_accepted] by (simp add: demoInjection_def)


end
