(* ===== verification/OrchestratorProps.thy ===== *)
theory OrchestratorProps
  imports Injectors ValidationProps
begin

text \<open>
  Properties of the orchestrator. The locale \<open>orchestration\<close> is the contract of the engines it
  drives: \<open>active\<close> says whether the fault of the experiment is in effect, which only the injector
  and its cleanup function change; and the injector that the registry holds for the experiment
  keeps the contract \<open>fault_injector\<close>.
\<close>

section \<open>Validation\<close>

lemma checkForbiddenNamespace_None:
  "checkForbiddenNamespace ns c allow = None \<longleftrightarrow>
     ns \<notin> set orForbiddenNamespaces \<and>
     (allow \<or> \<not> list_ex (hasPrefix ns) orForbiddenNamespacePrefixes)"
  by (auto simp: checkForbiddenNamespace_def name_simps)

lemma validateChecks_None:
  "validateChecks i cs = None \<Longrightarrow> c \<in> set cs \<Longrightarrow> chkKind c \<noteq> '''' \<and> chkName c \<noteq> ''''"
  by (induction cs arbitrary: i)
     (auto simp: validateCheckFields_def Let_def split: checkType.splits if_splits)

text \<open>Every registered injector accepts only what the validator of its type accepts.\<close>

definition standardRegistry :: "paramLib \<Rightarrow> 'w registry \<Rightarrow> bool" where
  "standardRegistry lib r = (\<forall>t i spec blast. registryGet r t = Inr i \<longrightarrow> injType spec = t \<longrightarrow>
     inValidate i spec blast = None \<longrightarrow> ValidateInjectionParams lib spec blast = None)"

section \<open>Reverting at the TTL\<close>


definition renewKeeps :: "('w \<Rightarrow> bool) \<Rightarrow> 'w orchestrator \<Rightarrow> bool" where
  "renewKeeps active orc = (\<forall>p n w. active (snd (orRenew orc p n w)) = active w)"

definition revertOk ::
  "('w \<Rightarrow> bool) \<Rightarrow> 'w orchestrator \<Rightarrow> 'w cleanupFunc \<Rightarrow>
   ('w cleanupFunc option \<times> goErr option) \<times> 'w \<Rightarrow> bool" where
  "revertOk active orc c y = (renewKeeps active orc \<longrightarrow> cleans active c \<longrightarrow>
     (case y of ((co, err), w') \<Rightarrow>
        (err = None \<longrightarrow> co = None \<and> \<not> active w') \<and> (err \<noteq> None \<longrightarrow> co = Some c)))"

lemma revertRetry_ok:
  assumes "revertRetry orc cr c w = Some y"
  shows "revertOk active orc c y"
proof (rule revertRetry.raw_induct [where P = "\<lambda>orc cr c w y. revertOk active orc c y", OF _ assms],
    goal_cases step)
  case (step loop orc cr c w y)
  obtain r w1 where c1: "c w = (r, w1)" by fastforce
  show ?case
  proof (cases r)
    case None
    then show ?thesis using step(2) c1 by (auto simp: revertOk_def cleans_def renewKeeps_def)
  next
    case (Some cleanErr)
    obtain q w2 where rn: "orRenew orc (tgtOperator (spTarget (exSpec cr))) (exName cr) w1 = (q, w2)"
      by fastforce
    obtain cancelled w3 where wt: "orWait orc (orRetryInterval orc) w2 = (cancelled, w3)" by fastforce
    show ?thesis
      using step c1 Some rn wt
      by (cases q) (auto simp: revertOk_def split: if_splits)
  qed
qed

locale orchestration =
  fixes orc :: "'w orchestrator" and cr :: chaosExperiment and active :: "'w \<Rightarrow> bool"
  assumes observer_frame: "active (snd (orObserver orc cs ns w)) = active w"
    and check_frame: "orReconciler orc = Some rc \<Longrightarrow> rcCheck rc c ns d w = Some (r, w') \<Longrightarrow>
          active w' = active w"
    and wait_frame: "active (snd (orWait orc d w)) = active w"
    and lock_frame: "active (snd (orAcquire orc p n d w)) = active w"
        "active (snd (orRenew orc p n w)) = active w"
        "active (snd (orRelease orc p n w)) = active w"
    and store_frame: "orStore orc = Some store \<Longrightarrow> active (snd (store ns n cm w)) = active w"
    and files_frame: "active (orWriteFiles orc rep w) = active w"
    and registered: "registryGet (orRegistry orc) (injType (spInjection (exSpec cr))) = Inr i \<Longrightarrow>
          fault_injector i (spInjection (exSpec cr)) (resolveNamespace cr) active"
begin

lemma inject_law:
  assumes "InjectFault orc cr w = (Inr (co, ev), w')"
  shows "case co of None \<Rightarrow> active w' = active w | Some c \<Rightarrow> cleans active c"
  using assms fault_injector.inject_cleanup [OF registered]
  by (simp add: InjectFault_def split: sum.splits)

lemma inject_error:
  assumes "InjectFault orc cr w = (Inl e, w')" and "\<not> active w"
  shows "\<not> active w'"
  using assms fault_injector.inject_fails [OF registered]
  by (auto simp: InjectFault_def split: sum.splits)

lemma renew_frame: "renewKeeps active orc"
  by (simp add: renewKeeps_def lock_frame)

lemma revertAtTTL_cleans:
  assumes "revertAtTTL orc cr co ttl w = Some ((co', err), w')"
    and "\<And>c. co = Some c \<Longrightarrow> cleans active c"
  shows "(err = None \<longrightarrow> co' = None \<and> (co \<noteq> None \<longrightarrow> \<not> active w')) \<and>
    (co = None \<longrightarrow> active w' = active w) \<and> (err \<noteq> None \<longrightarrow> co' = co)"
proof -
  obtain cancelled w1 where wait: "orWait orc ttl w = (cancelled, w1)" by fastforce
  then have a1: "active w1 = active w" using wait_frame [of ttl w] by simp
  show ?thesis
  proof (cases co)
    case None
    then show ?thesis using assms(1) wait a1 by (cases cancelled) (auto simp: revertAtTTL_def)
  next
    case (Some c)
    note cl = assms(2) [OF Some]
    show ?thesis
    proof (cases cancelled)
      case True
      then show ?thesis using assms(1) wait Some by (auto simp: revertAtTTL_def)
    next
      case False
      then have "revertRetry orc cr c w1 = Some ((co', err), w')"
        using assms(1) wait Some by (simp add: revertAtTTL_def)
      from revertRetry_ok [OF this, of active] renew_frame cl Some show ?thesis by (simp add: revertOk_def)
    qed
  qed
qed

end

section \<open>Cleanup and lock\<close>

context orchestration
begin

lemma steady_frame: "active (snd (observeSteadyState (orObserver orc) now checks ns w)) = active w"
  using observer_frame [of checks ns w]
  by (cases "orObserver orc checks ns w") (auto simp: observeSteadyState_def split: sum.split)

lemma collateral_frame: "active (snd (observeCollateral (orObserver orc) deps w)) = active w"
proof (induction deps arbitrary: w)
  case (Cons d deps)
  have "active (snd (collateralFinding (orObserver orc) d w)) = active w"
    using observer_frame [of "ssChecks (cmSteadyState (rcComponent d))" "rcNamespace d" w]
    by (auto simp: collateralFinding_def split: sum.split prod.split)
  moreover obtain fs w1 where "collateralFinding (orObserver orc) d w = (fs, w1)" by fastforce
  moreover obtain fs' e w2 where "observeCollateral (orObserver orc) deps w1 = ((fs', e), w2)"
    by (metis surj_pair)
  ultimately show ?case using Cons.IH [of w1] by simp
qed simp

lemma runAll_frame:
  assumes "\<And>c v. c \<in> set cs \<Longrightarrow> active (snd (c v)) = active v"
  shows "active (snd (runAll cs w)) = active w"
  using assms
proof (induction cs arbitrary: w)
  case (Cons c cs)
  obtain fs e w1 where c: "c w = ((fs, e), w1)" by (metis surj_pair)
  then have "active w1 = active w" using Cons.prems [of c w] by simp
  moreover have "active (snd (runAll cs w1)) = active w1" using Cons by simp
  moreover obtain fss es w2 where "runAll cs w1 = ((fss, es), w2)" by (metis surj_pair)
  ultimately show ?case using c by simp
qed simp

lemma contributors_frame:
  assumes "\<And>c v. c \<in> set cs \<Longrightarrow> active (snd (c v)) = active v"
  shows "active (snd (RunContributors m cs b w)) = active w"
  using runAll_frame [of cs w] assms by (auto simp: RunContributors_def split: prod.split)

lemma phase2_frame: "active (snd (postCheckPhase2 orc cr b w)) = active w"
proof -
  let ?checks = "ssChecks (spSteadyState (exSpec cr))"
  define cs where "cs = (if ?checks \<noteq> [] then [observeSteadyState (orObserver orc) (orNow orc) ?checks
      (resolveNamespace cr)] else []) @ collateralContributors orc cr"
  have mem: "active (snd (c v)) = active v" if "c \<in> set cs" for c v
    using that by (auto simp: cs_def collateralContributors_def Let_def collateral_frame steady_frame
        split: option.splits if_splits)
  have "\<exists>b1. snd (postCheckPhase2 orc cr b w) = snd (RunContributors (orMerge orc) cs b1 w)"
    unfolding postCheckPhase2_def cs_def [symmetric] Let_def
    by (simp only: case_prod_beta snd_conv) blast
  then show ?thesis using contributors_frame [of cs "orMerge orc" _ w] mem by auto
qed

lemma postcheck_frame: "RunPostCheck orc cr w = Some (r, w') \<Longrightarrow> active w' = active w"
  using phase2_frame check_frame
  by (auto simp: RunPostCheck_def split: option.splits) (metis snd_conv)+

lemma finish_frame:
  assumes "runFinish orc cr pre ev r w = Some (x, w')"
  shows "active w' = active w"
proof -
  obtain post fs w1 where p: "RunPostCheck orc cr w = Some ((post, fs), w1)"
    using assms by (auto simp: runFinish_def split: option.splits)
  have "active (storeResultConfigMap orc cr ns rep v) = active v" for ns rep v
    using store_frame by (auto simp: storeResultConfigMap_def split: option.split sum.split)
  with assms p postcheck_frame [OF p] files_frame show ?thesis
    by (auto simp: runFinish_def Let_def)
qed

lemma observe_cleans:
  assumes "runObserve orc cr pre ev co r w = Some (((r1, err), co1), w')"
    and "\<And>c. co = Some c \<Longrightarrow> cleans active c"
  shows "(\<forall>c. co1 = Some c \<longrightarrow> cleans active c) \<and>
    (co1 = None \<longrightarrow> \<not> active w' \<or> (co = None \<and> active w' = active w))"
proof -
  have window: "active v' = active v \<and> co3 = co2"
    if "(case orWait orc (ResolvedRecoveryTimeout cr) v of
           (True, v1) \<Rightarrow> Some (((aborted e r, Some CtxErr), co2), v1)
         | (False, v1) \<Rightarrow> map_option (\<lambda>(res, v2). ((res, co2), v2)) (runFinish orc cr pre ev r v1))
        = Some ((x, co3), v')" for v v' co2 co3 x e
    using that finish_frame wait_frame [of "ResolvedRecoveryTimeout cr" v]
    by (auto split: prod.splits bool.splits)
  show ?thesis
  proof (cases "injTTL (spInjection (exSpec cr)) > 0")
    case False
    then have "active w' = active w \<and> co1 = co"
      using assms(1) by (intro window) (simp add: runObserve_def Let_def)
    then show ?thesis using assms(2) by auto
  next
    case True
    obtain co2 err2 w2 where rv: "revertAtTTL orc cr co (injTTL (spInjection (exSpec cr))) w
        = Some ((co2, err2), w2)"
      using assms(1) True by (auto simp: runObserve_def Let_def split: option.splits)
    note cl = revertAtTTL_cleans [OF rv assms(2)]
    show ?thesis
    proof (cases err2)
      case (Some e)
      then have "co1 = co2" using assms(1) True rv by (auto simp: runObserve_def Let_def)
      then show ?thesis using cl Some assms(1,2) True rv by (auto simp: runObserve_def Let_def)
    next
      case None
      then have "active w' = active w2 \<and> co1 = co2"
        using assms(1) True rv by (intro window) (simp add: runObserve_def Let_def)
      then show ?thesis using cl None by auto
    qed
  qed
qed

lemma locked_cleans:
  assumes "runLocked orc cr r w = Some ((r1, err), w')" and "\<not> active w"
  shows "active w' \<longrightarrow> erCleanupError r1 \<noteq> None"
proof -
  obtain q w1 where pre: "RunPreCheck orc cr w = (q, w1)" by fastforce
  have a1: "\<not> active w1"
    using assms(2) pre observer_frame [of "ssChecks (spSteadyState (exSpec cr))" "resolveNamespace cr" w]
    by (auto simp: RunPreCheck_def Let_def split: if_splits)
  obtain s w2 where inj: "InjectFault orc cr w1 = (s, w2)" by fastforce
  show ?thesis
  proof (cases "(\<exists>c. q = Inr c \<and> crPassed c) \<and> (\<exists>p. s = Inr p)")
    case False
    then show ?thesis using assms(1) pre a1 inj inject_error [of w1 _ w2]
      by (cases q; cases s) (auto simp: runLocked_def Let_def split: if_splits)
  next
    case True
    then obtain c co ev where c: "q = Inr c" "crPassed c" and s: "s = Inr (co, ev)" by auto
    have law: "case co of None \<Rightarrow> active w2 = active w1 | Some c \<Rightarrow> cleans active c"
      using inj s inject_law by simp
    obtain r3 err3 co3 w3 where ob: "runObserve orc cr c ev co r w2 = Some (((r3, err3), co3), w3)"
      and fin: "deferredCleanup co3 r3 w3 = (r1, w')" "err = err3"
      using assms(1) pre c s inj by (auto simp: runLocked_def split: option.splits prod.splits)
    have oc: "(\<forall>c. co3 = Some c \<longrightarrow> cleans active c) \<and>
        (co3 = None \<longrightarrow> \<not> active w3 \<or> (co = None \<and> active w3 = active w2))"
      using observe_cleans [OF ob] law by (auto split: option.splits)
    show ?thesis
    proof (cases co3)
      case None
      then show ?thesis using oc law a1 fin by (auto simp: deferredCleanup_def)
    next
      case (Some k)
      then show ?thesis using oc fin
        by (auto simp: deferredCleanup_def cleans_def split: prod.splits option.splits)
    qed
  qed
qed

end

section \<open>Whole runs\<close>

context orchestration
begin

lemma run_cleans:
  assumes "Run orc cr w = Some ((r, err), w')" and "\<not> active w"
  shows "active w' \<longrightarrow> erCleanupError r \<noteq> None"
proof -
  let ?p = "tgtOperator (spTarget (exSpec cr))"
  obtain q w1 where acq: "orAcquire orc ?p (exName cr) (runLeaseDuration cr) w = (q, w1)" by fastforce
  then have a1: "\<not> active w1" using lock_frame(1) [of ?p "exName cr" "runLeaseDuration cr" w] assms(2) by simp
  show ?thesis
  proof (cases "ValidateExperiment orc cr = None \<and> \<not> brDryRun (spBlastRadius (exSpec cr)) \<and> q = None")
    case False
    then show ?thesis using assms acq a1
      by (auto simp: Run_def Let_def split: option.splits if_splits)
  next
    case True
    then obtain r0 w2 where l: "runLocked orc cr r0 w1 = Some ((r, err), w2)"
      and w': "w' = snd (orRelease orc ?p (exName cr) w2)"
      using assms(1) acq by (auto simp: Run_def Let_def)
    show ?thesis using locked_cleans [OF l a1] lock_frame(3) [of ?p "exName cr" w2] by (simp add: w')
  qed
qed

lemma observe_after_ttl:
  assumes "runObserve orc cr pre ev (Some c) r w = Some (((r1, None), co), w')"
    and "cleans active c" and "0 < injTTL (spInjection (exSpec cr))"
  shows "co = None \<and> (\<exists>v. \<not> active v \<and> runFinish orc cr pre ev r v = Some ((r1, None), w'))"
proof -
  obtain co2 err2 w2 where rv: "revertAtTTL orc cr (Some c) (injTTL (spInjection (exSpec cr))) w
      = Some ((co2, err2), w2)"
    using assms(1,3) by (auto simp: runObserve_def Let_def split: option.splits)
  note cl = revertAtTTL_cleans [OF rv, simplified, OF assms(2)]
  have e: "err2 = None" using assms(1,3) rv by (auto simp: runObserve_def Let_def split: option.splits)
  then have c2: "co2 = None" "\<not> active w2" using cl by auto
  obtain cancelled w3 where wt: "orWait orc (ResolvedRecoveryTimeout cr) w2 = (cancelled, w3)" by fastforce
  then have "\<not> active w3" using wait_frame [of "ResolvedRecoveryTimeout cr" w2] c2 by simp
  moreover have "\<not> cancelled" and "co = None" and "runFinish orc cr pre ev r w3 = Some ((r1, None), w')"
    using assms(1,3) rv e c2 wt
    by (auto simp: runObserve_def Let_def split: bool.splits if_splits)
  ultimately show ?thesis by blast
qed

end

text \<open>
  The clock of a run: waiting takes at least the time asked for, a context has a deadline after
  which every wait is cancelled, and the cleanup function does not turn the clock back.
\<close>

locale run_clock =
  fixes orc :: "'w orchestrator" and cr :: chaosExperiment and deadline :: timestamp
  assumes wait_time: "orWait orc d w = (False, w') \<Longrightarrow> orNow orc w + d \<le> orNow orc w'"
    and wait_cancel: "deadline \<le> orNow orc w \<Longrightarrow> fst (orWait orc d w)"
    and renew_time: "orNow orc w \<le> orNow orc (snd (orRenew orc p n w))"
    and retry_pos: "0 < orRetryInterval orc"
    and cleanup_time: "InjectFault orc cr w = (Inr (Some c, ev), w') \<Longrightarrow>
          orNow orc v \<le> orNow orc (snd (c v))"
    and check_returns: "orReconciler orc = Some rc \<Longrightarrow> rcCheck rc cmp ns d w \<noteq> None"
begin

lemma retry_returns:
  assumes c: "\<And>v. orNow orc v \<le> orNow orc (snd (c v))"
  shows "revertRetry orc cr c w \<noteq> None"
proof (induction "nat (deadline - orNow orc w)" arbitrary: w rule: less_induct)
  case less
  let ?p = "tgtOperator (spTarget (exSpec cr))"
  obtain r w1 where c1: "c w = (r, w1)" by fastforce
  obtain q w2 where rn: "orRenew orc ?p (exName cr) w1 = (q, w2)" by fastforce
  obtain cancelled w3 where wt: "orWait orc (orRetryInterval orc) w2 = (cancelled, w3)" by fastforce
  have le: "orNow orc w \<le> orNow orc w2"
    using c [of w] renew_time [of w1 ?p "exName cr"] c1 rn by simp
  have "revertRetry orc cr c w3 \<noteq> None" if "\<not> cancelled"
  proof (rule less)
    have "orNow orc w2 + orRetryInterval orc \<le> orNow orc w3" using wait_time wt that by simp
    moreover have "orNow orc w2 < deadline"
      using wait_cancel [of w2 "orRetryInterval orc"] wt that by (cases "deadline \<le> orNow orc w2") auto
    ultimately show "nat (deadline - orNow orc w3) < nat (deadline - orNow orc w)"
      using le retry_pos by simp
  qed
  then show ?case using c1 rn wt
    by (subst revertRetry.simps) (auto split: option.splits)
qed

lemma observe_returns:
  assumes "\<And>c v. co = Some c \<Longrightarrow> orNow orc v \<le> orNow orc (snd (c v))"
  shows "runObserve orc cr pre ev co r w \<noteq> None"
proof -
  have rp: "RunPostCheck orc cr v \<noteq> None" for v
    using check_returns
    by (simp add: RunPostCheck_def split: option.split prod.split
        del: not_None_eq split_paired_All split_paired_Ex) blast
  have fin: "runFinish orc cr pre ev r v \<noteq> None" for v
    using rp [of v] by (cases "RunPostCheck orc cr v") (auto simp: runFinish_def Let_def)
  have rv: "revertAtTTL orc cr co ttl v \<noteq> None" for ttl v
    using retry_returns assms by (auto simp: revertAtTTL_def split: prod.split bool.split option.split)
  show ?thesis
  proof (cases "revertAtTTL orc cr co (injTTL (spInjection (exSpec cr))) w")
    case None
    then show ?thesis using rv by simp
  next
    case (Some y)
    then show ?thesis using fin
      by (cases y) (auto simp: runObserve_def Let_def split: prod.split bool.split option.split)
  qed
qed

lemma run_returns: "Run orc cr w \<noteq> None"
proof -
  have locked: "runLocked orc cr r v \<noteq> None" for r v
  proof -
    obtain q w1 where pre: "RunPreCheck orc cr v = (q, w1)" by fastforce
    obtain s w2 where inj: "InjectFault orc cr w1 = (s, w2)" by fastforce
    show ?thesis
    proof (cases "(\<exists>c. q = Inr c \<and> crPassed c) \<and> (\<exists>p. s = Inr p)")
      case False
      then show ?thesis using pre inj by (cases q; cases s) (auto simp: runLocked_def Let_def)
    next
      case True
      then obtain c co ev where c: "q = Inr c" "crPassed c" and s: "s = Inr (co, ev)" by auto
      have "runObserve orc cr c ev co r w2 \<noteq> None"
        using inj s cleanup_time by (intro observe_returns) blast
      then show ?thesis using pre inj c s
        by (auto simp: runLocked_def split: prod.split)
    qed
  qed
  then show ?thesis by (auto simp: Run_def Let_def split: option.split prod.split)
qed

end

end
