(* ===== verification/InjectDeployment.thy ===== *)
theory InjectDeployment
  imports Injectors
begin

text \<open>
  The injectors that patch a Deployment and keep what they changed in its annotations:
  \<open>scalezero.go\<close>, \<open>crashloop.go\<close> and \<open>imagecorrupt.go\<close>.
\<close>

section \<open>Deployments\<close>

definition deployReplicas :: "vobject \<Rightarrow> int option" where
  "deployReplicas x = (case obBody (snd x) of BDeployment r cs \<Rightarrow> r | _ \<Rightarrow> None)"

definition deployContainers :: "vobject \<Rightarrow> container list" where
  "deployContainers x = (case obBody (snd x) of BDeployment r cs \<Rightarrow> cs | _ \<Rightarrow> [])"

definition setReplicas :: "int \<Rightarrow> vobject \<Rightarrow> vobject" where
  "setReplicas n x = setBody (BDeployment (Some n) (deployContainers x)) x"

definition setContainers :: "container list \<Rightarrow> vobject \<Rightarrow> vobject" where
  "setContainers cs x = setBody (BDeployment (deployReplicas x) cs) x"

definition setAnnotation :: "string \<Rightarrow> string \<Rightarrow> vobject \<Rightarrow> vobject" where
  "setAnnotation a v x = setAnnotations ((obAnnotations (snd x))(a \<mapsto> v)) x"

definition dropAnnotation :: "string \<Rightarrow> vobject \<Rightarrow> vobject" where
  "dropAnnotation a x = setAnnotations ((obAnnotations (snd x))(a := None)) x"

lemma deployment_simps [simp]:
  "obAnnotations (snd (setReplicas n x)) = obAnnotations (snd x)"
  "obAnnotations (snd (setContainers cs x)) = obAnnotations (snd x)"
  "obAnnotations (snd (setAnnotation a v x)) = (obAnnotations (snd x))(a \<mapsto> v)"
  "obAnnotations (snd (dropAnnotation a x)) = (obAnnotations (snd x))(a := None)"
  "obBody (snd (setReplicas n x)) = BDeployment (Some n) (deployContainers x)"
  "obBody (snd (setContainers cs x)) = BDeployment (deployReplicas x) cs"
  "obBody (snd (setAnnotation a v x)) = obBody (snd x)" "obBody (snd (dropAnnotation a x)) = obBody (snd x)"
  "deployContainers (setAnnotation a v x) = deployContainers x"
  "deployReplicas (setAnnotation a v x) = deployReplicas x"
  "deployContainers (dropAnnotation a x) = deployContainers x"
  "deployReplicas (dropAnnotation a x) = deployReplicas x"
  "deployReplicas (setContainers cs x) = deployReplicas x"
  "deployContainers (setContainers cs x) = cs"
  by (simp_all add: setReplicas_def setContainers_def setAnnotation_def dropAnnotation_def
      deployContainers_def deployReplicas_def)

text \<open>A patch from an object to a change of its annotations and body gives exactly the change.\<close>

definition deployChange :: "vobject \<Rightarrow> vobject \<Rightarrow> bool" where
  "deployChange x y = (obLabels (snd y) = obLabels (snd x) \<and>
     obFinalizers (snd y) = obFinalizers (snd x) \<and> obOwnerRefs (snd y) = obOwnerRefs (snd x))"

lemma deployChange_set [simp]:
  "deployChange x x"
  "deployChange x y \<Longrightarrow> deployChange x (setReplicas n y)"
  "deployChange x y \<Longrightarrow> deployChange x (setContainers cs y)"
  "deployChange x y \<Longrightarrow> deployChange x (setAnnotation a v y)"
  "deployChange x y \<Longrightarrow> deployChange x (dropAnnotation a y)"
  by (simp_all add: deployChange_def setReplicas_def setContainers_def setAnnotation_def dropAnnotation_def)

lemma mergeFrom_change [simp]: "deployChange x y \<Longrightarrow> snd (mergeFrom x y x) = snd y"
  by (rule mergeFrom_same) (simp_all add: deployChange_def)

abbreviation deployKey :: "string \<Rightarrow> string \<Rightarrow> objKey" where
  "deployKey ns name \<equiv> (''Deployment'', ns, name)"

definition deployErr :: "string \<Rightarrow> string \<Rightarrow> string \<Rightarrow> goErr \<Rightarrow> goErr" where
  "deployErr f ns name err = Errorf f [AStr (keyText ns name), AErr err]"

section \<open>Scale to zero\<close>

definition originalReplicasAnnotation :: string where
  "originalReplicasAnnotation = ''chaos.operatorchaos.io/original-replicas''"

definition scaleZeroRestore :: "'w cluster \<Rightarrow> string \<Rightarrow> string \<Rightarrow> 'w \<Rightarrow> goErr option \<times> 'w" where
  "scaleZeroRestore k name ns =
     onFound k (deployKey ns name) (deployErr ''getting Deployment %s for restore: %w'' ns name)
       (\<lambda>deploy w1. case obAnnotations (snd deploy) originalReplicasAnnotation of
          None \<Rightarrow> (None, w1)
        | Some replicaStr \<Rightarrow>
            (case atoi replicaStr of
               Inl err \<Rightarrow> (Some (Errorf ''parsing original replicas annotation %q: %w''
                             [AStr replicaStr, AErr err]), w1)
             | Inr original \<Rightarrow>
                 wrapW (deployErr ''restoring Deployment %s replicas: %w'' ns name)
                   (kPatch (cl k) (deployKey ns name) (mergeFrom deploy
                     (dropAnnotation originalReplicasAnnotation
                       (setReplicas (toInt32 original) deploy))) w1)))"

definition scaleZeroInject ::
  "'w cluster \<Rightarrow> injectionSpec \<Rightarrow> string \<Rightarrow> 'w \<Rightarrow>
   (goErr + 'w cleanupFunc option \<times> injectionEvent list) \<times> 'w" where
  "scaleZeroInject k spec ns =
     (let name = param spec ''name''
      in fetch k (deployKey ns name) (deployErr ''getting Deployment %s: %w'' ns name) (\<lambda>deploy w1.
           (let currentReplicas = (case deployReplicas deploy of Some n \<Rightarrow> n | None \<Rightarrow> 1)
            in finishInject
                 (kPatch (cl k) (deployKey ns name) (mergeFrom deploy
                    (setReplicas 0 (setAnnotation originalReplicasAnnotation
                      (itoa currentReplicas) deploy))) w1)
                 (deployErr ''patching Deployment %s to scale zero: %w'' ns name)
                 (\<lambda>w2. (Some (scaleZeroRestore k name ns),
                   [NewEvent (clNow k w2) DeploymentScaleZero (keyText ns name) ''scaled-to-zero''
                     [''namespace'' \<mapsto> ns, ''deployment'' \<mapsto> name,
                      ''originalReplicas'' \<mapsto> itoa currentReplicas]])))))"

definition scaleZeroInjector :: "'w cluster \<Rightarrow> 'w injector" where
  "scaleZeroInjector k =
     \<lparr>inValidate = \<lambda>spec blast. validateScaleZeroParams spec,
      inInject = scaleZeroInject k,
      inRevert = \<lambda>spec ns. scaleZeroRestore k (param spec ''name'') ns\<rparr>"

text \<open>The fault is in effect while the Deployment carries the annotation with its old size.\<close>

definition scaleZeroActive ::
  "('w \<Rightarrow> objKey \<rightharpoonup> vobject) \<Rightarrow> injectionSpec \<Rightarrow> string \<Rightarrow> 'w \<Rightarrow> bool" where
  "scaleZeroActive st spec ns w =
     objAt (\<lambda>d. obAnnotations d originalReplicasAnnotation \<noteq> None) (st w) (deployKey ns (param spec ''name''))"

section \<open>Containers\<close>

definition findContainer :: "string \<Rightarrow> string \<Rightarrow> vobject \<Rightarrow> string \<Rightarrow> goErr + nat" where
  "findContainer ns name deploy containerName =
     (let cs = deployContainers deploy
      in if cs = [] then Inl (Errorf ''deployment %s/%s has no containers'' [AStr ns, AStr name])
         else if containerName = '''' then Inr 0
         else (case find (\<lambda>i. ctName (cs ! i) = containerName) [0..<length cs] of
                 Some i \<Rightarrow> Inr i
               | None \<Rightarrow> Inl (Errorf ''container %q not found in Deployment %s/%s''
                   [AStr containerName, AStr ns, AStr name])))"

definition updateContainer :: "nat \<Rightarrow> (container \<Rightarrow> container) \<Rightarrow> vobject \<Rightarrow> vobject" where
  "updateContainer i f x = setContainers ((deployContainers x)[i := f (deployContainers x ! i)]) x"

lemma updateContainer_simps [simp]:
  "obAnnotations (snd (updateContainer i f x)) = obAnnotations (snd x)"
  "deployReplicas (updateContainer i f x) = deployReplicas x"
  "deployContainers (updateContainer i f x) = (deployContainers x)[i := f (deployContainers x ! i)]"
  "deployChange y x \<Longrightarrow> deployChange y (updateContainer i f x)"
  by (simp_all add: updateContainer_def)

section \<open>Crash loop\<close>

definition originalCommandAnnotationPrefix :: string where
  "originalCommandAnnotationPrefix = ''chaos.operatorchaos.io/original-command-''"

definition crashContainerAnnotation :: string where
  "crashContainerAnnotation = ''chaos.operatorchaos.io/crash-container-name''"

definition crashLoopCommand :: "string list" where
  "crashLoopCommand = [''/chaos-nonexistent-binary'']"

definition crashLoopRestore :: "'w cluster \<Rightarrow> string \<Rightarrow> string \<Rightarrow> 'w \<Rightarrow> goErr option \<times> 'w" where
  "crashLoopRestore k name ns =
     onFound k (deployKey ns name) (deployErr ''getting Deployment %s for restore: %w'' ns name)
       (\<lambda>deploy w1. case obAnnotations (snd deploy) crashContainerAnnotation of
          None \<Rightarrow> (None, w1)
        | Some storedContainer \<Rightarrow>
            (let annotationKey = originalCommandAnnotationPrefix @ storedContainer
             in case obAnnotations (snd deploy) annotationKey of
                  None \<Rightarrow> (None, w1)
                | Some cmdJSON \<Rightarrow>
                    (case findContainer ns name deploy storedContainer of
                       Inl err \<Rightarrow> (Some (Errorf ''restore: %w'' [AErr err]), w1)
                     | Inr i \<Rightarrow>
                         (case if cmdJSON = ''null'' then Inr []
                               else cdUnmarshalStrs (clCodecs k) cmdJSON of
                            Inl err \<Rightarrow> (Some (Errorf ''parsing original command annotation %q: %w''
                                          [AStr cmdJSON, AErr err]), w1)
                          | Inr originalCmd \<Rightarrow>
                              wrapW (deployErr ''restoring Deployment %s command: %w'' ns name)
                                (kPatch (cl k) (deployKey ns name) (mergeFrom deploy
                                  (dropAnnotation crashContainerAnnotation (dropAnnotation annotationKey
                                    (updateContainer i (ctCommand_update (\<lambda>_. originalCmd)) deploy)))) w1)))))"

definition crashLoopInject ::
  "'w cluster \<Rightarrow> injectionSpec \<Rightarrow> string \<Rightarrow> 'w \<Rightarrow>
   (goErr + 'w cleanupFunc option \<times> injectionEvent list) \<times> 'w" where
  "crashLoopInject k spec ns =
     (let name = param spec ''name''
      in fetch k (deployKey ns name) (deployErr ''getting Deployment %s: %w'' ns name) (\<lambda>deploy w1.
           case findContainer ns name deploy (param spec ''containerName'') of
             Inl err \<Rightarrow> (Inl err, w1)
           | Inr i \<Rightarrow>
               (let c = deployContainers deploy ! i
                in case if ctCommand c = [] then Inr ''null'' else cdMarshalStrs (clCodecs k) (ctCommand c) of
                     Inl err \<Rightarrow> (Inl (Errorf ''marshaling original command: %w'' [AErr err]), w1)
                   | Inr cmdJSON \<Rightarrow>
                       finishInject
                         (kPatch (cl k) (deployKey ns name) (mergeFrom deploy
                           (updateContainer i (ctCommand_update (\<lambda>_. crashLoopCommand))
                             (setAnnotation crashContainerAnnotation (ctName c)
                               (setAnnotation (originalCommandAnnotationPrefix @ ctName c) cmdJSON deploy)))) w1)
                         (deployErr ''patching Deployment %s to crash loop: %w'' ns name)
                         (\<lambda>w2. (Some (crashLoopRestore k name ns),
                           [NewEvent (clNow k w2) CrashLoopInject (keyText ns name) ''command-replaced''
                             [''namespace'' \<mapsto> ns, ''deployment'' \<mapsto> name, ''container'' \<mapsto> ctName c,
                              ''originalCommand'' \<mapsto> cmdJSON]])))))"

definition crashLoopInjector :: "'w cluster \<Rightarrow> 'w injector" where
  "crashLoopInjector k =
     \<lparr>inValidate = \<lambda>spec blast. validateCrashLoopParams spec,
      inInject = crashLoopInject k,
      inRevert = \<lambda>spec ns. crashLoopRestore k (param spec ''name'') ns\<rparr>"

text \<open>The fault is in effect while the Deployment names a container whose old command it keeps.\<close>

definition crashLoopActive ::
  "('w \<Rightarrow> objKey \<rightharpoonup> vobject) \<Rightarrow> injectionSpec \<Rightarrow> string \<Rightarrow> 'w \<Rightarrow> bool" where
  "crashLoopActive st spec ns w =
     objAt (\<lambda>d. case obAnnotations d crashContainerAnnotation of
         None \<Rightarrow> False
       | Some c \<Rightarrow> obAnnotations d (originalCommandAnnotationPrefix @ c) \<noteq> None)
       (st w) (deployKey ns (param spec ''name''))"

section \<open>Image corruption\<close>

definition originalImageAnnotationPrefix :: string where
  "originalImageAnnotationPrefix = ''chaos.operatorchaos.io/original-image-''"

definition corruptContainerAnnotation :: string where
  "corruptContainerAnnotation = ''chaos.operatorchaos.io/corrupt-container-name''"

definition defaultCorruptImage :: string where
  "defaultCorruptImage = ''registry.invalid/nonexistent:chaos''"

definition imageCorruptRestore ::
  "'w cluster \<Rightarrow> string \<Rightarrow> string \<Rightarrow> string \<Rightarrow> 'w \<Rightarrow> goErr option \<times> 'w" where
  "imageCorruptRestore k name ns containerName =
     onFound k (deployKey ns name) (deployErr ''getting Deployment %s for restore: %w'' ns name)
       (\<lambda>deploy w1.
          (let stored = mget (obAnnotations (snd deploy)) corruptContainerAnnotation;
               storedContainer = (if stored = '''' then containerName else stored);
               annotationKey = originalImageAnnotationPrefix @ storedContainer
           in if storedContainer = '''' then (None, w1)
              else case obAnnotations (snd deploy) annotationKey of
                     None \<Rightarrow> (None, w1)
                   | Some originalImage \<Rightarrow>
                       (case findContainer ns name deploy storedContainer of
                          Inl err \<Rightarrow> (Some (Errorf ''restore: %w'' [AErr err]), w1)
                        | Inr i \<Rightarrow>
                            wrapW (deployErr ''restoring Deployment %s image: %w'' ns name)
                              (kPatch (cl k) (deployKey ns name) (mergeFrom deploy
                                (dropAnnotation corruptContainerAnnotation (dropAnnotation annotationKey
                                  (updateContainer i (ctImage_update (\<lambda>_. originalImage)) deploy)))) w1))))"

definition imageCorruptInject ::
  "'w cluster \<Rightarrow> injectionSpec \<Rightarrow> string \<Rightarrow> 'w \<Rightarrow>
   (goErr + 'w cleanupFunc option \<times> injectionEvent list) \<times> 'w" where
  "imageCorruptInject k spec ns =
     (let name = param spec ''name''; containerName = param spec ''containerName'';
          corruptImage = (if param spec ''image'' = '''' then defaultCorruptImage else param spec ''image'')
      in fetch k (deployKey ns name) (deployErr ''getting Deployment %s: %w'' ns name) (\<lambda>deploy w1.
           case findContainer ns name deploy containerName of
             Inl err \<Rightarrow> (Inl err, w1)
           | Inr i \<Rightarrow>
               (let c = deployContainers deploy ! i
                in finishInject
                     (kPatch (cl k) (deployKey ns name) (mergeFrom deploy
                       (updateContainer i (ctImage_update (\<lambda>_. corruptImage))
                         (setAnnotation corruptContainerAnnotation (ctName c)
                           (setAnnotation (originalImageAnnotationPrefix @ ctName c) (ctImage c) deploy)))) w1)
                     (deployErr ''patching Deployment %s image to corrupt value: %w'' ns name)
                     (\<lambda>w2. (Some (imageCorruptRestore k name ns containerName),
                       [NewEvent (clNow k w2) ImageCorrupt (keyText ns name) ''image-corrupted''
                         [''namespace'' \<mapsto> ns, ''deployment'' \<mapsto> name, ''container'' \<mapsto> ctName c,
                          ''originalImage'' \<mapsto> ctImage c, ''corruptImage'' \<mapsto> corruptImage]])))))"

definition imageCorruptInjector :: "'w cluster \<Rightarrow> 'w injector" where
  "imageCorruptInjector k =
     \<lparr>inValidate = \<lambda>spec blast. validateImageCorruptParams spec,
      inInject = imageCorruptInject k,
      inRevert = \<lambda>spec ns. imageCorruptRestore k (param spec ''name'') ns (param spec ''containerName'')\<rparr>"

definition imageCorruptActive ::
  "('w \<Rightarrow> objKey \<rightharpoonup> vobject) \<Rightarrow> injectionSpec \<Rightarrow> string \<Rightarrow> 'w \<Rightarrow> bool" where
  "imageCorruptActive st spec ns w =
     objAt (\<lambda>d. let c = mget (obAnnotations d) corruptContainerAnnotation
         in c \<noteq> '''' \<and> obAnnotations d (originalImageAnnotationPrefix @ c) \<noteq> None)
       (st w) (deployKey ns (param spec ''name''))"

section \<open>The contract\<close>

lemma mget_drop [simp]: "mget (m(a := None)) a = ''''"
  by (simp add: mget_def)

sublocale cluster_api \<subseteq> scaleZero: restoring_injector "scaleZeroInjector k" spec ns "scaleZeroActive st spec ns"
    "inRevert (scaleZeroInjector k) spec ns"
  for spec ns
  unfolding scaleZeroActive_def [abs_def]
  by (rule in_place_restoring, unfold scaleZeroInjector_def injector.simps, rule scaleZeroInject_def [unfolded Let_def],
      rule scaleZeroRestore_def) (simp_all split: option.split sum.split)

sublocale cluster_api \<subseteq> crashLoop: restoring_injector "crashLoopInjector k" spec ns "crashLoopActive st spec ns"
    "inRevert (crashLoopInjector k) spec ns"
  for spec ns
  unfolding crashLoopActive_def [abs_def]
  by (rule in_place_restoring, unfold crashLoopInjector_def injector.simps, rule crashLoopInject_def [unfolded Let_def],
      rule crashLoopRestore_def) (simp_all add: Let_def split: option.split sum.split)

sublocale cluster_api \<subseteq> imageCorrupt: restoring_injector "imageCorruptInjector k" spec ns
    "imageCorruptActive st spec ns" "inRevert (imageCorruptInjector k) spec ns"
  for spec ns
  unfolding imageCorruptActive_def [abs_def]
  by (rule in_place_restoring, unfold imageCorruptInjector_def injector.simps,
      rule imageCorruptInject_def [unfolded Let_def], rule imageCorruptRestore_def)
     (simp_all add: Let_def split: option.split sum.split)

section \<open>What the injections and the restores write\<close>

lemma find_first:
  assumes "find P [0..<n] = Some i"
  shows "i < n \<and> P i \<and> (\<forall>j<i. \<not> P j)"
  using assms by (auto simp: find_Some_iff)

lemma find_least: "i < n \<Longrightarrow> P i \<Longrightarrow> \<forall>j<i. \<not> P j \<Longrightarrow> find P [0..<n] = Some i"
  by (auto simp: find_Some_iff)

lemma findContainer_index:
  "findContainer ns name x c = Inr i \<Longrightarrow> i < length (deployContainers x) \<and>
     (c = '''' \<longrightarrow> i = 0) \<and> (c \<noteq> '''' \<longrightarrow> ctName (deployContainers x ! i) = c)"
  by (auto simp: findContainer_def Let_def dest!: find_first split: if_splits option.splits)

text \<open>Looking the container up by the name that was stored finds the same one.\<close>

lemma findContainer_again:
  assumes "findContainer ns name x c = Inr i" and "map ctName (deployContainers y) = map ctName (deployContainers x)"
  shows "findContainer ns' name' y (ctName (deployContainers x ! i)) = Inr i"
proof -
  let ?cs = "deployContainers x" and ?n = "ctName (deployContainers x ! i)"
  have len: "length (deployContainers y) = length ?cs" using assms(2) by (rule map_eq_imp_length_eq)
  have nm: "ctName (deployContainers y ! j) = ctName (?cs ! j)" if "j < length ?cs" for j
    using assms(2) that len by (metis nth_map)
  have i: "i < length ?cs" using findContainer_index [OF assms(1)] by simp
  have first: "\<forall>j<i. ctName (?cs ! j) \<noteq> ?n"
  proof (cases "c = ''''")
    case True
    then show ?thesis using findContainer_index [OF assms(1)] by simp
  next
    case False
    then have f: "find (\<lambda>i. ctName (?cs ! i) = c) [0..<length ?cs] = Some i"
      using assms(1) by (auto simp: findContainer_def Let_def split: if_splits option.splits)
    show ?thesis using find_first [OF f] by simp
  qed
  have "find (\<lambda>j. ctName (deployContainers y ! j) = ?n) [0..<length ?cs] = Some i"
    using i first nm by (intro find_least) auto
  moreover have "i = 0" if "?n = ''''"
    using findContainer_index [OF assms(1)] that by (cases "c = ''''") auto
  moreover have "deployContainers y \<noteq> []" using i len by auto
  ultimately show ?thesis by (simp add: findContainer_def Let_def len)
qed

lemma updateContainer_names [simp]:
  "(\<And>c. ctName (f c) = ctName c) \<Longrightarrow>
   map ctName (deployContainers (updateContainer i f x)) = map ctName (deployContainers x)"
  by (cases "i < length (deployContainers x)")
     (simp_all add: map_update list_update_same_conv nth_map list_update_beyond)

text \<open>A call that patches the object it read: what is stored afterwards.\<close>

lemma patch_forms [simp]:
  "\<exists>f' g'. finishInject p f g = finishInject p f' g'"
  "\<exists>f'. wrapW f p = wrapW f' p"
  by blast+

context cluster_api
begin

lemma fetch_patch:
  assumes "fetch k key wrap body w = (Inr res, w')" and "st w key = Some x"
    and "\<And>v. \<exists>f g. body x v = finishInject (kPatch (cl k) key (mergeFrom x y) v) f g"
    and "deployChange x y"
  shows "\<exists>z. st w' = (st w)(key \<mapsto> z) \<and> snd z = snd y"
  using assms(1)
proof (cases rule: fetch_cases)
  case (Found x' v)
  obtain f g where b: "body x v = finishInject (kPatch (cl k) key (mergeFrom x y) v) f g"
    using assms(3) by blast
  have "body x v = (Inr res, w')" using Found assms(2) by simp
  then have "kPatch (cl k) key (mergeFrom x y) v = (None, w')"
    unfolding b finishInject_eq by simp
  then show ?thesis
    by (cases rule: patch_cases) (use Found assms(2,4) in auto)
qed simp

lemma onFound_patch:
  assumes "onFound k key wrap body w = (None, w')" and "st w key = Some x"
    and "\<And>v. \<exists>f. body x v = wrapW f (kPatch (cl k) key (mergeFrom x y) v)"
    and "deployChange x y"
  shows "\<exists>z. st w' = (st w)(key \<mapsto> z) \<and> snd z = snd y"
  using assms(1)
proof (cases rule: onFound_cases)
  case (Found x' v)
  obtain f where b: "body x v = wrapW f (kPatch (cl k) key (mergeFrom x y) v)"
    using assms(3) by blast
  have "body x v = (None, w')" using Found assms(2) by simp
  then have "kPatch (cl k) key (mergeFrom x y) v = (None, w')"
    unfolding b wrapW_eq by simp
  then show ?thesis
    by (cases rule: patch_cases) (use Found assms(2,4) in auto)
qed (use assms(2) in simp_all)

lemma scaleZeroInject_state:
  assumes "scaleZeroInject k spec ns w = (Inr res, w1)" and "st w (deployKey ns (param spec ''name'')) = Some x"
  shows "\<exists>y. st w1 = (st w)(deployKey ns (param spec ''name'') \<mapsto> y) \<and>
    snd y = snd (setReplicas 0 (setAnnotation originalReplicasAnnotation
      (itoa (case deployReplicas x of None \<Rightarrow> 1 | Some n \<Rightarrow> n)) x))"
  by (rule fetch_patch [OF assms(1) [unfolded scaleZeroInject_def Let_def] assms(2)])
     simp_all

lemma scaleZeroRestore_state:
  assumes "scaleZeroRestore k name ns w = (None, w1)" and "st w (deployKey ns name) = Some x"
    and "obAnnotations (snd x) originalReplicasAnnotation = Some (itoa n)" and "0 \<le> n" and "n \<le> int32_max"
  shows "\<exists>y. st w1 = (st w)(deployKey ns name \<mapsto> y) \<and>
    snd y = snd (dropAnnotation originalReplicasAnnotation (setReplicas n x))"
proof -
  have a: "atoi (itoa n) = Inr n" "toInt32 n = n"
    using assms(4,5) by (simp_all add: atoi_itoa int64_max_def int32_max_def toInt32_id)
  show ?thesis
    by (rule onFound_patch [OF assms(1) [unfolded scaleZeroRestore_def] assms(2)])
       (use assms(3) a in auto)
qed

lemma crashLoop_finds:
  assumes "crashLoopInject k spec ns w = (Inr res, w1)" and "st w (deployKey ns (param spec ''name'')) = Some x"
  shows "\<exists>i js. findContainer ns (param spec ''name'') x (param spec ''containerName'') = Inr i \<and>
    (if ctCommand (deployContainers x ! i) = [] then Inr ''null''
     else cdMarshalStrs (clCodecs k) (ctCommand (deployContainers x ! i))) = Inr js"
  using assms(1) unfolding crashLoopInject_def Let_def
  by (cases rule: fetch_cases) (use assms(2) in \<open>auto split: sum.splits if_splits\<close>)

lemma imageCorrupt_finds:
  assumes "imageCorruptInject k spec ns w = (Inr res, w1)" and "st w (deployKey ns (param spec ''name'')) = Some x"
  shows "\<exists>i. findContainer ns (param spec ''name'') x (param spec ''containerName'') = Inr i"
  using assms(1) unfolding imageCorruptInject_def Let_def
  by (cases rule: fetch_cases) (use assms(2) in \<open>auto split: sum.splits\<close>)

text \<open>The crash loop, with the container it names found at \<open>i\<close> and its command written as \<open>js\<close>.\<close>

lemma crashLoopInject_state:
  assumes "crashLoopInject k spec ns w = (Inr res, w1)" and "st w (deployKey ns (param spec ''name'')) = Some x"
    and "findContainer ns (param spec ''name'') x (param spec ''containerName'') = Inr i"
    and "c = deployContainers x ! i"
    and "(if ctCommand c = [] then Inr ''null'' else cdMarshalStrs (clCodecs k) (ctCommand c)) = Inr js"
  shows "\<exists>y. st w1 = (st w)(deployKey ns (param spec ''name'') \<mapsto> y) \<and>
    snd y = snd (updateContainer i (ctCommand_update (\<lambda>_. crashLoopCommand))
      (setAnnotation crashContainerAnnotation (ctName c)
        (setAnnotation (originalCommandAnnotationPrefix @ ctName c) js x)))"
  by (rule fetch_patch [OF assms(1) [unfolded crashLoopInject_def Let_def] assms(2)])
     (use assms(3) in \<open>simp_all add: assms(5) [unfolded assms(4)] assms(4) del: if_split\<close>)

lemma crashLoopRestore_state:
  assumes "crashLoopRestore k name ns w = (None, w1)" and "st w (deployKey ns name) = Some x"
    and "obAnnotations (snd x) crashContainerAnnotation = Some c"
    and "obAnnotations (snd x) (originalCommandAnnotationPrefix @ c) = Some js"
    and "findContainer ns name x c = Inr i"
    and "(if js = ''null'' then Inr [] else cdUnmarshalStrs (clCodecs k) js) = Inr cmd"
  shows "\<exists>y. st w1 = (st w)(deployKey ns name \<mapsto> y) \<and>
    snd y = snd (dropAnnotation crashContainerAnnotation (dropAnnotation (originalCommandAnnotationPrefix @ c)
      (updateContainer i (ctCommand_update (\<lambda>_. cmd)) x)))"
  by (rule onFound_patch [OF assms(1) [unfolded crashLoopRestore_def Let_def] assms(2)])
     (use assms(3-6) in auto)

lemma imageCorruptInject_state:
  assumes "imageCorruptInject k spec ns w = (Inr res, w1)" and "st w (deployKey ns (param spec ''name'')) = Some x"
    and "findContainer ns (param spec ''name'') x (param spec ''containerName'') = Inr i"
    and "c = deployContainers x ! i"
    and "img = (if param spec ''image'' = '''' then defaultCorruptImage else param spec ''image'')"
  shows "\<exists>y. st w1 = (st w)(deployKey ns (param spec ''name'') \<mapsto> y) \<and>
    snd y = snd (updateContainer i (ctImage_update (\<lambda>_. img))
      (setAnnotation corruptContainerAnnotation (ctName c)
        (setAnnotation (originalImageAnnotationPrefix @ ctName c) (ctImage c) x)))"
  by (rule fetch_patch [OF assms(1) [unfolded imageCorruptInject_def Let_def] assms(2)])
     (use assms(3) in \<open>simp_all add: assms(4,5)\<close>)

lemma imageCorruptRestore_state:
  assumes "imageCorruptRestore k name ns containerName w = (None, w1)" and "st w (deployKey ns name) = Some x"
    and "obAnnotations (snd x) corruptContainerAnnotation = Some c" and "c \<noteq> ''''"
    and "obAnnotations (snd x) (originalImageAnnotationPrefix @ c) = Some img"
    and "findContainer ns name x c = Inr i"
  shows "\<exists>y. st w1 = (st w)(deployKey ns name \<mapsto> y) \<and>
    snd y = snd (dropAnnotation corruptContainerAnnotation (dropAnnotation (originalImageAnnotationPrefix @ c)
      (updateContainer i (ctImage_update (\<lambda>_. img)) x)))"
proof -
  have c: "mget (obAnnotations (snd x)) corruptContainerAnnotation = c" using assms(3) by (simp add: mget_def)
  show ?thesis
    by (rule onFound_patch [OF assms(1) [unfolded imageCorruptRestore_def Let_def] assms(2)])
       (use assms(4-6) c in simp_all)
qed

end


section \<open>Round trips\<close>

lemma kobject_fields_eq:
  "deployChange x z \<Longrightarrow> obAnnotations (snd z) = obAnnotations (snd x) \<Longrightarrow> obBody (snd z) = b \<Longrightarrow>
   snd z = (snd x)\<lparr>obBody := b\<rparr>"
  by (auto simp: deployChange_def)

lemma deployChange_trans: "deployChange x y \<Longrightarrow> deployChange y z \<Longrightarrow> deployChange x z"
  by (simp add: deployChange_def)

lemma deployChange_snd: "snd y = snd z \<Longrightarrow> deployChange x y = deployChange x z"
  by (simp add: deployChange_def)

lemma deployParts_snd:
  "snd y = snd z \<Longrightarrow> deployReplicas y = deployReplicas z \<and> deployContainers y = deployContainers z"
  by (simp add: deployReplicas_def deployContainers_def)

lemma drop_set_annotation: "m a = None \<Longrightarrow> (m(a \<mapsto> v))(a := None) = m"
  by (rule ext) simp

lemma drop_set_annotations:
  "m a = None \<Longrightarrow> m b = None \<Longrightarrow> (m(b \<mapsto> u, a \<mapsto> v))(b := None, a := None) = m"
  by (rule ext) simp

text \<open>A container changed and changed back, with two annotations set and dropped again.\<close>

lemma container_roundtrip:
  fixes x y z :: vobject
  assumes "obBody (snd x) = BDeployment r cs" and "i < length cs" and "g (f (cs ! i)) = cs ! i"
    and "obAnnotations (snd x) a = None" and "obAnnotations (snd x) b = None"
    and sy: "snd y = snd (updateContainer i f (setAnnotation a u (setAnnotation b v x)))"
    and sz: "snd z = snd (dropAnnotation a (dropAnnotation b (updateContainer i g y)))"
  shows "snd z = snd x"
proof -
  have parts: "deployReplicas x = r" "deployContainers x = cs"
    using assms(1) by (simp_all add: deployReplicas_def deployContainers_def)
  have py: "deployReplicas y = r" "deployContainers y = cs[i := f (cs ! i)]"
    using deployParts_snd [OF sy] parts by simp_all
  have "snd z = (snd x)\<lparr>obBody := BDeployment r cs\<rparr>"
  proof (rule kobject_fields_eq)
    show "deployChange x z"
      using deployChange_snd [OF sz, of y] deployChange_snd [OF sy, of x] by (auto intro: deployChange_trans)
    have "obAnnotations (snd y) = (obAnnotations (snd x))(b \<mapsto> v, a \<mapsto> u)" unfolding sy by simp
    then show "obAnnotations (snd z) = obAnnotations (snd x)"
      unfolding sz using drop_set_annotations [of "obAnnotations (snd x)", OF assms(4,5), of v u] by simp
    show "obBody (snd z) = BDeployment r cs"
      unfolding sz using py assms(2,3) by (simp add: updateContainer_def)
  qed
  then show ?thesis using assms(1) by simp
qed

text \<open>C29. Scaling to zero and reverting restores the Deployment: over every client that obeys the
  API's laws, \<open>Inject\<close> leaves no replicas, and a successful \<open>Revert\<close> brings back the old number
  (one where none was given) with the annotation gone and everything else as it was.\<close>

theorem scaleZero_roundtrip:
  assumes "cluster_api k st"
    and "st w (deployKey ns (param spec ''name'')) = Some x" and "obBody (snd x) = BDeployment r cs"
    and "obAnnotations (snd x) originalReplicasAnnotation = None"
    and "0 \<le> (case r of None \<Rightarrow> 1 | Some n \<Rightarrow> n)" and "(case r of None \<Rightarrow> 1 | Some n \<Rightarrow> n) \<le> int32_max"
    and "inInject (scaleZeroInjector k) spec ns w = (Inr res, w1)"
    and "inRevert (scaleZeroInjector k) spec ns w1 = (None, w2)"
  shows "\<exists>y z. st w1 (deployKey ns (param spec ''name'')) = Some y \<and> deployReplicas y = Some 0 \<and>
    st w2 (deployKey ns (param spec ''name'')) = Some z \<and>
    snd z = (snd x)\<lparr>obBody := BDeployment (Some (case r of None \<Rightarrow> 1 | Some n \<Rightarrow> n)) cs\<rparr>"
proof -
  let ?n = "case r of None \<Rightarrow> 1 | Some n \<Rightarrow> n" and ?A = originalReplicasAnnotation
  have parts: "deployReplicas x = r" "deployContainers x = cs"
    using assms(3) by (simp_all add: deployReplicas_def deployContainers_def)
  obtain y where y: "st w1 = (st w)(deployKey ns (param spec ''name'') \<mapsto> y)"
    and sy: "snd y = snd (setReplicas 0 (setAnnotation ?A (itoa ?n) x))"
    using cluster_api.scaleZeroInject_state [OF assms(1), of spec ns w res w1 x] assms(2,7) parts
    by (auto simp: scaleZeroInjector_def)
  have a: "obAnnotations (snd y) ?A = Some (itoa ?n)" unfolding sy by simp
  obtain z where z: "st w2 = (st w1)(deployKey ns (param spec ''name'') \<mapsto> z)"
    and sz: "snd z = snd (dropAnnotation ?A (setReplicas ?n y))"
    using cluster_api.scaleZeroRestore_state [OF assms(1) _ _ a assms(5,6), of "param spec ''name''" ns w1 w2] assms(8) y
    by (auto simp: scaleZeroInjector_def)
  have "snd z = (snd x)\<lparr>obBody := BDeployment (Some ?n) cs\<rparr>"
  proof (rule kobject_fields_eq)
    show "deployChange x z"
      using deployChange_snd [OF sz, of y] deployChange_snd [OF sy, of x] by (auto intro: deployChange_trans)
    show "obAnnotations (snd z) = obAnnotations (snd x)"
      unfolding sz deployment_simps sy by (rule drop_set_annotation) (rule assms(4))
    show "obBody (snd z) = BDeployment (Some ?n) cs"
      unfolding sz deployment_simps using deployParts_snd [OF sy] parts by (simp add: deployContainers_def)
  qed
  moreover have "deployReplicas y = Some 0" using sy by (simp add: deployReplicas_def)
  ultimately show ?thesis using y z by simp
qed

text \<open>A second injection before the revert loses the size of the Deployment: the annotation is
  overwritten with the current size, zero, and the revert restores zero replicas.\<close>

theorem scaleZero_twice_loses_size:
  assumes "cluster_api k st"
    and "st w (deployKey ns (param spec ''name'')) = Some x"
    and "inInject (scaleZeroInjector k) spec ns w = (Inr res, w1)"
    and "inInject (scaleZeroInjector k) spec ns w1 = (Inr res', w2)"
    and "inRevert (scaleZeroInjector k) spec ns w2 = (None, w3)"
  shows "\<exists>z. st w3 (deployKey ns (param spec ''name'')) = Some z \<and> deployReplicas z = Some 0"
proof -
  note inject = cluster_api.scaleZeroInject_state [OF assms(1)]
  obtain y where y: "st w1 = (st w)(deployKey ns (param spec ''name'') \<mapsto> y)"
    and sy: "deployReplicas y = Some 0"
    using inject [of spec ns w res w1 x] assms(2,3) by (auto simp: scaleZeroInjector_def deployReplicas_def)
  obtain u where u: "st w2 = (st w1)(deployKey ns (param spec ''name'') \<mapsto> u)"
    and su: "obAnnotations (snd u) originalReplicasAnnotation = Some (itoa 0)"
    using inject [of spec ns w1 res' w2 y] assms(4) y sy by (auto simp: scaleZeroInjector_def)
  show ?thesis
    using cluster_api.scaleZeroRestore_state [OF assms(1) _ _ su, of "param spec ''name''" ns w2 w3] assms(5) u
    by (auto simp: scaleZeroInjector_def int32_max_def deployReplicas_def)
qed


text \<open>Reverting a crash loop gives the Deployment back as it was, the command included, provided
  JSON reads back what it wrote: the container is found again by the name stored with the fault.\<close>

theorem crashLoop_roundtrip:
  assumes "cluster_api k st"
    and "st w (deployKey ns (param spec ''name'')) = Some x" and "obBody (snd x) = BDeployment r cs"
    and "\<forall>a. obAnnotations (snd x) (originalCommandAnnotationPrefix @ a) = None"
    and "obAnnotations (snd x) crashContainerAnnotation = None"
    and "\<forall>cmd js. cdMarshalStrs (clCodecs k) cmd = Inr js \<longrightarrow>
      js \<noteq> ''null'' \<and> cdUnmarshalStrs (clCodecs k) js = Inr cmd"
    and "inInject (crashLoopInjector k) spec ns w = (Inr res, w1)"
    and "inRevert (crashLoopInjector k) spec ns w1 = (None, w2)"
  shows "\<exists>y z. st w1 (deployKey ns (param spec ''name'')) = Some y \<and>
    crashLoopCommand \<in> ctCommand ` set (deployContainers y) \<and>
    st w2 (deployKey ns (param spec ''name'')) = Some z \<and> snd z = snd x"
proof -
  let ?name = "param spec ''name''" and ?A = crashContainerAnnotation
  have parts: "deployReplicas x = r" "deployContainers x = cs"
    using assms(3) by (simp_all add: deployReplicas_def deployContainers_def)
  have inj: "crashLoopInject k spec ns w = (Inr res, w1)" and rev: "crashLoopRestore k ?name ns w1 = (None, w2)"
    using assms(7,8) by (simp_all add: crashLoopInjector_def)
  obtain i js where i: "findContainer ns ?name x (param spec ''containerName'') = Inr i"
    and js: "(if ctCommand (deployContainers x ! i) = [] then Inr ''null''
      else cdMarshalStrs (clCodecs k) (ctCommand (deployContainers x ! i))) = Inr js"
    using inj cluster_api.crashLoop_finds [OF assms(1)] assms(2) by blast
  have len: "i < length cs" using findContainer_index [OF i] parts by simp
  let ?c = "cs ! i" and ?B = "originalCommandAnnotationPrefix @ ctName (cs ! i)"
  obtain y where y: "st w1 = (st w)(deployKey ns ?name \<mapsto> y)"
    and sy: "snd y = snd (updateContainer i (ctCommand_update (\<lambda>_. crashLoopCommand))
      (setAnnotation ?A (ctName ?c) (setAnnotation ?B js x)))"
    using cluster_api.crashLoopInject_state [OF assms(1), OF inj assms(2) i refl js] unfolding parts
    by (elim exE conjE)
  have ys: "st w1 (deployKey ns ?name) = Some y" using y by simp
  have cy: "deployContainers y = cs[i := ctCommand_update (\<lambda>_. crashLoopCommand) ?c]"
    using deployParts_snd [OF sy] parts by simp
  have a: "obAnnotations (snd y) ?A = Some (ctName ?c)" "obAnnotations (snd y) ?B = Some js"
    unfolding sy by (simp_all add: crashContainerAnnotation_def originalCommandAnnotationPrefix_def)
  have fy: "findContainer ns ?name y (ctName ?c) = Inr i"
    using findContainer_again [OF i, of y ns ?name] parts cy by (simp add: map_update list_update_same_conv len)
  have cmd: "(if js = ''null'' then Inr [] else cdUnmarshalStrs (clCodecs k) js) = Inr (ctCommand ?c)"
    using js assms(6) parts by (auto split: if_splits)
  obtain z where z: "st w2 = (st w1)(deployKey ns ?name \<mapsto> z)"
    and sz: "snd z = snd (dropAnnotation ?A (dropAnnotation ?B
      (updateContainer i (ctCommand_update (\<lambda>_. ctCommand ?c)) y)))"
    using cluster_api.crashLoopRestore_state [OF assms(1), OF rev ys a fy cmd] by (elim exE conjE)
  have "snd z = snd x"
    by (rule container_roundtrip [OF assms(3) len _ assms(5) _ sy sz]) (use assms(4) in auto)
  moreover have "crashLoopCommand \<in> ctCommand ` set (deployContainers y)"
    unfolding cy using len by (auto intro!: image_eqI set_update_memI)
  ultimately show ?thesis using y z by simp
qed

text \<open>Reverting an image corruption gives the Deployment back with the image it had.\<close>

theorem imageCorrupt_roundtrip:
  assumes "cluster_api k st"
    and "st w (deployKey ns (param spec ''name'')) = Some x" and "obBody (snd x) = BDeployment r cs"
    and "'''' \<notin> ctName ` set cs"
    and "\<forall>a. obAnnotations (snd x) (originalImageAnnotationPrefix @ a) = None"
    and "obAnnotations (snd x) corruptContainerAnnotation = None"
    and "inInject (imageCorruptInjector k) spec ns w = (Inr res, w1)"
    and "inRevert (imageCorruptInjector k) spec ns w1 = (None, w2)"
  shows "\<exists>z. st w2 (deployKey ns (param spec ''name'')) = Some z \<and> snd z = snd x"
proof -
  let ?name = "param spec ''name''" and ?A = corruptContainerAnnotation
  define img where "img = (if param spec ''image'' = '''' then defaultCorruptImage else param spec ''image'')"
  have parts: "deployContainers x = cs" using assms(3) by (simp add: deployContainers_def)
  have inj: "imageCorruptInject k spec ns w = (Inr res, w1)"
    and rev: "imageCorruptRestore k ?name ns (param spec ''containerName'') w1 = (None, w2)"
    using assms(7,8) by (simp_all add: imageCorruptInjector_def)
  obtain i where i: "findContainer ns ?name x (param spec ''containerName'') = Inr i"
    using inj cluster_api.imageCorrupt_finds [OF assms(1)] assms(2) by blast
  have len: "i < length cs" using findContainer_index [OF i] parts by simp
  let ?c = "cs ! i" and ?B = "originalImageAnnotationPrefix @ ctName (cs ! i)"
  have named: "ctName ?c \<noteq> ''''" using assms(4) len by (metis image_eqI nth_mem)
  obtain y where y: "st w1 = (st w)(deployKey ns ?name \<mapsto> y)"
    and sy: "snd y = snd (updateContainer i (ctImage_update (\<lambda>_. img))
      (setAnnotation ?A (ctName ?c) (setAnnotation ?B (ctImage ?c) x)))"
    using cluster_api.imageCorruptInject_state [OF assms(1), OF inj assms(2) i refl img_def] unfolding parts
    by (elim exE conjE)
  have ys: "st w1 (deployKey ns ?name) = Some y" using y by simp
  have cy: "deployContainers y = cs[i := ctImage_update (\<lambda>_. img) ?c]"
    using deployParts_snd [OF sy] parts by simp
  have a: "obAnnotations (snd y) ?A = Some (ctName ?c)" "obAnnotations (snd y) ?B = Some (ctImage ?c)"
    unfolding sy by (simp_all add: corruptContainerAnnotation_def originalImageAnnotationPrefix_def)
  have fy: "findContainer ns ?name y (ctName ?c) = Inr i"
    using findContainer_again [OF i, of y ns ?name] parts cy by (simp add: map_update list_update_same_conv len)
  obtain z where z: "st w2 = (st w1)(deployKey ns ?name \<mapsto> z)"
    and sz: "snd z = snd (dropAnnotation ?A (dropAnnotation ?B
      (updateContainer i (ctImage_update (\<lambda>_. ctImage ?c)) y)))"
    using cluster_api.imageCorruptRestore_state [OF assms(1), OF rev ys a(1) named a(2) fy] by (elim exE conjE)
  have "snd z = snd x"
    by (rule container_roundtrip [OF assms(3) len _ assms(6) _ sy sz]) (use assms(5) in auto)
  then show ?thesis using z by simp
qed


section \<open>Witnesses\<close>

lemma scaleZeroRestore_keeps: "clientKeeps P k \<Longrightarrow> P (snd (scaleZeroRestore k name ns w)) = P w"
  unfolding scaleZeroRestore_def
  by (rule keeps_onFound) (auto simp: keeps_ops split: option.split sum.split)

lemma crashLoopRestore_keeps: "clientKeeps P k \<Longrightarrow> P (snd (crashLoopRestore k name ns w)) = P w"
  unfolding crashLoopRestore_def
  by (rule keeps_onFound) (auto simp: Let_def keeps_ops split: option.split sum.split)

lemma imageCorruptRestore_keeps: "clientKeeps P k \<Longrightarrow> P (snd (imageCorruptRestore k name ns cn w)) = P w"
  unfolding imageCorruptRestore_def
  by (rule keeps_onFound) (auto simp: Let_def keeps_ops split: option.split sum.split)

definition scaleDemoSpec :: injectionSpec where
  "scaleDemoSpec = \<lparr>injType = DeploymentScaleZero, injParams = [''name'' \<mapsto> ''web''], injCount = 1,
     injTTL = 0, injDanger = DangerLevelLow\<rparr>"

definition scaleDemoDeployment :: vobject where
  "scaleDemoDeployment = newObject Map.empty Map.empty (BDeployment (Some 3) [\<lparr>ctName = ''app'',
     ctImage = ''img:1'', ctCommand = [], ctArgs = []\<rparr>])"

definition scaleDemoWorld :: "(objKey, kobject) memWorld" where
  "scaleDemoWorld = \<lparr>memObjs = [(''Deployment'', ''ns1'', ''web'') \<mapsto> scaleDemoDeployment],
     memNext = 1, memNow = 0\<rparr>"

lemma scaleDemo_param [simp]:
  "param scaleDemoSpec ''name'' = ''web''" "param scaleDemoSpec ''containerName'' = ''''"
  by (simp_all add: scaleDemoSpec_def mget_def)

lemma scaleDemo_deployment [simp]:
  "memObjs scaleDemoWorld (''Deployment'', ''ns1'', ''web'') = Some scaleDemoDeployment"
  "obBody (snd scaleDemoDeployment) = BDeployment (Some 3) [\<lparr>ctName = ''app'', ctImage = ''img:1'', ctCommand = [], ctArgs = []\<rparr>]"
  "obAnnotations (snd scaleDemoDeployment) = Map.empty"
  by (simp_all add: scaleDemoWorld_def scaleDemoDeployment_def newObject_def)

lemma memPut_get [simp]: "memObjs (memPut key d w) key = Some (memNext w, d)"
  by (simp add: memPut_def)

lemma memCl_scale_inject:
  assumes "memObjs w (deployKey ns (param spec ''name'')) = Some x"
  shows "\<exists>res w'. inInject (scaleZeroInjector memCluster) spec ns w = (Inr res, w')"
  using assms by (simp add: scaleZeroInjector_def scaleZeroInject_def Let_def mem_patterns finishInject_def)

lemma memCl_scale_revert:
  assumes "memObjs w (deployKey ns (param spec ''name'')) = Some x"
    and "obAnnotations (snd x) originalReplicasAnnotation = Some (itoa n)" and "0 \<le> n" and "n \<le> int32_max"
  shows "\<exists>w'. inRevert (scaleZeroInjector memCluster) spec ns w = (None, w')"
proof -
  have "atoi (itoa n) = Inr n"
    using assms(3,4) by (simp add: atoi_itoa int64_max_def int32_max_def)
  then show ?thesis using assms(1,2)
    by (simp add: scaleZeroInjector_def scaleZeroRestore_def mem_patterns wrapW_def)
qed

theorem scaleZero_roundtrip_witness:
  "\<exists>res w1 w2 z. inInject (scaleZeroInjector memCluster) scaleDemoSpec ''ns1'' scaleDemoWorld = (Inr res, w1) \<and>
     inRevert (scaleZeroInjector memCluster) scaleDemoSpec ''ns1'' w1 = (None, w2) \<and>
     memObjs w2 (''Deployment'', ''ns1'', ''web'') = Some z \<and> snd z = snd scaleDemoDeployment"
proof -
  obtain res w1 where i: "inInject (scaleZeroInjector memCluster) scaleDemoSpec ''ns1'' scaleDemoWorld = (Inr res, w1)"
    using memCl_scale_inject [of scaleDemoWorld "''ns1''" scaleDemoSpec] by auto
  then have "scaleZeroInject memCluster scaleDemoSpec ''ns1'' scaleDemoWorld = (Inr res, w1)"
    by (simp add: scaleZeroInjector_def)
  from memCl.scaleZeroInject_state [OF this] obtain y where
    y: "memObjs w1 (deployKey ''ns1'' (param scaleDemoSpec ''name'')) = Some y"
      "obAnnotations (snd y) originalReplicasAnnotation = Some (itoa 3)"
    by (auto simp: deployReplicas_def)
  obtain w2 where v: "inRevert (scaleZeroInjector memCluster) scaleDemoSpec ''ns1'' w1 = (None, w2)"
    using memCl_scale_revert [OF y] by (auto simp: int32_max_def)
  from scaleZero_roundtrip [OF memCl.cluster_api_axioms, OF _ scaleDemo_deployment(2) _ _ _ i v]
  obtain z where "memObjs w2 (''Deployment'', ''ns1'', ''web'') = Some z" "snd z = snd scaleDemoDeployment"
    by (auto simp: int32_max_def scaleDemoDeployment_def newObject_def)
  with i v show ?thesis by blast
qed

theorem scaleZero_twice_loses_size_witness:
  "\<exists>r1 w1 r2 w2 w3 z. inInject (scaleZeroInjector memCluster) scaleDemoSpec ''ns1'' scaleDemoWorld = (Inr r1, w1) \<and>
     inInject (scaleZeroInjector memCluster) scaleDemoSpec ''ns1'' w1 = (Inr r2, w2) \<and>
     inRevert (scaleZeroInjector memCluster) scaleDemoSpec ''ns1'' w2 = (None, w3) \<and>
     memObjs w3 (''Deployment'', ''ns1'', ''web'') = Some z \<and> deployReplicas z = Some 0"
proof -
  obtain r1 w1 where i: "inInject (scaleZeroInjector memCluster) scaleDemoSpec ''ns1'' scaleDemoWorld = (Inr r1, w1)"
    using memCl_scale_inject [of scaleDemoWorld "''ns1''" scaleDemoSpec] by auto
  then have "scaleZeroInject memCluster scaleDemoSpec ''ns1'' scaleDemoWorld = (Inr r1, w1)"
    by (simp add: scaleZeroInjector_def)
  from memCl.scaleZeroInject_state [OF this] obtain y where
    y: "memObjs w1 (deployKey ''ns1'' (param scaleDemoSpec ''name'')) = Some y" "deployReplicas y = Some 0"
    by (auto simp: deployReplicas_def)
  obtain r2 w2 where i2: "inInject (scaleZeroInjector memCluster) scaleDemoSpec ''ns1'' w1 = (Inr r2, w2)"
    using memCl_scale_inject [OF y(1)] by auto
  then have "scaleZeroInject memCluster scaleDemoSpec ''ns1'' w1 = (Inr r2, w2)"
    by (simp add: scaleZeroInjector_def)
  from memCl.scaleZeroInject_state [OF this y(1)] y(2) obtain u where
    u: "memObjs w2 (deployKey ''ns1'' (param scaleDemoSpec ''name'')) = Some u"
      "obAnnotations (snd u) originalReplicasAnnotation = Some (itoa 0)"
    by auto
  obtain w3 where v: "inRevert (scaleZeroInjector memCluster) scaleDemoSpec ''ns1'' w2 = (None, w3)"
    using memCl_scale_revert [OF u] by (auto simp: int32_max_def)
  from scaleZero_twice_loses_size [OF memCl.cluster_api_axioms, OF _ i i2 v] i i2 v
  show ?thesis by auto
qed

theorem crashLoop_roundtrip_witness:
  "\<exists>res w1 w2 z. inInject (crashLoopInjector memCluster) scaleDemoSpec ''ns1'' scaleDemoWorld = (Inr res, w1) \<and>
     inRevert (crashLoopInjector memCluster) scaleDemoSpec ''ns1'' w1 = (None, w2) \<and>
     memObjs w2 (''Deployment'', ''ns1'', ''web'') = Some z \<and> snd z = snd scaleDemoDeployment"
proof -
  have parts: "deployContainers scaleDemoDeployment = [\<lparr>ctName = ''app'', ctImage = ''img:1'', ctCommand = [], ctArgs = []\<rparr>]"
    by (simp add: deployContainers_def)
  have f: "findContainer ns nm scaleDemoDeployment '''' = Inr 0" for ns nm
    by (simp add: findContainer_def parts)
  obtain res w1 where i: "inInject (crashLoopInjector memCluster) scaleDemoSpec ''ns1'' scaleDemoWorld = (Inr res, w1)"
    by (simp add: crashLoopInjector_def crashLoopInject_def Let_def mem_patterns f parts finishInject_def)
  then have i': "crashLoopInject memCluster scaleDemoSpec ''ns1'' scaleDemoWorld = (Inr res, w1)"
    by (simp add: crashLoopInjector_def)
  obtain y where y: "memObjs w1 (deployKey ''ns1'' ''web'') = Some y" "deployContainers y \<noteq> []"
      "ctName (deployContainers y ! 0) = ''app''"
      "obAnnotations (snd y) crashContainerAnnotation = Some ''app''"
      "obAnnotations (snd y) (originalCommandAnnotationPrefix @ ''app'') = Some ''null''"
  proof -
    obtain y where "memObjs w1 (deployKey ''ns1'' ''web'') = Some y" and
      sy: "snd y = snd (updateContainer 0 (ctCommand_update (\<lambda>_. crashLoopCommand))
      (setAnnotation crashContainerAnnotation ''app''
        (setAnnotation (originalCommandAnnotationPrefix @ ''app'') ''null'' scaleDemoDeployment)))"
      using memCl.crashLoopInject_state [OF i', of scaleDemoDeployment 0 _ "''null''", OF _ _ refl] f parts by auto
    then show thesis
      using that [of y] deployParts_snd [OF sy] parts
      by (simp add: crashContainerAnnotation_def originalCommandAnnotationPrefix_def)
  qed
  obtain w2 where v: "inRevert (crashLoopInjector memCluster) scaleDemoSpec ''ns1'' w1 = (None, w2)"
  proof -
    have "findContainer ns nm y ''app'' = Inr 0" for ns nm
      using y(2,3) by (simp add: findContainer_def Let_def find_least [of 0])
    then show thesis using that y
      by (simp add: crashLoopInjector_def crashLoopRestore_def mem_patterns wrapW_def)
  qed
  from crashLoop_roundtrip [OF memCl.cluster_api_axioms, OF _ scaleDemo_deployment(2) _ _ _ i v]
  have "\<exists>z. memObjs w2 (deployKey ''ns1'' ''web'') = Some z \<and> snd z = snd scaleDemoDeployment"
    by (auto simp: demoCodecs_def)
  with i v show ?thesis by blast
qed

end
