(* ===== verification/CliRun.thy ===== *)
theory CliRun
  imports OrchestratorProps InjectDeployment
begin

text \<open>
  Runs from the command line. \<open>buildOrchestrator\<close> is the assembly of
  \<open>internal/cli/orchestrator.go\<close>: the observer and the reconciliation checker of \<open>pkg/observer\<close>
  over a cluster, the lock, the knowledge models. The contract \<open>orchestration\<close> is discharged
  for what it builds over any cluster client that obeys the laws of the API, paired with the
  in-process lock.
\<close>

section \<open>Assembly\<close>

record 'w cliEnv =
  ceStore :: "(string \<Rightarrow> string \<Rightarrow> configMapObj \<Rightarrow> 'w \<Rightarrow> goErr option \<times> 'w) option"
  ceWriteFiles :: "experimentReport \<Rightarrow> 'w \<Rightarrow> 'w"
  ceMarshal :: "experimentReport \<Rightarrow> goErr + string"
  ceFormatStamp :: "timestamp \<Rightarrow> string"
  ceFormatRFC3339 :: "timestamp \<Rightarrow> string"
  ceMerge :: "finding list list \<Rightarrow> finding list"
  ceWait :: "duration \<Rightarrow> 'w \<Rightarrow> bool \<times> 'w"
  ceNow :: "'w \<Rightarrow> timestamp"

definition buildOrchestrator ::
  "'w cliEnv \<Rightarrow> 'w obsEnv \<Rightarrow> 'w registry \<Rightarrow>
   (string \<Rightarrow> string \<Rightarrow> duration \<Rightarrow> 'w \<Rightarrow> goErr option \<times> 'w) \<Rightarrow>
   (string \<Rightarrow> string \<Rightarrow> 'w \<Rightarrow> goErr option \<times> 'w) \<Rightarrow>
   (string \<Rightarrow> string \<Rightarrow> 'w \<Rightarrow> goErr option \<times> 'w) \<Rightarrow> operatorKnowledge list \<Rightarrow> 'w orchestrator" where
  "buildOrchestrator ce ob registry acquire renew release allModels =
     \<lparr>orRegistry = registry,
      orObserver = CheckSteadyState ob,
      orReconciler = Some \<lparr>rcCheck = CheckReconciliation ob, rcOnce = CheckReconciliationOnce ob\<rparr>,
      orMaxCycles = (case allModels of [] \<Rightarrow> 10 | k # _ \<Rightarrow> rxMaxReconcileCycles (okRecovery k)),
      orAcquire = acquire, orRenew = renew, orRelease = release,
      orKnowledge = (case allModels of [] \<Rightarrow> None | k # _ \<Rightarrow> Some k),
      orDepGraph = (if length allModels > 1 then Some (BuildDependencyGraph allModels) else None),
      orStore = ceStore ce, orWriteFiles = ceWriteFiles ce, orMarshal = ceMarshal ce,
      orFormatStamp = ceFormatStamp ce, orFormatRFC3339 = ceFormatRFC3339 ce,
      orMerge = ceMerge ce, orRetryInterval = 5 * second, orWait = ceWait ce, orNow = ceNow ce\<rparr>"

section \<open>The checkers only read\<close>

definition readsOnly :: "('w \<Rightarrow> 'b) \<Rightarrow> 'w obsEnv \<Rightarrow> bool" where
  "readsOnly P ob = ((\<forall>a k n m w. P (snd (obGet ob a k n m w)) = P w) \<and>
     (\<forall>w. P (snd (obWaitTick ob w)) = P w))"

lemma readsOnly_get: "readsOnly P ob \<Longrightarrow> obGet ob a k n m w = (r, w') \<Longrightarrow> P w' = P w"
  unfolding readsOnly_def by (metis snd_conv)

lemma readsOnly_check:
  "readsOnly P ob \<Longrightarrow> obGetCheck ob c ns w = (r, w') \<Longrightarrow> P w' = P w"
  unfolding obGetCheck_def by (rule readsOnly_get)

lemma checkOne_frame:
  assumes "readsOnly P ob" and "checkOne ob c ns w = (d, w')"
  shows "P w' = P w"
proof -
  obtain r w1 where g: "obGetCheck ob c ns w = (r, w1)" by fastforce
  have "w' = w1 \<or> w' = w"
    using assms(2) g
    by (cases r) (auto simp: checkOne_def checkCondition_def checkFieldEquals_def checkResourceExists_def
        Let_def split: checkType.splits prod.splits option.splits if_splits)
  then show ?thesis using readsOnly_check [OF assms(1) g] by blast
qed

lemma checkAll_frame: "readsOnly P ob \<Longrightarrow> checkAll ob ns cs n ds w = (x, w') \<Longrightarrow> P w' = P w"
proof (induction cs arbitrary: n ds w)
  case (Cons c cs)
  obtain d w1 where one: "checkOne ob c ns w = (d, w1)" by fastforce
  then show ?case using Cons.IH [OF Cons.prems(1)] Cons.prems checkOne_frame [OF Cons.prems(1) one] by auto
qed simp

lemma CheckSteadyState_frame:
  "readsOnly P ob \<Longrightarrow> P (snd (CheckSteadyState ob cs ns w)) = P w"
  using checkAll_frame [of P ob ns cs 0 "[]" w]
  by (auto simp: CheckSteadyState_def Let_def split: prod.split)

lemma checkResources_frame:
  "readsOnly P ob \<Longrightarrow> checkResources ob ns mrs w = (x, w') \<Longrightarrow> P w' = P w"
proof (induction mrs arbitrary: w x w')
  case (Cons mr mrs)
  obtain r w1 where one: "checkManagedResource ob mr ns w = (r, w1)" by fastforce
  have p: "P w1 = P w"
  proof -
    obtain q w2 where g: "obGet ob (mrAPIVersion mr) (mrKind mr)
        (if mrNamespace mr = '''' then ns else mrNamespace mr) (mrName mr) w = (q, w2)" by fastforce
    have "w1 = w2" using one g
      by (cases q) (auto simp: checkManagedResource_def Let_def split: if_splits prod.splits)
    then show ?thesis using readsOnly_get [OF Cons.prems(1) g] by simp
  qed
  show ?case
  proof (cases r)
    case (Inl e)
    then show ?thesis using Cons.prems one p by simp
  next
    case (Inr c)
    obtain s w2 where rest: "checkResources ob ns mrs w1 = (s, w2)" by fastforce
    have "w' = w2" using Cons.prems(2) one Inr rest by (cases s) auto
    then show ?thesis using Cons.IH [OF Cons.prems(1) rest] p by simp
  qed
qed simp

lemma CheckReconciliationOnce_frame:
  "readsOnly P ob \<Longrightarrow> CheckReconciliationOnce ob c ns w = (x, w') \<Longrightarrow> P w' = P w"
  using checkResources_frame [of P ob ns "cmManagedResources c" w]
  by (auto simp: CheckReconciliationOnce_def split: prod.splits sum.splits)

lemma reconLoop_frame:
  assumes "reconLoop ob c ns start deadline cycles rs w = Some y" and "readsOnly P ob"
  shows "P (snd y) = P w"
proof -
  have "readsOnly P ob \<longrightarrow> P (snd y) = P w"
  proof (rule reconLoop.raw_induct [where P = "\<lambda>ob c ns start deadline cycles rs w y.
        readsOnly P ob \<longrightarrow> P (snd y) = P w", OF _ assms(1)], goal_cases step)
    case (step loop ob c ns start deadline cycles rs w y)
    obtain q w1 where once: "CheckReconciliationOnce ob c ns w = (q, w1)" by fastforce
    obtain b w2 where tick: "obWaitTick ob w1 = (b, w2)" by fastforce
    have t: "readsOnly P ob \<Longrightarrow> P w2 = P w1" using tick unfolding readsOnly_def by (metis snd_conv)
    show ?case
      using step(2) once tick t CheckReconciliationOnce_frame [OF _ once, of P]
      by (cases q) (auto split: if_splits dest!: step(1))
  qed
  then show ?thesis using assms(2) by blast
qed

lemma CheckReconciliation_frame:
  "readsOnly P ob \<Longrightarrow> CheckReconciliation ob c ns d w = Some (r, w') \<Longrightarrow> P w' = P w"
  unfolding CheckReconciliation_def by (drule reconLoop_frame) auto

section \<open>The contract of a run\<close>

definition envFrame :: "('w \<Rightarrow> bool) \<Rightarrow> 'w cliEnv \<Rightarrow> bool" where
  "envFrame active ce =
     ((\<forall>d w. active (snd (ceWait ce d w)) = active w) \<and>
      (\<forall>rep w. active (ceWriteFiles ce rep w) = active w) \<and>
      (\<forall>store ns n cm w. ceStore ce = Some store \<longrightarrow> active (snd (store ns n cm w)) = active w))"

lemma build_orchestration:
  fixes acquire :: "string \<Rightarrow> string \<Rightarrow> duration \<Rightarrow> 'w \<Rightarrow> goErr option \<times> 'w"
  assumes "readsOnly active ob" and "envFrame active ce"
    and "\<And>p n d w. active (snd (acquire p n d w)) = active w"
    and "\<And>p n w. active (snd (renew p n w)) = active w"
    and "\<And>p n w. active (snd (release p n w)) = active w"
    and "\<And>i. registryGet registry (injType (spInjection (exSpec cr))) = Inr i \<Longrightarrow>
      fault_injector i (spInjection (exSpec cr)) (resolveNamespace cr) active"
  shows "orchestration (buildOrchestrator ce ob registry acquire renew release models) cr active"
  unfolding buildOrchestrator_def
proof (rule orchestration.intro, unfold orchestrator.simps, goal_cases)
  case (1 cs ns w)
  show ?case by (rule CheckSteadyState_frame [OF assms(1)])
next
  case (2 rc c ns d w r w')
  then have "CheckReconciliation ob c ns d w = Some (r, w')" by auto
  then show ?case by (rule CheckReconciliation_frame [OF assms(1)])
next
  case (8 rep w)
  then show ?case using assms(2) by (simp add: envFrame_def)
next
  case (7 store ns n cm w)
  then show ?case using assms(2) by (simp add: envFrame_def)
next
  case (3 d w)
  then show ?case using assms(2) by (simp add: envFrame_def)
next
  case (9 i)
  then show ?case by (rule assms(6))
qed (rule assms(3,4,5))+

text \<open>A cluster client and a lock that live side by side.\<close>

definition onFst :: "('a \<Rightarrow> 'r \<times> 'a) \<Rightarrow> 'a \<times> 'b \<Rightarrow> 'r \<times> 'a \<times> 'b" where
  "onFst f w = (case f (fst w) of (r, a) \<Rightarrow> (r, a, snd w))"

definition onSnd :: "('b \<Rightarrow> 'r \<times> 'b) \<Rightarrow> 'a \<times> 'b \<Rightarrow> 'r \<times> 'a \<times> 'b" where
  "onSnd f w = (case f (snd w) of (r, b) \<Rightarrow> (r, fst w, b))"

lemma on_frame [simp]: "fst (snd (onSnd g w)) = fst w" "snd (snd (onFst f w)) = snd w"
  by (simp_all add: onFst_def onSnd_def split: prod.split)

definition pairClient :: "('a, 'k, 'o) kclient \<Rightarrow> ('a \<times> 'b, 'k, 'o) kclient" where
  "pairClient c = \<lparr>kGet = \<lambda>k. onFst (kGet c k), kCreate = \<lambda>k x. onFst (kCreate c k x),
     kUpdate = \<lambda>k x. onFst (kUpdate c k x), kDelete = \<lambda>k p. onFst (kDelete c k p),
     kPatch = \<lambda>k f. onFst (kPatch c k f)\<rparr>"

definition pairCluster :: "'a cluster \<Rightarrow> ('a \<times> 'b) cluster" where
  "pairCluster k = \<lparr>cl = pairClient (cl k), clNow = clNow k \<circ> fst,
     clReturned = \<lambda>key. clReturned k key \<circ> fst, clList = \<lambda>kd nso p. onFst (clList k kd nso p), clKind = clKind k, clCodecs = clCodecs k\<rparr>"

lemma onFst_eq: "onFst f w = (r, w') \<longleftrightarrow> f (fst w) = (r, fst w') \<and> snd w' = snd w"
  by (cases w'; auto simp: onFst_def split: prod.split)

lemma pair_cluster_api:
  assumes "cluster_api k st"
  shows "cluster_api (pairCluster k) (st \<circ> fst)"
proof -
  have api: "kube_api (cl k) st fst snd" by (rule cluster_api.axioms(1) [OF assms])
  note laws = kube_api.get_ok [OF api] kube_api.get_err [OF api] kube_api.create_ok [OF api]
    kube_api.create_err [OF api] kube_api.update_ok [OF api] kube_api.update_err [OF api]
    kube_api.delete_ok [OF api] kube_api.delete_err [OF api] kube_api.patch_ok [OF api]
    kube_api.patch_err [OF api] cluster_api.returned [OF assms] cluster_api.list_ok [OF assms]
    cluster_api.list_err [OF assms]
  note refusals = kube_api.get_notfound [OF api] kube_api.create_exists [OF api] kube_api.delete_notfound [OF api]
  show ?thesis
    unfolding pairCluster_def pairClient_def
    by (unfold_locales; simp only: cluster.simps kclient.simps onFst_eq comp_apply; (elim conjE)?;
        (erule laws | erule refusals, assumption))
qed

section \<open>Clock\<close>

definition envClock :: "timestamp \<Rightarrow> 'w cliEnv \<Rightarrow> bool" where
  "envClock deadline ce =
     ((\<forall>d w w'. ceWait ce d w = (False, w') \<longrightarrow> ceNow ce w + d \<le> ceNow ce w') \<and>
      (\<forall>d w. deadline \<le> ceNow ce w \<longrightarrow> fst (ceWait ce d w)))"

lemma build_clock:
  fixes acquire :: "string \<Rightarrow> string \<Rightarrow> duration \<Rightarrow> 'w \<Rightarrow> goErr option \<times> 'w"
  assumes "pollClock ob" and "envClock deadline ce"
    and "\<And>p n w. ceNow ce w \<le> ceNow ce (snd (renew p n w))"
    and "\<And>i w c ev w' v. registryGet registry (injType (spInjection (exSpec cr))) = Inr i \<Longrightarrow>
      inInject i (spInjection (exSpec cr)) (resolveNamespace cr) w = (Inr (Some c, ev), w') \<Longrightarrow>
      ceNow ce v \<le> ceNow ce (snd (c v))"
  shows "run_clock (buildOrchestrator ce ob registry acquire renew release models) cr deadline"
  unfolding buildOrchestrator_def
proof (rule run_clock.intro, unfold orchestrator.simps, goal_cases)
  case (1 d w w')
  then show ?case using assms(2) by (simp add: envClock_def)
next
  case (2 w d)
  then show ?case using assms(2) by (simp add: envClock_def)
next
  case (3 w p n)
  show ?case by (rule assms(3))
next
  case 4
  show ?case by (simp add: second_def)
next
  case (5 w c ev w' v)
  then show ?case using assms(4) by (auto simp: InjectFault_def split: sum.splits)
next
  case (6 rc c ns d w)
  then show ?case using reconLoop_returns [OF assms(1)] by (auto simp: CheckReconciliation_def)
qed

section \<open>Scaling a Deployment from the command line\<close>

definition clusterStore ::
  "'w cluster \<Rightarrow> string \<Rightarrow> string \<Rightarrow> configMapObj \<Rightarrow> 'w \<Rightarrow> goErr option \<times> 'w" where
  "clusterStore k ns name cm =
     kCreate (cl k) (''ConfigMap'', ns, name)
       (newObject (cmoLabels cm) (cmoAnnotations cm) (BData (cmoData cm)))"

context cluster_api
begin

lemma clusterStore_frame:
  "fst k' \<noteq> ''ConfigMap'' \<Longrightarrow> st (snd (clusterStore k ns n cm w)) k' = st w k'"
proof -
  assume k: "fst k' \<noteq> ''ConfigMap''"
  let ?x = "newObject (cmoLabels cm) (cmoAnnotations cm) (BData (cmoData cm))"
  obtain r w' where c: "kCreate (cl k) (''ConfigMap'', ns, n) ?x w = (r, w')" by fastforce
  show ?thesis
  proof (cases r)
    case None
    then obtain y where "st w' = (st w)((''ConfigMap'', ns, n) \<mapsto> y)" using create_ok c by blast
    then show ?thesis using c k by (cases k') (simp add: clusterStore_def)
  next
    case (Some e)
    then show ?thesis using c create_err by (simp add: clusterStore_def)
  qed
qed

end

type_synonym cliWorld = "(objKey, kobject) memWorld \<times> localLocks"

definition cliCluster :: "cliWorld cluster" where
  "cliCluster = pairCluster memCluster"

definition cliNow :: "cliWorld \<Rightarrow> timestamp" where
  "cliNow w = memNow (fst w)"

definition cliSleep :: "duration \<Rightarrow> cliWorld \<Rightarrow> cliWorld" where
  "cliSleep d w = ((fst w)\<lparr>memNow := cliNow w + max d 0\<rparr>, snd w)"

definition cliBase :: "timestamp \<Rightarrow> cliWorld cliEnv" where
  "cliBase deadline = \<lparr>ceStore = Some (clusterStore cliCluster), ceWriteFiles = \<lambda>rep w. w,
     ceMarshal = \<lambda>rep. Inr ''{}'', ceFormatStamp = \<lambda>t. ''20240101-000000'',
     ceFormatRFC3339 = \<lambda>t. ''2024-01-01T00:00:00Z'', ceMerge = concat,
     ceWait = \<lambda>d w. (deadline \<le> cliNow (cliSleep d w), cliSleep d w), ceNow = cliNow\<rparr>"

definition cliOb :: "cliWorld obsEnv" where
  "cliOb = \<lparr>obGet = \<lambda>a k n m w.
       (case kGet (cl cliCluster) (k, n, m) w of (Inl e, w') \<Rightarrow> (Inl e, w') | (Inr x, w') \<Rightarrow> (Inr (JObj []), w')),
     obNestedString = \<lambda>j fs. ('''', False, None), obNestedSlice = \<lambda>j fs. ([], False, None),
     obNestedField = \<lambda>j fs. (JNull, False, None), obFormat = \<lambda>j. '''', obOwnerKinds = \<lambda>j. [],
     obNow = cliNow, obWaitTick = \<lambda>w. (False, cliSleep (2 * second) w)\<rparr>"

definition cliRegistry :: "cliWorld registry" where
  "cliRegistry = Register DeploymentScaleZero (scaleZeroInjector cliCluster) NewRegistry"

definition cliOrchestrator :: "timestamp \<Rightarrow> operatorKnowledge list \<Rightarrow> cliWorld orchestrator" where
  "cliOrchestrator deadline = buildOrchestrator (cliBase deadline) cliOb cliRegistry
     (\<lambda>p n d. onSnd (localAcquire p n d)) (\<lambda>p n. onSnd (localRenew p n)) (\<lambda>p n. onSnd (localRelease p n))"

interpretation cliCl: cluster_api cliCluster "memObjs \<circ> fst"
  unfolding cliCluster_def by (rule pair_cluster_api [OF memCl.cluster_api_axioms])

lemma cliRegistry_get:
  "registryGet cliRegistry t = Inr i \<Longrightarrow> t = DeploymentScaleZero \<and> i = scaleZeroInjector cliCluster"
  by (auto simp: registryGet_def cliRegistry_def Register_def NewRegistry_def split: option.splits if_splits)

abbreviation cliActive :: "chaosExperiment \<Rightarrow> cliWorld \<Rightarrow> bool" where
  "cliActive cr \<equiv> scaleZeroActive (memObjs \<circ> fst) (spInjection (exSpec cr)) (resolveNamespace cr)"

lemma cliActive_cong: "memObjs (fst w') = memObjs (fst w) \<Longrightarrow> cliActive cr w' = cliActive cr w"
  by (simp add: scaleZeroActive_def)

lemma cliSleep_objs [simp]: "memObjs (fst (cliSleep d w)) = memObjs (fst w)"
  by (simp add: cliSleep_def)

interpretation cliScale: orchestration "cliOrchestrator deadline models" cr "cliActive cr"
  for deadline models cr
  unfolding cliOrchestrator_def
proof (rule build_orchestration, goal_cases)
  case 1
  have "memObjs (fst (snd (obGet cliOb a k n m w))) = memObjs (fst w)" for a k n m w
    using cliCl.get_frame [of "(k, n, m)" w]
    by (auto simp: cliOb_def split: prod.split sum.split)
  then show ?case by (simp add: readsOnly_def cliOb_def scaleZeroActive_def)
next
  case 2
  have "cliActive cr (snd (clusterStore cliCluster ns n cm w)) = cliActive cr w" for ns n cm w
    using cliCl.clusterStore_frame [of "(''Deployment'', resolveNamespace cr,
        param (spInjection (exSpec cr)) ''name'')" ns n cm w] by (simp add: scaleZeroActive_def objAt_def)
  then show ?case by (auto simp: envFrame_def cliBase_def scaleZeroActive_def)
next
  case (6 i)
  then show ?case using cliRegistry_get cliCl.scaleZero.fault_injector_axioms by blast
qed (simp_all add: scaleZeroActive_def)

lemma cli_time: "clientKeeps cliNow cliCluster"
  by (auto simp: clientKeeps_def cliNow_def cliCluster_def pairCluster_def pairClient_def onFst_def mem_ops
      memList_def Let_def
      split: prod.split option.split)

interpretation cliClock: run_clock "cliOrchestrator deadline models" cr deadline
  for deadline models cr
  unfolding cliOrchestrator_def
proof (rule build_clock, goal_cases)
  case 1
  have "cliNow (snd (obGet cliOb a kd n m w)) = cliNow w" for a kd n m w
  proof -
    obtain r w1 where g: "kGet (cl cliCluster) (kd, n, m) w = (r, w1)" by (rule prod.exhaust)
    have "cliNow w1 = cliNow w" using keeps_ops(1) [OF cli_time, of "(kd, n, m)" w] g by simp
    then show ?thesis using g by (cases r) (simp_all add: cliOb_def)
  qed
  moreover have "cliNow w < cliNow (snd (obWaitTick cliOb w))" for w
    by (simp add: cliOb_def cliSleep_def cliNow_def second_def)
  moreover have "obNow cliOb = cliNow" by (simp add: cliOb_def)
  ultimately show ?case by (simp add: pollClock_def)
next
  case 2
  show ?case by (auto simp: envClock_def cliBase_def cliSleep_def cliNow_def)
next
  case (3 w p n)
  then show ?case by (simp add: cliBase_def cliNow_def)
next
  case (4 i w c ev w' v)
  then have "i = scaleZeroInjector cliCluster" using cliRegistry_get by blast
  with 4 have "c = scaleZeroRestore cliCluster (param (spInjection (exSpec cr)) ''name'') (resolveNamespace cr)"
    using cliCl.scaleZero.cleanup_restore [of "spInjection (exSpec cr)" "resolveNamespace cr" w "Some c" ev w']
    by (simp add: scaleZeroInjector_def)
  then have "cliNow (snd (c v)) = cliNow v"
    using scaleZeroRestore_keeps [OF cli_time] by simp
  then show ?case by (simp add: cliBase_def)
qed

section \<open>Properties\<close>

text \<open>C5. A run never leaves its fault behind without saying so: over engines that keep their
  contracts, if the fault was not in effect before and is after \<open>Run\<close> has returned, whatever
  failed or was cancelled on the way, the result carries a cleanup error.\<close>

theorem run_leaves_no_fault:
  assumes "orchestration orc cr active" and "Run orc cr w = Some ((r, err), w')" and "\<not> active w"
  shows "active w' \<longrightarrow> erCleanupError r \<noteq> None"
  by (rule orchestration.run_cleans [OF assms])

text \<open>C13. A run returns when its context has a deadline: neither the retry loop of the revert at the
  TTL nor the polling of the post-check can go on after it.\<close>

theorem run_terminates:
  assumes "run_clock orc cr deadline"
  shows "Run orc cr w \<noteq> None"
  by (rule run_clock.run_returns [OF assms])

text \<open>C28. With a TTL and a cleanup function, a run that reaches its post-check has the fault reverted
  before: the recovery that is measured is that of a system without the fault.\<close>

theorem ttl_reverts_before_postcheck:
  assumes "orchestration orc cr active" and "InjectFault orc cr w = (Inr (Some c, ev), w1)"
    and "0 < injTTL (spInjection (exSpec cr))"
    and "runObserve orc cr pre ev (Some c) r w1 = Some (((r1, None), co), w')"
  shows "co = None \<and> (\<exists>v. \<not> active v \<and> runFinish orc cr pre ev r v = Some ((r1, None), w'))"
proof (rule orchestration.observe_after_ttl [OF assms(1,4) _ assms(3)])
  show "cleans active c" using orchestration.inject_law [OF assms(1,2)] by simp
qed


section \<open>Witnesses\<close>

definition cliDemoSpec :: experimentSpec where
  "cliDemoSpec = \<lparr>
     spTarget = \<lparr>tgtOperator = ''op'', tgtComponent = ''ctl'', tgtResource = ''Deployment/web''\<rparr>,
     spSteadyState = \<lparr>ssChecks = [], ssTimeout = 0\<rparr>,
     spInjection = scaleDemoSpec\<lparr>injTTL := 60 * second, injDanger := DangerLevelHigh\<rparr>,
     spBlastRadius = \<lparr>brMaxPodsAffected = 1, brAllowedNamespaces = [''ns1''],
       brForbiddenResources = [], brAllowDangerous = True, brDryRun = False\<rparr>,
     spHypothesis = \<lparr>hypDescription = '''', hypRecoveryTimeout = 60 * second\<rparr>, spTier = 1\<rparr>"

definition cliDemoExp :: chaosExperiment where
  "cliDemoExp = \<lparr>exName = ''exp'', exNamespace = ''ns1'', exGeneration = 1, exDeleting = False,
     exFinalizers = [], exSpec = cliDemoSpec, exStatus = freshStatus\<rparr>"

definition cliDemoWorld :: cliWorld where
  "cliDemoWorld = (scaleDemoWorld, NewLocalExperimentLock)"

definition freshResult :: experimentResult where
  "freshResult = \<lparr>erExperiment = ''exp'', erPhase = PhasePending, erVerdict = VerdictUnset,
     erEvaluation = None, erReport = None, erError = None, erCleanupError = None, erTier = 1\<rparr>"

definition cliDemoOrc :: "cliWorld orchestrator" where
  "cliDemoOrc = cliOrchestrator (86400 * second) []"

lemma cliDemo_resolve [simp]: "resolveNamespace cliDemoExp = ''ns1''"
  by (simp add: resolveNamespace_def cliDemoExp_def cliDemoSpec_def)

lemma cliDemo_registry:
  "registryGet (orRegistry cliDemoOrc) (injType (spInjection (exSpec cliDemoExp))) = Inr (scaleZeroInjector cliCluster)"
  by (simp add: cliDemoOrc_def cliOrchestrator_def buildOrchestrator_def registryGet_def cliRegistry_def
      Register_def NewRegistry_def cliDemoExp_def cliDemoSpec_def scaleDemoSpec_def)

lemma cliDemo_valid: "ValidateExperiment cliDemoOrc cliDemoExp = None"
  apply (simp add: ValidateExperiment_def Let_def cliDemo_registry)
  apply (simp add: cliDemoExp_def cliDemoSpec_def scaleDemoSpec_def ValidateTargetSpec_def name_simps
      checkForbiddenNamespace_None orForbiddenNamespaces_def orForbiddenNamespacePrefixes_def
      isClusterScopedInjection_def ValidateBlastRadius_None CheckDangerLevel_None targetResource_def
      MaxRecoveryTimeout_def MaxInjectionTTL_def second_def effectiveCount_def scaleZeroInjector_def
      validateScaleZeroParams_def validateHighDangerName_def)
  apply (simp add: accept_simps)
  done

lemma cliDemo_inject:
  "\<exists>ev w1. InjectFault cliDemoOrc cliDemoExp cliDemoWorld =
     (Inr (Some (scaleZeroRestore cliCluster ''web'' ''ns1''), ev), w1) \<and>
     cliNow w1 = 0 \<and> snd w1 = snd cliDemoWorld \<and>
     (\<exists>x. memObjs (fst w1) (''Deployment'', ''ns1'', ''web'') = Some x \<and>
        obAnnotations (snd x) originalReplicasAnnotation = Some (itoa 3))"
  unfolding InjectFault_def cliDemo_registry sum.case cliDemo_resolve
  by (simp add: scaleZeroInjector_def scaleZeroInject_def Let_def fetch_def finishInject_def memPatch_def
      cliCluster_def pairCluster_def pairClient_def onFst_def cliDemoWorld_def cliDemoExp_def
      cliDemoSpec_def scaleDemoSpec_def scaleDemoWorld_def memGet_def mget_def 
      memPut_def scaleDemoDeployment_def newObject_def mergeFrom_def cliNow_def setReplicas_def deployReplicas_def
      setAnnotation_def)

text \<open>The restore succeeds, so the retry loop ends at once.\<close>

lemma cliDemo_restore:
  assumes "memObjs (fst w) (''Deployment'', ns, name) = Some x"
    and "obAnnotations (snd x) originalReplicasAnnotation = Some (itoa 3)"
  shows "\<exists>w'. scaleZeroRestore cliCluster name ns w = (None, w') \<and> cliNow w' = cliNow w \<and> snd w' = snd w"
proof -
  have a: "atoi (itoa 3) = Inr 3" by (simp add: atoi_itoa int64_max_def)
  show ?thesis using assms a
    by (simp add: scaleZeroRestore_def Let_def cliCluster_def pairCluster_def pairClient_def onFst_def
        onFound_def wrapW_def memGet_def memPatch_def memPut_def cliNow_def)
qed

lemma cliDemo_wait [simp]: "orWait cliDemoOrc d w = (86400 * second \<le> cliNow (cliSleep d w), cliSleep d w)"
  by (simp add: cliDemoOrc_def cliOrchestrator_def buildOrchestrator_def cliBase_def)

lemma cliDemo_renew: "snd (orRenew cliDemoOrc p n w) = (fst w, snd (localRenew p n (snd w)))"
  by (simp add: cliDemoOrc_def cliOrchestrator_def buildOrchestrator_def onSnd_def split: prod.split)

lemma cliDemo_ttl:
  assumes "memObjs (fst w) (''Deployment'', ns, name) = Some x"
    and "obAnnotations (snd x) originalReplicasAnnotation = Some (itoa 3)" and "cliNow w = 0"
  shows "\<exists>w'. revertAtTTL cliDemoOrc cliDemoExp (Some (scaleZeroRestore cliCluster name ns)) (60 * second) w =
    Some ((None, None), w') \<and> cliNow w' = 60 * second"
proof -
  let ?w = "cliSleep (60 * second) w"
  have t: "cliNow ?w = 60 * second" using assms(3) by (simp add: cliSleep_def cliNow_def second_def)
  obtain w' where "scaleZeroRestore cliCluster name ns ?w = (None, w')" "cliNow w' = cliNow ?w"
    using cliDemo_restore [of ?w ns name x] assms(1,2) by auto
  then have "revertRetry cliDemoOrc cliDemoExp (scaleZeroRestore cliCluster name ns) ?w =
      Some ((None, None), snd (orRenew cliDemoOrc (tgtOperator (spTarget (exSpec cliDemoExp))) (exName cliDemoExp) w'))"
    by (subst revertRetry.simps) simp
  then show ?thesis using t \<open>cliNow w' = cliNow ?w\<close>
    by (simp add: revertAtTTL_def cliDemo_renew second_def cliNow_def)
qed

lemma cliDemo_observe:
  assumes "memObjs (fst w) (''Deployment'', ns, name) = Some x"
    and "obAnnotations (snd x) originalReplicasAnnotation = Some (itoa 3)" and "cliNow w = 0"
  shows "\<exists>r1 co w'. runObserve cliDemoOrc cliDemoExp pre ev (Some (scaleZeroRestore cliCluster name ns)) r w =
    Some (((r1, None), co), w')"
proof -
  have ttl: "injTTL (spInjection (exSpec cliDemoExp)) = 60 * second"
    "ResolvedRecoveryTimeout cliDemoExp = 60 * second"
    by (simp_all add: cliDemoExp_def cliDemoSpec_def ResolvedRecoveryTimeout_def second_def)
  obtain w1 where w1: "revertAtTTL cliDemoOrc cliDemoExp (Some (scaleZeroRestore cliCluster name ns)) (60 * second) w =
    Some ((None, None), w1)" "cliNow w1 = 60 * second"
    using cliDemo_ttl [OF assms] by blast
  have "cliNow (cliSleep (60 * second) w1) = 120 * second"
    using w1(2) by (simp add: cliSleep_def cliNow_def second_def)
  moreover have "\<exists>r1 v'. runFinish cliDemoOrc cliDemoExp pre ev r v = Some ((r1, None), v')" for v
  proof -
    have "orKnowledge cliDemoOrc = None"
      by (simp add: cliDemoOrc_def cliOrchestrator_def buildOrchestrator_def)
    then show ?thesis by (simp add: runFinish_def RunPostCheck_def Let_def split: prod.split)
  qed
  moreover obtain r1 v' where "runFinish cliDemoOrc cliDemoExp pre ev r (cliSleep (60 * second) w1) = Some ((r1, None), v')"
    using calculation(2) by blast
  ultimately show ?thesis using w1(1) ttl
    by (simp add: runObserve_def Let_def second_def)
qed

theorem run_leaves_no_fault_witness:
  "\<exists>r err w'. Run cliDemoOrc cliDemoExp cliDemoWorld = Some ((r, err), w') \<and>
     (cliActive cliDemoExp w', erCleanupError r) \<noteq> (True, None)"
proof -
  obtain r err w' where run: "Run cliDemoOrc cliDemoExp cliDemoWorld = Some ((r, err), w')"
    using cliClock.run_returns [of "86400 * second" "[]" cliDemoExp cliDemoWorld]
    unfolding cliDemoOrc_def by (metis not_None_eq surj_pair)
  have "\<not> cliActive cliDemoExp cliDemoWorld"
    by (simp add: scaleZeroActive_def objAt_def cliDemoWorld_def cliDemoExp_def cliDemoSpec_def scaleDemoSpec_def
        mget_def scaleDemoWorld_def scaleDemoDeployment_def newObject_def resolveNamespace_def)
  from run_leaves_no_fault [OF cliScale.orchestration_axioms run [unfolded cliDemoOrc_def] this] run
  show ?thesis by fastforce
qed

theorem run_terminates_witness:
  "Run cliDemoOrc cliDemoExp cliDemoWorld \<noteq> None"
  unfolding cliDemoOrc_def by (rule run_terminates [OF cliClock.run_clock_axioms])

theorem ttl_reverts_before_postcheck_witness:
  "\<exists>v ev r1 w'. \<not> cliActive cliDemoExp v \<and>
     runFinish cliDemoOrc cliDemoExp (passedCheckAt 0) ev freshResult v = Some ((r1, None), w')"
proof -
  obtain ev w1 x where inj: "InjectFault cliDemoOrc cliDemoExp cliDemoWorld =
      (Inr (Some (scaleZeroRestore cliCluster ''web'' ''ns1''), ev), w1)"
    and w1: "cliNow w1 = 0" "memObjs (fst w1) (''Deployment'', ''ns1'', ''web'') = Some x"
      "obAnnotations (snd x) originalReplicasAnnotation = Some (itoa 3)"
    using cliDemo_inject by blast
  obtain r1 co w' where ob: "runObserve cliDemoOrc cliDemoExp (passedCheckAt 0) ev
      (Some (scaleZeroRestore cliCluster ''web'' ''ns1'')) freshResult w1 = Some (((r1, None), co), w')"
    using cliDemo_observe [OF w1(2,3,1)] by blast
  have ttl: "0 < injTTL (spInjection (exSpec cliDemoExp))"
    by (simp add: cliDemoExp_def cliDemoSpec_def second_def)
  from ttl_reverts_before_postcheck [OF cliScale.orchestration_axioms, of "86400 * second" "[]" cliDemoExp,
      folded cliDemoOrc_def, OF inj ttl ob]
  show ?thesis by blast
qed


section \<open>Lock and results\<close>

definition localOrchestrator ::
  "('a \<times> localLocks) cliEnv \<Rightarrow> ('a \<times> localLocks) obsEnv \<Rightarrow> ('a \<times> localLocks) registry \<Rightarrow>
   operatorKnowledge list \<Rightarrow> ('a \<times> localLocks) orchestrator" where
  "localOrchestrator ce ob registry = buildOrchestrator ce ob registry
     (\<lambda>p n d. onSnd (localAcquire p n d)) (\<lambda>p n. onSnd (localRenew p n)) (\<lambda>p n. onSnd (localRelease p n))"

lemma localRelease_releases: "snd (localRelease p n l) p \<noteq> Some n"
  by (simp add: localRelease_def split: option.split)



text \<open>C31. A post-check whose reconciliation check failed with an error, a lost connection say, is
  evaluated as if there had been none: the finding carries no result, the evaluator skips it, and
  the verdict is \<open>Resilient\<close>.\<close>

theorem postcheck_error_resilient:
  assumes "Option.bind (orKnowledge orc) (\<lambda>k. GetComponent k (tgtComponent (spTarget (exSpec cr)))) = Some c"
    and "orReconciler orc = Some rc" and "orDepGraph orc = None" and "ssChecks (spSteadyState (exSpec cr)) = []"
    and "rcCheck rc c (resolveNamespace cr) (ResolvedRecoveryTimeout cr) w = Some ((Some e, res), w1)"
  shows "\<exists>post fs. RunPostCheck orc cr w = Some ((post, fs), w1) \<and>
    evVerdict (EvaluateExperiment orc fs (spHypothesis (exSpec cr))) = Resilient"
  using assms
  by (simp add: RunPostCheck_def postCheckPhase2_def collateralContributors_def RunContributors_def
      observeReconciliation_def AddFinding_def NewObservationBoard_def EvaluateExperiment_def
      FindingsBySource_def EvaluateFromFindings_verdict steadyFinding_def collateralFailures_def
      passedCheckAt_def maxOf_def Let_def)

definition lostConnection :: goErr where
  "lostConnection = ApiOther ''connection refused''"

definition lostOrc :: "cliWorld orchestrator" where
  "lostOrc = cliDemoOrc
     \<lparr>orKnowledge := Some \<lparr>okOperator = \<lparr>omName = ''op'', omNamespace = ''ns1'', omRepository = '''',
          omVersion = '''', omPlatform = '''', omOLMChannel = ''''\<rparr>,
        okComponents = [\<lparr>cmName = ''ctl'', cmController = ''ctl'', cmManagedResources = [],
          cmDependencies = [], cmSteadyState = \<lparr>ssChecks = [], ssTimeout = 0\<rparr>, cmWebhooks = [],
          cmFinalizers = []\<rparr>],
        okRecovery = \<lparr>rxReconcileTimeout = 0, rxMaxReconcileCycles = 10\<rparr>\<rparr>,
      orReconciler := Some \<lparr>rcCheck = \<lambda>c ns d w. Some ((Some lostConnection,
          \<lparr>rrAllReconciled = False, rrReconcileCycles = 1, rrRecoveryTime = 0, rrResources = []\<rparr>), w),
        rcOnce = \<lambda>c ns w. (Inl lostConnection, w)\<rparr>\<rparr>"

lemma lostOrc_simps:
  "orKnowledge lostOrc \<noteq> None" "orDepGraph lostOrc = None"
  "Option.bind (orKnowledge lostOrc) (\<lambda>k. GetComponent k (tgtComponent (spTarget (exSpec cliDemoExp)))) =
     Some (hd (okComponents (the (orKnowledge lostOrc))))"
  "\<exists>rc res. orReconciler lostOrc = Some rc \<and> (\<forall>c ns d w. rcCheck rc c ns d w = Some ((Some lostConnection, res), w))"
  by (simp_all add: lostOrc_def cliDemoOrc_def cliOrchestrator_def buildOrchestrator_def
       GetComponent_def cliDemoExp_def cliDemoSpec_def)

theorem postcheck_error_resilient_witness:
  "\<exists>post fs. RunPostCheck lostOrc cliDemoExp cliDemoWorld = Some ((post, fs), cliDemoWorld) \<and>
     evVerdict (EvaluateExperiment lostOrc fs (spHypothesis (exSpec cliDemoExp))) = Resilient"
proof -
  obtain rc res where rc: "orReconciler lostOrc = Some rc"
    "\<And>c ns d w. rcCheck rc c ns d w = Some ((Some lostConnection, res), w)"
    using lostOrc_simps(4) by blast
  have "ssChecks (spSteadyState (exSpec cliDemoExp)) = []" by (simp add: cliDemoExp_def cliDemoSpec_def)
  from postcheck_error_resilient [OF lostOrc_simps(3) rc(1) lostOrc_simps(2) this rc(2)]
  show ?thesis .
qed

text \<open>The name of a result ConfigMap is never longer than 253 bytes, begins with
  \<open>chaos-result\<close> and does not end in a separator.\<close>

theorem resultConfigMapName_valid:
  "let n = resultConfigMapName name stamp in
    length n \<le> 253 \<and> take 12 n = ''chaos-result'' \<and> last n \<notin> {CHR ''-'', CHR ''.'', CHR ''_''}"
proof -
  define s where "s = ''chaos-result-'' @ name @ ''-'' @ stamp"
  define t where "t = (if length s > configMapNameMaxLen then take configMapNameMaxLen s else s)"
  have n: "resultConfigMapName name stamp = trimRight t ''-._''"
    by (simp add: resultConfigMapName_def Let_def s_def t_def)
  have len: "length t \<le> 253" by (simp add: t_def configMapNameMaxLen_def)
  obtain u where t: "t = ''chaos-result'' @ u"
    by (cases "length s > configMapNameMaxLen") (simp_all add: t_def s_def configMapNameMaxLen_def)
  let ?P = "\<lambda>c. c \<in> {CHR ''-'', CHR ''.'', CHR ''_''}"
  have tr: "trimRight t ''-._'' = rev (dropWhile ?P (rev u @ rev ''chaos-result''))"
    by (simp add: trimRight_def t)
  have "\<exists>v. dropWhile ?P (rev u @ rev ''chaos-result'') = v @ rev ''chaos-result'' \<and> (v \<noteq> [] \<longrightarrow> \<not> ?P (hd v))"
    by (induction u rule: rev_induct) auto
  then obtain v where v: "trimRight t ''-._'' = ''chaos-result'' @ rev v" "v \<noteq> [] \<longrightarrow> \<not> ?P (hd v)"
    unfolding tr by auto
  have "last (''chaos-result'' @ rev v) \<notin> {CHR ''-'', CHR ''.'', CHR ''_''}"
    using v(2) by (cases v) (simp_all del: append_Cons append_Nil)
  then show ?thesis using length_trimRight [of t "''-._''"] len v(1) by (simp add: n Let_def)
qed

text \<open>The experiment label of a result may be invalid: truncating a valid experiment name to 63
  bytes can leave a separator at its end, which Kubernetes refuses.\<close>

theorem truncateLabel_invalid:
  "let name = replicate 62 CHR ''a'' @ ''-b'' in
    isK8sName name \<and> length (truncateLabel name) \<le> 63 \<and> \<not> validLabelValuePattern (truncateLabel name)"
proof -
  have "replicate 62 CHR ''a'' = CHR ''a'' # replicate 61 CHR ''a''"
    by (simp add: numeral_eq_Suc)
  then show ?thesis
    by (simp add: Let_def isK8sName_def truncateLabel_def labelValueMaxLen_def validLabelValuePattern_def
        validLabelNamePattern_def validNamePattern_def edgePattern_def isLower_def isDigit_def isAlnum_def
        isUpper_def butlast_append list_all_iff)
qed

end
