(* ===== verification/InjectObjects.thy ===== *)
theory InjectObjects
  imports Injectors Validation "HOL-Library.AList"
begin

text \<open>
  The injectors whose fault is an object of their own: \<open>quota.go\<close> (a ResourceQuota with tight
  limits), \<open>network.go\<close> (a NetworkPolicy without rules) and \<open>pdbblock.go\<close> (a PodDisruptionBudget
  that allows no eviction). The fault is in effect while the object is there.
\<close>

section \<open>Quota exhaustion\<close>

definition quotaKey :: "string \<Rightarrow> string \<Rightarrow> objKey" where
  "quotaKey ns name = (''ResourceQuota'', ns, name)"

text \<open>The code walks through a map, so which of several unparsable limits is reported is not
  determined there; here it is the first of the list.\<close>

fun quotaHard :: "codecs \<Rightarrow> strmap \<Rightarrow> string list \<Rightarrow> strmap \<Rightarrow> goErr + strmap" where
  "quotaHard cds params [] hard = Inr hard"
| "quotaHard cds params (p # ps) hard =
     (let val = mget params p
      in if val \<noteq> '''' then
           (case cdQuantity cds val of
              Inl err \<Rightarrow> Inl (Errorf ''parsing %s limit %q: %w'' [AStr p, AStr val, AErr err])
            | Inr qty \<Rightarrow> quotaHard cds params ps (hard(p \<mapsto> qty)))
         else quotaHard cds params ps hard)"

definition quotaInject ::
  "'w cluster \<Rightarrow> injectionSpec \<Rightarrow> string \<Rightarrow> 'w \<Rightarrow>
   (goErr + 'w cleanupFunc option \<times> injectionEvent list) \<times> 'w" where
  "quotaInject k spec ns w =
     (let quotaName = param spec ''quotaName''; key = quotaKey ns quotaName
      in case kGet (cl k) key w of
           (Inr existing, w1) \<Rightarrow>
             (Inl (Errorf ''ResourceQuota %q already exists in namespace %q; refusing to overwrite''
                [AStr quotaName, AStr ns]), w1)
         | (Inl err, w1) \<Rightarrow>
             if \<not> isNotFound err then (Inl (Errorf ''checking for existing ResourceQuota: %w'' [AErr err]), w1)
             else (case quotaHard (clCodecs k) (injParams spec) quotaLimitKeys Map.empty of
                     Inl err \<Rightarrow> (Inl err, w1)
                   | Inr hard \<Rightarrow>
                       finishInject
                         (kCreate (cl k) key
                           (newObject (ChaosLabels (injectionTypeName QuotaExhaustion)) Map.empty (BQuota hard)) w1)
                         (\<lambda>err. Errorf ''creating ResourceQuota %q: %w'' [AStr quotaName, AErr err])
                         (\<lambda>w2. (Some (deleteGone k key (\<lambda>err.
                             Errorf ''deleting ResourceQuota %q: %w'' [AStr quotaName, AErr err])),
                           [NewEvent (clNow k w2) QuotaExhaustion (keyText ns quotaName) ''created''
                             [''quotaName'' \<mapsto> quotaName, ''namespace'' \<mapsto> ns]]))))"

definition quotaRevert :: "'w cluster \<Rightarrow> injectionSpec \<Rightarrow> string \<Rightarrow> 'w \<Rightarrow> goErr option \<times> 'w" where
  "quotaRevert k spec ns =
     (let quotaName = param spec ''quotaName''; key = quotaKey ns quotaName
      in onFound k key (\<lambda>err. Errorf ''getting ResourceQuota for revert: %w'' [AErr err])
           (\<lambda>existing w1.
              if \<not> isManaged existing then
                (Some (Errorf ''ResourceQuota %q is not managed by chaos framework; refusing to delete''
                   [AStr quotaName]), w1)
              else kDelete (cl k) key None w1))"

definition quotaInjector :: "'w cluster \<Rightarrow> 'w injector" where
  "quotaInjector k =
     \<lparr>inValidate = \<lambda>spec blast. validateQuotaExhaustionParams spec,
      inInject = quotaInject k, inRevert = quotaRevert k\<rparr>"

definition quotaActive ::
  "('w \<Rightarrow> objKey \<rightharpoonup> vobject) \<Rightarrow> injectionSpec \<Rightarrow> string \<Rightarrow> 'w \<Rightarrow> bool" where
  "quotaActive st spec ns w = (case st w (quotaKey ns (param spec ''quotaName'')) of
     None \<Rightarrow> False | Some x \<Rightarrow> isManaged x)"

section \<open>Network partition\<close>

definition sanitizeChar :: "char \<Rightarrow> char" where
  "sanitizeChar c = (if isLower c \<or> isDigit c \<or> c = CHR ''-'' then c else CHR ''-'')"

definition sanitizeK8sName :: "codecs \<Rightarrow> string \<Rightarrow> string \<Rightarrow> string" where
  "sanitizeK8sName cds pre input =
     (let name0 = pre @ map sanitizeChar (toLower input);
          name1 = (if length name0 > 63 then take 54 name0 @ ''-'' @ take 8 (cdHex cds input) else name0);
          name2 = trimRight name1 ''-.''
      in if name2 = '''' then pre @ take 16 (cdHex cds input) else name2)"

definition policyPrefix :: string where "policyPrefix = ''operator-chaos-np-''"

definition policyKey :: "'w cluster \<Rightarrow> injectionSpec \<Rightarrow> string \<Rightarrow> objKey" where
  "policyKey k spec ns =
     (''NetworkPolicy'', ns, sanitizeK8sName (clCodecs k) policyPrefix (param spec ''labelSelector''))"

definition networkInject ::
  "'w cluster \<Rightarrow> injectionSpec \<Rightarrow> string \<Rightarrow> 'w \<Rightarrow>
   (goErr + 'w cleanupFunc option \<times> injectionEvent list) \<times> 'w" where
  "networkInject k spec ns w =
     (case cdSelector (clCodecs k) (param spec ''labelSelector'') of
        Inl err \<Rightarrow> (Inl (Errorf ''parsing label selector: %w'' [AErr err]), w)
      | Inr reqs \<Rightarrow>
          (let key = policyKey k spec ns; policyName = snd (snd key);
               matchLabels = map_of (rev reqs);
               annotations = (if injTTL spec > 0
                 then [TTLAnnotationKey \<mapsto> TTLExpiry (cdFormatTime (clCodecs k)) (clNow k w) (injTTL spec)]
                 else Map.empty);
               result = (\<lambda>w2. (Some (deleteGone k key (\<lambda>err.
                     Errorf ''deleting NetworkPolicy %q: %w'' [AStr policyName, AErr err])),
                   [NewEvent (clNow k w2) NetworkPartition policyName ''created''
                     [''namespace'' \<mapsto> ns, ''selector'' \<mapsto> param spec ''labelSelector'']]))
           in if reqs = [] then
                (Inl (Errorf ''label selector %q produced no equality-based matches; only equality selectors (=, ==, in with single value) are supported for NetworkPolicy''
                   [AStr (param spec ''labelSelector'')]), w)
              else (case kCreate (cl k) key
                      (newObject (ChaosLabels (injectionTypeName NetworkPartition)) annotations
                        (BPolicy matchLabels [''Ingress'', ''Egress''])) w of
                      (Some err, w1) \<Rightarrow>
                        if \<not> isAlreadyExists err
                        then (Inl (Errorf ''creating NetworkPolicy: %w'' [AErr err]), w1)
                        else (Inr (result w1), w1)
                    | (None, w1) \<Rightarrow> (Inr (result w1), w1))))"

definition networkRevert :: "'w cluster \<Rightarrow> injectionSpec \<Rightarrow> string \<Rightarrow> 'w \<Rightarrow> goErr option \<times> 'w" where
  "networkRevert k spec ns =
     (let key = policyKey k spec ns; policyName = snd (snd key)
      in onFound k key (\<lambda>err. Errorf ''getting NetworkPolicy %q for revert: %w'' [AStr policyName, AErr err])
           (\<lambda>policy. deleteGone k key (\<lambda>err.
              Errorf ''deleting NetworkPolicy %q during revert: %w'' [AStr policyName, AErr err])))"

definition networkInjector :: "paramLib \<Rightarrow> 'w cluster \<Rightarrow> 'w injector" where
  "networkInjector lib k =
     \<lparr>inValidate = \<lambda>spec blast. validateNetworkPartitionParams lib spec,
      inInject = networkInject k, inRevert = networkRevert k\<rparr>"

definition networkActive ::
  "'w cluster \<Rightarrow> ('w \<Rightarrow> objKey \<rightharpoonup> vobject) \<Rightarrow> injectionSpec \<Rightarrow> string \<Rightarrow> 'w \<Rightarrow> bool" where
  "networkActive k st spec ns w = (st w (policyKey k spec ns) \<noteq> None)"

section \<open>Blocked evictions\<close>

text \<open>\<open>parseLabelSelector\<close>: comma-separated \<open>key=value\<close> parts, empty ones skipped.\<close>

fun parseSelectorParts :: "string list \<Rightarrow> (string \<times> string) list \<Rightarrow> goErr + (string \<times> string) list" where
  "parseSelectorParts [] result = Inr result"
| "parseSelectorParts (raw # parts) result =
     (let part = trimSpace raw
      in if part = '''' then parseSelectorParts parts result
         else (case splitFirst CHR ''='' part of
                 (key, Some v) \<Rightarrow>
                   if key = '''' \<or> v = ''''
                   then Inl (Errorf ''invalid label selector part %q: expected key=value'' [AStr part])
                   else parseSelectorParts parts (AList.update key v result)
               | (key, None) \<Rightarrow>
                   Inl (Errorf ''invalid label selector part %q: expected key=value'' [AStr part])))"

definition parseLabelSelector :: "string \<Rightarrow> goErr + (string \<times> string) list" where
  "parseLabelSelector selector =
     (case parseSelectorParts (splitOn CHR '','' selector) [] of
        Inl err \<Rightarrow> Inl err
      | Inr result \<Rightarrow> if result = [] then Inl (Errorf ''label selector produced no labels'' [])
                      else Inr result)"

definition generatePDBName :: "(string \<times> string) list \<Rightarrow> string" where
  "generatePDBName labels =
     (case sort (map fst labels) of
        [] \<Rightarrow> ''chaos-pdb-unknown''
      | key # _ \<Rightarrow> ''chaos-pdb-'' @ the (map_of labels key))"

definition pdbKey :: "string \<Rightarrow> string \<Rightarrow> objKey" where
  "pdbKey ns name = (''PodDisruptionBudget'', ns, name)"

definition deletePDB :: "'w cluster \<Rightarrow> string \<Rightarrow> string \<Rightarrow> 'w \<Rightarrow> goErr option \<times> 'w" where
  "deletePDB k pdbName ns =
     onFound k (pdbKey ns pdbName)
       (\<lambda>err. Errorf ''getting PDB %s for cleanup: %w'' [AStr (keyText ns pdbName), AErr err])
       (\<lambda>pdb w1. if \<not> isManaged pdb
          then (Some (Errorf ''pdb %q is not chaos-managed; refusing to delete'' [AStr pdbName]), w1)
          else deleteGone k (pdbKey ns pdbName)
            (\<lambda>err. Errorf ''deleting PDB %s: %w'' [AStr (keyText ns pdbName), AErr err]) w1)"

definition pdbInject ::
  "'w cluster \<Rightarrow> injectionSpec \<Rightarrow> string \<Rightarrow> 'w \<Rightarrow>
   (goErr + 'w cleanupFunc option \<times> injectionEvent list) \<times> 'w" where
  "pdbInject k spec ns w =
     (let selectorStr = param spec ''labelSelector''
      in case parseLabelSelector selectorStr of
           Inl err \<Rightarrow> (Inl (Errorf ''parsing labelSelector: %w'' [AErr err]), w)
         | Inr labelMap \<Rightarrow>
             (let pdbName = (if param spec ''name'' = '''' then generatePDBName labelMap else param spec ''name'')
              in finishInject
                   (putManaged k (pdbKey ns pdbName) (ChaosLabels (injectionTypeName PDBBlock))
                     (BBudget 0 (map_of labelMap))
                     (Errorf ''pdb %q already exists in namespace %q and is not chaos-managed; refusing to overwrite''
                       [AStr pdbName, AStr ns])
                     (\<lambda>err. Errorf ''updating existing chaos-managed PDB %s: %w'' [AStr pdbName, AErr err])
                     (\<lambda>err. Errorf ''creating PDB %s: %w'' [AStr pdbName, AErr err])
                     (\<lambda>err. Errorf ''checking for existing PDB: %w'' [AErr err]) w)
                   id
                   (\<lambda>w2. (Some (deletePDB k pdbName ns),
                     [NewEvent (clNow k w2) PDBBlock (keyText ns pdbName) ''created''
                       [''namespace'' \<mapsto> ns, ''pdbName'' \<mapsto> pdbName, ''labelSelector'' \<mapsto> selectorStr]]))))"

definition pdbRevert :: "'w cluster \<Rightarrow> injectionSpec \<Rightarrow> string \<Rightarrow> 'w \<Rightarrow> goErr option \<times> 'w" where
  "pdbRevert k spec ns =
     (if param spec ''name'' = '''' then
        (case parseLabelSelector (param spec ''labelSelector'') of
           Inl err \<Rightarrow> (\<lambda>w. (Some (Errorf ''parsing labelSelector for revert: %w'' [AErr err]), w))
         | Inr labelMap \<Rightarrow> deletePDB k (generatePDBName labelMap) ns)
      else deletePDB k (param spec ''name'') ns)"

definition pdbInjector :: "'w cluster \<Rightarrow> 'w injector" where
  "pdbInjector k =
     \<lparr>inValidate = \<lambda>spec blast. validatePDBBlockParams spec,
      inInject = pdbInject k, inRevert = pdbRevert k\<rparr>"

definition pdbActive ::
  "('w \<Rightarrow> objKey \<rightharpoonup> vobject) \<Rightarrow> injectionSpec \<Rightarrow> string \<Rightarrow> 'w \<Rightarrow> bool" where
  "pdbActive st spec ns w =
     (case parseLabelSelector (param spec ''labelSelector'') of
        Inl err \<Rightarrow> False
      | Inr labelMap \<Rightarrow>
          (case st w (pdbKey ns (if param spec ''name'' = '''' then generatePDBName labelMap
                                else param spec ''name'')) of
             None \<Rightarrow> False | Some x \<Rightarrow> isManaged x))"

section \<open>The contract\<close>

lemma isManaged_new [simp]: "isManaged (newObject (ChaosLabels t) a b)"
  by (rule isManaged_chaos) simp

context cluster_api
begin

lemma quota_inject_cases:
  assumes "quotaInject k spec ns w = (r, w')"
  obtains e where "r = Inl e" "st w' = st w"
  | ev hard y where "r = Inr (Some (deleteGone k (quotaKey ns (param spec ''quotaName'')) (\<lambda>err.
        Errorf ''deleting ResourceQuota %q: %w'' [AStr (param spec ''quotaName''), AErr err])), ev)"
      "st w (quotaKey ns (param spec ''quotaName'')) = None"
      "quotaHard (clCodecs k) (injParams spec) quotaLimitKeys Map.empty = Inr hard"
      "snd y = snd (newObject (ChaosLabels (injectionTypeName QuotaExhaustion)) Map.empty (BQuota hard))"
      "st w' = (st w)(quotaKey ns (param spec ''quotaName'') \<mapsto> y)"
proof -
  let ?key = "quotaKey ns (param spec ''quotaName'')"
  obtain q w1 where g: "kGet (cl k) ?key w = (q, w1)" by (rule prod.exhaust)
  then have s: "st w1 = st w" using get_frame [of ?key w] by simp
  show thesis
  proof (cases q)
    case (Inr x)
    show thesis by (rule that(1)) (use assms g s Inr in \<open>auto simp: quotaInject_def Let_def\<close>)
  next
    case (Inl e)
    note d = quotaInject_def [of k spec ns w, unfolded Let_def]
    consider "\<not> isNotFound e"
      | err where "isNotFound e" "quotaHard (clCodecs k) (injParams spec) quotaLimitKeys Map.empty = Inl err"
      | hard where "isNotFound e" "quotaHard (clCodecs k) (injParams spec) quotaLimitKeys Map.empty = Inr hard"
      by (metis sum.exhaust)
    then show thesis
    proof cases
      case 1
      show thesis by (rule that(1)) (use assms g s Inl 1 in \<open>auto simp: d\<close>)
    next
      case 2
      show thesis by (rule that(1)) (use assms g s Inl 2 in \<open>auto simp: d\<close>)
    next
      case (3 hard)
    obtain c v where c: "kCreate (cl k) ?key
        (newObject (ChaosLabels (injectionTypeName QuotaExhaustion)) Map.empty (BQuota hard)) w1 = (c, v)"
        by (rule prod.exhaust)
      from c show thesis
      proof (cases rule: create_cases)
        case (Created y)
        show thesis
          by (rule that(2)) (use assms g Inl 3 c Created s in \<open>auto simp: d finishInject_def\<close>)
      next
        case (Failed e)
        show thesis by (rule that(1)) (use assms g Inl 3 c Failed s in \<open>auto simp: d finishInject_def\<close>)
      next
        case (Exists e)
        show thesis by (rule that(1)) (use assms g Inl 3 c Exists s in \<open>auto simp: d finishInject_def\<close>)
      qed
    qed
  qed
qed


end

sublocale cluster_api \<subseteq> quota: fault_injector "quotaInjector k" spec ns "quotaActive st spec ns"
  for spec ns
proof
  fix w co ev w' assume "inInject (quotaInjector k) spec ns w = (Inr (co, ev), w')"
  then have "quotaInject k spec ns w = (Inr (co, ev), w')" by (simp add: quotaInjector_def)
  then show "case co of None \<Rightarrow> quotaActive st spec ns w' = quotaActive st spec ns w
      | Some c \<Rightarrow> cleans (quotaActive st spec ns) c"
    by (cases rule: quota_inject_cases) (auto simp: cleans_def quotaActive_def dest: deleteGone_clears)
next
  fix w e w' assume "inInject (quotaInjector k) spec ns w = (Inl e, w')" "quotaActive st spec ns w'"
  then show "quotaActive st spec ns w"
    by (simp add: quotaInjector_def) (erule quota_inject_cases; simp add: quotaActive_def)
next
  fix w w' assume "inRevert (quotaInjector k) spec ns w = (None, w')"
  then show "\<not> quotaActive st spec ns w'"
    unfolding quotaInjector_def injector.simps quotaRevert_def Let_def
    by (cases rule: onFound_cases) (auto simp: quotaActive_def dest: delete_ok split: if_splits)
next
  fix w r w' assume "inRevert (quotaInjector k) spec ns w = (r, w')" "\<not> quotaActive st spec ns w"
  then show "\<not> quotaActive st spec ns w'"
    unfolding quotaInjector_def injector.simps quotaRevert_def Let_def
    by (cases rule: onFound_cases) (auto simp: quotaActive_def split: if_splits)
qed

context cluster_api
begin

lemma network_inject_cases:
  assumes "networkInject k spec ns w = (r, w')"
  obtains e where "r = Inl e" "st w' = st w"
  | ev where "r = Inr (Some (deleteGone k (policyKey k spec ns) (\<lambda>err.
        Errorf ''deleting NetworkPolicy %q: %w'' [AStr (snd (snd (policyKey k spec ns))), AErr err])), ev)"
      "st w (policyKey k spec ns) \<noteq> None" "st w' = st w"
  | ev reqs a y where "r = Inr (Some (deleteGone k (policyKey k spec ns) (\<lambda>err.
        Errorf ''deleting NetworkPolicy %q: %w'' [AStr (snd (snd (policyKey k spec ns))), AErr err])), ev)"
      "cdSelector (clCodecs k) (param spec ''labelSelector'') = Inr reqs" "reqs \<noteq> []"
      "st w (policyKey k spec ns) = None"
      "snd y = snd (newObject (ChaosLabels (injectionTypeName NetworkPartition)) a
         (BPolicy (map_of (rev reqs)) [''Ingress'', ''Egress'']))"
      "st w' = (st w)(policyKey k spec ns \<mapsto> y)"
proof (cases "cdSelector (clCodecs k) (param spec ''labelSelector'')")
  case (Inl err)
  show thesis by (rule that(1)) (use assms Inl in \<open>auto simp: networkInject_def\<close>)
next
  case (Inr reqs)
  show thesis
  proof (cases "reqs = []")
    case True
    show thesis by (rule that(1)) (use assms Inr True in \<open>auto simp: networkInject_def Let_def\<close>)
  next
    case False
    define a where "a = (if injTTL spec > 0
      then [TTLAnnotationKey \<mapsto> TTLExpiry (cdFormatTime (clCodecs k)) (clNow k w) (injTTL spec)] else Map.empty)"
    obtain c v where c: "kCreate (cl k) (policyKey k spec ns)
        (newObject (ChaosLabels (injectionTypeName NetworkPartition)) a
          (BPolicy (map_of (rev reqs)) [''Ingress'', ''Egress''])) w = (c, v)" by (rule prod.exhaust)
    note d = networkInject_def Let_def a_def [symmetric]
    from c show thesis
    proof (cases rule: create_cases)
      case (Failed e)
      show thesis by (rule that(1)) (use assms Inr False c Failed in \<open>auto simp: d\<close>)
    next
      case (Exists e)
      show thesis by (rule that(2)) (use assms Inr False c Exists in \<open>auto simp: d\<close>)
    next
      case (Created y)
      show thesis by (rule that(3)) (use assms Inr False c Created in \<open>auto simp: d\<close>)
    qed
  qed
qed

end

sublocale cluster_api \<subseteq> network: fault_injector "networkInjector lib k" spec ns "networkActive k st spec ns"
  for lib spec ns
proof
  fix w co ev w' assume "inInject (networkInjector lib k) spec ns w = (Inr (co, ev), w')"
  then have "networkInject k spec ns w = (Inr (co, ev), w')" by (simp add: networkInjector_def)
  then show "case co of None \<Rightarrow> networkActive k st spec ns w' = networkActive k st spec ns w
      | Some c \<Rightarrow> cleans (networkActive k st spec ns) c"
    by (cases rule: network_inject_cases) (auto simp: cleans_def networkActive_def dest: deleteGone_clears)
next
  fix w e w' assume "inInject (networkInjector lib k) spec ns w = (Inl e, w')" "networkActive k st spec ns w'"
  then show "networkActive k st spec ns w"
    by (simp add: networkInjector_def) (erule network_inject_cases; simp add: networkActive_def)
next
  fix w w' assume "inRevert (networkInjector lib k) spec ns w = (None, w')"
  then show "\<not> networkActive k st spec ns w'"
    unfolding networkInjector_def injector.simps networkRevert_def Let_def
    by (cases rule: onFound_cases) (auto simp: networkActive_def dest: deleteGone_clears)
next
  fix w r w' assume "inRevert (networkInjector lib k) spec ns w = (r, w')" "\<not> networkActive k st spec ns w"
  then show "\<not> networkActive k st spec ns w'"
    unfolding networkInjector_def injector.simps networkRevert_def Let_def
    by (cases rule: onFound_cases) (auto simp: networkActive_def)
qed


lemma pdbRevert_name:
  assumes "parseLabelSelector (param spec ''labelSelector'') = Inr m"
  shows "pdbRevert k spec ns =
    deletePDB k (if param spec ''name'' = '''' then generatePDBName m else param spec ''name'') ns"
  using assms by (simp add: pdbRevert_def)

context cluster_api
begin

lemma deletePDB_cases [consumes 1, case_names Failed Cleared]:
  assumes "deletePDB k name ns w = (r, w')"
  obtains e where "r = Some e" "st w' = st w"
  | "r = None" "st w' = (st w)(pdbKey ns name := None)" "\<And>x. st w (pdbKey ns name) = Some x \<Longrightarrow> isManaged x"
  using assms unfolding deletePDB_def
proof (cases rule: onFound_cases)
  case Gone
  show thesis by (rule that(2)) (use Gone in auto)
next
  case (Found x w1)
  show thesis
  proof (cases "isManaged x")
    case True
    then have "deleteGone k (pdbKey ns name)
        (\<lambda>err. Errorf ''deleting PDB %s: %w'' [AStr (keyText ns name), AErr err]) w1 = (r, w')"
      using Found(3) by simp
    then show thesis by (cases rule: deleteGone_cases) (use that Found True in auto)
  next
    case False
    show thesis by (rule that(1)) (use Found False in auto)
  qed
qed (use that(1) in blast)

lemma pdb_inject_cases [consumes 1, case_names Failed Put]:
  assumes "pdbInject k spec ns w = (r, w')"
  obtains e where "r = Inl e" "st w' = st w"
  | ev m name y where "parseLabelSelector (param spec ''labelSelector'') = Inr m"
      "name = (if param spec ''name'' = '''' then generatePDBName m else param spec ''name'')"
      "r = Inr (Some (deletePDB k name ns), ev)" "obBody (snd y) = BBudget 0 (map_of m)"
      "obLabels (snd y) = ChaosLabels (injectionTypeName PDBBlock)"
      "\<And>x. st w (pdbKey ns name) = Some x \<Longrightarrow> isManaged x" "st w' = (st w)(pdbKey ns name \<mapsto> y)"
proof (cases "parseLabelSelector (param spec ''labelSelector'')")
  case (Inl err)
  show thesis by (rule that(1)) (use assms Inl in \<open>auto simp: pdbInject_def\<close>)
next
  case (Inr m)
  define name where "name = (if param spec ''name'' = '''' then generatePDBName m else param spec ''name'')"
  obtain c v where c: "putManaged k (pdbKey ns name) (ChaosLabels (injectionTypeName PDBBlock))
       (BBudget 0 (map_of m))
       (Errorf ''pdb %q already exists in namespace %q and is not chaos-managed; refusing to overwrite''
         [AStr name, AStr ns])
       (\<lambda>err. Errorf ''updating existing chaos-managed PDB %s: %w'' [AStr name, AErr err])
       (\<lambda>err. Errorf ''creating PDB %s: %w'' [AStr name, AErr err])
       (\<lambda>err. Errorf ''checking for existing PDB: %w'' [AErr err]) w = (c, v)"
    by (rule prod.exhaust)
  note d = pdbInject_def [of k spec ns w, unfolded Let_def Inr sum.case, folded name_def]
  from c show thesis
  proof (cases rule: putManaged_cases)
    case (Failed e)
    show thesis by (rule that(1)) (use assms c Failed in \<open>auto simp: d finishInject_def\<close>)
  next
    case (Put y)
    show thesis
      by (rule that(2) [OF Inr name_def, of _ y]) (use assms c Put in \<open>auto simp: d finishInject_def\<close>)
  qed
qed

end

sublocale cluster_api \<subseteq> pdb: restoring_injector "pdbInjector k" spec ns "pdbActive st spec ns" "pdbRevert k spec ns"
  for spec ns
proof
  fix w co ev w' assume "inInject (pdbInjector k) spec ns w = (Inr (co, ev), w')"
  then have "pdbInject k spec ns w = (Inr (co, ev), w')" by (simp add: pdbInjector_def)
  then show "co = Some (pdbRevert k spec ns)"
    by (cases rule: pdb_inject_cases) (simp_all add: pdbRevert_name)
next
  fix w e w' assume i: "inInject (pdbInjector k) spec ns w = (Inl e, w')" and a: "pdbActive st spec ns w'"
  have "pdbInject k spec ns w = (Inl e, w')" using i by (simp add: pdbInjector_def)
  then have "st w' = st w" by (cases rule: pdb_inject_cases) simp_all
  then show "pdbActive st spec ns w" using a unfolding pdbActive_def by (simp only:)
next
  fix w w' assume r: "pdbRevert k spec ns w = (None, w')"
  show "\<not> pdbActive st spec ns w'"
  proof (cases "parseLabelSelector (param spec ''labelSelector'')")
    case (Inr m)
    from r [unfolded pdbRevert_name [OF Inr]] show ?thesis
      by (cases rule: deletePDB_cases) (simp_all add: pdbActive_def Inr)
  qed (simp add: pdbActive_def)
next
  fix w r w' assume r: "pdbRevert k spec ns w = (r, w')" "\<not> pdbActive st spec ns w"
  show "\<not> pdbActive st spec ns w'"
  proof (cases "parseLabelSelector (param spec ''labelSelector'')")
    case (Inr m)
    from r(1) [unfolded pdbRevert_name [OF Inr]] show ?thesis
      by (cases rule: deletePDB_cases) (use r(2) Inr in \<open>simp_all add: pdbActive_def\<close>)
  qed (simp add: pdbActive_def)
qed (simp add: pdbInjector_def)

section \<open>Other people's objects\<close>

context cluster_api
begin

lemma quota_unmanaged:
  assumes "st w (quotaKey ns (param spec ''quotaName'')) = Some x" and "\<not> isManaged x"
  shows "quotaInject k spec ns w = (r, w1) \<Longrightarrow> (\<exists>e. r = Inl e) \<and> st w1 = st w"
    and "quotaRevert k spec ns w = (q, w2) \<Longrightarrow> q \<noteq> None \<and> st w2 = st w"
proof -
  show "quotaInject k spec ns w = (r, w1) \<Longrightarrow> (\<exists>e. r = Inl e) \<and> st w1 = st w"
    by (erule quota_inject_cases) (use assms in auto)
  show "quotaRevert k spec ns w = (q, w2) \<Longrightarrow> q \<noteq> None \<and> st w2 = st w"
    unfolding quotaRevert_def Let_def by (erule onFound_cases) (use assms in auto)
qed

lemma pdb_unmanaged:
  assumes "parseLabelSelector (param spec ''labelSelector'') = Inr m"
    and "st w (pdbKey ns (if param spec ''name'' = '''' then generatePDBName m else param spec ''name'')) = Some x"
    and "\<not> isManaged x"
  shows "pdbInject k spec ns w = (r, w1) \<Longrightarrow> (\<exists>e. r = Inl e) \<and> st w1 = st w"
    and "pdbRevert k spec ns w = (q, w2) \<Longrightarrow> q \<noteq> None \<and> st w2 = st w"
proof -
  show "(\<exists>e. r = Inl e) \<and> st w1 = st w" if "pdbInject k spec ns w = (r, w1)"
    using that
  proof (cases rule: pdb_inject_cases)
    case (Put ev m' name y)
    have "m' = m" using Put(1) assms(1) by simp
    with assms(2) have "st w (pdbKey ns name) = Some x" unfolding Put(2) by (simp only:)
    then have "isManaged x" by (rule Put(6))
    then show ?thesis using assms(3) by simp
  qed simp
  show "q \<noteq> None \<and> st w2 = st w" if "pdbRevert k spec ns w = (q, w2)"
    using that unfolding pdbRevert_name [OF assms(1)]
  proof (cases rule: deletePDB_cases)
    case Cleared
    have "isManaged x" by (rule Cleared(3)) (rule assms(2))
    then show ?thesis using assms(3) by simp
  qed simp
qed

end

text \<open>Objects of the same name that the framework does not manage are safe from the quota and the
  eviction injectors: the injection and the revert fail and change nothing.\<close>

theorem unmanaged_objects_survive:
  assumes "cluster_api k st" and "st w key = Some x" and "\<not> isManaged x"
    and "key = quotaKey ns (param spec ''quotaName'') \<and> injector = quotaInjector k \<or>
      parseLabelSelector (param spec ''labelSelector'') = Inr m \<and> injector = pdbInjector k \<and>
      key = pdbKey ns (if param spec ''name'' = '''' then generatePDBName m else param spec ''name'')"
    and "inInject injector spec ns w = (r, w1)" and "inRevert injector spec ns w = (q, w2)"
  shows "(\<exists>e. r = Inl e) \<and> q \<noteq> None \<and> st w1 = st w \<and> st w2 = st w"
  using assms(4)
proof (elim disjE conjE)
  assume a: "key = quotaKey ns (param spec ''quotaName'')" "injector = quotaInjector k"
  show ?thesis
    using cluster_api.quota_unmanaged [OF assms(1), OF assms(2) [unfolded a] assms(3)] assms(5,6) a
    by (simp add: quotaInjector_def)
next
  assume a: "parseLabelSelector (param spec ''labelSelector'') = Inr m" "injector = pdbInjector k"
    "key = pdbKey ns (if param spec ''name'' = '''' then generatePDBName m else param spec ''name'')"
  show ?thesis
    using cluster_api.pdb_unmanaged [OF assms(1), OF a(1) assms(2) [unfolded a(3)] assms(3)] assms(5,6) a(2)
    by (simp add: pdbInjector_def)
qed

text \<open>The network injector makes no such check. Where a policy of that name exists it counts the
  injection as done, without isolating the pods of its own selector, and a revert deletes the
  policy whoever created it.\<close>

theorem network_takes_foreign_policy:
  assumes "cluster_api k st" and "st w (policyKey k spec ns) = Some x"
    and "inInject (networkInjector lib k) spec ns w = (Inr res, w1)"
    and "inRevert (networkInjector lib k) spec ns w1 = (None, w2)"
  shows "st w1 = st w \<and> st w2 = (st w)(policyKey k spec ns := None)"
proof -
  have i: "networkInject k spec ns w = (Inr res, w1)"
    and r: "networkRevert k spec ns w1 = (None, w2)"
    using assms(3,4) by (simp_all add: networkInjector_def)
  have s: "st w1 = st w"
    using i by (rule cluster_api.network_inject_cases [OF assms(1)]) (use assms(2) in simp_all)
  have "st w2 = (st w1)(policyKey k spec ns := None)"
    using r unfolding networkRevert_def Let_def
    by (rule cluster_api.onFound_cases [OF assms(1)])
       (auto simp: s assms(2) elim: cluster_api.deleteGone_cases [OF assms(1)])
  then show ?thesis using s by simp
qed

section \<open>Names\<close>

definition dnsLabelChar :: "char \<Rightarrow> bool" where
  "dnsLabelChar c = (isLower c \<or> isDigit c)"

lemma sanitizeChar_ok: "dnsLabelChar (sanitizeChar c) \<or> sanitizeChar c = CHR ''-''"
  by (simp add: sanitizeChar_def dnsLabelChar_def)

text \<open>The name of a NetworkPolicy is a DNS label: at most 63 bytes, lower-case alphanumeric at both
  ends and with dashes between, provided the hexadecimal digest has only such digits.\<close>

theorem sanitizeK8sName_label:
  assumes "\<forall>s. list_all dnsLabelChar (cdHex cds s)"
  shows "let n = sanitizeK8sName cds policyPrefix input in
    length n \<le> 63 \<and> edgePattern dnsLabelChar (\<lambda>c. dnsLabelChar c \<or> c = CHR ''-'') n"
proof -
  define name0 where "name0 = policyPrefix @ map sanitizeChar (toLower input)"
  define name1 where "name1 = (if length name0 > 63 then take 54 name0 @ ''-'' @ take 8 (cdHex cds input) else name0)"
  let ?ok = "\<lambda>c. dnsLabelChar c \<or> c = CHR ''-''"
  have len: "length name1 \<le> 63" by (simp add: name1_def)
  have "list_all ?ok name0"
    using sanitizeChar_ok by (auto simp: name0_def policyPrefix_def list_all_iff dnsLabelChar_def isLower_def)
  then have ok: "list_all ?ok name1"
    using assms by (auto simp: name1_def list_all_iff dest!: in_set_takeD)
  have "hd name1 = CHR ''o''" "name1 \<noteq> []" by (simp_all add: name1_def name0_def policyPrefix_def)
  then obtain u where u: "name1 = CHR ''o'' # u" by (cases name1) simp_all
  then have n: "sanitizeK8sName cds policyPrefix input = CHR ''o'' # trimRight u ''-.''"
    by (simp add: sanitizeK8sName_def Let_def name0_def [symmetric] name1_def [symmetric] trimRight_Cons
        del: append_Cons)
  have "edgePattern dnsLabelChar ?ok (CHR ''o'' # trimRight u ''-.'')"
    using ok set_trimRight [of u "''-.''"] last_trimRight [of u "''-.''"]
    by (auto simp: edgePattern_def u list_all_iff dnsLabelChar_def isLower_def dest!: in_set_butlastD)
      (metis last_in_set subsetD)+
  then show ?thesis using len length_trimRight [of u "''-.''"] by (simp add: Let_def n u)
qed
end
