(* ===== verification/InjectBackup.thy ===== *)
theory InjectBackup
  imports Injectors Validation
begin

text \<open>
  The injectors that delete an object and keep a backup of it: \<open>secretdeletion.go\<close>,
  \<open>leaseelection.go\<close> and \<open>resourcedeletion.go\<close>. All three write the object as JSON into a Secret
  or ConfigMap of their own before they delete it, and restore it from there.
\<close>

section \<open>Delete with a backup\<close>

definition backupInject ::
  "'w cluster \<Rightarrow> objKey \<Rightarrow> objKey \<Rightarrow> injectionType \<Rightarrow> string \<Rightarrow> (goErr \<Rightarrow> goErr) \<Rightarrow> (goErr \<Rightarrow> goErr) \<Rightarrow>
   goErr \<Rightarrow> (goErr \<Rightarrow> goErr) \<Rightarrow> (goErr \<Rightarrow> goErr) \<Rightarrow> (goErr \<Rightarrow> goErr) \<Rightarrow> (goErr \<Rightarrow> goErr) \<Rightarrow> ('w \<Rightarrow> 'a) \<Rightarrow>
   'w \<Rightarrow> (goErr + 'a) \<times> 'w" where
  "backupInject k key bkey ty dataKey onGet onMarshal refuse onUpdate onCreate onCheck onDelete result =
     fetch k key onGet (\<lambda>x w1.
       case cdMarshalObj (clCodecs k) (key, snd x) of
         Inl err \<Rightarrow> (Inl (onMarshal err), w1)
       | Inr js \<Rightarrow>
           (case putManaged k bkey (ChaosLabels (injectionTypeName ty)) (BData [dataKey \<mapsto> js])
                   refuse onUpdate onCreate onCheck w1 of
              (Some err, w2) \<Rightarrow> (Inl err, w2)
            | (None, w2) \<Rightarrow>
                (case kDelete (cl k) key None w2 of
                   (Some err, w3) \<Rightarrow> (Inl (onDelete err), snd (kDelete (cl k) bkey None w3))
                 | (None, w3) \<Rightarrow> (Inr (result w3), w3))))"

text \<open>Create the object again from its backup; another one in its place counts as restored.\<close>

definition recreate ::
  "'w cluster \<Rightarrow> string \<Rightarrow> (objKey \<Rightarrow> objKey) \<Rightarrow> (kobject \<Rightarrow> kobject) \<Rightarrow> goErr \<Rightarrow> (goErr \<Rightarrow> goErr) \<Rightarrow>
   (goErr \<Rightarrow> goErr) \<Rightarrow> vobject \<Rightarrow> 'w \<Rightarrow> goErr option \<times> 'w" where
  "recreate k dataKey toKey clean onMissing onParse onCreate backup w =
     (case dataOf backup dataKey of
        None \<Rightarrow> (Some onMissing, w)
      | Some js \<Rightarrow>
          (case cdUnmarshalObj (clCodecs k) js of
             Inl err \<Rightarrow> (Some (onParse err), w)
           | Inr (key, ob) \<Rightarrow>
               (case kCreate (cl k) (toKey key) (0, clean ob) w of
                  (Some err, w1) \<Rightarrow> if isAlreadyExists err then (None, w1) else (Some (onCreate err), w1)
                | (None, w1) \<Rightarrow> (None, w1))))"


text \<open>Recreate the object only when nobody else has done so.\<close>

definition unlessThere ::
  "'w cluster \<Rightarrow> objKey \<Rightarrow> (goErr \<Rightarrow> goErr) \<Rightarrow> ('w \<Rightarrow> goErr option \<times> 'w) \<Rightarrow> 'w \<Rightarrow> goErr option \<times> 'w" where
  "unlessThere k key onCheck f w =
     (case kGet (cl k) key w of
        (Inr x, w1) \<Rightarrow> (None, w1)
      | (Inl err, w1) \<Rightarrow> if isNotFound err then f w1 else (Some (onCheck err), w1))"

section \<open>Secrets\<close>

definition secretKey :: "string \<Rightarrow> string \<Rightarrow> objKey" where
  "secretKey ns name = (''Secret'', ns, name)"

definition targetNamespace :: "injectionSpec \<Rightarrow> string \<Rightarrow> string" where
  "targetNamespace spec ns = (if param spec ''namespace'' = '''' then ns else param spec ''namespace'')"

definition restoreSecret :: "'w cluster \<Rightarrow> string \<Rightarrow> string \<Rightarrow> 'w \<Rightarrow> goErr option \<times> 'w" where
  "restoreSecret k secretName ns =
     (let bkpKey = secretKey ns (backupSecretName secretName);
          bkpText = keyText ns (backupSecretName secretName)
      in onFound k bkpKey (\<lambda>err. Errorf ''getting backup Secret %s: %w'' [AStr bkpText, AErr err])
           (\<lambda>backup w1.
              andThen
                (recreate k ''secret-backup'' (\<lambda>key. (''Secret'', snd key)) id
                  (Errorf ''backup Secret %s missing 'secret-backup' key'' [AStr bkpText])
                  (\<lambda>err. Errorf ''deserializing Secret from backup: %w'' [AErr err])
                  (\<lambda>err. Errorf ''restoring Secret %s/%s: %w'' [AStr ns, AStr secretName, AErr err])
                  backup w1)
                (deleteGone k bkpKey (\<lambda>err. Errorf ''deleting backup Secret %s: %w'' [AStr bkpText, AErr err]))))"

definition secretDeletionInject ::
  "'w cluster \<Rightarrow> injectionSpec \<Rightarrow> string \<Rightarrow> 'w \<Rightarrow>
   (goErr + 'w cleanupFunc option \<times> injectionEvent list) \<times> 'w" where
  "secretDeletionInject k spec ns =
     (let secretName = param spec ''name''; targetNs = targetNamespace spec ns;
          bkpName = backupSecretName secretName; text = keyText targetNs secretName
      in backupInject k (secretKey targetNs secretName) (secretKey targetNs bkpName) SecretDeletion ''secret-backup''
           (\<lambda>err. Errorf ''getting Secret %s: %w'' [AStr text, AErr err])
           (\<lambda>err. Errorf ''serializing Secret %s: %w'' [AStr text, AErr err])
           (Errorf ''backup Secret %q already exists in namespace %q and is not chaos-managed; refusing to overwrite''
             [AStr bkpName, AStr targetNs])
           (\<lambda>err. Errorf ''updating stale backup Secret: %w'' [AErr err])
           (\<lambda>err. Errorf ''creating backup Secret %s: %w'' [AStr bkpName, AErr err])
           (\<lambda>err. Errorf ''checking for existing backup Secret: %w'' [AErr err])
           (\<lambda>err. Errorf ''deleting Secret %s: %w'' [AStr text, AErr err])
           (\<lambda>w. (Some (restoreSecret k secretName targetNs),
             [NewEvent (clNow k w) SecretDeletion text ''deleted''
               [''namespace'' \<mapsto> targetNs, ''secret'' \<mapsto> secretName]])))"

definition secretDeletionInjector :: "'w cluster \<Rightarrow> 'w injector" where
  "secretDeletionInjector k =
     \<lparr>inValidate = \<lambda>spec blast. validateSecretDeletionParams spec,
      inInject = secretDeletionInject k,
      inRevert = \<lambda>spec ns. restoreSecret k (param spec ''name'') (targetNamespace spec ns)\<rparr>"

section \<open>Leader election\<close>

definition leaseElectionKey :: "string \<Rightarrow> string \<Rightarrow> objKey" where
  "leaseElectionKey ns name = (''Lease'', ns, name)"

definition restoreLease :: "'w cluster \<Rightarrow> string \<Rightarrow> string \<Rightarrow> 'w \<Rightarrow> goErr option \<times> 'w" where
  "restoreLease k leaseName ns =
     (let cmKey = (''ConfigMap'', ns, backupLeaseName leaseName);
          cmText = keyText ns (backupLeaseName leaseName)
      in onFound k cmKey (\<lambda>err. Errorf ''getting backup ConfigMap %s: %w'' [AStr cmText, AErr err])
           (\<lambda>backup w1.
              andThen
                (unlessThere k (leaseElectionKey ns leaseName)
                  (\<lambda>err. Errorf ''checking if Lease %s was recreated: %w'' [AStr (keyText ns leaseName), AErr err])
                  (recreate k ''lease-backup'' (\<lambda>key. (''Lease'', snd key)) id
                    (Errorf ''backup ConfigMap %s missing 'lease-backup' key'' [AStr cmText])
                    (\<lambda>err. Errorf ''deserializing Lease from backup: %w'' [AErr err])
                    (\<lambda>err. Errorf ''restoring Lease %s/%s: %w'' [AStr ns, AStr leaseName, AErr err])
                    backup) w1)
                (deleteGone k cmKey (\<lambda>err. Errorf ''deleting backup ConfigMap %s: %w'' [AStr cmText, AErr err]))))"

definition leaseElectionInject ::
  "'w cluster \<Rightarrow> injectionSpec \<Rightarrow> string \<Rightarrow> 'w \<Rightarrow>
   (goErr + 'w cleanupFunc option \<times> injectionEvent list) \<times> 'w" where
  "leaseElectionInject k spec ns =
     (let leaseName = param spec ''name''; cmName = backupLeaseName leaseName; text = keyText ns leaseName
      in backupInject k (leaseElectionKey ns leaseName) (''ConfigMap'', ns, cmName) LeaderElectionDisrupt
           ''lease-backup''
           (\<lambda>err. Errorf ''getting Lease %s: %w'' [AStr text, AErr err])
           (\<lambda>err. Errorf ''serializing Lease %s: %w'' [AStr text, AErr err])
           (Errorf ''configMap %q already exists in namespace %q and is not chaos-managed; refusing to overwrite''
             [AStr cmName, AStr ns])
           (\<lambda>err. Errorf ''updating stale backup ConfigMap: %w'' [AErr err])
           (\<lambda>err. Errorf ''creating backup ConfigMap %s: %w'' [AStr cmName, AErr err])
           (\<lambda>err. Errorf ''checking for existing backup ConfigMap: %w'' [AErr err])
           (\<lambda>err. Errorf ''deleting Lease %s: %w'' [AStr text, AErr err])
           (\<lambda>w. (Some (restoreLease k leaseName ns),
             [NewEvent (clNow k w) LeaderElectionDisrupt text ''deleted''
               [''namespace'' \<mapsto> ns, ''lease'' \<mapsto> leaseName]])))"

definition leaseElectionInjector :: "'w cluster \<Rightarrow> 'w injector" where
  "leaseElectionInjector k =
     \<lparr>inValidate = \<lambda>spec blast. validateLeaseElectionParams spec,
      inInject = leaseElectionInject k,
      inRevert = \<lambda>spec ns. restoreLease k (param spec ''name'') ns\<rparr>"

section \<open>Resources of any kind\<close>

definition restoreResource ::
  "'w cluster \<Rightarrow> string \<Rightarrow> string \<Rightarrow> string \<Rightarrow> string \<Rightarrow> 'w \<Rightarrow> goErr option \<times> 'w" where
  "restoreResource k apiVersion kind name ns =
     (let bkpKey = secretKey ns (backupResourceName kind name);
          bkpText = keyText ns (backupResourceName kind name)
      in onFound k bkpKey (\<lambda>err. Errorf ''getting backup Secret %s: %w'' [AStr bkpText, AErr err])
           (\<lambda>backup w1.
              andThen
                (unlessThere k (clKind k apiVersion kind, ns, name)
                  (\<lambda>err. Errorf ''checking if %s/%s was recreated: %w'' [AStr kind, AStr name, AErr err])
                  (recreate k ''resource-backup'' id (\<lambda>ob. ob\<lparr>obFinalizers := []\<rparr>)
                    (Errorf ''backup Secret %s missing 'resource-backup' key'' [AStr bkpText])
                    (\<lambda>err. Errorf ''deserializing resource from backup: %w'' [AErr err])
                    (\<lambda>err. Errorf ''restoring %s/%s/%s: %w'' [AStr ns, AStr kind, AStr name, AErr err])
                    backup) w1)
                (deleteGone k bkpKey (\<lambda>err. Errorf ''deleting backup Secret %s: %w'' [AStr bkpText, AErr err]))))"

definition resourceDeletionInject ::
  "'w cluster \<Rightarrow> injectionSpec \<Rightarrow> string \<Rightarrow> 'w \<Rightarrow>
   (goErr + 'w cleanupFunc option \<times> injectionEvent list) \<times> 'w" where
  "resourceDeletionInject k spec ns =
     (let apiVersion = param spec ''apiVersion''; kind = param spec ''kind''; name = param spec ''name'';
          targetNs = targetNamespace spec ns; bkpName = backupResourceName kind name
      in backupInject k (clKind k apiVersion kind, targetNs, name) (secretKey targetNs bkpName) ResourceDeletion
           ''resource-backup''
           (\<lambda>err. Errorf ''getting %s/%s: %w'' [AStr kind, AStr name, AErr err])
           (\<lambda>err. Errorf ''serializing %s/%s: %w'' [AStr kind, AStr name, AErr err])
           (Errorf ''secret %q already exists in namespace %q and is not chaos-managed; refusing to overwrite''
             [AStr bkpName, AStr targetNs])
           (\<lambda>err. Errorf ''updating stale backup Secret: %w'' [AErr err])
           (\<lambda>err. Errorf ''creating backup Secret %s: %w'' [AStr bkpName, AErr err])
           (\<lambda>err. Errorf ''checking for existing backup Secret: %w'' [AErr err])
           (\<lambda>err. Errorf ''deleting %s/%s: %w'' [AStr kind, AStr name, AErr err])
           (\<lambda>w. (Some (restoreResource k apiVersion kind name targetNs),
             [NewEvent (clNow k w) ResourceDeletion (keyText targetNs name) ''deleted''
               [''namespace'' \<mapsto> targetNs, ''kind'' \<mapsto> kind, ''apiVersion'' \<mapsto> apiVersion, ''name'' \<mapsto> name]])))"

definition resourceDeletionInjector :: "'w cluster \<Rightarrow> 'w injector" where
  "resourceDeletionInjector k =
     \<lparr>inValidate = \<lambda>spec blast. validateResourceDeletionParams spec,
      inInject = resourceDeletionInject k,
      inRevert = \<lambda>spec ns. restoreResource k (param spec ''apiVersion'') (param spec ''kind'') (param spec ''name'')
        (targetNamespace spec ns)\<rparr>"

section \<open>The contract\<close>

text \<open>The fault is in effect while the object is gone and its backup is there.\<close>

definition backupActive :: "('w \<Rightarrow> objKey \<rightharpoonup> vobject) \<Rightarrow> objKey \<Rightarrow> objKey \<Rightarrow> 'w \<Rightarrow> bool" where
  "backupActive st key bkey w = (st w key = None \<and> st w bkey \<noteq> None)"

lemma backup_names [simp]:
  "backupSecretName n \<noteq> n" "backupResourceName kind n \<noteq> n"
proof -
  have "length n < length (backupSecretName n)" "length n < length (backupResourceName kind n)"
    by (simp_all add: backupSecretName_def backupResourceName_def)
  then show "backupSecretName n \<noteq> n" "backupResourceName kind n \<noteq> n" by auto
qed

context cluster_api
begin

lemma backupInject_cases [consumes 2, case_names Failed Done]:
  assumes "backupInject k key bkey ty dk e1 e2 e3 e4 e5 e6 e7 result w = (r, w')" and "bkey \<noteq> key"
  obtains e where "r = Inl e" "st w' = st w \<or> st w' key \<noteq> None"
  | x js y where "r = Inr (result w')" "st w key = Some x"
      "cdMarshalObj (clCodecs k) (key, snd x) = Inr js" "obBody (snd y) = BData [dk \<mapsto> js]"
      "obLabels (snd y) = ChaosLabels (injectionTypeName ty)" "st w' = (st w)(bkey \<mapsto> y, key := None)"
  using assms(1) unfolding backupInject_def
proof (cases rule: fetch_cases)
  case (Found x w1)
  show thesis
  proof (cases "cdMarshalObj (clCodecs k) (key, snd x)")
    case (Inl err)
    show thesis by (rule that(1)) (use Found Inl in auto)
  next
    case (Inr js)
    obtain p w2 where p: "putManaged k bkey (ChaosLabels (injectionTypeName ty)) (BData [dk \<mapsto> js]) e3 e4 e5 e6 w1 = (p, w2)"
      by (rule prod.exhaust)
    from p show thesis
    proof (cases rule: putManaged_cases)
      case (Failed e)
      show thesis by (rule that(1)) (use Found Inr p Failed in auto)
    next
      case (Put y)
      obtain d w3 where d: "kDelete (cl k) key None w2 = (d, w3)" by (rule prod.exhaust)
      show thesis
      proof (cases d)
        case (Some err)
        have "st w3 = st w2" using delete_err d Some by blast
        moreover obtain q w4 where q: "kDelete (cl k) bkey None w3 = (q, w4)" by (rule prod.exhaust)
        moreover have "st w4 key = st w3 key"
          using delete_ok [of bkey None w3 w4] delete_err [of bkey None w3 _ w4] q assms(2) by (cases q) auto
        ultimately have "st w4 key = Some x" using Put(2) Found(1,2) assms(2) by simp
        then show thesis
          by (intro that(1)) (use Found Inr p Put d Some q in auto)
      next
        case None
        have "st w3 = (st w2)(key := None)" using delete_ok d None by blast
        then show thesis
          by (intro that(2) [of x js y]) (use Found Inr p Put d None in auto)
      qed
    qed
  qed
qed (rule that(1); blast)

lemma recreate_cases [consumes 1, case_names Failed Exists Created]:
  assumes "recreate k dk toKey clean e1 e2 e3 b w = (r, w')"
  obtains e where "r = Some e" "st w' = st w"
  | js key ob where "r = None" "dataOf b dk = Some js" "cdUnmarshalObj (clCodecs k) js = Inr (key, ob)"
      "st w (toKey key) \<noteq> None" "st w' = st w"
  | js key ob z where "r = None" "dataOf b dk = Some js" "cdUnmarshalObj (clCodecs k) js = Inr (key, ob)"
      "st w (toKey key) = None" "snd z = clean ob" "st w' = (st w)(toKey key \<mapsto> z)"
proof (cases "dataOf b dk")
  case None
  show thesis by (rule that(1)) (use assms None in \<open>auto simp: recreate_def\<close>)
next
  case (Some js)
  show thesis
  proof (cases "cdUnmarshalObj (clCodecs k) js")
    case (Inl err)
    show thesis by (rule that(1)) (use assms Some Inl in \<open>auto simp: recreate_def\<close>)
  next
    case (Inr p)
    then obtain key ob where i: "cdUnmarshalObj (clCodecs k) js = Inr (key, ob)" by (cases p) auto
    obtain c v where c: "kCreate (cl k) (toKey key) (0, clean ob) w = (c, v)" by (rule prod.exhaust)
    from c show thesis
    proof (cases rule: create_cases)
      case (Failed e)
      show thesis by (rule that(1)) (use assms Some i c Failed in \<open>auto simp: recreate_def\<close>)
    next
      case (Exists e)
      show thesis by (rule that(2)) (use assms Some i c Exists in \<open>auto simp: recreate_def\<close>)
    next
      case (Created z)
      show thesis by (rule that(3)) (use assms Some i c Created in \<open>auto simp: recreate_def\<close>)
    qed
  qed
qed

text \<open>What a restore does before it deletes the backup adds objects at most.\<close>

definition addsOnly :: "('w \<Rightarrow> goErr option \<times> 'w) \<Rightarrow> bool" where
  "addsOnly f = (\<forall>v r v' key. f v = (r, v') \<longrightarrow> st v key \<noteq> None \<longrightarrow> st v' key \<noteq> None)"

lemma addsOnly_recreate [simp]: "addsOnly (recreate k dk toKey clean e1 e2 e3 b)"
  unfolding addsOnly_def by (auto elim!: recreate_cases)

lemma addsOnly_unlessThere [simp]:
  assumes "addsOnly f"
  shows "addsOnly (unlessThere k key e f)"
  unfolding addsOnly_def
proof (intro allI impI)
  fix v r v' key' assume u: "unlessThere k key e f v = (r, v')" and s: "st v key' \<noteq> None"
  obtain q v1 where g: "kGet (cl k) key v = (q, v1)" by (rule prod.exhaust)
  have "st v1 = st v" using get_frame [of key v] g by simp
  then show "st v' key' \<noteq> None"
    using u g s assms unfolding addsOnly_def unlessThere_def by (cases q) (auto split: if_splits)
qed

lemma restoreBackup_effect:
  assumes "onFound k bkey e1 (\<lambda>b w1. andThen (f b w1) (deleteGone k bkey e2)) w = (r, w')"
    and "\<And>b. addsOnly (f b)" and "bkey \<noteq> key"
  shows "(r = None \<longrightarrow> st w' bkey = None) \<and> (st w bkey = None \<longrightarrow> st w' bkey = None) \<and>
    (st w key \<noteq> None \<longrightarrow> st w' key \<noteq> None)"
  using assms(1)
proof (cases rule: onFound_cases)
  case (Found b w1)
  obtain q w2 where f: "f b w1 = (q, w2)" by (rule prod.exhaust)
  have keep: "st w1 key \<noteq> None \<Longrightarrow> st w2 key \<noteq> None" using assms(2) f unfolding addsOnly_def by blast
  show ?thesis
  proof (cases q)
    case (Some e)
    then show ?thesis using Found f keep by (auto simp: andThen_def)
  next
    case None
    then have "deleteGone k bkey e2 w2 = (r, w')" using Found f by (simp add: andThen_def)
    then show ?thesis by (cases rule: deleteGone_cases) (use Found keep assms(3) in auto)
  qed
qed simp_all

lemma backup_injector:
  fixes i :: "'w injector"
  assumes restore: "restore = onFound k bkey d1 (\<lambda>b w1. andThen (f b w1) (deleteGone k bkey d2))"
    and inject: "act = backupInject k key bkey ty dk e1 e2 e3 e4 e5 e6 e7 (\<lambda>w. (Some restore, g w))"
    and ops: "inInject i spec ns = act" "inRevert i spec ns = restore"
    and adds: "\<And>b. addsOnly (f b)" and diff: "bkey \<noteq> key"
  shows "restoring_injector i spec ns (backupActive st key bkey) restore"
proof
  fix w co ev w' assume "inInject i spec ns w = (Inr (co, ev), w')"
  then show "co = Some restore"
    unfolding ops inject by (auto elim!: backupInject_cases [OF _ diff])
next
  fix w e w' assume i: "inInject i spec ns w = (Inl e, w')" and a: "backupActive st key bkey w'"
  from i have "st w' = st w \<or> st w' key \<noteq> None"
    unfolding ops inject by (auto elim!: backupInject_cases [OF _ diff])
  then show "backupActive st key bkey w" using a by (auto simp: backupActive_def)
next
  fix w w' assume "restore w = (None, w')"
  then show "\<not> backupActive st key bkey w'"
    unfolding restore using restoreBackup_effect [OF _ adds diff] by (simp add: backupActive_def)
next
  fix w r w' assume "restore w = (r, w')" "\<not> backupActive st key bkey w"
  then show "\<not> backupActive st key bkey w'"
    unfolding restore using restoreBackup_effect [OF _ adds diff] by (auto simp: backupActive_def)
qed (simp add: ops)

end


sublocale cluster_api \<subseteq> secretDeletion: restoring_injector "secretDeletionInjector k" spec ns
    "backupActive st (secretKey (targetNamespace spec ns) (param spec ''name''))
       (secretKey (targetNamespace spec ns) (backupSecretName (param spec ''name'')))"
    "restoreSecret k (param spec ''name'') (targetNamespace spec ns)"
  for spec ns
  by (rule backup_injector [OF restoreSecret_def [unfolded Let_def]
        secretDeletionInject_def [of k spec ns, unfolded Let_def]])
     (simp_all add: secretDeletionInjector_def secretKey_def)

sublocale cluster_api \<subseteq> leaseElection: restoring_injector "leaseElectionInjector k" spec ns
    "backupActive st (leaseElectionKey ns (param spec ''name''))
       (''ConfigMap'', ns, backupLeaseName (param spec ''name''))"
    "restoreLease k (param spec ''name'') ns"
  for spec ns
  by (rule backup_injector [OF restoreLease_def [unfolded Let_def]
        leaseElectionInject_def [of k spec ns, unfolded Let_def]])
     (simp_all add: leaseElectionInjector_def leaseElectionKey_def)

sublocale cluster_api \<subseteq> resourceDeletion: restoring_injector "resourceDeletionInjector k" spec ns
    "backupActive st (clKind k (param spec ''apiVersion'') (param spec ''kind''), targetNamespace spec ns, param spec ''name'')
       (secretKey (targetNamespace spec ns) (backupResourceName (param spec ''kind'') (param spec ''name'')))"
    "restoreResource k (param spec ''apiVersion'') (param spec ''kind'') (param spec ''name'') (targetNamespace spec ns)"
  for spec ns
  by (rule backup_injector [OF restoreResource_def [unfolded Let_def]
        resourceDeletionInject_def [of k spec ns, unfolded Let_def]])
     (simp_all add: resourceDeletionInjector_def secretKey_def)

section \<open>Round trips\<close>

definition objCodec :: "codecs \<Rightarrow> bool" where
  "objCodec cds = (\<forall>x js. cdMarshalObj cds x = Inr js \<longrightarrow> cdUnmarshalObj cds js = Inr x)"

context cluster_api
begin

text \<open>A restore step that finds its object gone brings back what the backup holds.\<close>

definition bringsBack :: "objKey \<Rightarrow> string \<Rightarrow> (kobject \<Rightarrow> kobject) \<Rightarrow> (vobject \<Rightarrow> 'w \<Rightarrow> goErr option \<times> 'w) \<Rightarrow> bool" where
  "bringsBack key dk clean f = (\<forall>b js ob v v'. f b v = (None, v') \<longrightarrow> dataOf b dk = Some js \<longrightarrow>
     cdUnmarshalObj (clCodecs k) js = Inr (key, ob) \<longrightarrow> st v key = None \<longrightarrow>
     (\<exists>z. snd z = clean ob \<and> st v' = (st v)(key \<mapsto> z)))"

lemma bringsBack_recreate:
  assumes "toKey key = key"
  shows "bringsBack key dk clean (recreate k dk toKey clean e1 e2 e3)"
  unfolding bringsBack_def
proof (intro allI impI)
  fix b js ob v v' assume r: "recreate k dk toKey clean e1 e2 e3 b v = (None, v')"
    and d: "dataOf b dk = Some js" "cdUnmarshalObj (clCodecs k) js = Inr (key, ob)" "st v key = None"
  from r show "\<exists>z. snd z = clean ob \<and> st v' = (st v)(key \<mapsto> z)"
    by (cases rule: recreate_cases) (use d assms in auto)
qed

lemma bringsBack_unlessThere:
  assumes "bringsBack key dk clean f"
  shows "bringsBack key dk clean (\<lambda>b. unlessThere k key e (f b))"
  unfolding bringsBack_def
proof (intro allI impI)
  fix b js ob v v' assume u: "unlessThere k key e (f b) v = (None, v')"
    and d: "dataOf b dk = Some js" "cdUnmarshalObj (clCodecs k) js = Inr (key, ob)" "st v key = None"
  obtain q v1 where g: "kGet (cl k) key v = (q, v1)" by (rule prod.exhaust)
  have s: "st v1 = st v" using get_frame [of key v] g by simp
  have "f b v1 = (None, v')"
    using u g d(3) get_ok [of key v _ v1] unfolding unlessThere_def by (cases q) (auto split: if_splits)
  then show "\<exists>z. snd z = clean ob \<and> st v' = (st v)(key \<mapsto> z)"
    using assms d s unfolding bringsBack_def by fastforce
qed

lemma backup_roundtrip:
  assumes inject: "backupInject k key bkey ty dk e1 e2 e3 e4 e5 e6 e7 result w = (Inr res, w1)"
    and restore: "onFound k bkey d1 (\<lambda>b v. andThen (f b v) (deleteGone k bkey d2)) w1 = (None, w2)"
    and codec: "objCodec (clCodecs k)" and f: "bringsBack key dk clean f" and diff: "bkey \<noteq> key"
  shows "\<exists>x z. st w key = Some x \<and> st w1 key = None \<and> st w2 = (st w)(bkey := None, key \<mapsto> z) \<and>
    snd z = clean (snd x)"
  using inject diff
proof (cases rule: backupInject_cases)
  case (Done x js y)
  have js: "cdUnmarshalObj (clCodecs k) js = Inr (key, snd x)" using codec Done(3) by (simp add: objCodec_def)
  from restore show ?thesis
  proof (cases rule: onFound_cases)
    case (Found b v)
    have b: "b = y" using Found(1) Done(6) diff by simp
    then have d: "dataOf b dk = Some js" using Done(4) by (simp add: dataOf_def)
    obtain q v1 where q: "f b v = (q, v1)" by (rule prod.exhaust)
    then have n: "q = None" "deleteGone k bkey d2 v1 = (None, w2)"
      using Found(3) by (auto simp: andThen_def split: option.splits)
    have "st v key = None" using Found(2) Done(6) by simp
    then obtain z where z: "snd z = clean (snd x)" "st v1 = (st v)(key \<mapsto> z)"
      using f q n(1) d js unfolding bringsBack_def by blast
    have "st w2 = (st v1)(bkey := None)" using n(2) by (cases rule: deleteGone_cases) simp_all
    also have "\<dots> = (st w)(bkey := None, key \<mapsto> z)"
      using z(2) Found(2) Done(6) diff by (auto simp: fun_eq_iff)
    finally show ?thesis using z(1) Done(2,6) by auto
  qed (use Done(6) diff in simp_all)
qed simp

end


text \<open>A deleted Secret comes back exactly as it was, and the backup is gone, provided JSON reads back what
  it wrote and nobody changed the cluster in between.\<close>

theorem secretDeletion_roundtrip:
  assumes "cluster_api k st" and "objCodec (clCodecs k)"
    and "inInject (secretDeletionInjector k) spec ns w = (Inr res, w1)"
    and "inRevert (secretDeletionInjector k) spec ns w1 = (None, w2)"
  shows "let key = secretKey (targetNamespace spec ns) (param spec ''name'');
             bkey = secretKey (targetNamespace spec ns) (backupSecretName (param spec ''name''))
    in \<exists>x z. st w key = Some x \<and> st w1 key = None \<and> st w2 = (st w)(bkey := None, key \<mapsto> z) \<and> snd z = snd x"
proof -
  let ?key = "secretKey (targetNamespace spec ns) (param spec ''name'')"
  let ?bkey = "secretKey (targetNamespace spec ns) (backupSecretName (param spec ''name''))"
  have "?bkey \<noteq> ?key" "(''Secret'', snd ?key) = ?key" by (simp_all add: secretKey_def)
  moreover note cluster_api.backup_roundtrip [OF assms(1),
      OF assms(3) [unfolded secretDeletionInjector_def injector.simps secretDeletionInject_def Let_def]
         assms(4) [unfolded secretDeletionInjector_def injector.simps restoreSecret_def Let_def] assms(2)
         cluster_api.bringsBack_recreate [OF assms(1)]]
  ultimately show ?thesis by (simp add: Let_def)
qed

theorem leaseElection_roundtrip:
  assumes "cluster_api k st" and "objCodec (clCodecs k)"
    and "inInject (leaseElectionInjector k) spec ns w = (Inr res, w1)"
    and "inRevert (leaseElectionInjector k) spec ns w1 = (None, w2)"
  shows "let key = leaseElectionKey ns (param spec ''name'');
             bkey = (''ConfigMap'', ns, backupLeaseName (param spec ''name''))
    in \<exists>x z. st w key = Some x \<and> st w1 key = None \<and> st w2 = (st w)(bkey := None, key \<mapsto> z) \<and> snd z = snd x"
proof -
  let ?key = "leaseElectionKey ns (param spec ''name'')"
  have "(''ConfigMap'', ns, backupLeaseName (param spec ''name'')) \<noteq> ?key" "(''Lease'', snd ?key) = ?key"
    by (simp_all add: leaseElectionKey_def)
  moreover note cluster_api.backup_roundtrip [OF assms(1),
      OF assms(3) [unfolded leaseElectionInjector_def injector.simps leaseElectionInject_def Let_def]
         assms(4) [unfolded leaseElectionInjector_def injector.simps restoreLease_def Let_def] assms(2)
         cluster_api.bringsBack_unlessThere [OF assms(1) cluster_api.bringsBack_recreate [OF assms(1)]]]
  ultimately show ?thesis by (simp add: Let_def)
qed

text \<open>A resource of another kind comes back without the finalizers it had.\<close>

theorem resourceDeletion_roundtrip:
  assumes "cluster_api k st" and "objCodec (clCodecs k)"
    and "inInject (resourceDeletionInjector k) spec ns w = (Inr res, w1)"
    and "inRevert (resourceDeletionInjector k) spec ns w1 = (None, w2)"
  shows "let key = (clKind k (param spec ''apiVersion'') (param spec ''kind''), targetNamespace spec ns, param spec ''name'');
             bkey = secretKey (targetNamespace spec ns) (backupResourceName (param spec ''kind'') (param spec ''name''))
    in \<exists>x z. st w key = Some x \<and> st w1 key = None \<and> st w2 = (st w)(bkey := None, key \<mapsto> z) \<and>
         snd z = (snd x)\<lparr>obFinalizers := []\<rparr>"
proof -
  let ?key = "(clKind k (param spec ''apiVersion'') (param spec ''kind''), targetNamespace spec ns, param spec ''name'')"
  have "secretKey (targetNamespace spec ns) (backupResourceName (param spec ''kind'') (param spec ''name'')) \<noteq> ?key"
    by (simp add: secretKey_def)
  moreover note cluster_api.backup_roundtrip [OF assms(1),
      OF assms(3) [unfolded resourceDeletionInjector_def injector.simps resourceDeletionInject_def Let_def]
         assms(4) [unfolded resourceDeletionInjector_def injector.simps restoreResource_def Let_def] assms(2)
         cluster_api.bringsBack_unlessThere [OF assms(1) cluster_api.bringsBack_recreate [OF assms(1)]]]
  ultimately show ?thesis by (simp add: Let_def)
qed

section \<open>Witnesses\<close>

definition backupDemoSpec :: injectionSpec where
  "backupDemoSpec = \<lparr>injType = SecretDeletion, injParams = [''name'' \<mapsto> ''tls''], injCount = 1,
     injTTL = 0, injDanger = DangerLevelHigh\<rparr>"

definition backupDemoSecret :: vobject where
  "backupDemoSecret = newObject Map.empty Map.empty (BData [''key'' \<mapsto> ''pem''])"

definition backupDemoKey :: objKey where
  "backupDemoKey = (''Secret'', ''ns1'', ''tls'')"

definition backupDemoCodecs :: codecs where
  "backupDemoCodecs = demoCodecs
     \<lparr>cdMarshalObj := \<lambda>x. if x = (backupDemoKey, snd backupDemoSecret) then Inr ''{}'' else Inl noCodec,
      cdUnmarshalObj := \<lambda>s. Inr (backupDemoKey, snd backupDemoSecret)\<rparr>"

definition backupDemoCluster :: "(objKey, kobject) memWorld cluster" where
  "backupDemoCluster = memCluster\<lparr>clCodecs := backupDemoCodecs\<rparr>"

definition backupDemoWorld :: "(objKey, kobject) memWorld" where
  "backupDemoWorld = \<lparr>memObjs = [backupDemoKey \<mapsto> backupDemoSecret], memNext = 1, memNow = 0\<rparr>"

lemma backupDemo_api: "cluster_api backupDemoCluster memObjs"
  using memCl.cluster_api_axioms
  by (simp add: cluster_api_def cluster_api_axioms_def backupDemoCluster_def)

theorem secretDeletion_roundtrip_witness:
  "\<exists>res w1 w2 z. inInject (secretDeletionInjector backupDemoCluster) backupDemoSpec ''ns1'' backupDemoWorld = (Inr res, w1) \<and>
     inRevert (secretDeletionInjector backupDemoCluster) backupDemoSpec ''ns1'' w1 = (None, w2) \<and>
     memObjs w2 backupDemoKey = Some z \<and> snd z = snd backupDemoSecret"
proof -
  let ?i = "secretDeletionInjector backupDemoCluster"
  note d = secretDeletionInjector_def secretDeletionInject_def restoreSecret_def backupInject_def Let_def
    backupDemoCluster_def backupDemoWorld_def backupDemoSpec_def backupDemoKey_def backupDemoCodecs_def
    fetch_def onFound_def putManaged_def recreate_def andThen_def deleteGone_def wrapW_def mem_ops
    secretKey_def targetNamespace_def backupSecretName_def mget_def dataOf_def
  have "\<exists>res w1. inInject ?i backupDemoSpec ''ns1'' backupDemoWorld = (Inr res, w1) \<and>
      fst (inRevert ?i backupDemoSpec ''ns1'' w1) = None"
    by (simp add: d)
  then obtain res w1 w2 where i: "inInject ?i backupDemoSpec ''ns1'' backupDemoWorld = (Inr res, w1)"
    and r: "inRevert ?i backupDemoSpec ''ns1'' w1 = (None, w2)" by (metis prod.collapse)
  have c: "objCodec (clCodecs backupDemoCluster)"
    by (auto simp: objCodec_def backupDemoCluster_def backupDemoCodecs_def split: if_splits)
  have "secretKey (targetNamespace backupDemoSpec ''ns1'') (param backupDemoSpec ''name'') = backupDemoKey"
    by (simp add: d)
  with secretDeletion_roundtrip [OF backupDemo_api c i r] i r show ?thesis
    by (auto simp: Let_def backupDemoWorld_def)
qed

end
