(* ===== verification/InjectMeta.thy ===== *)
theory InjectMeta
  imports Injectors Validation
begin

text \<open>
  The injectors that change an object in place and keep what they changed in its rollback
  annotation: \<open>labelstomping.go\<close>, \<open>finalizer.go\<close>, \<open>rbac.go\<close> and \<open>configdrift.go\<close>. The fault is in
  effect while the object carries the annotation.
\<close>

definition rollbackPending :: "('w \<Rightarrow> objKey \<rightharpoonup> vobject) \<Rightarrow> objKey \<Rightarrow> 'w \<Rightarrow> bool" where
  "rollbackPending st key w = objAt (\<lambda>d. obAnnotations d RollbackAnnotationKey \<noteq> None) (st w) key"

section \<open>Label stomping\<close>

text \<open>A JSON merge patch of a map: \<open>Some None\<close> is a null, which removes the key.\<close>

definition jsonMerge :: "(string \<rightharpoonup> string option) \<Rightarrow> strmap \<Rightarrow> strmap" where
  "jsonMerge p m = (\<lambda>a. case p a of None \<Rightarrow> m a | Some v \<Rightarrow> v)"

definition patchMetadata ::
  "(string \<rightharpoonup> string option) \<Rightarrow> (string \<rightharpoonup> string option) \<Rightarrow> vobject \<Rightarrow> vobject" where
  "patchMetadata labels annotations x =
     setLabels (jsonMerge labels (obLabels (snd x)))
       (setAnnotations (jsonMerge annotations (obAnnotations (snd x))) x)"

definition stompKey :: "'w cluster \<Rightarrow> injectionSpec \<Rightarrow> string \<Rightarrow> objKey" where
  "stompKey k spec ns = (clKind k (param spec ''apiVersion'') (param spec ''kind''), ns, param spec ''name'')"

definition stompRestorePatch :: "string \<Rightarrow> string option \<Rightarrow> vobject \<Rightarrow> vobject" where
  "stompRestorePatch labelKey v =
     patchMetadata ((\<lambda>a. if ChaosLabels (injectionTypeName LabelStomping) a \<noteq> None then Some None else None)
         (labelKey \<mapsto> v))
       [RollbackAnnotationKey \<mapsto> None]"

definition stompCleanup ::
  "'w cluster \<Rightarrow> objKey \<Rightarrow> string \<Rightarrow> string option \<Rightarrow> 'w \<Rightarrow> goErr option \<times> 'w" where
  "stompCleanup k key labelKey v w =
     reread k key (\<lambda>err. Errorf ''re-fetching resource for cleanup: %w'' [AErr err])
       (\<lambda>current. kPatch (cl k) key (stompRestorePatch labelKey v)) w"

definition labelStompInject ::
  "'w cluster \<Rightarrow> injectionSpec \<Rightarrow> string \<Rightarrow> 'w \<Rightarrow>
   (goErr + 'w cleanupFunc option \<times> injectionEvent list) \<times> 'w" where
  "labelStompInject k spec ns =
     (let key = stompKey k spec ns; labelKey = param spec ''labelKey''; action = param spec ''action'';
          newValue = (if param spec ''newValue'' = '''' then ''chaos-stomped'' else param spec ''newValue'')
      in fetch k key (\<lambda>err. Errorf ''getting resource %s/%s: %w''
             [AStr (param spec ''kind''), AStr (param spec ''name''), AErr err])
           (\<lambda>x w1.
              let current = obLabels (snd x) labelKey
              in if action = ''delete'' \<and> current = None then
                   (Inl (Errorf ''label %q does not exist on %s/%s; nothing to delete''
                      [AStr labelKey, AStr (param spec ''kind''), AStr (param spec ''name'')]), w1)
                 else (case WrapRollbackData (cdLabel (clCodecs k))
                         (labelKey, mget (obLabels (snd x)) labelKey, current \<noteq> None) of
                    Inl err \<Rightarrow> (Inl (Errorf ''wrapping rollback data: %w'' [AErr err]), w1)
                  | Inr rollbackStr \<Rightarrow>
                      finishInject
                        (kPatch (cl k) key
                          (patchMetadata
                            ((\<lambda>a. map_option Some (ChaosLabels (injectionTypeName LabelStomping) a))
                              (labelKey \<mapsto> if action = ''overwrite'' then Some newValue else None))
                            [RollbackAnnotationKey \<mapsto> Some rollbackStr]) w1)
                        (\<lambda>err. Errorf ''patching label %q: %w'' [AStr labelKey, AErr err])
                        (\<lambda>w2. (Some (stompCleanup k key labelKey current),
                          [NewEvent (clNow k w2) LabelStomping (keyText ns (param spec ''name'')) ''label-stomped''
                            [''labelKey'' \<mapsto> labelKey, ''action'' \<mapsto> action,
                             ''originalValue'' \<mapsto> mget (obLabels (snd x)) labelKey,
                             ''newValue'' \<mapsto> if action = ''delete'' then ''<deleted>'' else newValue]])))))"

definition labelStompRevert :: "'w cluster \<Rightarrow> injectionSpec \<Rightarrow> string \<Rightarrow> 'w \<Rightarrow> goErr option \<times> 'w" where
  "labelStompRevert k spec ns =
     (let key = stompKey k spec ns
      in onFound k key (\<lambda>err. Errorf ''getting resource for revert: %w'' [AErr err])
           (\<lambda>x w1. case obAnnotations (snd x) RollbackAnnotationKey of
              None \<Rightarrow> (None, w1)
            | Some rollbackStr \<Rightarrow>
                (case UnwrapRollbackData (cdLabel (clCodecs k)) rollbackStr of
                   Inl err \<Rightarrow> (Some (Errorf ''unwrapping rollback data: %w'' [AErr err]), w1)
                 | Inr (labelKey, originalValue, existed) \<Rightarrow>
                     kPatch (cl k) key
                       (stompRestorePatch labelKey (if existed then Some originalValue else None)) w1)))"

definition labelStompInjector :: "'w cluster \<Rightarrow> 'w injector" where
  "labelStompInjector k =
     \<lparr>inValidate = \<lambda>spec blast. validateLabelStompingParams spec,
      inInject = labelStompInject k, inRevert = labelStompRevert k\<rparr>"

section \<open>Blocking finalizers\<close>

definition defaultFinalizerName :: string where
  "defaultFinalizerName = ''chaos.operatorchaos.io/block''"

definition setFinalizers :: "string list \<Rightarrow> vobject \<Rightarrow> vobject" where
  "setFinalizers fs x = (fst x, (snd x)\<lparr>obFinalizers := fs\<rparr>)"

definition finalizerApiVersion :: "injectionSpec \<Rightarrow> string" where
  "finalizerApiVersion spec = (if param spec ''apiVersion'' = '''' then ''v1'' else param spec ''apiVersion'')"

definition finalizerKey :: "'w cluster \<Rightarrow> injectionSpec \<Rightarrow> string \<Rightarrow> objKey" where
  "finalizerKey k spec ns = (clKind k (finalizerApiVersion spec) (param spec ''kind''), ns, param spec ''name'')"

text \<open>Take the finalizer and the chaos metadata off; nothing is written when there is nothing to take off.\<close>

definition removeBlock ::
  "'w cluster \<Rightarrow> objKey \<Rightarrow> string \<Rightarrow> (goErr \<Rightarrow> goErr) \<Rightarrow> vobject \<Rightarrow> 'w \<Rightarrow> goErr option \<times> 'w" where
  "removeBlock k key finalizerName onUpdate x w =
     (let changed = (finalizerName \<in> set (obFinalizers (snd x)) \<or>
            obAnnotations (snd x) RollbackAnnotationKey \<noteq> None \<or>
            obLabels (snd x) ManagedByLabel \<noteq> None \<or> obLabels (snd x) ChaosTypeLabel \<noteq> None);
          x1 = setFinalizers (filter (\<lambda>f. f \<noteq> finalizerName) (obFinalizers (snd x))) x
      in if changed
         then wrapW onUpdate (kUpdate (cl k) key (RemoveChaosMetadata (injectionTypeName FinalizerBlock) x1) w)
         else (None, w))"

definition finalizerCleanup ::
  "'w cluster \<Rightarrow> objKey \<Rightarrow> injectionSpec \<Rightarrow> string \<Rightarrow> 'w \<Rightarrow> goErr option \<times> 'w" where
  "finalizerCleanup k key spec finalizerName w =
     reread k key (\<lambda>err. Errorf ''re-fetching %s/%s for cleanup: %w''
         [AStr (param spec ''kind''), AStr (param spec ''name''), AErr err])
       (removeBlock k key finalizerName (\<lambda>err. Errorf ''removing finalizer from %s/%s: %w''
         [AStr (param spec ''kind''), AStr (param spec ''name''), AErr err])) w"

definition finalizerInject ::
  "'w cluster \<Rightarrow> injectionSpec \<Rightarrow> string \<Rightarrow> 'w \<Rightarrow>
   (goErr + 'w cleanupFunc option \<times> injectionEvent list) \<times> 'w" where
  "finalizerInject k spec ns =
     (let key = finalizerKey k spec ns; kind = param spec ''kind''; name = param spec ''name'';
          finalizerName = (if param spec ''finalizer'' = '''' then defaultFinalizerName else param spec ''finalizer'')
      in fetch k key (\<lambda>err. Errorf ''getting resource %s/%s: %w'' [AStr kind, AStr name, AErr err])
           (\<lambda>x w1.
              if finalizerName \<in> set (obFinalizers (snd x)) then
                (Inl (Errorf ''finalizer %q already exists on %s/%s; injection would be a no-op''
                   [AStr finalizerName, AStr kind, AStr name]), w1)
              else (case WrapRollbackData (cdRollback (clCodecs k)) [(''finalizer'', finalizerName)] of
                      Inl err \<Rightarrow> (Inl (Errorf ''serializing rollback data for %s/%s: %w''
                          [AStr kind, AStr name, AErr err]), w1)
                    | Inr rollbackStr \<Rightarrow>
                        finishInject
                          (kUpdate (cl k) key
                            (ApplyChaosMetadata rollbackStr (injectionTypeName FinalizerBlock)
                              (setFinalizers (obFinalizers (snd x) @ [finalizerName]) x)) w1)
                          (\<lambda>err. Errorf ''adding finalizer to %s/%s: %w'' [AStr kind, AStr name, AErr err])
                          (\<lambda>w2. (Some (finalizerCleanup k key spec finalizerName),
                            [NewEvent (clNow k w2) FinalizerBlock (keyText ns name) ''addFinalizer''
                              [''apiVersion'' \<mapsto> finalizerApiVersion spec, ''kind'' \<mapsto> kind, ''name'' \<mapsto> name,
                               ''finalizer'' \<mapsto> finalizerName]])))))"

definition finalizerRevert :: "'w cluster \<Rightarrow> injectionSpec \<Rightarrow> string \<Rightarrow> 'w \<Rightarrow> goErr option \<times> 'w" where
  "finalizerRevert k spec ns =
     (let key = finalizerKey k spec ns; kind = param spec ''kind''; name = param spec ''name''
      in onFound k key (\<lambda>err. Errorf ''getting resource %s/%s for revert: %w'' [AStr kind, AStr name, AErr err])
           (\<lambda>x w1. case obAnnotations (snd x) RollbackAnnotationKey of
              None \<Rightarrow> (None, w1)
            | Some rollbackStr \<Rightarrow>
                (case UnwrapRollbackData (cdRollback (clCodecs k)) rollbackStr of
                   Inl err \<Rightarrow> (Some (Errorf ''unwrapping rollback data for %s/%s: %w''
                       [AStr kind, AStr name, AErr err]), w1)
                 | Inr info \<Rightarrow>
                     removeBlock k key (mget (map_of info) ''finalizer'')
                       (\<lambda>err. Errorf ''removing finalizer from %s/%s during revert: %w''
                          [AStr kind, AStr name, AErr err]) x w1)))"

definition finalizerInjector :: "'w cluster \<Rightarrow> 'w injector" where
  "finalizerInjector k =
     \<lparr>inValidate = \<lambda>spec blast. validateFinalizerBlockParams spec,
      inInject = finalizerInject k, inRevert = finalizerRevert k\<rparr>"

section \<open>Revoked permissions\<close>

definition bindingSubjects :: "vobject \<Rightarrow> subject list" where
  "bindingSubjects x = (case obBody (snd x) of BSubjects ss \<Rightarrow> ss | _ \<Rightarrow> [])"

definition revertBinding :: "'w cluster \<Rightarrow> string \<Rightarrow> string \<Rightarrow> string \<Rightarrow> 'w \<Rightarrow> goErr option \<times> 'w" where
  "revertBinding k kind ns name =
     onFound k (kind, ns, name)
       (\<lambda>err. Errorf ''getting %s %q for revert: %w'' [AStr kind, AStr name, AErr err])
       (\<lambda>x w1. case obAnnotations (snd x) RollbackAnnotationKey of
          None \<Rightarrow> (None, w1)
        | Some rollbackStr \<Rightarrow>
            (case UnwrapRollbackData (cdSubjects (clCodecs k)) rollbackStr of
               Inl err \<Rightarrow> (Some (Errorf ''unwrapping rollback data for %s %q: %w''
                   [AStr kind, AStr name, AErr err]), w1)
             | Inr originalSubjects \<Rightarrow>
                 kUpdate (cl k) (kind, ns, name)
                   (RemoveChaosMetadata (injectionTypeName RBACRevoke)
                     (setBody (BSubjects originalSubjects) x)) w1))"

definition injectBinding ::
  "'w cluster \<Rightarrow> string \<Rightarrow> string \<Rightarrow> string \<Rightarrow> strmap \<Rightarrow> (goErr \<Rightarrow> goErr) \<Rightarrow> (goErr \<Rightarrow> goErr) \<Rightarrow> (goErr \<Rightarrow> goErr) \<Rightarrow>
   'w \<Rightarrow> (goErr + 'w cleanupFunc option \<times> injectionEvent list) \<times> 'w" where
  "injectBinding k kind ns name details onGet onWrap onUpdate =
     fetch k (kind, ns, name) onGet
       (\<lambda>x w1.
          case WrapRollbackData (cdSubjects (clCodecs k)) (bindingSubjects x) of
            Inl err \<Rightarrow> (Inl (onWrap err), w1)
          | Inr rollbackStr \<Rightarrow>
              finishInject
                (kUpdate (cl k) (kind, ns, name)
                  (setBody (BSubjects []) (ApplyChaosMetadata rollbackStr (injectionTypeName RBACRevoke) x)) w1)
                onUpdate
                (\<lambda>w2. (Some (revertBinding k kind ns name),
                  [NewEvent (clNow k w2) RBACRevoke name ''revokeSubjects''
                    (details(''bindingName'' \<mapsto> name, ''bindingType'' \<mapsto> kind,
                      ''subjectsCleared'' \<mapsto> itoa (int (length (bindingSubjects x)))))])))"

definition rbacInject ::
  "'w cluster \<Rightarrow> injectionSpec \<Rightarrow> string \<Rightarrow> 'w \<Rightarrow>
   (goErr + 'w cleanupFunc option \<times> injectionEvent list) \<times> 'w" where
  "rbacInject k spec ns =
     (let name = param spec ''bindingName''; kind = param spec ''bindingType''
      in if kind = ''ClusterRoleBinding'' then
           injectBinding k kind '''' name Map.empty
             (\<lambda>err. Errorf ''getting ClusterRoleBinding %q: %w'' [AStr name, AErr err])
             (\<lambda>err. Errorf ''serializing original subjects for ClusterRoleBinding %q: %w'' [AStr name, AErr err])
             (\<lambda>err. Errorf ''updating ClusterRoleBinding %q: %w'' [AStr name, AErr err])
         else if kind = ''RoleBinding'' then
           injectBinding k kind ns name [''namespace'' \<mapsto> ns]
             (\<lambda>err. Errorf ''getting RoleBinding %q in namespace %q: %w'' [AStr name, AStr ns, AErr err])
             (\<lambda>err. Errorf ''serializing original subjects for RoleBinding %q: %w'' [AStr name, AErr err])
             (\<lambda>err. Errorf ''updating RoleBinding %q in namespace %q: %w'' [AStr name, AStr ns, AErr err])
         else (\<lambda>w. (Inl (Errorf ''unsupported bindingType %q'' [AStr kind]), w)))"

definition rbacRevert :: "'w cluster \<Rightarrow> injectionSpec \<Rightarrow> string \<Rightarrow> 'w \<Rightarrow> goErr option \<times> 'w" where
  "rbacRevert k spec ns =
     (let name = param spec ''bindingName''; kind = param spec ''bindingType''
      in if kind = ''ClusterRoleBinding'' then revertBinding k kind '''' name
         else if kind = ''RoleBinding'' then revertBinding k kind ns name
         else (\<lambda>w. (Some (Errorf ''unsupported bindingType %q for revert'' [AStr kind]), w)))"

definition rbacInjector :: "'w cluster \<Rightarrow> 'w injector" where
  "rbacInjector k =
     \<lparr>inValidate = \<lambda>spec blast. validateRBACRevokeParams spec,
      inInject = rbacInject k, inRevert = rbacRevert k\<rparr>"

section \<open>The contract\<close>

lemma patchMetadata_annotations [simp]:
  "obAnnotations (snd (patchMetadata l a x)) = jsonMerge a (obAnnotations (snd x))"
  "obLabels (snd (patchMetadata l a x)) = jsonMerge l (obLabels (snd x))"
  by (simp_all add: patchMetadata_def)

lemma stompRestorePatch_annotation [simp]:
  "obAnnotations (snd (stompRestorePatch l v x)) RollbackAnnotationKey = None"
  by (simp add: stompRestorePatch_def jsonMerge_def)

lemma RemoveChaosMetadata_annotation [simp]:
  "obAnnotations (snd (RemoveChaosMetadata t x)) RollbackAnnotationKey = None"
  by (simp add: RemoveChaosMetadata_def)

lemma setFinalizers_simps [simp]:
  "obAnnotations (snd (setFinalizers fs x)) = obAnnotations (snd x)"
  "obLabels (snd (setFinalizers fs x)) = obLabels (snd x)" "obFinalizers (snd (setFinalizers fs x)) = fs"
  "obBody (snd (setFinalizers fs x)) = obBody (snd x)" "fst (setFinalizers fs x) = fst x"
  by (simp_all add: setFinalizers_def)

lemma removeBlock_clears [simp]:
  "clearsStep k key (\<lambda>d. obAnnotations d RollbackAnnotationKey \<noteq> None) x w (removeBlock k key f e x w)"
  "clearsStep k key (\<lambda>d. \<exists>y. obAnnotations d RollbackAnnotationKey = Some y) x w (removeBlock k key f e x w)"
  by (auto simp: removeBlock_def Let_def)

lemma cleanup_forms [simp]:
  "\<exists>f'. finalizerCleanup k key spec f = finalizerCleanup k key spec f'"
  "\<exists>l' v'. stompCleanup k key l v = stompCleanup k key l' v'"
  by blast+

context cluster_api
begin

lemma meta_cleanups:
  "cleans (rollbackPending st key) (stompCleanup k key l v)"
  "cleans (rollbackPending st key) (finalizerCleanup k key spec f)"
  unfolding stompCleanup_def [abs_def] finalizerCleanup_def [abs_def] rollbackPending_def [abs_def]
  by (rule reread_clears, simp)+

end

sublocale cluster_api \<subseteq> labelStomp: fault_injector "labelStompInjector k" spec ns
    "rollbackPending st (stompKey k spec ns)"
  for spec ns
  unfolding rollbackPending_def [abs_def]
  by (rule in_place_injector [where Q = "\<lambda>c. \<exists>l v. c = stompCleanup k (stompKey k spec ns) l v"],
      unfold labelStompInjector_def injector.simps, rule labelStompInject_def [unfolded Let_def],
      rule labelStompRevert_def [unfolded Let_def])
     (auto simp: meta_cleanups [unfolded rollbackPending_def [abs_def]] simp del: not_None_eq split: option.split sum.split)

sublocale cluster_api \<subseteq> finalizerBlock: fault_injector "finalizerInjector k" spec ns
    "rollbackPending st (finalizerKey k spec ns)"
  for spec ns
  unfolding rollbackPending_def [abs_def]
  by (rule in_place_injector [where Q = "\<lambda>c. \<exists>f. c = finalizerCleanup k (finalizerKey k spec ns) spec f"],
      unfold finalizerInjector_def injector.simps, rule finalizerInject_def [unfolded Let_def],
      rule finalizerRevert_def [unfolded Let_def])
     (auto simp: meta_cleanups [unfolded rollbackPending_def [abs_def]] simp del: not_None_eq split: option.split sum.split)

text \<open>The binding whose subjects are revoked; an unknown type has none.\<close>

definition rbacActive ::
  "('w \<Rightarrow> objKey \<rightharpoonup> vobject) \<Rightarrow> injectionSpec \<Rightarrow> string \<Rightarrow> 'w \<Rightarrow> bool" where
  "rbacActive st spec ns w =
     (let name = param spec ''bindingName''; kind = param spec ''bindingType''
      in if kind = ''ClusterRoleBinding'' then rollbackPending st (kind, '''', name) w
         else if kind = ''RoleBinding'' then rollbackPending st (kind, ns, name) w
         else False)"

context cluster_api
begin

lemma binding_restoring:
  fixes i :: "'w injector"
  assumes "inInject i spec ns = injectBinding k kind n name d e1 e2 e3" and "inRevert i spec ns = revertBinding k kind n name"
  shows "restoring_injector i spec ns (rollbackPending st (kind, n, name)) (inRevert i spec ns)"
  unfolding rollbackPending_def [abs_def]
  by (rule in_place_restoring, rule assms(1) [unfolded injectBinding_def], rule assms(2) [unfolded revertBinding_def])
     (auto simp: assms(2) split: option.split sum.split)

end

sublocale cluster_api \<subseteq> rbac: restoring_injector "rbacInjector k" spec ns "rbacActive st spec ns"
    "inRevert (rbacInjector k) spec ns"
  for spec ns
proof -
  let ?i = "rbacInjector k" and ?name = "param spec ''bindingName''" and ?kind = "param spec ''bindingType''"
  consider "?kind = ''ClusterRoleBinding''" | "?kind = ''RoleBinding''"
    | "?kind \<noteq> ''ClusterRoleBinding''" "?kind \<noteq> ''RoleBinding''" by blast
  then show "restoring_injector ?i spec ns (rbacActive st spec ns) (inRevert ?i spec ns)"
  proof cases
    case 1
    then have "rbacActive st spec ns = rollbackPending st (?kind, '''', ?name)"
      by (simp add: fun_eq_iff rbacActive_def)
    then show ?thesis
      using binding_restoring [of ?i spec ns ?kind "''''" ?name] 1
      by (simp add: rbacInjector_def rbacInject_def rbacRevert_def Let_def)
  next
    case 2
    then have "rbacActive st spec ns = rollbackPending st (?kind, ns, ?name)"
      by (simp add: fun_eq_iff rbacActive_def)
    then show ?thesis
      using binding_restoring [of ?i spec ns ?kind ns ?name] 2
      by (simp add: rbacInjector_def rbacInject_def rbacRevert_def Let_def)
  next
    case 3
    then show ?thesis
      by unfold_locales
        (simp_all add: rbacInjector_def rbacInject_def rbacRevert_def rbacActive_def Let_def)
  qed
qed

section \<open>Round trips\<close>

definition chaosFree :: "vobject \<Rightarrow> bool" where
  "chaosFree x = (obAnnotations (snd x) RollbackAnnotationKey = None \<and> obLabels (snd x) ManagedByLabel = None \<and>
     obLabels (snd x) ChaosTypeLabel = None)"

lemma ApplyChaosMetadata_simps [simp]:
  "obAnnotations (snd (ApplyChaosMetadata r t x)) = (obAnnotations (snd x))(RollbackAnnotationKey \<mapsto> r)"
  "obBody (snd (ApplyChaosMetadata r t x)) = obBody (snd x)"
  "obFinalizers (snd (ApplyChaosMetadata r t x)) = obFinalizers (snd x)"
  "obOwnerRefs (snd (ApplyChaosMetadata r t x)) = obOwnerRefs (snd x)"
  "obLabels (snd (ApplyChaosMetadata r t x)) = obLabels (snd x) ++ ChaosLabels t"
  by (simp_all add: ApplyChaosMetadata_def)

lemma RemoveChaosMetadata_simps [simp]:
  "obBody (snd (RemoveChaosMetadata t x)) = obBody (snd x)"
  "obFinalizers (snd (RemoveChaosMetadata t x)) = obFinalizers (snd x)"
  "obOwnerRefs (snd (RemoveChaosMetadata t x)) = obOwnerRefs (snd x)"
  by (simp_all add: RemoveChaosMetadata_def)

text \<open>Taking the chaos metadata off an object that carried none before.\<close>

lemma chaos_undo:
  fixes x y z :: vobject
  assumes "chaosFree x" and "snd y = snd (ApplyChaosMetadata r t x)"
    and "obLabels (snd z) = obLabels (snd y)" and "obAnnotations (snd z) = obAnnotations (snd y)"
    and "obOwnerRefs (snd z) = obOwnerRefs (snd y)"
  shows "snd (RemoveChaosMetadata t z) =
    (snd x)\<lparr>obBody := obBody (snd z), obFinalizers := obFinalizers (snd z)\<rparr>"
proof -
  have "(obLabels (snd x) ++ ChaosLabels t) |` (- {ManagedByLabel, ChaosTypeLabel}) = obLabels (snd x)"
    using assms(1) by (auto simp: chaosFree_def fun_eq_iff restrict_map_def map_add_def ChaosLabels_def)
  moreover have "(obAnnotations (snd x))(RollbackAnnotationKey := None) = obAnnotations (snd x)"
    using assms(1) by (auto simp: chaosFree_def fun_eq_iff)
  ultimately show ?thesis
    using assms(2-5) by (simp add: RemoveChaosMetadata_def setLabels_def setAnnotations_def)
qed

context cluster_api
begin

lemma injectBinding_state:
  assumes "injectBinding k kind ns name d e1 e2 e3 w = (Inr res, w1)"
  shows "\<exists>x y s. st w (kind, ns, name) = Some x \<and> WrapRollbackData (cdSubjects (clCodecs k)) (bindingSubjects x) = Inr s \<and>
    st w1 = (st w)((kind, ns, name) \<mapsto> y) \<and>
    snd y = snd (setBody (BSubjects []) (ApplyChaosMetadata s (injectionTypeName RBACRevoke) x))"
  using assms unfolding injectBinding_def
proof (cases rule: fetch_cases)
  case (Found x v)
  obtain s where s: "WrapRollbackData (cdSubjects (clCodecs k)) (bindingSubjects x) = Inr s"
    using Found(3) by (auto split: sum.splits)
  have "kUpdate (cl k) (kind, ns, name)
      (setBody (BSubjects []) (ApplyChaosMetadata s (injectionTypeName RBACRevoke) x)) v = (None, w1)"
    using Found(3) s by (auto simp: finishInject_eq)
  then show ?thesis by (cases rule: update_cases) (use Found s in auto)
qed simp

lemma revertBinding_state:
  assumes "revertBinding k kind ns name w = (None, w1)" and "st w (kind, ns, name) = Some y"
    and "obAnnotations (snd y) RollbackAnnotationKey = Some s"
    and "UnwrapRollbackData (cdSubjects (clCodecs k)) s = Inr subjects"
  shows "\<exists>z. st w1 = (st w)((kind, ns, name) \<mapsto> z) \<and>
    snd z = snd (RemoveChaosMetadata (injectionTypeName RBACRevoke) (setBody (BSubjects subjects) y))"
  using assms(1) unfolding revertBinding_def
proof (cases rule: onFound_cases)
  case (Found x v)
  then have "kUpdate (cl k) (kind, ns, name)
      (RemoveChaosMetadata (injectionTypeName RBACRevoke) (setBody (BSubjects subjects) y)) v = (None, w1)"
    using assms(2-4) by simp
  then show ?thesis by (cases rule: update_cases) (use Found in auto)
qed (use assms(2) in simp_all)

lemma binding_roundtrip:
  assumes inject: "injectBinding k kind ns name d e1 e2 e3 w = (Inr res, w1)"
    and revert: "revertBinding k kind ns name w1 = (None, w2)"
    and codec: "rollback_codec (cdSubjects (clCodecs k))"
    and x: "st w (kind, ns, name) = Some x" "chaosFree x" "obBody (snd x) = BSubjects ss"
  shows "\<exists>y z. st w1 (kind, ns, name) = Some y \<and> bindingSubjects y = [] \<and>
    st w2 (kind, ns, name) = Some z \<and> snd z = snd x"
proof -
  obtain y s where s: "WrapRollbackData (cdSubjects (clCodecs k)) (bindingSubjects x) = Inr s"
    and w1: "st w1 = (st w)((kind, ns, name) \<mapsto> y)"
    and y: "snd y = snd (setBody (BSubjects []) (ApplyChaosMetadata s (injectionTypeName RBACRevoke) x))"
    using injectBinding_state [OF inject] x(1) by auto
  have subj: "bindingSubjects x = ss" using x(3) by (simp add: bindingSubjects_def)
  have u: "UnwrapRollbackData (cdSubjects (clCodecs k)) s = Inr ss"
    using rollback_codec.unwrap_wrap [OF codec s] subj by simp
  have a: "obAnnotations (snd y) RollbackAnnotationKey = Some s" using y by simp
  obtain z where w2: "st w2 = (st w1)((kind, ns, name) \<mapsto> z)"
    and z: "snd z = snd (RemoveChaosMetadata (injectionTypeName RBACRevoke) (setBody (BSubjects ss) y))"
    using revertBinding_state [OF revert _ a u] w1 by auto
  have "snd z = (snd x)\<lparr>obBody := BSubjects ss, obFinalizers := obFinalizers (snd x)\<rparr>"
    unfolding z using y
    by (subst chaos_undo [OF x(2) refl, where r = s and t = "injectionTypeName RBACRevoke"]) simp_all
  then have "snd z = snd x" using x(3) by simp
  moreover have "bindingSubjects y = []" using y by (simp add: bindingSubjects_def)
  ultimately show ?thesis using w1 w2 by simp
qed

end

text \<open>Revoked permissions come back: the binding has no subjects while the fault lasts, and is exactly as
  it was after the revert.\<close>

theorem rbac_roundtrip:
  assumes "cluster_api k st" and "rollback_codec (cdSubjects (clCodecs k))"
    and "key = (param spec ''bindingType'', if param spec ''bindingType'' = ''RoleBinding'' then ns else '''',
      param spec ''bindingName'')"
    and "st w key = Some x" and "chaosFree x" and "obBody (snd x) = BSubjects ss"
    and "inInject (rbacInjector k) spec ns w = (Inr res, w1)"
    and "inRevert (rbacInjector k) spec ns w1 = (None, w2)"
  shows "\<exists>y z. st w1 key = Some y \<and> bindingSubjects y = [] \<and> st w2 key = Some z \<and> snd z = snd x"
proof -
  note r = cluster_api.binding_roundtrip [OF assms(1), OF _ _ assms(2) _ assms(5,6)]
  note d = rbacInjector_def injector.simps rbacInject_def rbacRevert_def Let_def
  have "param spec ''bindingType'' \<in> {''ClusterRoleBinding'', ''RoleBinding''}"
    using assms(7) by (auto simp: d split: if_splits)
  then consider (Cluster) "param spec ''bindingType'' = ''ClusterRoleBinding''"
    | (Namespaced) "param spec ''bindingType'' = ''RoleBinding''" by auto
  then show ?thesis
  proof cases
    case Cluster
    then have key: "key = (''ClusterRoleBinding'', '''', param spec ''bindingName'')" using assms(3) by simp
    show ?thesis
      using assms(7,8) Cluster unfolding d key
      by (simp only: if_True refl) (rule r, assumption+, rule assms(4) [unfolded key])
  next
    case Namespaced
    then have key: "key = (''RoleBinding'', ns, param spec ''bindingName'')" using assms(3) by simp
    have "''RoleBinding'' \<noteq> ''ClusterRoleBinding''" by simp
    then show ?thesis
      using assms(7,8) Namespaced unfolding d key
      by (simp only: if_True if_False refl) (rule r, assumption+, rule assms(4) [unfolded key])
  qed
qed

text \<open>A second injection before the revert takes the empty list of subjects for the original one, and the
  revert restores nothing.\<close>

theorem binding_twice_loses_subjects:
  assumes "cluster_api k st" and "rollback_codec (cdSubjects (clCodecs k))"
    and "injectBinding k kind ns name d e1 e2 e3 w = (Inr res, w1)"
    and "injectBinding k kind ns name d' e1' e2' e3' w1 = (Inr res', w2)"
    and "revertBinding k kind ns name w2 = (None, w3)"
  shows "\<exists>z. st w3 (kind, ns, name) = Some z \<and> bindingSubjects z = [] \<and>
    obAnnotations (snd z) RollbackAnnotationKey = None"
proof -
  note state = cluster_api.injectBinding_state [OF assms(1)]
  obtain y where y: "st w1 (kind, ns, name) = Some y" "bindingSubjects y = []"
    using state [OF assms(3)] by (auto simp: bindingSubjects_def)
  obtain u s where s: "WrapRollbackData (cdSubjects (clCodecs k)) [] = Inr s"
    and u: "st w2 (kind, ns, name) = Some u" "obAnnotations (snd u) RollbackAnnotationKey = Some s"
    using state [OF assms(4)] y by auto
  note w = rollback_codec.unwrap_wrap [OF assms(2) s]
  show ?thesis
    using cluster_api.revertBinding_state [OF assms(1), OF assms(5) u(1,2) w]
    by (auto simp: bindingSubjects_def)
qed

end
