(* ===== verification/InjectDrift.thy ===== *)
theory InjectDrift
  imports InjectMeta
begin

text \<open>
  Configuration drift (\<open>configdrift.go\<close>): a key of a ConfigMap is overwritten and its old value kept
  in the rollback annotation; for a Secret the old value is kept in a rollback Secret, and the
  annotation only refers to it.
\<close>

section \<open>ConfigMaps\<close>

definition driftConfigMapKey :: "injectionSpec \<Rightarrow> string \<Rightarrow> objKey" where
  "driftConfigMapKey spec ns = (''ConfigMap'', ns, param spec ''name'')"

definition driftSecretKey :: "injectionSpec \<Rightarrow> string \<Rightarrow> objKey" where
  "driftSecretKey spec ns = (''Secret'', ns, param spec ''name'')"

definition revertConfigMap :: "'w cluster \<Rightarrow> injectionSpec \<Rightarrow> string \<Rightarrow> 'w \<Rightarrow> goErr option \<times> 'w" where
  "revertConfigMap k spec ns =
     (let key = driftConfigMapKey spec ns; dataKey = param spec ''key'';
          text = keyText ns (param spec ''name'')
      in onFound k key (\<lambda>err. Errorf ''getting ConfigMap %s for revert: %w'' [AStr text, AErr err])
           (\<lambda>cm w1. case obAnnotations (snd cm) RollbackAnnotationKey of
              None \<Rightarrow> (None, w1)
            | Some rollbackStr \<Rightarrow>
                (case UnwrapRollbackData (cdRollback (clCodecs k)) rollbackStr of
                   Inl err \<Rightarrow> (Some (Errorf ''unwrapping rollback data for ConfigMap %s: %w'' [AStr text, AErr err]), w1)
                 | Inr info \<Rightarrow>
                     (let entries = (if mget (map_of info) ''keyExists'' = ''false''
                            then (dataOf cm)(dataKey := None)
                            else (dataOf cm)(dataKey \<mapsto> mget (map_of info) ''originalValue''))
                      in kUpdate (cl k) key
                           (RemoveChaosMetadata (injectionTypeName ConfigDrift) (setBody (BData entries) cm)) w1))))"

definition injectConfigMap ::
  "'w cluster \<Rightarrow> injectionSpec \<Rightarrow> string \<Rightarrow> 'w \<Rightarrow>
   (goErr + 'w cleanupFunc option \<times> injectionEvent list) \<times> 'w" where
  "injectConfigMap k spec ns =
     (let key = driftConfigMapKey spec ns; dataKey = param spec ''key'';
          text = keyText ns (param spec ''name'')
      in fetch k key (\<lambda>err. Errorf ''getting ConfigMap %s: %w'' [AStr text, AErr err])
           (\<lambda>cm w1.
              case WrapRollbackData (cdRollback (clCodecs k))
                  [(''resourceType'', ''ConfigMap''), (''key'', dataKey),
                   (''originalValue'', mget (dataOf cm) dataKey),
                   (''keyExists'', boolText (dataOf cm dataKey \<noteq> None))] of
                Inl err \<Rightarrow> (Inl (Errorf ''serializing rollback data for ConfigMap %s: %w'' [AStr text, AErr err]), w1)
              | Inr rollbackStr \<Rightarrow>
                  finishInject
                    (kUpdate (cl k) key
                      (ApplyChaosMetadata rollbackStr (injectionTypeName ConfigDrift)
                        (setBody (BData ((dataOf cm)(dataKey \<mapsto> param spec ''value''))) cm)) w1)
                    (\<lambda>err. Errorf ''updating ConfigMap %s/%s: %w'' [AStr ns, AStr (param spec ''name''), AErr err])
                    (\<lambda>w2. (Some (revertConfigMap k spec ns),
                      [NewEvent (clNow k w2) ConfigDrift text ''drifted''
                        [''resourceType'' \<mapsto> ''ConfigMap'', ''key'' \<mapsto> dataKey]]))))"

section \<open>Secrets\<close>

definition driftRollbackName :: "injectionSpec \<Rightarrow> string" where
  "driftRollbackName spec =
     ''chaos-rollback-'' @ param spec ''name'' @ ''-'' @
     take 30 (toLower (map (\<lambda>c. if c = CHR ''_'' then CHR ''-'' else c) (param spec ''key'')))"

definition driftRollbackKey :: "injectionSpec \<Rightarrow> string \<Rightarrow> objKey" where
  "driftRollbackKey spec ns = (''Secret'', ns, driftRollbackName spec)"

text \<open>Create the rollback Secret, or replace the data of the one that is there.\<close>

definition putRollbackSecret ::
  "'w cluster \<Rightarrow> objKey \<Rightarrow> strmap \<Rightarrow> strmap \<Rightarrow> strmap \<Rightarrow> 'w \<Rightarrow> goErr option \<times> 'w" where
  "putRollbackSecret k rbKey labels annotations entries w =
     (case kCreate (cl k) rbKey (newObject labels annotations (BData entries)) w of
        (Some err, w1) \<Rightarrow>
          if isAlreadyExists err then
            reread k rbKey (\<lambda>err. Errorf ''getting existing rollback Secret %s: %w'' [AStr (snd (snd rbKey)), AErr err])
              (\<lambda>existing w2.
                 wrapW (\<lambda>err. Errorf ''updating rollback Secret %s: %w'' [AStr (snd (snd rbKey)), AErr err])
                   (kUpdate (cl k) rbKey (setBody (BData entries) existing) w2)) w1
          else (Some (Errorf ''creating rollback Secret %s: %w'' [AStr (snd (snd rbKey)), AErr err]), w1)
      | (None, w1) \<Rightarrow> (None, w1))"

text \<open>The data of the Secret as it was, from the rollback Secret.\<close>

definition restoredEntries :: "string \<Rightarrow> string \<Rightarrow> vobject \<Rightarrow> vobject \<Rightarrow> goErr + strmap" where
  "restoredEntries rbName dataKey rb secret =
     (if (case obBody (snd rb) of BData m \<Rightarrow> False | _ \<Rightarrow> True)
      then Inl (Errorf ''rollback Secret %s has nil Data field'' [AStr rbName])
      else if mget (dataOf rb) ''keyExists'' = ''false'' then Inr ((dataOf secret)(dataKey := None))
      else (case dataOf rb dataKey of
              None \<Rightarrow> Inl (Errorf ''rollback Secret %s missing expected key %q'' [AStr rbName, AStr dataKey])
            | Some v \<Rightarrow> Inr ((dataOf secret)(dataKey \<mapsto> v))))"

definition revertSecret :: "'w cluster \<Rightarrow> injectionSpec \<Rightarrow> string \<Rightarrow> 'w \<Rightarrow> goErr option \<times> 'w" where
  "revertSecret k spec ns =
     (let key = driftSecretKey spec ns; dataKey = param spec ''key'';
          text = keyText ns (param spec ''name''); ty = injectionTypeName ConfigDrift
      in onFound k key (\<lambda>err. Errorf ''getting Secret %s for revert: %w'' [AStr text, AErr err])
           (\<lambda>secret w1. case obAnnotations (snd secret) RollbackAnnotationKey of
              None \<Rightarrow> (None, w1)
            | Some rollbackStr \<Rightarrow>
                (case UnwrapRollbackData (cdRollback (clCodecs k)) rollbackStr of
                   Inl err \<Rightarrow> (Some (Errorf ''unwrapping rollback data for Secret %s: %w'' [AStr text, AErr err]), w1)
                 | Inr info \<Rightarrow>
                     (let rbName = mget (map_of info) ''rollbackSecretRef''; rbKey = (''Secret'', ns, rbName)
                      in if rbName = '''' then
                           (Some (Errorf ''rollback data missing 'rollbackSecretRef' for Secret %s'' [AStr text]), w1)
                         else (case kGet (cl k) rbKey w1 of
                                 (Inl err, w2) \<Rightarrow>
                                   if isNotFound err then kUpdate (cl k) key (RemoveChaosMetadata ty secret) w2
                                   else (Some (Errorf ''reading rollback Secret %s: %w'' [AStr rbName, AErr err]), w2)
                               | (Inr rb, w2) \<Rightarrow>
                                   (case restoredEntries rbName dataKey rb secret of
                                      Inl err \<Rightarrow> (Some err, w2)
                                    | Inr entries \<Rightarrow>
                                        (let secret1 = setBody (BData entries) secret
                                         in andThen
                                              (wrapW (\<lambda>err. Errorf ''restoring Secret %s: %w'' [AStr text, AErr err])
                                                (kUpdate (cl k) key secret1 w2))
                                              (\<lambda>w3. andThen
                                                 (deleteGone k rbKey (\<lambda>err.
                                                    Errorf ''deleting rollback Secret %s: %w'' [AStr rbName, AErr err]) w3)
                                                 (kUpdate (cl k) key
                                                   (RemoveChaosMetadata ty
                                                     (clReturned k key w3, snd secret1)))))))))))"

definition injectSecret ::
  "'w cluster \<Rightarrow> injectionSpec \<Rightarrow> string \<Rightarrow> 'w \<Rightarrow>
   (goErr + 'w cleanupFunc option \<times> injectionEvent list) \<times> 'w" where
  "injectSecret k spec ns =
     (let key = driftSecretKey spec ns; dataKey = param spec ''key''; name = param spec ''name'';
          text = keyText ns name; ty = injectionTypeName ConfigDrift
      in fetch k key (\<lambda>err. Errorf ''getting Secret %s: %w'' [AStr text, AErr err])
           (\<lambda>secret w1.
              case putRollbackSecret k (driftRollbackKey spec ns)
                  ((ChaosLabels ty)(''chaos.operatorchaos.io/experiment'' \<mapsto> name))
                  [''chaos.operatorchaos.io/original-secret'' \<mapsto> name]
                  [dataKey \<mapsto> mget (dataOf secret) dataKey,
                   ''keyExists'' \<mapsto> boolText (dataOf secret dataKey \<noteq> None)] w1 of
                (Some err, w2) \<Rightarrow> (Inl err, w2)
              | (None, w2) \<Rightarrow>
                  (case WrapRollbackData (cdRollback (clCodecs k))
                      [(''resourceType'', ''Secret''), (''key'', dataKey),
                       (''rollbackSecretRef'', driftRollbackName spec)] of
                     Inl err \<Rightarrow> (Inl (Errorf ''serializing rollback data for Secret %s: %w'' [AStr text, AErr err]), w2)
                   | Inr rollbackStr \<Rightarrow>
                       finishInject
                         (kUpdate (cl k) key
                           (ApplyChaosMetadata rollbackStr ty
                             (setBody (BData ((dataOf secret)(dataKey \<mapsto> param spec ''value''))) secret)) w2)
                         (\<lambda>err. Errorf ''updating Secret %s/%s: %w'' [AStr ns, AStr name, AErr err])
                         (\<lambda>w3. (Some (revertSecret k spec ns),
                           [NewEvent (clNow k w3) ConfigDrift text ''drifted''
                             [''resourceType'' \<mapsto> ''Secret'', ''key'' \<mapsto> dataKey]])))))"

definition driftsSecret :: "injectionSpec \<Rightarrow> bool" where
  "driftsSecret spec = (param spec ''resourceType'' = ''Secret'')"

definition configDriftInjector :: "'w cluster \<Rightarrow> 'w injector" where
  "configDriftInjector k =
     \<lparr>inValidate = \<lambda>spec blast. validateConfigDriftParams spec,
      inInject = \<lambda>spec ns. if driftsSecret spec then injectSecret k spec ns else injectConfigMap k spec ns,
      inRevert = \<lambda>spec ns. if driftsSecret spec then revertSecret k spec ns else revertConfigMap k spec ns\<rparr>"

definition driftKey :: "injectionSpec \<Rightarrow> string \<Rightarrow> objKey" where
  "driftKey spec ns = (if driftsSecret spec then driftSecretKey spec ns else driftConfigMapKey spec ns)"

section \<open>The contract\<close>

lemma driftKeys_differ [simp]:
  "driftRollbackKey spec ns \<noteq> driftSecretKey spec ns" "driftSecretKey spec ns \<noteq> driftRollbackKey spec ns"
proof -
  have "length (param spec ''name'') < length (driftRollbackName spec)" by (simp add: driftRollbackName_def)
  then show "driftRollbackKey spec ns \<noteq> driftSecretKey spec ns"
    "driftSecretKey spec ns \<noteq> driftRollbackKey spec ns"
    by (auto simp: driftRollbackKey_def driftSecretKey_def)
qed

context cluster_api
begin

lemma putRollbackSecret_cases [consumes 1, case_names Failed Put]:
  assumes "putRollbackSecret k rbKey l a entries w = (r, w')"
  obtains e where "r = Some e" "st w' = st w"
  | y where "r = None" "obBody (snd y) = BData entries" "st w' = (st w)(rbKey \<mapsto> y)"
proof -
  obtain c v where c: "kCreate (cl k) rbKey (newObject l a (BData entries)) w = (c, v)" by (rule prod.exhaust)
  from c show thesis
  proof (cases rule: create_cases)
    case (Failed e)
    show thesis by (rule that(1)) (use assms c Failed in \<open>auto simp: putRollbackSecret_def\<close>)
  next
    case (Created y)
    show thesis by (rule that(2)) (use assms c Created in \<open>auto simp: putRollbackSecret_def\<close>)
  next
    case (Exists e)
    then have "reread k rbKey (\<lambda>err. Errorf ''getting existing rollback Secret %s: %w'' [AStr (snd (snd rbKey)), AErr err])
       (\<lambda>existing w2.
          wrapW (\<lambda>err. Errorf ''updating rollback Secret %s: %w'' [AStr (snd (snd rbKey)), AErr err])
            (kUpdate (cl k) rbKey (setBody (BData entries) existing) w2)) v = (r, w')"
      using assms c by (simp add: putRollbackSecret_def)
    then show thesis
    proof (cases rule: reread_cases)
      case (Failed e')
      then show thesis using that(1) Exists by simp
    next
      case (Found x w1)
      then obtain q where q: "kUpdate (cl k) rbKey (setBody (BData entries) x) w1 = (q, w')"
        and r: "r = map_option (\<lambda>err. Errorf ''updating rollback Secret %s: %w'' [AStr (snd (snd rbKey)), AErr err]) q"
        by (auto simp: wrapW_eq)
      from q show thesis
      proof (cases rule: update_cases)
        case (Failed e')
        then show thesis using that(1) r Found Exists by simp
      next
        case (Updated cur y)
        then show thesis using that(2) [of y] r Found Exists by simp
      qed
    qed
  qed
qed

lemma update_clears:
  "kUpdate (cl k) key y v = (None, w') \<Longrightarrow> obAnnotations (snd y) RollbackAnnotationKey = None \<Longrightarrow>
   \<not> rollbackPending st key w'"
  by (erule update_cases) (auto simp: objAt_def rollbackPending_def)

end

context cluster_api
begin

lemma injectSecret_cases [consumes 1, case_names Failed Done]:
  assumes "injectSecret k spec ns w = (r, w')"
  obtains e where "r = Inl e" "st w' (driftSecretKey spec ns) = st w (driftSecretKey spec ns)"
  | x s y z ev where "r = Inr (Some (revertSecret k spec ns), ev)" "st w (driftSecretKey spec ns) = Some x"
      "WrapRollbackData (cdRollback (clCodecs k))
        [(''resourceType'', ''Secret''), (''key'', param spec ''key''),
         (''rollbackSecretRef'', driftRollbackName spec)] = Inr s"
      "snd z = snd (ApplyChaosMetadata s (injectionTypeName ConfigDrift)
         (setBody (BData ((dataOf x)(param spec ''key'' \<mapsto> param spec ''value''))) x))"
      "obBody (snd y) = BData [param spec ''key'' \<mapsto> mget (dataOf x) (param spec ''key''),
         ''keyExists'' \<mapsto> boolText (dataOf x (param spec ''key'') \<noteq> None)]"
      "st w' = (st w)(driftRollbackKey spec ns \<mapsto> y, driftSecretKey spec ns \<mapsto> z)"
  using assms unfolding injectSecret_def Let_def
proof (cases rule: fetch_cases)
  case (Failed e)
  then show thesis using that(1) by simp
next
  case (Found x w1)
  let ?ty = "injectionTypeName ConfigDrift"
  obtain p w2 where p: "putRollbackSecret k (driftRollbackKey spec ns)
      ((ChaosLabels ?ty)(''chaos.operatorchaos.io/experiment'' \<mapsto> param spec ''name''))
      [''chaos.operatorchaos.io/original-secret'' \<mapsto> param spec ''name'']
      [param spec ''key'' \<mapsto> mget (dataOf x) (param spec ''key''),
       ''keyExists'' \<mapsto> boolText (dataOf x (param spec ''key'') \<noteq> None)] w1 = (p, w2)"
    by (rule prod.exhaust)
  note body = Found(3) [unfolded p prod.case]
  from p show thesis
  proof (cases rule: putRollbackSecret_cases)
    case (Failed e)
    show thesis by (rule that(1)) (use body Failed Found(2) in auto)
  next
    case (Put y)
    let ?wrap = "WrapRollbackData (cdRollback (clCodecs k))
        [(''resourceType'', ''Secret''), (''key'', param spec ''key''),
         (''rollbackSecretRef'', driftRollbackName spec)]"
    show thesis
    proof (cases ?wrap)
      case (Inl err)
      show thesis by (rule that(1)) (use body Put Found(2) Inl driftKeys_differ [of spec ns] in auto)
    next
      case (Inr s)
      obtain c v where c: "kUpdate (cl k) (driftSecretKey spec ns) (ApplyChaosMetadata s ?ty
          (setBody (BData ((dataOf x)(param spec ''key'' \<mapsto> param spec ''value''))) x)) w2 = (c, v)"
        by (rule prod.exhaust)
      from c show thesis
      proof (cases rule: update_cases)
        case (Failed e)
        show thesis by (rule that(1)) (use body Put Found(2) Inr c Failed in \<open>auto simp: finishInject_def\<close>)
      next
        case (Updated cur z)
        show thesis
          by (rule that(2) [OF _ Found(1) Inr Updated(4) Put(2)])
             (use body Put Found(2) Inr c Updated in \<open>auto simp: finishInject_def\<close>)
      qed
    qed
  qed
qed

lemma revertSecret_clears:
  assumes "revertSecret k spec ns w = (r, w')"
  shows "(r = None \<longrightarrow> \<not> rollbackPending st (driftSecretKey spec ns) w') \<and>
    (\<not> rollbackPending st (driftSecretKey spec ns) w \<longrightarrow> \<not> rollbackPending st (driftSecretKey spec ns) w')"
  using assms unfolding revertSecret_def Let_def
proof (cases rule: onFound_cases)
  case (Found x w1)

  show ?thesis
  proof (cases "obAnnotations (snd x) RollbackAnnotationKey")
    case None
    then show ?thesis using Found by (auto simp: rollbackPending_def objAt_def)
  next
    case (Some s)
    then have p: "rollbackPending st (driftSecretKey spec ns) w"
      using Found by (simp add: rollbackPending_def objAt_def)
    have "\<not> rollbackPending st (driftSecretKey spec ns) w'" if "r = None"
      using Found(3) Some that
      by (auto simp: andThen_eq split: sum.splits if_splits prod.splits dest!: update_clears)
    then show ?thesis using p by blast
  qed
qed (simp_all add: rollbackPending_def objAt_def)

end

sublocale cluster_api \<subseteq> configDrift: restoring_injector "configDriftInjector k" spec ns
    "rollbackPending st (driftKey spec ns)" "inRevert (configDriftInjector k) spec ns"
  for spec ns
proof (cases "driftsSecret spec")
  case False
  have "restoring_injector (configDriftInjector k) spec ns
    (\<lambda>w. objAt (\<lambda>d. obAnnotations d RollbackAnnotationKey \<noteq> None) (st w) (driftConfigMapKey spec ns))
    (inRevert (configDriftInjector k) spec ns)"
    by (rule in_place_restoring, simp add: configDriftInjector_def False,
        rule injectConfigMap_def [unfolded Let_def], simp add: configDriftInjector_def False,
        rule revertConfigMap_def [unfolded Let_def])
       (auto simp: configDriftInjector_def False simp del: not_None_eq split: option.split sum.split)
  then show "restoring_injector (configDriftInjector k) spec ns (rollbackPending st (driftKey spec ns))
      (inRevert (configDriftInjector k) spec ns)"
    by (simp add: driftKey_def False rollbackPending_def [abs_def])
next
  case True
  then have ops: "inInject (configDriftInjector k) spec ns = injectSecret k spec ns"
    "inRevert (configDriftInjector k) spec ns = revertSecret k spec ns" "driftKey spec ns = driftSecretKey spec ns"
    by (simp_all add: configDriftInjector_def driftKey_def)
  show "restoring_injector (configDriftInjector k) spec ns (rollbackPending st (driftKey spec ns))
      (inRevert (configDriftInjector k) spec ns)"
    unfolding ops
  proof (unfold_locales, unfold ops)
    fix w co ev w' assume "injectSecret k spec ns w = (Inr (co, ev), w')"
    then show "co = Some (revertSecret k spec ns)" by (cases rule: injectSecret_cases) auto
  next
    fix w e w' assume i: "injectSecret k spec ns w = (Inl e, w')"
      and a: "rollbackPending st (driftSecretKey spec ns) w'"
    from i have "st w' (driftSecretKey spec ns) = st w (driftSecretKey spec ns)"
      by (cases rule: injectSecret_cases) auto
    then show "rollbackPending st (driftSecretKey spec ns) w"
      using a by (simp add: rollbackPending_def objAt_def)
  qed (use revertSecret_clears in auto)
qed

section \<open>Round trips\<close>

lemma setBody_chaos:
  "snd (ApplyChaosMetadata r t (setBody b x)) = snd (setBody b (ApplyChaosMetadata r t x))"
  by (simp add: ApplyChaosMetadata_def setLabels_def setAnnotations_def setBody_def)

lemma drift_undo:
  fixes x y z :: vobject
  assumes "chaosFree x" and "snd y = snd (ApplyChaosMetadata r t (setBody b x))"
    and "snd z = snd (setBody b' y)" and "obBody (snd x) = b'"
  shows "snd (RemoveChaosMetadata t z) = snd x"
  using assms(3,4) by (subst chaos_undo [OF assms(1) refl, where r = r and t = t]) (simp_all add: assms(2) setBody_chaos)

lemma entries_restored:
  "(if mget info ''keyExists'' = ''false'' then (m(a \<mapsto> v))(a := None) else (m(a \<mapsto> v))(a \<mapsto> old)) = m"
  if "mget info ''keyExists'' = boolText (m a \<noteq> None)" and "m a \<noteq> None \<Longrightarrow> m a = Some old"
  using that by (cases "m a") (auto simp: boolText_def fun_eq_iff)

context cluster_api
begin

lemma configMap_roundtrip:
  assumes inject: "injectConfigMap k spec ns w = (Inr res, w1)" and revert: "revertConfigMap k spec ns w1 = (None, w2)"
    and codec: "rollback_codec (cdRollback (clCodecs k))"
    and x: "st w (driftConfigMapKey spec ns) = Some x" "chaosFree x" "obBody (snd x) = BData m"
  shows "\<exists>z. st w2 (driftConfigMapKey spec ns) = Some z \<and> snd z = snd x"
proof -
  let ?key = "driftConfigMapKey spec ns" and ?a = "param spec ''key''"
  let ?info = "[(''resourceType'', ''ConfigMap''), (''key'', ?a), (''originalValue'', mget m ?a),
    (''keyExists'', boolText (m ?a \<noteq> None))]"
  have m: "dataOf x = m" using x(3) by (simp add: dataOf_def)
  from inject obtain s y where s: "WrapRollbackData (cdRollback (clCodecs k)) ?info = Inr s"
    and w1: "st w1 = (st w)(?key \<mapsto> y)"
    and y: "snd y = snd (ApplyChaosMetadata s (injectionTypeName ConfigDrift)
      (setBody (BData (m(?a \<mapsto> param spec ''value''))) x))"
    unfolding injectConfigMap_def Let_def
  proof (cases rule: fetch_cases)
    case (Found x' v)
    then have x': "x' = x" using x(1) by simp
    obtain s where s: "WrapRollbackData (cdRollback (clCodecs k)) ?info = Inr s"
      using Found(3) by (auto simp: x' m split: sum.splits)
    have "kUpdate (cl k) ?key (ApplyChaosMetadata s (injectionTypeName ConfigDrift)
        (setBody (BData (m(?a \<mapsto> param spec ''value''))) x)) v = (None, w1)"
      using Found(3) s by (simp add: x' m finishInject_eq)
    then show thesis by (cases rule: update_cases) (use s that Found(2) in auto)
  qed simp
  have u: "UnwrapRollbackData (cdRollback (clCodecs k)) s = Inr ?info"
    by (rule rollback_codec.unwrap_wrap [OF codec s])
  have dy: "dataOf y = m(?a \<mapsto> param spec ''value'')" and ay: "obAnnotations (snd y) RollbackAnnotationKey = Some s"
    using y by (simp_all add: dataOf_def)
  have entries: "(if mget (map_of ?info) ''keyExists'' = ''false'' then (dataOf y)(?a := None)
      else (dataOf y)(?a \<mapsto> mget (map_of ?info) ''originalValue'')) = m"
    unfolding dy by (rule entries_restored) (simp_all add: mget_def split: option.split)
  from revert show ?thesis
    unfolding revertConfigMap_def Let_def
  proof (cases rule: onFound_cases)
    case (Found y' v)
    have y': "y' = y" using Found(1) w1 by simp
    have "kUpdate (cl k) ?key (RemoveChaosMetadata (injectionTypeName ConfigDrift) (setBody (BData m) y)) v = (None, w2)"
      using Found(3) unfolding y' ay option.case u sum.case entries .
    then show ?thesis
      by (cases rule: update_cases) (use Found(2) drift_undo [OF x(2) y refl x(3)] in auto)
  qed (use w1 in simp_all)
qed

end

context cluster_api
begin


lemma revertSecret_state:
  assumes revert: "revertSecret k spec ns w = (None, w')" and z: "st w (driftSecretKey spec ns) = Some z"
    and a: "obAnnotations (snd z) RollbackAnnotationKey = Some s"
    and u: "UnwrapRollbackData (cdRollback (clCodecs k)) s = Inr info"
    and ref: "mget (map_of info) ''rollbackSecretRef'' = driftRollbackName spec"
    and rb: "st w (driftRollbackKey spec ns) = Some rb"
    and e: "restoredEntries (driftRollbackName spec) (param spec ''key'') rb z = Inr entries"
  shows "\<exists>z'. st w' = (st w)(driftRollbackKey spec ns := None, driftSecretKey spec ns \<mapsto> z') \<and>
    snd z' = snd (RemoveChaosMetadata (injectionTypeName ConfigDrift) (setBody (BData entries) z))"
  using revert unfolding revertSecret_def Let_def
proof (cases rule: onFound_cases)
  case (Found z0 v)
  let ?key = "driftSecretKey spec ns" and ?rb = "driftRollbackKey spec ns"
  have z0: "z0 = z" using Found(1) z by simp
  have name: "driftRollbackName spec \<noteq> ''''" by (simp add: driftRollbackName_def)
  have key: "(''Secret'', ns, driftRollbackName spec) = ?rb" by (simp add: driftRollbackKey_def)
  obtain q v2 where g: "kGet (cl k) ?rb v = (q, v2)" by (rule prod.exhaust)
  have sv: "st v2 = st w" using get_frame [of ?rb v] g Found(2) by simp
  note body = Found(3) [unfolded z0 a option.case u sum.case ref key g prod.case if_not_P [OF name]]
  show ?thesis
  proof (cases q)
    case (Inl err)
    then show ?thesis using body get_notfound [of ?rb v err v2] g rb Found(2) by (auto split: if_splits)
  next
    case (Inr y)
    then have "y = rb" using get_ok [of ?rb v y v2] g rb Found(2) by simp
    with body Inr e obtain w3 w4 where
      w3: "kUpdate (cl k) ?key (setBody (BData entries) z) v2 = (None, w3)"
      and w4: "\<exists>f. deleteGone k ?rb f w3 = (None, w4)"
      and w': "kUpdate (cl k) ?key (RemoveChaosMetadata (injectionTypeName ConfigDrift)
        (clReturned k ?key w3, snd (setBody (BData entries) z))) w4 = (None, w')"
      by (auto simp: andThen_eq wrapW_eq)
    obtain u where "st w3 = (st w)(?key \<mapsto> u)" using update_done [OF w3] sv by auto
    moreover have "st w4 = (st w3)(?rb := None)"
      using w4 by (auto elim: deleteGone_cases)
    moreover obtain z' where "st w' = (st w4)(?key \<mapsto> z')"
      "snd z' = snd (RemoveChaosMetadata (injectionTypeName ConfigDrift) (setBody (BData entries) z))"
      using update_done [OF w'] by (auto simp: RemoveChaosMetadata_def setLabels_def setAnnotations_def)
    ultimately show ?thesis by (intro exI [of _ z']) (auto simp: fun_eq_iff)
  qed
qed (use z in simp_all)

lemma secret_roundtrip:
  assumes inject: "injectSecret k spec ns w = (Inr res, w1)" and revert: "revertSecret k spec ns w1 = (None, w2)"
    and codec: "rollback_codec (cdRollback (clCodecs k))"
    and x: "st w (driftSecretKey spec ns) = Some x" "chaosFree x" "obBody (snd x) = BData m"
  shows "\<exists>z. st w2 = (st w)(driftRollbackKey spec ns := None, driftSecretKey spec ns \<mapsto> z) \<and>
    (param spec ''key'' \<noteq> ''keyExists'' \<longrightarrow> snd z = snd x) \<and>
    (param spec ''key'' = ''keyExists'' \<longrightarrow> m ''keyExists'' \<noteq> None \<longrightarrow>
       obBody (snd z) = BData (m(''keyExists'' \<mapsto> ''true'')))"
  using inject
proof (cases rule: injectSecret_cases)
  case (Done x' s y z ev)
  let ?a = "param spec ''key''" and ?key = "driftSecretKey spec ns"
  let ?info = "[(''resourceType'', ''Secret''), (''key'', ?a), (''rollbackSecretRef'', driftRollbackName spec)]"
  have m: "x' = x" "dataOf x = m" using Done(2) x by (simp_all add: dataOf_def)
  have zk: "st w1 ?key = Some z" and rb: "st w1 (driftRollbackKey spec ns) = Some y" using Done(6) by simp_all
  have az: "obAnnotations (snd z) RollbackAnnotationKey = Some s" and dz: "dataOf z = m(?a \<mapsto> param spec ''value'')"
    using Done(4) m by (simp_all add: dataOf_def)
  have u: "UnwrapRollbackData (cdRollback (clCodecs k)) s = Inr ?info"
    by (rule rollback_codec.unwrap_wrap [OF codec Done(3)])
  have ref: "mget (map_of ?info) ''rollbackSecretRef'' = driftRollbackName spec" by simp
  have dy: "obBody (snd y) = BData [?a \<mapsto> mget m ?a, ''keyExists'' \<mapsto> boolText (m ?a \<noteq> None)]"
    using Done(5) m by simp
  have st: "(st w1)(driftRollbackKey spec ns := None, ?key := q) = (st w)(driftRollbackKey spec ns := None, ?key := q)" for q
    using Done(6) by (auto simp: fun_eq_iff)
  note state = revertSecret_state [OF revert zk az u ref rb, unfolded st]
  show ?thesis
  proof (cases "?a = ''keyExists''")
    case False
    have e: "restoredEntries (driftRollbackName spec) ?a y z = Inr m"
      using False by (cases "m ?a") (auto simp: restoredEntries_def dataOf_def [of y] dy dz boolText_def mget_def fun_eq_iff)
    from state [OF e] drift_undo [OF x(2) Done(4) [unfolded m] refl x(3)] False show ?thesis
      unfolding m by auto
  next
    case True
    show ?thesis
    proof (cases "m ''keyExists''")
      case None
      have "restoredEntries (driftRollbackName spec) ?a y z = Inr ((dataOf z)(?a := None))"
        using True None by (simp add: restoredEntries_def dataOf_def [of y] dy boolText_def mget_def)
      from state [OF this] True None show ?thesis by auto
    next
      case (Some v)
      have "restoredEntries (driftRollbackName spec) ?a y z = Inr (m(''keyExists'' \<mapsto> ''true''))"
        using True Some by (simp add: restoredEntries_def dataOf_def [of y] dy dz boolText_def mget_def)
      from state [OF this] True Some show ?thesis by auto
    qed
  qed
qed simp

end

text \<open>C32. Reverting configuration drift restores the ConfigMap or the Secret exactly, whether or not the key
  was there before, provided the object carried no chaos metadata and the key of a Secret is not
  called \<open>keyExists\<close>.\<close>

theorem configDrift_roundtrip:
  assumes "cluster_api k st" and "rollback_codec (cdRollback (clCodecs k))"
    and "st w (driftKey spec ns) = Some x" and "chaosFree x" and "obBody (snd x) = BData m"
    and "driftsSecret spec \<longrightarrow> param spec ''key'' \<noteq> ''keyExists''"
    and "inInject (configDriftInjector k) spec ns w = (Inr res, w1)"
    and "inRevert (configDriftInjector k) spec ns w1 = (None, w2)"
  shows "\<exists>z. st w2 (driftKey spec ns) = Some z \<and> snd z = snd x"
proof (cases "driftsSecret spec")
  case True
  then show ?thesis
    using cluster_api.secret_roundtrip [OF assms(1), of spec ns w res w1 w2 x m] assms
    by (auto simp: configDriftInjector_def driftKey_def)
next
  case False
  then show ?thesis
    using cluster_api.configMap_roundtrip [OF assms(1), of spec ns w res w1 w2 x m] assms
    by (auto simp: configDriftInjector_def driftKey_def)
qed

text \<open>A Secret with a key \<open>keyExists\<close> loses its value when that key is drifted: the rollback Secret keeps
  its own marker under the same name, and the revert restores the text \<open>true\<close>.\<close>

theorem drift_keyExists_lost:
  assumes "cluster_api k st" and "rollback_codec (cdRollback (clCodecs k))"
    and "driftsSecret spec" and "param spec ''key'' = ''keyExists''"
    and "st w (driftKey spec ns) = Some x" and "chaosFree x" and "obBody (snd x) = BData m"
    and "m ''keyExists'' = Some v"
    and "inInject (configDriftInjector k) spec ns w = (Inr res, w1)"
    and "inRevert (configDriftInjector k) spec ns w1 = (None, w2)"
  shows "\<exists>z. st w2 (driftKey spec ns) = Some z \<and> dataOf z ''keyExists'' = Some ''true''"
  using cluster_api.secret_roundtrip [OF assms(1), of spec ns w res w1 w2 x m] assms
  by (auto simp: configDriftInjector_def driftKey_def dataOf_def)

section \<open>Witnesses\<close>

definition driftDemoSpec :: "string \<Rightarrow> injectionSpec" where
  "driftDemoSpec dataKey = \<lparr>injType = ConfigDrift,
     injParams = [''name'' \<mapsto> ''tls'', ''resourceType'' \<mapsto> ''Secret'', ''key'' \<mapsto> dataKey, ''value'' \<mapsto> ''x''],
     injCount = 1, injTTL = 0, injDanger = DangerLevelHigh\<rparr>"

definition driftDemoSecret :: vobject where
  "driftDemoSecret = newObject Map.empty Map.empty (BData [''keyExists'' \<mapsto> ''v'', ''cert'' \<mapsto> ''pem''])"

definition driftDemoWorld :: "(objKey, kobject) memWorld" where
  "driftDemoWorld = \<lparr>memObjs = [(''Secret'', ''ns1'', ''tls'') \<mapsto> driftDemoSecret], memNext = 1, memNow = 0\<rparr>"

lemma driftDemo_param [simp]:
  "param (driftDemoSpec a) ''name'' = ''tls''" "param (driftDemoSpec a) ''key'' = a"
  "param (driftDemoSpec a) ''value'' = ''x''" "driftsSecret (driftDemoSpec a)"
  by (simp_all add: driftDemoSpec_def mget_def driftsSecret_def)

lemma driftDemo_runs:
  assumes "a = ''keyExists'' \<or> a = ''cert''"
  shows "\<exists>res w1 w2. inInject (configDriftInjector memCluster) (driftDemoSpec a) ''ns1'' driftDemoWorld = (Inr res, w1) \<and>
    inRevert (configDriftInjector memCluster) (driftDemoSpec a) ''ns1'' w1 = (None, w2)"
proof -
  let ?rb = "driftRollbackName (driftDemoSpec a)"
  let ?info = "[(''resourceType'', ''Secret''), (''key'', a), (''rollbackSecretRef'', ?rb)]"
  have len: "length (encInfo ?info) \<le> maxRollbackDataSize"
    using assms by (auto simp: maxRollbackDataSize_def length_encStr driftRollbackName_def)
  obtain s where s: "WrapRollbackData demoRollbackLib ?info = Inr s" using demo_wrap [OF len] by blast
  note u = rollback_codec.unwrap_wrap [OF demoCodec.rollback_codec_axioms s]
  have rb: "?rb \<noteq> ''''" "?rb \<noteq> ''tls''" by (simp_all add: driftRollbackName_def)
  show ?thesis
    using assms rb s u
    by (auto simp: configDriftInjector_def injectSecret_def revertSecret_def Let_def fetch_def onFound_def
        putRollbackSecret_def driftSecretKey_def driftRollbackKey_def mem_ops driftDemoWorld_def driftDemoSecret_def
        newObject_def finishInject_def demoCodecs_def ApplyChaosMetadata_def setLabels_def setAnnotations_def
        setBody_def dataOf_def restoredEntries_def boolText_def andThen_def wrapW_def deleteGone_def
        memReturned_def RemoveChaosMetadata_def)
qed

lemma driftDemo_start:
  "memObjs driftDemoWorld (driftKey (driftDemoSpec a) ''ns1'') = Some driftDemoSecret"
  "chaosFree driftDemoSecret" "obBody (snd driftDemoSecret) = BData [''keyExists'' \<mapsto> ''v'', ''cert'' \<mapsto> ''pem'']"
  by (simp_all add: driftDemoWorld_def driftKey_def driftSecretKey_def driftDemoSecret_def chaosFree_def newObject_def)

lemma driftDemo_codec: "rollback_codec (cdRollback (clCodecs memCluster))"
  using demoCodec.rollback_codec_axioms by (simp add: demoCodecs_def)

theorem configDrift_roundtrip_witness:
  "\<exists>res w1 w2 z. inInject (configDriftInjector memCluster) (driftDemoSpec ''cert'') ''ns1'' driftDemoWorld = (Inr res, w1) \<and>
     inRevert (configDriftInjector memCluster) (driftDemoSpec ''cert'') ''ns1'' w1 = (None, w2) \<and>
     memObjs w2 (driftKey (driftDemoSpec ''cert'') ''ns1'') = Some z \<and> snd z = snd driftDemoSecret"
proof -
  obtain res w1 w2 where run: "inInject (configDriftInjector memCluster) (driftDemoSpec ''cert'') ''ns1'' driftDemoWorld = (Inr res, w1)"
    "inRevert (configDriftInjector memCluster) (driftDemoSpec ''cert'') ''ns1'' w1 = (None, w2)"
    using driftDemo_runs [of "''cert''"] by blast
  from configDrift_roundtrip [OF memCl.cluster_api_axioms, OF driftDemo_codec driftDemo_start _ run] run
  show ?thesis by auto
qed

theorem drift_keyExists_lost_witness:
  "\<exists>res w1 w2 z. inInject (configDriftInjector memCluster) (driftDemoSpec ''keyExists'') ''ns1'' driftDemoWorld = (Inr res, w1) \<and>
     inRevert (configDriftInjector memCluster) (driftDemoSpec ''keyExists'') ''ns1'' w1 = (None, w2) \<and>
     memObjs w2 (driftKey (driftDemoSpec ''keyExists'') ''ns1'') = Some z \<and> dataOf z ''keyExists'' = Some ''true''"
proof -
  obtain res w1 w2 where run: "inInject (configDriftInjector memCluster) (driftDemoSpec ''keyExists'') ''ns1'' driftDemoWorld = (Inr res, w1)"
    "inRevert (configDriftInjector memCluster) (driftDemoSpec ''keyExists'') ''ns1'' w1 = (None, w2)"
    using driftDemo_runs [of "''keyExists''"] by blast
  from drift_keyExists_lost [OF memCl.cluster_api_axioms, OF driftDemo_codec _ _ driftDemo_start _ run] run
  show ?thesis by auto
qed

end
