(* ===== verification/InjectPods.thy ===== *)
theory InjectPods
  imports Injectors Validation "HOL-Library.Multiset"
begin

text \<open>
  Killing pods (\<open>podkill.go\<close>). The list of pods, their deletion and the random shuffle are parameters
  (\<open>podApi\<close>); the locale \<open>pod_api\<close> says what is relied on: a shuffle permutes, and only a
  successful deletion kills a pod, one at a time.
\<close>

record pod =
  pdName :: string
  pdUID :: string
  pdNode :: string

record 'w podApi =
  paList :: "string \<Rightarrow> string \<Rightarrow> 'w \<Rightarrow> (goErr + pod list) \<times> 'w"
  paDelete :: "string \<Rightarrow> pod \<Rightarrow> 'w \<Rightarrow> goErr option \<times> 'w"
  paShuffle :: "pod list \<Rightarrow> 'w \<Rightarrow> pod list \<times> 'w"
  paNow :: "'w \<Rightarrow> timestamp"

text \<open>The loop stops at the first pod that cannot be deleted.\<close>

fun killPods :: "'w podApi \<Rightarrow> string \<Rightarrow> pod list \<Rightarrow> injectionEvent list \<Rightarrow> 'w \<Rightarrow> goErr option \<times> injectionEvent list \<times> 'w" where
  "killPods api ns [] events w = (None, events, w)"
| "killPods api ns (p # ps) events w =
     (case paDelete api ns p w of
        (Some err, w1) \<Rightarrow> (Some (Errorf ''killing pod %s: %w'' [AStr (pdName p), AErr err]), events, w1)
      | (None, w1) \<Rightarrow>
          killPods api ns ps
            (events @ [NewEvent (paNow api w1) PodKill (pdName p) ''deleted''
               [''namespace'' \<mapsto> ns, ''node'' \<mapsto> pdNode p]]) w1)"

definition killCount :: "injectionSpec \<Rightarrow> nat \<Rightarrow> nat" where
  "killCount spec found =
     (let n = (if injCount spec \<le> 0 then 1 else injCount spec)
      in if n > int found then found else nat n)"

definition podKillInject ::
  "paramLib \<Rightarrow> 'w podApi \<Rightarrow> injectionSpec \<Rightarrow> string \<Rightarrow> 'w \<Rightarrow>
   (goErr + 'w cleanupFunc option \<times> injectionEvent list) \<times> 'w" where
  "podKillInject lib api spec ns w =
     (let selector = param spec ''labelSelector''
      in case plParseSelector lib selector of
           Inl err \<Rightarrow> (Inl (Errorf ''parsing label selector: %w'' [AErr err]), w)
         | Inr reqs \<Rightarrow>
             (case paList api ns selector w of
                (Inl err, w1) \<Rightarrow> (Inl (Errorf ''listing pods: %w'' [AErr err]), w1)
              | (Inr pods, w1) \<Rightarrow>
                  if pods = [] then
                    (Inl (Errorf ''no pods found matching selector %s in namespace %s'' [AStr selector, AStr ns]), w1)
                  else (case paShuffle api pods w1 of
                          (shuffled, w2) \<Rightarrow>
                            (case killPods api ns (take (killCount spec (length pods)) shuffled) [] w2 of
                               (Some err, events, w3) \<Rightarrow> (Inl err, w3)
                             | (None, events, w3) \<Rightarrow> (Inr (Some (\<lambda>v. (None, v)), events), w3)))))"

definition podKillInjector :: "paramLib \<Rightarrow> 'w podApi \<Rightarrow> 'w injector" where
  "podKillInjector lib api =
     \<lparr>inValidate = \<lambda>spec blast. validatePodKillParams lib spec blast,
      inInject = podKillInject lib api,
      inRevert = \<lambda>spec ns w. (None, w)\<rparr>"

section \<open>What a pod kill does\<close>

locale pod_api =
  fixes api :: "'w podApi" and killed :: "'w \<Rightarrow> string list"
  assumes delete_ok: "paDelete api ns p w = (None, w') \<Longrightarrow> killed w' = killed w @ [pdUID p]"
    and delete_err: "paDelete api ns p w = (Some e, w') \<Longrightarrow> killed w' = killed w"
    and list_frame: "killed (snd (paList api ns s w)) = killed w"
    and shuffle: "mset (fst (paShuffle api ps w)) = mset ps \<and> killed (snd (paShuffle api ps w)) = killed w"
begin

lemma killPods_killed:
  "killPods api ns ps events w = (r, evs, w') \<Longrightarrow>
   \<exists>n\<le>length ps. killed w' = killed w @ map pdUID (take n ps) \<and> length evs = length events + n \<and>
     (r = None \<longrightarrow> n = length ps)"
proof (induction ps arbitrary: events w)
  case (Cons p ps)
  obtain d w1 where d: "paDelete api ns p w = (d, w1)" by (rule prod.exhaust)
  show ?case
  proof (cases d)
    case (Some e)
    then show ?thesis using Cons.prems d delete_err by (intro exI [of _ 0]) auto
  next
    case None
    have k: "killed w1 = killed w @ [pdUID p]" using delete_ok d None by blast
    obtain n where n: "n \<le> length ps" "killed w' = killed w1 @ map pdUID (take n ps)"
      "length evs = length events + 1 + n" "r = None \<longrightarrow> n = length ps"
      using Cons.IH Cons.prems d None by fastforce
    then show ?thesis using k by (intro exI [of _ "Suc n"]) auto
  qed
qed simp

lemma podKillInject_killed:
  assumes "podKillInject lib api spec ns w = (r, w')"
  shows "\<exists>pods. killed w' = killed w @ map pdUID pods \<and> length pods \<le> nat (max 1 (injCount spec)) \<and>
    (\<forall>ps w1. paList api ns (param spec ''labelSelector'') w = (Inr ps, w1) \<longrightarrow> mset pods \<subseteq># mset ps) \<and>
    (\<forall>co evs. r = Inr (co, evs) \<longrightarrow> length evs = length pods \<and> pods \<noteq> [])"
proof (cases "plParseSelector lib (param spec ''labelSelector'')")
  case (Inl err)
  then show ?thesis using assms by (intro exI [of _ "[]"]) (auto simp: podKillInject_def)
next
  case (Inr reqs)
  obtain q w1 where l: "paList api ns (param spec ''labelSelector'') w = (q, w1)" by (rule prod.exhaust)
  have k1: "killed w1 = killed w" using list_frame [of ns "param spec ''labelSelector''" w] l by simp
  show ?thesis
  proof (cases "\<exists>ps. q = Inr ps \<and> ps \<noteq> []")
    case False
    then show ?thesis
      using assms Inr l k1
      by (intro exI [of _ "[]"]) (auto simp: podKillInject_def split: sum.splits if_splits)
  next
    case True
    then obtain ps where q: "q = Inr ps" "ps \<noteq> []" by blast
    obtain sh w2 where s: "paShuffle api ps w1 = (sh, w2)" by (rule prod.exhaust)
    have sh: "mset sh = mset ps" "killed w2 = killed w1" using shuffle [of ps w1] s by simp_all
    have len: "length sh = length ps" using sh(1) by (metis size_mset)
    let ?n = "killCount spec (length ps)"
    have n: "0 < ?n" "?n \<le> length ps" "?n \<le> nat (max 1 (injCount spec))"
      using q(2) by (cases ps; auto simp: killCount_def Let_def)+
    obtain d evs w3 where kp: "killPods api ns (take ?n sh) [] w2 = (d, evs, w3)" by (metis prod.exhaust)
    obtain m where m: "m \<le> ?n" "killed w3 = killed w2 @ map pdUID (take m sh)" "length evs = m"
      "d = None \<longrightarrow> m = ?n"
      using killPods_killed [OF kp] n len by (auto simp: min_def split: if_splits)
    have "mset (take m sh) \<subseteq># mset ps" using sh(1) by (metis append_take_drop_id mset_append mset_subset_eq_add_left)
    moreover have "w' = w3" "\<forall>co evs'. r = Inr (co, evs') \<longrightarrow> evs' = evs \<and> d = None"
      using assms Inr l q s kp by (auto simp: podKillInject_def split: option.splits)
    ultimately show ?thesis
      using m n len l q k1 sh(2) by (intro exI [of _ "take m sh"]) (auto simp: min_def)
  qed
qed

end

text \<open>C33. An accepted pod kill stays within its blast radius: whether it succeeds or fails half-way, it kills
  no more pods than the experiment allows, each of them listed for its selector; when it succeeds,
  at least one was killed and there is an event for each.\<close>

theorem podKill_within_blast_radius:
  assumes "pod_api api killed" and "inValidate (podKillInjector lib api) spec blast = None"
    and "inInject (podKillInjector lib api) spec ns w = (r, w')"
  shows "\<exists>pods. killed w' = killed w @ map pdUID pods \<and> int (length pods) \<le> brMaxPodsAffected blast \<and>
    (\<forall>ps w1. paList api ns (param spec ''labelSelector'') w = (Inr ps, w1) \<longrightarrow> mset pods \<subseteq># mset ps) \<and>
    (\<forall>co evs. r = Inr (co, evs) \<longrightarrow> length evs = length pods \<and> pods \<noteq> [])"
proof -
  have c: "max 1 (injCount spec) \<le> brMaxPodsAffected blast"
    using assms(2) by (auto simp: podKillInjector_def validatePodKillParams_def Let_def split: if_splits)
  have "podKillInject lib api spec ns w = (r, w')" using assms(3) by (simp add: podKillInjector_def)
  from pod_api.podKillInject_killed [OF assms(1) this] obtain pods where
    "killed w' = killed w @ map pdUID pods" "length pods \<le> nat (max 1 (injCount spec))"
    "\<forall>ps w1. paList api ns (param spec ''labelSelector'') w = (Inr ps, w1) \<longrightarrow> mset pods \<subseteq># mset ps"
    "\<forall>co evs. r = Inr (co, evs) \<longrightarrow> length evs = length pods \<and> pods \<noteq> []" by blast
  then show ?thesis using c by (intro exI [of _ pods]) auto
qed

section \<open>A cluster of pods\<close>

type_synonym podWorld = "pod list \<times> string list"

definition memPods :: "podWorld podApi" where
  "memPods = \<lparr>paList = \<lambda>ns s w. (Inr (fst w), w),
     paDelete = \<lambda>ns p w. if p \<in> set (fst w) then (None, (remove1 p (fst w), snd w @ [pdUID p])) else (Some ApiNotFound, w),
     paShuffle = \<lambda>ps w. (rev ps, w), paNow = \<lambda>w. 0\<rparr>"

interpretation memPods: pod_api memPods snd
  by unfold_locales (auto simp: memPods_def split: if_splits)

definition podDemoLib :: paramLib where
  "podDemoLib = \<lparr>plParseSelector = \<lambda>s. Inr 1, plJsonCompound = \<lambda>s. False,
     plUnmarshalFaults = \<lambda>s. Inr [], plMarshalFaults = \<lambda>fs. Inr ''{}'', plParseDuration = \<lambda>s. Inr 0\<rparr>"

definition podDemoSpec :: injectionSpec where
  "podDemoSpec = \<lparr>injType = PodKill, injParams = [''labelSelector'' \<mapsto> ''app=web''], injCount = 2,
     injTTL = 0, injDanger = DangerLevelLow\<rparr>"

definition podDemoBlast :: blastRadiusSpec where
  "podDemoBlast = \<lparr>brMaxPodsAffected = 2, brAllowedNamespaces = [''ns1''], brForbiddenResources = [],
     brAllowDangerous = False, brDryRun = False\<rparr>"

definition podDemoWorld :: podWorld where
  "podDemoWorld = ([\<lparr>pdName = ''a'', pdUID = ''u1'', pdNode = ''n''\<rparr>, \<lparr>pdName = ''b'', pdUID = ''u2'', pdNode = ''n''\<rparr>,
     \<lparr>pdName = ''c'', pdUID = ''u3'', pdNode = ''n''\<rparr>], [])"

theorem podKill_within_blast_radius_witness:
  "\<exists>r w'. inInject (podKillInjector podDemoLib memPods) podDemoSpec ''ns1'' podDemoWorld = (r, w') \<and>
     int (length (snd w')) \<le> 2"
proof -
  have v: "inValidate (podKillInjector podDemoLib memPods) podDemoSpec podDemoBlast = None"
    by (simp add: podKillInjector_def validatePodKillParams_def validateLabelSelector_def podDemoSpec_def
        podDemoBlast_def podDemoLib_def Let_def)
  obtain r w' where i: "inInject (podKillInjector podDemoLib memPods) podDemoSpec ''ns1'' podDemoWorld = (r, w')"
    by (rule prod.exhaust)
  from podKill_within_blast_radius [OF memPods.pod_api_axioms v i] i show ?thesis
    by (auto simp: podDemoWorld_def podDemoBlast_def)
qed

end
