(* ===== verification/InjectOwner.thy ===== *)
theory InjectOwner
  imports InjectMeta
begin

text \<open>
  Orphaning (\<open>ownerref.go\<close>): the owner references of an object are removed and kept in its rollback
  annotation. A restore leaves the owners alone when the operator has adopted the object again.
\<close>

definition orphanPatch :: "(string \<rightharpoonup> string option) \<Rightarrow> (string \<rightharpoonup> string option) \<Rightarrow> ownerRef list option \<Rightarrow> vobject \<Rightarrow> vobject" where
  "orphanPatch labels annotations owners x =
     (let y = patchMetadata labels annotations x
      in case owners of None \<Rightarrow> y | Some os \<Rightarrow> (fst y, (snd y)\<lparr>obOwnerRefs := os\<rparr>))"

definition orphanKey :: "'w cluster \<Rightarrow> injectionSpec \<Rightarrow> string \<Rightarrow> objKey" where
  "orphanKey k spec ns = (clKind k (param spec ''apiVersion'') (param spec ''kind''), ns, param spec ''name'')"

text \<open>The patch of both restores: the chaos metadata off, and the owners back unless there are new ones.\<close>

definition adoptPatch :: "ownerRef list \<Rightarrow> vobject \<Rightarrow> vobject \<Rightarrow> vobject" where
  "adoptPatch owners current =
     orphanPatch (\<lambda>a. if ChaosLabels (injectionTypeName OwnerRefOrphan) a \<noteq> None then Some None else None)
       [RollbackAnnotationKey \<mapsto> None]
       (if obOwnerRefs (snd current) = [] then Some owners else None)"

definition orphanCleanup :: "'w cluster \<Rightarrow> objKey \<Rightarrow> ownerRef list \<Rightarrow> 'w \<Rightarrow> goErr option \<times> 'w" where
  "orphanCleanup k key owners w =
     reread k key (\<lambda>err. Errorf ''re-fetching resource for cleanup: %w'' [AErr err])
       (\<lambda>current. kPatch (cl k) key (adoptPatch owners current)) w"

definition orphanInject ::
  "'w cluster \<Rightarrow> injectionSpec \<Rightarrow> string \<Rightarrow> 'w \<Rightarrow>
   (goErr + 'w cleanupFunc option \<times> injectionEvent list) \<times> 'w" where
  "orphanInject k spec ns =
     (let key = orphanKey k spec ns; kind = param spec ''kind''; name = param spec ''name''
      in fetch k key (\<lambda>err. Errorf ''getting resource %s/%s: %w'' [AStr kind, AStr name, AErr err])
           (\<lambda>x w1.
              let owners = obOwnerRefs (snd x)
              in if owners = [] then
                   (Inl (Errorf ''resource %s/%s has no ownerReferences to orphan'' [AStr kind, AStr name]), w1)
                 else (case cdMarshalOwners (clCodecs k) owners of
                    Inl err \<Rightarrow> (Inl (Errorf ''serializing ownerReferences: %w'' [AErr err]), w1)
                  | Inr js \<Rightarrow>
                      (case WrapRollbackData (cdRollback (clCodecs k))
                          [(''apiVersion'', param spec ''apiVersion''), (''kind'', kind), (''ownerReferences'', js)] of
                         Inl err \<Rightarrow> (Inl (Errorf ''wrapping rollback data: %w'' [AErr err]), w1)
                       | Inr rollbackStr \<Rightarrow>
                           finishInject
                             (kPatch (cl k) key
                               (orphanPatch (\<lambda>a. map_option Some (ChaosLabels (injectionTypeName OwnerRefOrphan) a))
                                 [RollbackAnnotationKey \<mapsto> Some rollbackStr] (Some [])) w1)
                             (\<lambda>err. Errorf ''removing ownerReferences: %w'' [AErr err])
                             (\<lambda>w2. (Some (orphanCleanup k key owners),
                               [NewEvent (clNow k w2) OwnerRefOrphan (keyText ns name) ''orphaned''
                                 [''removedOwners'' \<mapsto>
                                    ''['' @ joinWith CHR '' '' (map (\<lambda>r. owKind r @ ''/'' @ owName r) owners) @ '']'',
                                  ''count'' \<mapsto> itoa (int (length owners))]]))))))"

definition orphanRevert :: "'w cluster \<Rightarrow> injectionSpec \<Rightarrow> string \<Rightarrow> 'w \<Rightarrow> goErr option \<times> 'w" where
  "orphanRevert k spec ns =
     (let key = orphanKey k spec ns
      in onFound k key (\<lambda>err. Errorf ''getting resource for revert: %w'' [AErr err])
           (\<lambda>x w1. case obAnnotations (snd x) RollbackAnnotationKey of
              None \<Rightarrow> (None, w1)
            | Some rollbackStr \<Rightarrow>
                (case UnwrapRollbackData (cdRollback (clCodecs k)) rollbackStr of
                   Inl err \<Rightarrow> (Some (Errorf ''unwrapping rollback data: %w'' [AErr err]), w1)
                 | Inr info \<Rightarrow>
                     (case map_of info ''ownerReferences'' of
                        None \<Rightarrow> (Some (Errorf ''rollback data missing ownerReferences'' []), w1)
                      | Some js \<Rightarrow>
                          (case cdUnmarshalOwners (clCodecs k) js of
                             Inl err \<Rightarrow> (Some (Errorf ''deserializing ownerReferences: %w'' [AErr err]), w1)
                           | Inr owners \<Rightarrow> kPatch (cl k) key (adoptPatch owners x) w1)))))"

definition orphanInjector :: "'w cluster \<Rightarrow> 'w injector" where
  "orphanInjector k =
     \<lparr>inValidate = \<lambda>spec blast. validateOwnerRefOrphanParams spec,
      inInject = orphanInject k, inRevert = orphanRevert k\<rparr>"

section \<open>The contract\<close>

lemma orphanPatch_simps [simp]:
  "obAnnotations (snd (orphanPatch l a os x)) = jsonMerge a (obAnnotations (snd x))"
  "obLabels (snd (orphanPatch l a os x)) = jsonMerge l (obLabels (snd x))"
  "obOwnerRefs (snd (orphanPatch l a os x)) = (case os of None \<Rightarrow> obOwnerRefs (snd x) | Some rs \<Rightarrow> rs)"
  "obBody (snd (orphanPatch l a os x)) = obBody (snd x)"
  "obFinalizers (snd (orphanPatch l a os x)) = obFinalizers (snd x)"
  by (simp_all add: orphanPatch_def Let_def patchMetadata_def split: option.split)

lemma adoptPatch_annotation [simp]:
  "obAnnotations (snd (adoptPatch os c x)) RollbackAnnotationKey = None"
  by (simp add: adoptPatch_def jsonMerge_def)

lemma orphanCleanup_form [simp]: "\<exists>os'. orphanCleanup k key os = orphanCleanup k key os'"
  by blast

context cluster_api
begin

lemma orphanCleanup_cleans: "cleans (rollbackPending st key) (orphanCleanup k key os)"
  unfolding orphanCleanup_def [abs_def] rollbackPending_def [abs_def] by (rule reread_clears) simp

end

sublocale cluster_api \<subseteq> orphan: fault_injector "orphanInjector k" spec ns "rollbackPending st (orphanKey k spec ns)"
  for spec ns
  unfolding rollbackPending_def [abs_def]
  by (rule in_place_injector [where Q = "\<lambda>c. \<exists>os. c = orphanCleanup k (orphanKey k spec ns) os"],
      unfold orphanInjector_def injector.simps, rule orphanInject_def [unfolded Let_def],
      rule orphanRevert_def [unfolded Let_def])
     (auto simp: orphanCleanup_cleans [unfolded rollbackPending_def [abs_def]] simp del: not_None_eq
        split: option.split sum.split)

section \<open>Adoption\<close>

context cluster_api
begin


lemma orphanInject_state:
  assumes "orphanInject k spec ns w = (Inr res, w1)"
  shows "\<exists>x y js s. st w (orphanKey k spec ns) = Some x \<and> obOwnerRefs (snd x) \<noteq> [] \<and>
    cdMarshalOwners (clCodecs k) (obOwnerRefs (snd x)) = Inr js \<and>
    WrapRollbackData (cdRollback (clCodecs k)) [(''apiVersion'', param spec ''apiVersion''),
      (''kind'', param spec ''kind''), (''ownerReferences'', js)] = Inr s \<and>
    st w1 = (st w)(orphanKey k spec ns \<mapsto> y) \<and>
    snd y = snd (orphanPatch (\<lambda>a. map_option Some (ChaosLabels (injectionTypeName OwnerRefOrphan) a))
      [RollbackAnnotationKey \<mapsto> Some s] (Some []) x)"
  using assms unfolding orphanInject_def Let_def
proof (cases rule: fetch_cases)
  case (Found x v)
  obtain js where js: "obOwnerRefs (snd x) \<noteq> []" "cdMarshalOwners (clCodecs k) (obOwnerRefs (snd x)) = Inr js"
    using Found(3) by (auto split: if_splits sum.splits)
  obtain s where s: "WrapRollbackData (cdRollback (clCodecs k)) [(''apiVersion'', param spec ''apiVersion''),
      (''kind'', param spec ''kind''), (''ownerReferences'', js)] = Inr s"
    using Found(3) js by (auto split: sum.splits)
  have "kPatch (cl k) (orphanKey k spec ns) (orphanPatch
      (\<lambda>a. map_option Some (ChaosLabels (injectionTypeName OwnerRefOrphan) a))
      [RollbackAnnotationKey \<mapsto> Some s] (Some [])) v = (None, w1)"
    using Found(3) js s by (simp add: finishInject_eq)
  from patch_done [OF this] Found js s show ?thesis by auto
qed simp

lemma orphanRevert_state:
  assumes "orphanRevert k spec ns w = (None, w1)" and "st w (orphanKey k spec ns) = Some y"
    and "obAnnotations (snd y) RollbackAnnotationKey = Some s"
    and "UnwrapRollbackData (cdRollback (clCodecs k)) s = Inr info" and "map_of info ''ownerReferences'' = Some js"
    and "cdUnmarshalOwners (clCodecs k) js = Inr owners"
  shows "\<exists>z. st w1 = (st w)(orphanKey k spec ns \<mapsto> z) \<and> snd z = snd (adoptPatch owners y y)"
  using assms(1) unfolding orphanRevert_def Let_def
proof (cases rule: onFound_cases)
  case (Found x v)
  then have "kPatch (cl k) (orphanKey k spec ns) (adoptPatch owners y) v = (None, w1)"
    using assms(2-6) by simp
  from patch_done [OF this] show ?thesis using Found assms(2) by auto
qed (use assms(2) in simp_all)

end

text \<open>Whoever owns the object when the revert runs keeps it: owners that the operator has set in the meantime
  stay, and otherwise the original owners come back.\<close>

theorem orphan_revert_owners:
  assumes "cluster_api k st" and "rollback_codec (cdRollback (clCodecs k))"
    and "\<forall>os js. cdMarshalOwners (clCodecs k) os = Inr js \<longrightarrow> cdUnmarshalOwners (clCodecs k) js = Inr os"
    and "inInject (orphanInjector k) spec ns w = (Inr res, w1)"
    and "st w1 (orphanKey k spec ns) = Some y"
    and "st w2 (orphanKey k spec ns) = Some y'" and "obAnnotations (snd y') = obAnnotations (snd y)"
    and "inRevert (orphanInjector k) spec ns w2 = (None, w3)"
  shows "\<exists>x z. st w (orphanKey k spec ns) = Some x \<and> st w3 (orphanKey k spec ns) = Some z \<and> obOwnerRefs (snd y) = [] \<and>
    obOwnerRefs (snd z) = (if obOwnerRefs (snd y') = [] then obOwnerRefs (snd x) else obOwnerRefs (snd y')) \<and>
    obAnnotations (snd z) RollbackAnnotationKey = None"
proof -
  have i: "orphanInject k spec ns w = (Inr res, w1)" and r: "orphanRevert k spec ns w2 = (None, w3)"
    using assms(4,8) by (simp_all add: orphanInjector_def)
  from cluster_api.orphanInject_state [OF assms(1) i] obtain x js s where
    x: "st w (orphanKey k spec ns) = Some x" and js: "cdMarshalOwners (clCodecs k) (obOwnerRefs (snd x)) = Inr js"
    and s: "WrapRollbackData (cdRollback (clCodecs k)) [(''apiVersion'', param spec ''apiVersion''),
      (''kind'', param spec ''kind''), (''ownerReferences'', js)] = Inr s"
    and y: "obOwnerRefs (snd y) = []" "obAnnotations (snd y) RollbackAnnotationKey = Some s"
    using assms(5) by (auto simp: jsonMerge_def)
  note u = rollback_codec.unwrap_wrap [OF assms(2) s]
  have a: "obAnnotations (snd y') RollbackAnnotationKey = Some s" using y(2) assms(7) by simp
  have o: "cdUnmarshalOwners (clCodecs k) js = Inr (obOwnerRefs (snd x))" using assms(3) js by blast
  show ?thesis
    using cluster_api.orphanRevert_state [OF assms(1), OF r assms(6) a u _ o] x y(1)
    by (auto simp: adoptPatch_def jsonMerge_def)
qed

end
