(* ===== verification/InjectClientFault.thy ===== *)
theory InjectClientFault
  imports InjectMeta
begin

text \<open>
  Client faults (\<open>clientfault.go\<close>): the ConfigMap that the SDK reads is created, or changed and its
  old data kept in the rollback annotation. The fault is in effect while the ConfigMap carries a
  rollback annotation that is not empty.
\<close>

definition ChaosConfigMapName :: string where
  "ChaosConfigMapName = ''operator-chaos-config''"

definition ChaosConfigKey :: string where
  "ChaosConfigKey = ''config''"

definition createdMarker :: string where
  "createdMarker = ''chaos.operatorchaos.io/created''"

definition clientFaultName :: "injectionSpec \<Rightarrow> string" where
  "clientFaultName spec = (if param spec ''configMapName'' = '''' then ChaosConfigMapName else param spec ''configMapName'')"

definition clientFaultKey :: "injectionSpec \<Rightarrow> string \<Rightarrow> objKey" where
  "clientFaultKey spec ns = (''ConfigMap'', ns, clientFaultName spec)"

text \<open>Of several unparsable durations the code reports any one, since it walks through a map.\<close>

fun checkDelays :: "paramLib \<Rightarrow> (string \<times> faultEntry) list \<Rightarrow> goErr option" where
  "checkDelays lib [] = None"
| "checkDelays lib ((op, e) # fs) =
     (case (if feDelay e \<noteq> '''' then plParseDuration lib (feDelay e) else Inr 0) of
        Inl err \<Rightarrow> Some (Errorf ''invalid delay for operation %q: %w'' [AStr op, AErr err])
      | Inr d \<Rightarrow>
          (case (if feMaxDelay e \<noteq> '''' then plParseDuration lib (feMaxDelay e) else Inr 0) of
             Inl err \<Rightarrow> Some (Errorf ''invalid maxDelay for operation %q: %w'' [AStr op, AErr err])
           | Inr d' \<Rightarrow> checkDelays lib fs))"

definition buildFaultConfig :: "paramLib \<Rightarrow> string \<Rightarrow> goErr + (string \<times> faultEntry) list" where
  "buildFaultConfig lib faultsJSON =
     (case plUnmarshalFaults lib faultsJSON of
        Inl err \<Rightarrow> Inl err
      | Inr faults \<Rightarrow> (case checkDelays lib faults of Some err \<Rightarrow> Inl err | None \<Rightarrow> Inr faults))"

text \<open>Cleanup: delete the ConfigMap that was created, or put the old data back.\<close>

definition clientFaultCleanup ::
  "'w cluster \<Rightarrow> injectionSpec \<Rightarrow> string \<Rightarrow> strmap option \<Rightarrow> 'w \<Rightarrow> goErr option \<times> 'w" where
  "clientFaultCleanup k spec ns original =
     (let key = clientFaultKey spec ns; text = keyText ns (clientFaultName spec)
      in case original of
           None \<Rightarrow> deleteGone k key (\<lambda>err. Errorf ''deleting ConfigMap %s: %w'' [AStr text, AErr err])
         | Some originalData \<Rightarrow>
             onFound k key (\<lambda>err. Errorf ''getting ConfigMap %s for restore: %w'' [AStr text, AErr err])
               (\<lambda>cm w1. wrapW (\<lambda>err. Errorf ''restoring ConfigMap %s: %w'' [AStr text, AErr err])
                  (kUpdate (cl k) key
                    (RemoveChaosMetadata (injectionTypeName ClientFault) (setBody (BData originalData) cm)) w1)))"

definition clientFaultInject ::
  "paramLib \<Rightarrow> 'w cluster \<Rightarrow> injectionSpec \<Rightarrow> string \<Rightarrow> 'w \<Rightarrow>
   (goErr + 'w cleanupFunc option \<times> injectionEvent list) \<times> 'w" where
  "clientFaultInject lib k spec ns w =
     (let key = clientFaultKey spec ns; text = keyText ns (clientFaultName spec);
          ty = injectionTypeName ClientFault;
          result = (\<lambda>original w2. (Some (clientFaultCleanup k spec ns original),
            [NewEvent (clNow k w2) ClientFault text ''activated''
               [''configMap'' \<mapsto> clientFaultName spec, ''namespace'' \<mapsto> ns]]))
      in case buildFaultConfig lib (param spec ''faults'') of
           Inl err \<Rightarrow> (Inl (Errorf ''building fault config: %w'' [AErr err]), w)
         | Inr faults \<Rightarrow>
             (case plMarshalFaults lib faults of
                Inl err \<Rightarrow> (Inl (Errorf ''marshaling fault config: %w'' [AErr err]), w)
              | Inr configJSON \<Rightarrow>
                  (case kGet (cl k) key w of
                     (Inl err, w1) \<Rightarrow>
                       if \<not> isNotFound err then (Inl (Errorf ''getting ConfigMap %s: %w'' [AStr text, AErr err]), w1)
                       else (case WrapRollbackData (cdData (clCodecs k)) [createdMarker \<mapsto> ''true''] of
                               Inl err \<Rightarrow> (Inl (Errorf ''serializing chaos marker: %w'' [AErr err]), w1)
                             | Inr marker \<Rightarrow>
                                 finishInject
                                   (kCreate (cl k) key
                                     (ApplyChaosMetadata marker ty
                                       (newObject Map.empty Map.empty (BData [ChaosConfigKey \<mapsto> configJSON]))) w1)
                                   (\<lambda>err. Errorf ''creating ConfigMap %s: %w'' [AStr text, AErr err])
                                   (result None))
                   | (Inr existing, w1) \<Rightarrow>
                       (case WrapRollbackData (cdData (clCodecs k)) (dataOf existing) of
                          Inl err \<Rightarrow> (Inl (Errorf ''serializing rollback data: %w'' [AErr err]), w1)
                        | Inr rollbackStr \<Rightarrow>
                            finishInject
                              (kUpdate (cl k) key
                                (ApplyChaosMetadata rollbackStr ty
                                  (setBody (BData ((dataOf existing)(ChaosConfigKey \<mapsto> configJSON))) existing)) w1)
                              (\<lambda>err. Errorf ''updating ConfigMap %s: %w'' [AStr text, AErr err])
                              (result (Some (dataOf existing)))))))"

definition clientFaultRevert :: "'w cluster \<Rightarrow> injectionSpec \<Rightarrow> string \<Rightarrow> 'w \<Rightarrow> goErr option \<times> 'w" where
  "clientFaultRevert k spec ns =
     (let key = clientFaultKey spec ns; text = keyText ns (clientFaultName spec)
      in onFound k key (\<lambda>err. Errorf ''getting ConfigMap %s for revert: %w'' [AStr text, AErr err])
           (\<lambda>cm w1. case obAnnotations (snd cm) RollbackAnnotationKey of
              None \<Rightarrow> (None, w1)
            | Some rollbackStr \<Rightarrow>
                if rollbackStr = '''' then (None, w1)
                else (case UnwrapRollbackData (cdData (clCodecs k)) rollbackStr of
                        Inl err \<Rightarrow> (Some (Errorf ''unwrapping rollback data for ConfigMap %s: %w''
                            [AStr text, AErr err]), w1)
                      | Inr original \<Rightarrow>
                          if mget original createdMarker = ''true''
                          then deleteGone k key (\<lambda>err.
                                 Errorf ''deleting ConfigMap %s during revert: %w'' [AStr text, AErr err]) w1
                          else kUpdate (cl k) key
                                 (RemoveChaosMetadata (injectionTypeName ClientFault)
                                   (setBody (BData original) cm)) w1)))"

definition clientFaultInjector :: "paramLib \<Rightarrow> 'w cluster \<Rightarrow> 'w injector" where
  "clientFaultInjector lib k =
     \<lparr>inValidate = \<lambda>spec blast. validateClientFaultParams lib spec,
      inInject = clientFaultInject lib k, inRevert = clientFaultRevert k\<rparr>"

definition clientFaultActive ::
  "('w \<Rightarrow> objKey \<rightharpoonup> vobject) \<Rightarrow> injectionSpec \<Rightarrow> string \<Rightarrow> 'w \<Rightarrow> bool" where
  "clientFaultActive st spec ns w =
     objAt (\<lambda>d. mget (obAnnotations d) RollbackAnnotationKey \<noteq> '''') (st w) (clientFaultKey spec ns)"

section \<open>The contract\<close>

lemma RemoveChaosMetadata_mget [simp]:
  "mget (obAnnotations (snd (RemoveChaosMetadata t x))) RollbackAnnotationKey = ''''"
  by (simp add: mget_def)

context cluster_api
begin

lemma clientFaultInject_cases [consumes 1, case_names Failed Created Changed]:
  assumes "clientFaultInject lib k spec ns w = (r, w')"
  obtains e where "r = Inl e" "st w' = st w"
  | ev js s y where "r = Inr (Some (clientFaultCleanup k spec ns None), ev)" "st w (clientFaultKey spec ns) = None"
      "WrapRollbackData (cdData (clCodecs k)) [createdMarker \<mapsto> ''true''] = Inr s"
      "snd y = snd (ApplyChaosMetadata s (injectionTypeName ClientFault)
         (newObject Map.empty Map.empty (BData [ChaosConfigKey \<mapsto> js])))"
      "st w' = (st w)(clientFaultKey spec ns \<mapsto> y)"
  | ev js s x y where "r = Inr (Some (clientFaultCleanup k spec ns (Some (dataOf x))), ev)"
      "st w (clientFaultKey spec ns) = Some x" "WrapRollbackData (cdData (clCodecs k)) (dataOf x) = Inr s"
      "snd y = snd (ApplyChaosMetadata s (injectionTypeName ClientFault)
         (setBody (BData ((dataOf x)(ChaosConfigKey \<mapsto> js))) x))"
      "st w' = (st w)(clientFaultKey spec ns \<mapsto> y)"
proof -
  let ?key = "clientFaultKey spec ns" and ?ty = "injectionTypeName ClientFault"
  show thesis
  proof (cases "\<exists>fs js. buildFaultConfig lib (param spec ''faults'') = Inr fs \<and> plMarshalFaults lib fs = Inr js")
    case False
    have "st w' = st w \<and> (\<exists>e. r = Inl e)"
      using assms False unfolding clientFaultInject_def Let_def by (auto split: sum.splits)
    with that(1) show thesis by blast
  next
    case True
    then obtain fs js where b: "buildFaultConfig lib (param spec ''faults'') = Inr fs" "plMarshalFaults lib fs = Inr js"
      by blast
    obtain q w1 where g: "kGet (cl k) ?key w = (q, w1)" by (rule prod.exhaust)
    have s1: "st w1 = st w" using get_frame [of ?key w] g by simp
    note d = assms [unfolded clientFaultInject_def Let_def b sum.case g prod.case]
    show thesis
    proof (cases q)
      case (Inl err)
      show thesis
      proof (cases "\<exists>s. isNotFound err \<and> WrapRollbackData (cdData (clCodecs k)) [createdMarker \<mapsto> ''true''] = Inr s")
        case False
        have "st w' = st w \<and> (\<exists>e. r = Inl e)" using d Inl False s1 by (auto split: if_splits sum.splits)
        with that(1) show thesis by blast
      next
        case True
        then obtain s where nf: "isNotFound err"
          and s: "WrapRollbackData (cdData (clCodecs k)) [createdMarker \<mapsto> ''true''] = Inr s" by blast
        obtain c v where c: "kCreate (cl k) ?key (ApplyChaosMetadata s ?ty
            (newObject Map.empty Map.empty (BData [ChaosConfigKey \<mapsto> js]))) w1 = (c, v)" by (rule prod.exhaust)
        from c show thesis
        proof (cases rule: create_cases)
          case (Failed e)
          show thesis by (rule that(1)) (use d Inl nf s c Failed s1 in \<open>auto simp: finishInject_def\<close>)
        next
          case (Exists e)
          show thesis by (rule that(1)) (use d Inl nf s c Exists s1 in \<open>auto simp: finishInject_def\<close>)
        next
          case (Created y)
          show thesis
            by (rule that(2) [OF _ _ s Created(3)]) (use d Inl nf s c Created s1 in \<open>auto simp: finishInject_def\<close>)
        qed
      qed
    next
      case (Inr x)
      have x: "st w ?key = Some x" using get_ok [of ?key w x w1] g Inr by simp
      show thesis
      proof (cases "WrapRollbackData (cdData (clCodecs k)) (dataOf x)")
        case (Inl err)
        show thesis by (rule that(1)) (use d Inr Inl s1 in auto)
      next
        case (Inr s)
        obtain c v where c: "kUpdate (cl k) ?key (ApplyChaosMetadata s ?ty
            (setBody (BData ((dataOf x)(ChaosConfigKey \<mapsto> js))) x)) w1 = (c, v)" by (rule prod.exhaust)
        from c show thesis
        proof (cases rule: update_cases)
          case (Failed e)
          show thesis by (rule that(1)) (use d \<open>q = Inr x\<close> Inr c Failed s1 in \<open>auto simp: finishInject_def\<close>)
        next
          case (Updated cur y)
          show thesis
            by (rule that(3) [OF _ x Inr Updated(4)])
               (use d \<open>q = Inr x\<close> Inr c Updated s1 in \<open>auto simp: finishInject_def\<close>)
        qed
      qed
    qed
  qed
qed

lemma clientFaultCleanup_cleans: "cleans (clientFaultActive st spec ns) (clientFaultCleanup k spec ns original)"
  unfolding cleans_def
proof (intro allI impI)
  fix w w' assume c: "clientFaultCleanup k spec ns original w = (None, w')"
  show "\<not> clientFaultActive st spec ns w'"
  proof (cases original)
    case None
    from c show ?thesis
      unfolding clientFaultCleanup_def None option.case Let_def clientFaultActive_def
      by (cases rule: deleteGone_cases) (simp_all add: objAt_def)
  next
    case (Some m)
    from c show ?thesis
      unfolding clientFaultCleanup_def Some option.case Let_def clientFaultActive_def
      by (rule onFound_clears [THEN conjunct1, THEN mp]) simp_all
  qed
qed

end

sublocale cluster_api \<subseteq> clientFault: fault_injector "clientFaultInjector lib k" spec ns "clientFaultActive st spec ns"
  for lib spec ns
proof
  fix w co ev w' assume "inInject (clientFaultInjector lib k) spec ns w = (Inr (co, ev), w')"
  then have "clientFaultInject lib k spec ns w = (Inr (co, ev), w')" by (simp add: clientFaultInjector_def)
  then show "case co of None \<Rightarrow> clientFaultActive st spec ns w' = clientFaultActive st spec ns w
      | Some c \<Rightarrow> cleans (clientFaultActive st spec ns) c"
    by (cases rule: clientFaultInject_cases) (auto simp: clientFaultCleanup_cleans)
next
  fix w e w' assume i: "inInject (clientFaultInjector lib k) spec ns w = (Inl e, w')"
    and a: "clientFaultActive st spec ns w'"
  from i have "clientFaultInject lib k spec ns w = (Inl e, w')" by (simp add: clientFaultInjector_def)
  then have "st w' = st w" by (cases rule: clientFaultInject_cases) auto
  then show "clientFaultActive st spec ns w" using a by (simp add: clientFaultActive_def)
next
  fix w w' assume "inRevert (clientFaultInjector lib k) spec ns w = (None, w')"
  then show "\<not> clientFaultActive st spec ns w'"
    unfolding clientFaultInjector_def injector.simps clientFaultRevert_def Let_def clientFaultActive_def
    by (cases rule: onFound_cases)
       (auto simp: objAt_def mget_def split: option.splits if_splits sum.splits
          dest!: deleteGone_clears update_done)
next
  fix w r w' assume "inRevert (clientFaultInjector lib k) spec ns w = (r, w')" "\<not> clientFaultActive st spec ns w"
  then show "\<not> clientFaultActive st spec ns w'"
    unfolding clientFaultInjector_def injector.simps clientFaultRevert_def Let_def clientFaultActive_def
    by (cases rule: onFound_cases) (auto simp: objAt_def mget_def split: option.splits if_splits sum.splits)
qed

end
