(* ===== verification/InjectWebhook.thy ===== *)
theory InjectWebhook
  imports InjectMeta
begin

text \<open>
  Webhook disruption (\<open>webhook.go\<close>): the failure policies of all webhooks of a configuration are
  overwritten, the original ones are kept in the rollback annotation. The configuration is named by
  a parameter, or found by a label selector that has to match exactly one. The code has two copies of
  each routine, one for validating and one for mutating webhooks, which differ in the kind only; here
  the kind is an argument.
\<close>

section \<open>Finding the configuration\<close>

definition resolveWebhookType :: "string \<Rightarrow> string" where
  "resolveWebhookType t = (if t = ''mutating'' then ''mutating'' else ''validating'')"

definition webhookKind :: "string \<Rightarrow> string" where
  "webhookKind webhookType =
     (if webhookType = ''mutating'' then ''MutatingWebhookConfiguration'' else ''ValidatingWebhookConfiguration'')"

definition errNoMatch :: "string \<Rightarrow> goErr" where
  "errNoMatch webhookType =
     (if webhookType = ''mutating'' then Errorf ''no MutatingWebhookConfiguration found'' []
      else Errorf ''no ValidatingWebhookConfiguration found'' [])"

definition isNoMatchError :: "goErr \<Rightarrow> bool" where
  "isNoMatchError err = (errorsIs err (errNoMatch ''validating'') \<or> errorsIs err (errNoMatch ''mutating''))"

definition parseFailurePolicy :: "string \<Rightarrow> goErr + string" where
  "parseFailurePolicy s =
     (if s = ''Fail'' \<or> s = ''Ignore'' then Inr s
      else Inl (Errorf ''invalid failure policy %q; must be Fail or Ignore'' [AStr s]))"

definition resolveWebhookName ::
  "'w cluster \<Rightarrow> injectionSpec \<Rightarrow> string \<Rightarrow> 'w \<Rightarrow> (goErr + string) \<times> 'w" where
  "resolveWebhookName k spec webhookType w =
     (let selector = param spec ''webhookLabelSelector''
      in if param spec ''webhookName'' \<noteq> '''' then (Inr (param spec ''webhookName''), w)
         else (case cdMatches (clCodecs k) selector of
                 Inl err \<Rightarrow> (Inl (Errorf ''parsing webhookLabelSelector: %w'' [AErr err]), w)
               | Inr p \<Rightarrow>
                   (case clList k (webhookKind webhookType) (Some '''') p w of
                      (Inl err, w1) \<Rightarrow> (Inl (Errorf ''listing %ss: %w'' [AStr (webhookKind webhookType), AErr err]), w1)
                    | (Inr items, w1) \<Rightarrow>
                        if items = [] then
                          (Inl (Errorf ''%w matching label selector %q'' [AErr (errNoMatch webhookType), AStr selector]), w1)
                        else if length items > 1 then
                          (Inl (Errorf ''label selector %q matched %d %ss %v; must match exactly one''
                             [AStr selector, AInt (int (length items)), AStr (webhookKind webhookType),
                              AStrs (map (\<lambda>i. snd (snd (fst i))) items)]), w1)
                        else (Inr (snd (snd (fst (hd items)))), w1))))"

section \<open>Operations\<close>

definition webhooksOf :: "vobject \<Rightarrow> webhookEntry list" where
  "webhooksOf x = (case obBody (snd x) of BWebhooks ws \<Rightarrow> ws | _ \<Rightarrow> [])"

text \<open>Of two webhooks with one name the last one counts, as in a Go map that is filled in order.\<close>

definition originalPolicies :: "vobject \<Rightarrow> strmap" where
  "originalPolicies x =
     foldl (\<lambda>m e. m(weName e \<mapsto> (case wePolicy e of Some p \<Rightarrow> p | None \<Rightarrow> ''''))) Map.empty (webhooksOf x)"

definition setPolicies :: "string \<Rightarrow> vobject \<Rightarrow> vobject" where
  "setPolicies p x = setBody (BWebhooks (map (wePolicy_update (\<lambda>_. Some p)) (webhooksOf x))) x"

definition restorePolicy :: "strmap \<Rightarrow> webhookEntry \<Rightarrow> webhookEntry" where
  "restorePolicy policies e =
     (case policies (weName e) of
        None \<Rightarrow> e
      | Some p \<Rightarrow> e\<lparr>wePolicy := (if p = '''' then None else Some p)\<rparr>)"

definition restorePolicies :: "strmap \<Rightarrow> vobject \<Rightarrow> vobject" where
  "restorePolicies policies x = setBody (BWebhooks (map (restorePolicy policies) (webhooksOf x))) x"

definition injectWebhooks ::
  "'w cluster \<Rightarrow> string \<Rightarrow> string \<Rightarrow> string \<Rightarrow> (nat \<Rightarrow> 'w \<Rightarrow> 'a) \<Rightarrow> 'w \<Rightarrow> (goErr + 'a) \<times> 'w" where
  "injectWebhooks k kind webhookName targetPolicy result =
     (let key = (kind, '''', webhookName)
      in fetch k key (\<lambda>err. Errorf ''getting %s %q: %w'' [AStr kind, AStr webhookName, AErr err])
           (\<lambda>x w1.
              if obAnnotations (snd x) RollbackAnnotationKey \<noteq> None then
                (Inl (Errorf ''%s %q already has a chaos rollback annotation; revert the existing injection before re-injecting''
                   [AStr kind, AStr webhookName]), w1)
              else (case WrapRollbackData (cdData (clCodecs k)) (originalPolicies x) of
                      Inl err \<Rightarrow> (Inl (Errorf ''serializing original policies for %s %q: %w''
                          [AStr kind, AStr webhookName, AErr err]), w1)
                    | Inr rollbackStr \<Rightarrow>
                        finishInject
                          (kUpdate (cl k) key
                            (setPolicies targetPolicy
                              (ApplyChaosMetadata rollbackStr (injectionTypeName WebhookDisrupt) x)) w1)
                          (\<lambda>err. Errorf ''updating %s %q: %w'' [AStr kind, AStr webhookName, AErr err])
                          (result (length (webhooksOf x))))))"

definition revertWebhooks :: "'w cluster \<Rightarrow> string \<Rightarrow> string \<Rightarrow> 'w \<Rightarrow> goErr option \<times> 'w" where
  "revertWebhooks k kind webhookName =
     (let key = (kind, '''', webhookName)
      in onFound k key (\<lambda>err. Errorf ''getting %s %q for revert: %w'' [AStr kind, AStr webhookName, AErr err])
           (\<lambda>x w1. case obAnnotations (snd x) RollbackAnnotationKey of
              None \<Rightarrow> (None, w1)
            | Some rollbackStr \<Rightarrow>
                (case UnwrapRollbackData (cdData (clCodecs k)) rollbackStr of
                   Inl err \<Rightarrow> (Some (Errorf ''unwrapping rollback data for %s %q: %w''
                       [AStr kind, AStr webhookName, AErr err]), w1)
                 | Inr policies \<Rightarrow>
                     kUpdate (cl k) key
                       (RemoveChaosMetadata (injectionTypeName WebhookDisrupt) (restorePolicies policies x)) w1)))"

definition revertResolved :: "'w cluster \<Rightarrow> string \<Rightarrow> string \<Rightarrow> 'w \<Rightarrow> goErr option \<times> 'w" where
  "revertResolved k webhookName webhookType = revertWebhooks k (webhookKind webhookType) webhookName"

definition webhookInject ::
  "'w cluster \<Rightarrow> injectionSpec \<Rightarrow> string \<Rightarrow> 'w \<Rightarrow>
   (goErr + 'w cleanupFunc option \<times> injectionEvent list) \<times> 'w" where
  "webhookInject k spec ns w =
     (let webhookType = resolveWebhookType (param spec ''webhookType'');
          targetPolicyStr = (if param spec ''value'' = '''' then ''Fail'' else param spec ''value'')
      in case resolveWebhookName k spec webhookType w of
           (Inl err, w1) \<Rightarrow> (Inl (Errorf ''resolving webhook target: %w'' [AErr err]), w1)
         | (Inr webhookName, w1) \<Rightarrow>
             (case checkResolvedWebhookDenyList webhookName of
                Some err \<Rightarrow> (Inl err, w1)
              | None \<Rightarrow>
                  (case parseFailurePolicy targetPolicyStr of
                     Inl err \<Rightarrow> (Inl (Errorf ''parsing failure policy value: %w'' [AErr err]), w1)
                   | Inr targetPolicy \<Rightarrow>
                       injectWebhooks k (webhookKind webhookType) webhookName targetPolicy
                         (\<lambda>n w2. (Some (revertResolved k webhookName webhookType),
                            [NewEvent (clNow k w2) WebhookDisrupt webhookName ''setFailurePolicy''
                              [''webhookName'' \<mapsto> webhookName, ''webhookType'' \<mapsto> webhookType,
                               ''failurePolicy'' \<mapsto> targetPolicyStr, ''webhookCount'' \<mapsto> itoa (int n)]])) w1)))"

definition webhookRevert :: "'w cluster \<Rightarrow> injectionSpec \<Rightarrow> string \<Rightarrow> 'w \<Rightarrow> goErr option \<times> 'w" where
  "webhookRevert k spec ns w =
     (let webhookType = resolveWebhookType (param spec ''webhookType'')
      in case resolveWebhookName k spec webhookType w of
           (Inl err, w1) \<Rightarrow>
             if param spec ''webhookLabelSelector'' \<noteq> '''' \<and> isNoMatchError err then (None, w1)
             else (Some (Errorf ''resolving webhook target for revert: %w'' [AErr err]), w1)
         | (Inr webhookName, w1) \<Rightarrow> revertResolved k webhookName webhookType w1)"

definition webhookInjector :: "paramLib \<Rightarrow> 'w cluster \<Rightarrow> 'w injector" where
  "webhookInjector lib k =
     \<lparr>inValidate = \<lambda>spec blast. validateWebhookDisruptParams lib spec,
      inInject = webhookInject k, inRevert = webhookRevert k\<rparr>"

definition webhookKey :: "injectionSpec \<Rightarrow> string \<Rightarrow> objKey" where
  "webhookKey spec name = (webhookKind (resolveWebhookType (param spec ''webhookType'')), '''', name)"

lemma webhook_simps [simp]:
  "obAnnotations (snd (setPolicies p x)) = obAnnotations (snd x)"
  "obLabels (snd (setPolicies p x)) = obLabels (snd x)"
  "obFinalizers (snd (setPolicies p x)) = obFinalizers (snd x)"
  "obOwnerRefs (snd (setPolicies p x)) = obOwnerRefs (snd x)"
  "webhooksOf (setPolicies p x) = map (wePolicy_update (\<lambda>_. Some p)) (webhooksOf x)"
  "obAnnotations (snd (restorePolicies m x)) = obAnnotations (snd x)"
  "obLabels (snd (restorePolicies m x)) = obLabels (snd x)"
  "obFinalizers (snd (restorePolicies m x)) = obFinalizers (snd x)"
  "obOwnerRefs (snd (restorePolicies m x)) = obOwnerRefs (snd x)"
  "webhooksOf (restorePolicies m x) = map (restorePolicy m) (webhooksOf x)"
  by (simp_all add: setPolicies_def restorePolicies_def webhooksOf_def)

lemma webhook_versions [simp]:
  "fst (setPolicies p x) = fst x" "fst (restorePolicies m x) = fst x" "fst (ApplyChaosMetadata s t x) = fst x"
  "fst (RemoveChaosMetadata t x) = fst x"
  by (simp_all add: setPolicies_def restorePolicies_def ApplyChaosMetadata_def RemoveChaosMetadata_def)

lemma webhooksOf_metadata [simp]:
  "webhooksOf (ApplyChaosMetadata s t x) = webhooksOf x" "webhooksOf (RemoveChaosMetadata t x) = webhooksOf x"
  by (simp_all add: webhooksOf_def ApplyChaosMetadata_def RemoveChaosMetadata_def)

section \<open>The contract, for a configuration that is named\<close>

context cluster_api
begin

lemma revertWebhooks_clears:
  assumes "revertWebhooks k kind name w = (r, w')"
  shows "(r = None \<longrightarrow> \<not> rollbackPending st (kind, '''', name) w') \<and>
    (\<not> rollbackPending st (kind, '''', name) w \<longrightarrow> \<not> rollbackPending st (kind, '''', name) w')"
  using assms unfolding revertWebhooks_def Let_def rollbackPending_def
  by (rule onFound_clears) (auto split: option.split sum.split)

lemma injectWebhooks_state:
  assumes "injectWebhooks k kind name p result w = (r, w')"
  shows "(\<forall>e. r = Inl e \<longrightarrow> st w' = st w) \<and>
    (\<forall>res. r = Inr res \<longrightarrow> (\<exists>n. res = result n w') \<and>
      (\<exists>x s y. st w (kind, '''', name) = Some x \<and> obAnnotations (snd x) RollbackAnnotationKey = None \<and>
        WrapRollbackData (cdData (clCodecs k)) (originalPolicies x) = Inr s \<and>
        snd y = snd (setPolicies p (ApplyChaosMetadata s (injectionTypeName WebhookDisrupt) x)) \<and>
        st w' = (st w)((kind, '''', name) \<mapsto> y)))"
  using assms unfolding injectWebhooks_def Let_def
proof (cases rule: fetch_cases)
  case (Found x w1)
  show ?thesis
  proof (cases "obAnnotations (snd x) RollbackAnnotationKey = None \<and>
      (\<exists>s. WrapRollbackData (cdData (clCodecs k)) (originalPolicies x) = Inr s)")
    case False
    then show ?thesis using Found by (auto split: if_splits sum.splits)
  next
    case True
    then obtain s where s: "WrapRollbackData (cdData (clCodecs k)) (originalPolicies x) = Inr s" by blast
    let ?y = "setPolicies p (ApplyChaosMetadata s (injectionTypeName WebhookDisrupt) x)"
    obtain q v where q: "kUpdate (cl k) (kind, '''', name) ?y w1 = (q, v)" by (rule prod.exhaust)
    from q show ?thesis
    proof (cases rule: update_cases)
      case (Failed e)
      then show ?thesis using Found True s q by (auto simp: finishInject_def)
    next
      case (Updated cur y)
      then have "r = Inr (result (length (webhooksOf x)) w')" "w' = v"
        using Found True s q by (auto simp: finishInject_def)
      then show ?thesis using Found(1,2) True s Updated by auto
    qed
  qed
qed simp

lemma resolveWebhookName_frame:
  assumes "resolveWebhookName k spec ty w = (r, w')"
  shows "st w' = st w"
proof (cases "param spec ''webhookName'' \<noteq> ''''")
  case True
  then show ?thesis using assms by (simp add: resolveWebhookName_def)
next
  case named: False
  show ?thesis
  proof (cases "cdMatches (clCodecs k) (param spec ''webhookLabelSelector'')")
    case (Inl e)
    then show ?thesis using assms named by (simp add: resolveWebhookName_def)
  next
    case (Inr p)
    obtain q w1 where l: "clList k (webhookKind ty) (Some '''') p w = (q, w1)" by (rule prod.exhaust)
    have "w' = w1" using assms named Inr l
      by (cases q) (auto simp: resolveWebhookName_def Let_def split: if_splits)
    moreover have "st w1 = st w" using list_ok list_err l by (cases q) blast+
    ultimately show ?thesis by simp
  qed
qed

lemma webhookInject_cases [consumes 1, case_names Failed Injected]:
  assumes "webhookInject k spec ns w = (r, w')"
  obtains e where "r = Inl e" "st w' = st w"
  | name ev w1 x s y p where
      "resolveWebhookName k spec (resolveWebhookType (param spec ''webhookType'')) w = (Inr name, w1)"
      "r = Inr (Some (revertResolved k name (resolveWebhookType (param spec ''webhookType''))), ev)"
      "st w (webhookKey spec name) = Some x" "obAnnotations (snd x) RollbackAnnotationKey = None"
      "WrapRollbackData (cdData (clCodecs k)) (originalPolicies x) = Inr s"
      "snd y = snd (setPolicies p (ApplyChaosMetadata s (injectionTypeName WebhookDisrupt) x))"
      "st w' = (st w)(webhookKey spec name \<mapsto> y)" "p \<in> {''Fail'', ''Ignore''}"
proof -
  let ?ty = "resolveWebhookType (param spec ''webhookType'')"
  let ?pol = "if param spec ''value'' = '''' then ''Fail'' else param spec ''value''"
  obtain q w1 where res: "resolveWebhookName k spec ?ty w = (q, w1)" by (rule prod.exhaust)
  note s1 = resolveWebhookName_frame [OF res]
  note d = assms [unfolded webhookInject_def Let_def res prod.case]
  show thesis
  proof (cases "\<exists>name p. q = Inr name \<and> checkResolvedWebhookDenyList name = None \<and> parseFailurePolicy ?pol = Inr p")
    case False
    have "st w' = st w \<and> (\<exists>e. r = Inl e)" using d s1 False by (auto split: sum.splits option.splits)
    with that(1) show thesis by blast
  next
    case True
    then obtain name p where ok: "q = Inr name" "checkResolvedWebhookDenyList name = None"
      "parseFailurePolicy ?pol = Inr p" by blast
    note i = injectWebhooks_state [OF d [unfolded ok sum.case option.case]]
    show thesis
    proof (cases r)
      case (Inl e)
      then show thesis using i s1 that(1) by simp
    next
      case (Inr res')
      from i [THEN conjunct2, rule_format, OF Inr] obtain n x s y where
        r: "res' = (Some (revertResolved k name ?ty), [NewEvent (clNow k w') WebhookDisrupt name ''setFailurePolicy''
            [''webhookName'' \<mapsto> name, ''webhookType'' \<mapsto> ?ty, ''failurePolicy'' \<mapsto> ?pol,
             ''webhookCount'' \<mapsto> itoa (int n)]])"
        and x: "st w1 (webhookKey spec name) = Some x" "obAnnotations (snd x) RollbackAnnotationKey = None"
          "WrapRollbackData (cdData (clCodecs k)) (originalPolicies x) = Inr s"
        and y: "snd y = snd (setPolicies p (ApplyChaosMetadata s (injectionTypeName WebhookDisrupt) x))"
          "st w' = (st w1)(webhookKey spec name \<mapsto> y)"
        unfolding webhookKey_def by blast
      show thesis
        by (rule that(2) [OF res [unfolded ok(1)] _ _ x(2,3) y(1)])
           (use Inr r x(1) y(2) s1 ok(3) in \<open>auto simp: parseFailurePolicy_def split: if_splits\<close>)
    qed
  qed
qed

lemma revertWebhooks_state:
  assumes "revertWebhooks k kind name w = (None, w')" and "st w (kind, '''', name) = Some y"
    and "obAnnotations (snd y) RollbackAnnotationKey = Some s"
    and "UnwrapRollbackData (cdData (clCodecs k)) s = Inr m"
  shows "\<exists>z. st w' (kind, '''', name) = Some z \<and>
    snd z = snd (RemoveChaosMetadata (injectionTypeName WebhookDisrupt) (restorePolicies m y))"
  using assms(1) unfolding revertWebhooks_def Let_def
proof (cases rule: onFound_cases)
  case (Found x w1)
  then have "kUpdate (cl k) (kind, '''', name)
      (RemoveChaosMetadata (injectionTypeName WebhookDisrupt) (restorePolicies m y)) w1 = (None, w')"
    using assms(2-4) by simp
  from update_done [OF this] show ?thesis by auto
qed (use assms(2) in simp_all)

lemma webhook_named:
  assumes "param spec ''webhookName'' \<noteq> ''''"
  shows "restoring_injector (webhookInjector lib k) spec ns
    (rollbackPending st (webhookKey spec (param spec ''webhookName'')))
    (revertResolved k (param spec ''webhookName'') (resolveWebhookType (param spec ''webhookType'')))"
proof
  fix w co ev w' assume "inInject (webhookInjector lib k) spec ns w = (Inr (co, ev), w')"
  then have "webhookInject k spec ns w = (Inr (co, ev), w')" by (simp add: webhookInjector_def)
  then show "co = Some (revertResolved k (param spec ''webhookName'') (resolveWebhookType (param spec ''webhookType'')))"
    by (cases rule: webhookInject_cases) (use assms in \<open>auto simp: resolveWebhookName_def\<close>)
next
  fix w
  show "inRevert (webhookInjector lib k) spec ns w =
      revertResolved k (param spec ''webhookName'') (resolveWebhookType (param spec ''webhookType'')) w"
    using assms by (simp add: webhookInjector_def webhookRevert_def resolveWebhookName_def Let_def)
next
  fix w e w' assume i: "inInject (webhookInjector lib k) spec ns w = (Inl e, w')"
    and a: "rollbackPending st (webhookKey spec (param spec ''webhookName'')) w'"
  from i have "webhookInject k spec ns w = (Inl e, w')" by (simp add: webhookInjector_def)
  then have "st w' = st w" by (cases rule: webhookInject_cases) auto
  then show "rollbackPending st (webhookKey spec (param spec ''webhookName'')) w" using a
    by (simp add: rollbackPending_def)
qed (auto simp: revertResolved_def webhookKey_def dest: revertWebhooks_clears)

end

section \<open>Round trip\<close>

lemma foldl_policies:
  assumes "distinct (map weName ws)" and "e \<in> set ws"
  shows "foldl (\<lambda>m e. m(weName e \<mapsto> f e)) m0 ws (weName e) = Some (f e)"
  using assms
proof (induction ws rule: rev_induct)
  case (snoc a ws)
  then show ?case by (cases "weName e = weName a") (auto simp: image_iff)
qed simp

lemma restorePolicies_original:
  assumes "distinct (map weName (webhooksOf x))" and "\<forall>e \<in> set (webhooksOf x). wePolicy e \<noteq> Some ''''"
  shows "map (restorePolicy (originalPolicies x)) (map (wePolicy_update (\<lambda>_. Some p)) (webhooksOf x)) = webhooksOf x"
proof -
  have "restorePolicy (originalPolicies x) (wePolicy_update (\<lambda>_. Some p) e) = e" if "e \<in> set (webhooksOf x)" for e
  proof -
    note f = foldl_policies [OF assms(1) that, of "\<lambda>e. case wePolicy e of Some p \<Rightarrow> p | None \<Rightarrow> ''''" Map.empty]
    show ?thesis
      using f assms(2) that unfolding restorePolicy_def originalPolicies_def
      by (cases e) (auto split: option.splits)
  qed
  then show ?thesis by (simp add: comp_def map_idI)
qed


section \<open>Selectors\<close>


section \<open>Witnesses\<close>

definition webhookDemoEntry :: webhookEntry where
  "webhookDemoEntry = \<lparr>weName = ''v.kserve.io'', wePolicy = Some ''Ignore'', weService = None, weCABundle = '''',
     weOperations = [''CREATE''], weGroups = [''apps''], weVersions = [''v1''], weResources = [''deployments''],
     weSideEffects = None, weTimeout = None, weReviewVersions = [''v1'']\<rparr>"

definition webhookDemoPolicies :: strmap where
  "webhookDemoPolicies = [''v.kserve.io'' \<mapsto> ''Ignore'']"

definition webhookDemoLib :: "strmap rollbackLib" where
  "webhookDemoLib = \<lparr>rlMarshal = \<lambda>m. if m = webhookDemoPolicies then Inr ''0'' else Inl noCodec,
     rlUnmarshal = \<lambda>s. Inr webhookDemoPolicies, rlHash = \<lambda>s. ''h'', rlEncode = \<lambda>(d, h). Inr (encStr d @ encStr h),
     rlDecode = rlDecode demoRollbackLib\<rparr>"

definition webhookDemoCluster :: "(objKey, kobject) memWorld cluster" where
  "webhookDemoCluster = memCluster\<lparr>clCodecs := demoCodecs
     \<lparr>cdData := webhookDemoLib, cdMatches := \<lambda>s. Inr (\<lambda>m. m ManagedByLabel = Some s)\<rparr>\<rparr>"

definition webhookDemoWorld :: "strmap \<Rightarrow> (objKey, kobject) memWorld" where
  "webhookDemoWorld labels = \<lparr>memObjs = [(''ValidatingWebhookConfiguration'', '''', ''kserve'') \<mapsto>
     newObject labels Map.empty (BWebhooks [webhookDemoEntry])], memNext = 1, memNow = 0\<rparr>"

definition webhookDemoParams :: paramLib where
  "webhookDemoParams = \<lparr>plParseSelector = \<lambda>s. Inr 1, plJsonCompound = \<lambda>s. False, plUnmarshalFaults = \<lambda>s. Inr [],
     plMarshalFaults = \<lambda>fs. Inr ''{}'', plParseDuration = \<lambda>s. Inr second\<rparr>"

definition webhookDemoSpec :: "strmap \<Rightarrow> injectionSpec" where
  "webhookDemoSpec ps = \<lparr>injType = WebhookDisrupt, injParams = ps, injCount = 1, injTTL = 0,
     injDanger = DangerLevelHigh\<rparr>"

lemma webhookDemo_api: "cluster_api webhookDemoCluster memObjs"
  using memCl.cluster_api_axioms
  by (simp add: cluster_api_def cluster_api_axioms_def webhookDemoCluster_def)

lemma webhookDemo_codec: "rollback_codec webhookDemoLib"
proof
  fix d h s assume "rlEncode webhookDemoLib (d, h) = Inr s"
  then show "rlDecode webhookDemoLib s = Inr (Some d, h)"
    using demoCodec.decode_encode [of d h s] by (simp add: webhookDemoLib_def demoRollbackLib_def)
qed (auto simp: webhookDemoLib_def split: if_splits)

lemma memList_none:
  assumes "\<And>key x. memObjs w key = Some x \<Longrightarrow> \<not> p (obLabels (snd x))"
  shows "memList kd nso p w = (Inr [], w)"
proof -
  have "{key. \<exists>x. listed (memObjs w) kd nso p key x} = {}" using assms by (auto simp: listed_def)
  then show ?thesis by (simp add: memList_def)
qed

lemmas webhookDemo_defs = webhookDemoCluster_def webhookDemoWorld_def webhookDemoSpec_def webhookInjector_def
  webhookInject_def webhookRevert_def resolveWebhookName_def injectWebhooks_def revertResolved_def revertWebhooks_def
  resolveWebhookType_def webhookKind_def checkResolvedWebhookDenyList_def parseFailurePolicy_def
  systemCriticalWebhooks_def fetch_def onFound_def finishInject_def mem_ops Let_def mget_def originalPolicies_def
  webhooksOf_def webhookDemoEntry_def webhookDemoPolicies_def webhookDemoLib_def WrapRollbackData_def
  maxRollbackDataSize_def UnwrapRollbackData_def demoRollbackLib_def



end
