(* ===== verification/InjectNamespace.thy ===== *)
theory InjectNamespace
  imports InjectBackup
begin

text \<open>
  Namespace deletion (\<open>namespacedeletion.go\<close>): labels and annotations of the namespace are stored in a
  ConfigMap in a safe namespace before it is deleted; the restore creates the namespace again with
  them, without its contents. The laws of \<open>cluster_api\<close> remove an object at once; a namespace that the
  API server still holds is one whose body is \<open>BNamespace True\<close>, and the restore waits for it.
\<close>

definition defaultSafeNamespace :: string where
  "defaultSafeNamespace = ''default''"

definition rollbackConfigMapName :: "string \<Rightarrow> string" where
  "rollbackConfigMapName namespace = ''chaos-rollback-ns-'' @ namespace"

definition namespaceKey :: "string \<Rightarrow> objKey" where
  "namespaceKey name = (''Namespace'', '''', name)"

definition namespaceBackupKey :: "string \<Rightarrow> string \<Rightarrow> objKey" where
  "namespaceBackupKey safe name = (''ConfigMap'', safe, rollbackConfigMapName name)"

definition isTerminating :: "vobject \<Rightarrow> bool" where
  "isTerminating x = (obBody (snd x) = BNamespace True)"

text \<open>The number of objects of a kind, for the event; a list call that fails counts as none.\<close>

definition countListed :: "'w cluster \<Rightarrow> string \<Rightarrow> string \<Rightarrow> 'w \<Rightarrow> nat \<times> 'w" where
  "countListed k kd namespace w =
     (case clList k kd (Some namespace) (\<lambda>m. True) w of
        (Inl err, w1) \<Rightarrow> (0, w1)
      | (Inr items, w1) \<Rightarrow> (length items, w1))"

definition storedMap :: "codecs \<Rightarrow> vobject \<Rightarrow> string \<Rightarrow> goErr + strmap" where
  "storedMap cds cm field =
     (if mget (dataOf cm) field = '''' then Inr Map.empty else cdUnmarshalMap cds (mget (dataOf cm) field))"

definition restoreNamespace :: "'w cluster \<Rightarrow> string \<Rightarrow> string \<Rightarrow> 'w \<Rightarrow> goErr option \<times> 'w" where
  "restoreNamespace k targetNs safe =
     (let cmKey = namespaceBackupKey safe targetNs
      in onFound k cmKey (\<lambda>err. Errorf ''getting rollback ConfigMap: %w'' [AErr err])
           (\<lambda>cm w1.
              case kGet (cl k) (namespaceKey targetNs) w1 of
                (Inr existing, w2) \<Rightarrow>
                  if isTerminating existing then
                    (Some (Errorf ''namespace %q is still in Terminating phase; wait for deletion to complete before reverting''
                       [AStr targetNs]), w2)
                  else kDelete (cl k) cmKey None w2
              | (Inl err, w2) \<Rightarrow>
                  (case storedMap (clCodecs k) cm ''labels'' of
                     Inl err \<Rightarrow> (Some (Errorf ''deserializing namespace labels: %w'' [AErr err]), w2)
                   | Inr labels \<Rightarrow>
                       (case storedMap (clCodecs k) cm ''annotations'' of
                          Inl err \<Rightarrow> (Some (Errorf ''deserializing namespace annotations: %w'' [AErr err]), w2)
                        | Inr annotations \<Rightarrow>
                            (case kCreate (cl k) (namespaceKey targetNs)
                                    (newObject labels annotations (BNamespace False)) w2 of
                               (Some err, w3) \<Rightarrow>
                                 if isAlreadyExists err then kDelete (cl k) cmKey None w3
                                 else (Some (Errorf ''recreating namespace %q: %w'' [AStr targetNs, AErr err]), w3)
                             | (None, w3) \<Rightarrow> kDelete (cl k) cmKey None w3)))))"

definition deleteNamespace ::
  "'w cluster \<Rightarrow> string \<Rightarrow> string \<Rightarrow> string \<Rightarrow> string \<Rightarrow> (nat \<Rightarrow> nat \<Rightarrow> nat \<Rightarrow> nat \<Rightarrow> 'w \<Rightarrow> 'a) \<Rightarrow> 'w \<Rightarrow> (goErr + 'a) \<times> 'w" where
  "deleteNamespace k targetNs safe labelsJSON annotationsJSON result w =
     (let cmKey = namespaceBackupKey safe targetNs; name = rollbackConfigMapName targetNs;
          (deploys, w1) = countListed k ''Deployment'' targetNs w;
          (svcs, w2) = countListed k ''Service'' targetNs w1;
          (cms, w3) = countListed k ''ConfigMap'' targetNs w2;
          (pods, w4) = countListed k ''Pod'' targetNs w3
      in case putManaged k cmKey (ChaosLabels (injectionTypeName NamespaceDeletion))
                (BData [''labels'' \<mapsto> labelsJSON, ''annotations'' \<mapsto> annotationsJSON])
                (Errorf ''ConfigMap %q already exists in namespace %q and is not chaos-managed; refusing to overwrite''
                  [AStr name, AStr safe])
                (\<lambda>err. Errorf ''updating stale rollback ConfigMap: %w'' [AErr err])
                (\<lambda>err. Errorf ''creating rollback ConfigMap: %w'' [AErr err])
                (\<lambda>err. Errorf ''checking for existing rollback ConfigMap: %w'' [AErr err]) w4 of
           (Some err, w5) \<Rightarrow> (Inl err, w5)
         | (None, w5) \<Rightarrow>
             (case kDelete (cl k) (namespaceKey targetNs) None w5 of
                (Some err, w6) \<Rightarrow>
                  (Inl (Errorf ''deleting namespace %q: %w'' [AStr targetNs, AErr err]), snd (kDelete (cl k) cmKey None w6))
              | (None, w6) \<Rightarrow> (Inr (result deploys svcs cms pods w6), w6)))"

definition namespaceInject ::
  "string \<Rightarrow> 'w cluster \<Rightarrow> injectionSpec \<Rightarrow> string \<Rightarrow> 'w \<Rightarrow>
   (goErr + 'w cleanupFunc option \<times> injectionEvent list) \<times> 'w" where
  "namespaceInject safe k spec ns0 w =
     (let targetNs = param spec ''namespace''
      in if targetNs = safe then
           (Inl (Errorf ''NamespaceDeletion cannot target namespace %q because it is the same namespace used for rollback data storage''
              [AStr targetNs]), w)
         else fetch k (namespaceKey safe)
           (\<lambda>err. Errorf ''safe namespace %q for rollback data does not exist (create it or set a different safe namespace): %w''
              [AStr safe, AErr err])
           (\<lambda>safeNs. fetch k (namespaceKey targetNs)
              (\<lambda>err. Errorf ''getting namespace %q: %w'' [AStr targetNs, AErr err])
              (\<lambda>x w2.
                 case cdMarshalMap (clCodecs k) (obLabels (snd x)) of
                   Inl err \<Rightarrow> (Inl (Errorf ''serializing namespace labels: %w'' [AErr err]), w2)
                 | Inr labelsJSON \<Rightarrow>
                     (case cdMarshalMap (clCodecs k) (obAnnotations (snd x)) of
                        Inl err \<Rightarrow> (Inl (Errorf ''serializing namespace annotations: %w'' [AErr err]), w2)
                      | Inr annotationsJSON \<Rightarrow>
                          deleteNamespace k targetNs safe labelsJSON annotationsJSON
                            (\<lambda>deploys svcs cms pods w3. (Some (restoreNamespace k targetNs safe),
                               [NewEvent (clNow k w3) NamespaceDeletion targetNs ''deleted''
                                 [''namespace'' \<mapsto> targetNs, ''deployments'' \<mapsto> itoa (int deploys),
                                  ''services'' \<mapsto> itoa (int svcs), ''configmaps'' \<mapsto> itoa (int cms),
                                  ''pods'' \<mapsto> itoa (int pods)]])) w2))) w)"

definition NewNamespaceDeletionInjector :: "'w cluster \<Rightarrow> string \<Rightarrow> 'w injector" where
  "NewNamespaceDeletionInjector k safeNamespace =
     (let safe = (if safeNamespace = '''' then defaultSafeNamespace else safeNamespace)
      in \<lparr>inValidate = \<lambda>spec blast. validateNamespaceDeletionParams spec,
          inInject = namespaceInject safe k,
          inRevert = \<lambda>spec ns. restoreNamespace k (param spec ''namespace'') safe\<rparr>)"

declare split_paired_Ex [simp del] split_paired_All [simp del]

section \<open>The contract\<close>

lemma namespace_keys [simp]:
  "namespaceKey a \<noteq> namespaceBackupKey s b" "namespaceBackupKey s b \<noteq> namespaceKey a"
  by (simp_all add: namespaceKey_def namespaceBackupKey_def)

context cluster_api
begin

lemma countListed_frame: "st (snd (countListed k kd n w)) = st w"
proof -
  obtain q w1 where l: "clList k kd (Some n) (\<lambda>m. True) w = (q, w1)" by (rule prod.exhaust)
  then have "st w1 = st w" using list_ok list_err by (cases q) blast+
  then show ?thesis using l by (cases q) (simp_all add: countListed_def)
qed

lemma deleteNamespace_cases [consumes 2, case_names Failed Deleted]:
  assumes "deleteNamespace k targetNs safe lj aj result w = (r, w')" and "st w (namespaceKey targetNs) = Some x"
  obtains e where "r = Inl e" "st w' (namespaceKey targetNs) = Some x"
  | d s c p y where "r = Inr (result d s c p w')" "obBody (snd y) = BData [''labels'' \<mapsto> lj, ''annotations'' \<mapsto> aj]"
      "st w' = (st w)(namespaceBackupKey safe targetNs \<mapsto> y, namespaceKey targetNs := None)"
proof -
  obtain d w1 where 1: "countListed k ''Deployment'' targetNs w = (d, w1)" by (rule prod.exhaust)
  obtain s w2 where 2: "countListed k ''Service'' targetNs w1 = (s, w2)" by (rule prod.exhaust)
  obtain c w3 where 3: "countListed k ''ConfigMap'' targetNs w2 = (c, w3)" by (rule prod.exhaust)
  obtain p w4 where 4: "countListed k ''Pod'' targetNs w3 = (p, w4)" by (rule prod.exhaust)
  have s4: "st w4 = st w"
    using countListed_frame [of "''Deployment''" targetNs w] countListed_frame [of "''Service''" targetNs w1]
      countListed_frame [of "''ConfigMap''" targetNs w2] countListed_frame [of "''Pod''" targetNs w3] 1 2 3 4 by simp
  note d = assms(1) [unfolded deleteNamespace_def Let_def 1 2 3 4 prod.case]
  obtain q w5 where put: "putManaged k (namespaceBackupKey safe targetNs) (ChaosLabels (injectionTypeName NamespaceDeletion))
      (BData [''labels'' \<mapsto> lj, ''annotations'' \<mapsto> aj])
      (Errorf ''ConfigMap %q already exists in namespace %q and is not chaos-managed; refusing to overwrite''
        [AStr (rollbackConfigMapName targetNs), AStr safe])
      (\<lambda>err. Errorf ''updating stale rollback ConfigMap: %w'' [AErr err])
      (\<lambda>err. Errorf ''creating rollback ConfigMap: %w'' [AErr err])
      (\<lambda>err. Errorf ''checking for existing rollback ConfigMap: %w'' [AErr err]) w4 = (q, w5)" by (rule prod.exhaust)
  from put show thesis
  proof (cases rule: putManaged_cases)
    case (Failed e)
    show thesis by (rule that(1)) (use d put Failed s4 assms(2) in auto)
  next
    case (Put y)
    obtain del w6 where del: "kDelete (cl k) (namespaceKey targetNs) None w5 = (del, w6)" by (rule prod.exhaust)
    show thesis
    proof (cases del)
      case (Some err)
      obtain u w7 where u: "kDelete (cl k) (namespaceBackupKey safe targetNs) None w6 = (u, w7)" by (rule prod.exhaust)
      have "st w6 = st w5" using delete_err del Some by blast
      moreover have "st w7 (namespaceKey targetNs) = st w6 (namespaceKey targetNs)"
        using delete_ok [of "namespaceBackupKey safe targetNs" None w6 w7]
          delete_err [of "namespaceBackupKey safe targetNs" None w6 _ w7] u by (cases u) auto
      ultimately show thesis
        by (intro that(1)) (use d put Put del Some u s4 assms(2) in auto)
    next
      case None
      show thesis
        by (rule that(2) [OF _ Put(4)])
           (use d put Put del None delete_ok [of "namespaceKey targetNs" None w5 w6] s4 in auto)
    qed
  qed
qed

lemma namespaceInject_cases [consumes 1, case_names Failed Deleted]:
  assumes "namespaceInject safe k spec ns w = (r, w')"
  obtains e where "r = Inl e" "st w' = st w \<or> st w' (namespaceKey (param spec ''namespace'')) \<noteq> None"
  | x lj aj y ev where "r = Inr (Some (restoreNamespace k (param spec ''namespace'') safe), ev)"
      "param spec ''namespace'' \<noteq> safe" "st w (namespaceKey safe) \<noteq> None"
      "st w (namespaceKey (param spec ''namespace'')) = Some x"
      "cdMarshalMap (clCodecs k) (obLabels (snd x)) = Inr lj"
      "cdMarshalMap (clCodecs k) (obAnnotations (snd x)) = Inr aj"
      "obBody (snd y) = BData [''labels'' \<mapsto> lj, ''annotations'' \<mapsto> aj]"
      "st w' = (st w)(namespaceBackupKey safe (param spec ''namespace'') \<mapsto> y,
         namespaceKey (param spec ''namespace'') := None)"
proof (cases "param spec ''namespace'' = safe")
  case True
  show thesis by (rule that(1)) (use assms True in \<open>auto simp: namespaceInject_def Let_def\<close>)
next
  case other: False
  note d = assms [unfolded namespaceInject_def Let_def, simplified other if_False]
  from d show thesis
  proof (cases rule: fetch_cases)
    case (Failed e)
    then show thesis using that(1) by blast
  next
    case safeNs: (Found y0 w1)
    from safeNs(3) show thesis
    proof (cases rule: fetch_cases)
      case (Failed e)
      then show thesis using that(1) safeNs(2) by simp
    next
      case (Found x w2)
      show thesis
      proof (cases "\<exists>lj aj. cdMarshalMap (clCodecs k) (obLabels (snd x)) = Inr lj \<and>
          cdMarshalMap (clCodecs k) (obAnnotations (snd x)) = Inr aj")
        case False
        have "st w' = st w \<and> (\<exists>e. r = Inl e)" using Found False safeNs(2) by (auto split: sum.splits)
        with that(1) show thesis by blast
      next
        case True
        then obtain lj aj where j: "cdMarshalMap (clCodecs k) (obLabels (snd x)) = Inr lj"
          "cdMarshalMap (clCodecs k) (obAnnotations (snd x)) = Inr aj" by blast
        have x: "st w2 (namespaceKey (param spec ''namespace'')) = Some x" using Found(1,2) by simp
        from Found(3) [unfolded j sum.case] x show thesis
        proof (cases rule: deleteNamespace_cases)
          case (Failed e)
          then show thesis using that(1) by simp
        next
          case (Deleted d s c p y)
          show thesis
            by (rule that(2) [OF _ other _ _ j Deleted(2)])
               (use Deleted Found(1,2) safeNs(1,2) in auto)
        qed
      qed
    qed
  qed
qed

lemma restoreNamespace_effect:
  assumes "restoreNamespace k targetNs safe w = (r, w')"
  shows "(r = None \<longrightarrow> st w' (namespaceBackupKey safe targetNs) = None) \<and>
    (st w (namespaceBackupKey safe targetNs) = None \<longrightarrow> st w' (namespaceBackupKey safe targetNs) = None) \<and>
    (st w (namespaceKey targetNs) \<noteq> None \<longrightarrow> st w' (namespaceKey targetNs) \<noteq> None)"
  using assms unfolding restoreNamespace_def Let_def
proof (cases rule: onFound_cases)
  case (Found cm w1)
  obtain q w2 where g: "kGet (cl k) (namespaceKey targetNs) w1 = (q, w2)" by (rule prod.exhaust)
  have s2: "st w2 = st w" using get_frame [of "namespaceKey targetNs" w1] g Found(2) by simp
  have del: ?thesis if "kDelete (cl k) (namespaceBackupKey safe targetNs) None v = (r, w')"
    and "st w (namespaceKey targetNs) \<noteq> None \<longrightarrow> st v (namespaceKey targetNs) \<noteq> None" for v
    using that delete_ok [of "namespaceBackupKey safe targetNs" None v w']
      delete_err [of "namespaceBackupKey safe targetNs" None v _ w'] Found(1) by (cases r) auto
  show ?thesis
  proof (cases q)
    case (Inr existing)
    show ?thesis
    proof (cases "isTerminating existing")
      case True
      then show ?thesis using Found(1,3) g Inr s2 by auto
    next
      case False
      show ?thesis by (rule del [of w2]) (use Found(3) g Inr s2 False in simp_all)
    qed
  next
    case (Inl err)
    show ?thesis
    proof (cases "\<exists>l a. storedMap (clCodecs k) cm ''labels'' = Inr l \<and> storedMap (clCodecs k) cm ''annotations'' = Inr a")
      case False
      have "st w' = st w \<and> r \<noteq> None" using Found(3) g Inl s2 False by (auto split: sum.splits)
      then show ?thesis using Found(1) by auto
    next
      case True
      then obtain l a where la: "storedMap (clCodecs k) cm ''labels'' = Inr l"
        "storedMap (clCodecs k) cm ''annotations'' = Inr a" by blast
      obtain c w3 where c: "kCreate (cl k) (namespaceKey targetNs) (newObject l a (BNamespace False)) w2 = (c, w3)"
        by (rule prod.exhaust)
      note d = Found(3) [unfolded g prod.case Inl sum.case la c]
      from c show ?thesis
      proof (cases rule: create_cases)
        case (Failed e)
        then show ?thesis using d s2 Found(1) by (auto split: if_splits)
      next
        case (Exists e)
        then show ?thesis using del [of w3] d s2 by (auto split: if_splits)
      next
        case (Created z)
        then show ?thesis using del [of w3] d by auto
      qed
    qed
  qed
qed simp_all

end

sublocale cluster_api \<subseteq> namespaceDeletion: restoring_injector "NewNamespaceDeletionInjector k safeNamespace" spec ns
    "backupActive st (namespaceKey (param spec ''namespace''))
       (namespaceBackupKey (if safeNamespace = '''' then defaultSafeNamespace else safeNamespace) (param spec ''namespace''))"
    "restoreNamespace k (param spec ''namespace'') (if safeNamespace = '''' then defaultSafeNamespace else safeNamespace)"
  for safeNamespace spec ns
proof
  fix w co ev w' assume "inInject (NewNamespaceDeletionInjector k safeNamespace) spec ns w = (Inr (co, ev), w')"
  then show "co = Some (restoreNamespace k (param spec ''namespace'') (if safeNamespace = '''' then defaultSafeNamespace else safeNamespace))"
    unfolding NewNamespaceDeletionInjector_def Let_def injector.simps
    by (cases rule: namespaceInject_cases) simp_all
next
  fix w show "inRevert (NewNamespaceDeletionInjector k safeNamespace) spec ns w =
      restoreNamespace k (param spec ''namespace'') (if safeNamespace = '''' then defaultSafeNamespace else safeNamespace) w"
    by (simp add: NewNamespaceDeletionInjector_def Let_def)
next
  fix w e w'
  let ?active = "backupActive st (namespaceKey (param spec ''namespace''))
       (namespaceBackupKey (if safeNamespace = '''' then defaultSafeNamespace else safeNamespace) (param spec ''namespace''))"
  assume "inInject (NewNamespaceDeletionInjector k safeNamespace) spec ns w = (Inl e, w')" and "?active w'"
  then show "?active w"
    unfolding NewNamespaceDeletionInjector_def Let_def injector.simps
    by (cases rule: namespaceInject_cases) (auto simp: backupActive_def)
qed (auto simp: backupActive_def dest: restoreNamespace_effect)

section \<open>Properties\<close>

text \<open>A restore does not run ahead of the deletion: while the namespace is terminating it fails and keeps
  the backup, so that a retry can still succeed.\<close>

theorem restore_waits_for_termination:
  assumes "cluster_api k st" and "restoreNamespace k targetNs safe w = (r, w')"
    and "st w (namespaceBackupKey safe targetNs) \<noteq> None"
    and "st w (namespaceKey targetNs) = Some x" and "isTerminating x"
    and "\<And>v e v'. kGet (cl k) (namespaceKey targetNs) v \<noteq> (Inl e, v')"
  shows "r \<noteq> None \<and> st w' = st w"
  using assms(2) unfolding restoreNamespace_def Let_def
proof (cases rule: cluster_api.onFound_cases [OF assms(1), consumes 1, case_names Failed Gone Found])
  case (Found cm w1)
  obtain q w2 where g: "kGet (cl k) (namespaceKey targetNs) w1 = (q, w2)" by (rule prod.exhaust)
  then obtain y where y: "q = Inr y" using assms(6) by (cases q) auto
  have "y = x" "st w2 = st w"
    using kube_api.get_ok [OF cluster_api.axioms(1) [OF assms(1)], OF g [unfolded y]] Found(2) assms(4) by auto
  then show ?thesis using Found(3) g y assms(5) by auto
qed (use assms(3) in simp_all)

text \<open>It has to see the namespace for that. When the read fails for another reason, the create call that
  follows is refused because the namespace still exists, the code takes this for a recovery,
  deletes the backup and reports success; once the deletion completes nothing can restore the namespace.\<close>

theorem restore_unreadable_drops_backup:
  assumes "cluster_api k st" and "restoreNamespace k targetNs safe w = (None, w')"
    and "st w (namespaceKey targetNs) = Some x" and "isTerminating x"
    and "\<And>v y v'. kGet (cl k) (namespaceKey targetNs) v \<noteq> (Inr y, v')"
  shows "st w' = (st w)(namespaceBackupKey safe targetNs := None) \<and> st w' (namespaceKey targetNs) = Some x"
proof -
  note api = cluster_api.axioms(1) [OF assms(1)]
  from assms(2) have "st w' = (st w)(namespaceBackupKey safe targetNs := None)"
    unfolding restoreNamespace_def Let_def
  proof (cases rule: cluster_api.onFound_cases [OF assms(1), consumes 1, case_names Failed Gone Found])
    case (Found cm w1)
    obtain q w2 where g: "kGet (cl k) (namespaceKey targetNs) w1 = (q, w2)" by (rule prod.exhaust)
    then obtain e where e: "q = Inl e" using assms(5) by (cases q) auto
    have s2: "st w2 = st w" using kube_api.get_err [OF api, OF g [unfolded e]] Found(2) by simp
    obtain l a where la: "storedMap (clCodecs k) cm ''labels'' = Inr l" "storedMap (clCodecs k) cm ''annotations'' = Inr a"
      using Found(3) g e by (auto split: sum.splits)
    obtain c w3 where c: "kCreate (cl k) (namespaceKey targetNs) (newObject l a (BNamespace False)) w2 = (c, w3)"
      by (rule prod.exhaust)
    obtain e' where e': "c = Some e'"
      using kube_api.create_ok [OF api, of "namespaceKey targetNs" "newObject l a (BNamespace False)" w2 w3] c s2 assms(3)
      by (cases c) auto
    have "st w3 = st w" using kube_api.create_err [OF api, OF c [unfolded e']] s2 by simp
    moreover have "kDelete (cl k) (namespaceBackupKey safe targetNs) None w3 = (None, w')"
      using Found(3) g e la c e' by (auto split: if_splits)
    ultimately show ?thesis using kube_api.delete_ok [OF api] by metis
  next
    case Gone
    then show ?thesis by (auto simp: fun_eq_iff)
  qed simp
  then show ?thesis using assms(3) by simp
qed

text \<open>Labels and annotations of a deleted namespace come back; the contents do not.\<close>

theorem namespace_roundtrip:
  assumes "cluster_api k st"
    and "\<forall>m js. cdMarshalMap (clCodecs k) m = Inr js \<longrightarrow> js \<noteq> '''' \<and> cdUnmarshalMap (clCodecs k) js = Inr m"
    and "inInject (NewNamespaceDeletionInjector k safeNs) spec ns w = (Inr res, w1)"
    and "inRevert (NewNamespaceDeletionInjector k safeNs) spec ns w1 = (None, w2)"
  shows "\<exists>x z. st w (namespaceKey (param spec ''namespace'')) = Some x \<and> st w1 (namespaceKey (param spec ''namespace'')) = None \<and>
    st w2 (namespaceKey (param spec ''namespace'')) = Some z \<and> obLabels (snd z) = obLabels (snd x) \<and>
    obAnnotations (snd z) = obAnnotations (snd x)"
proof -
  let ?ns = "param spec ''namespace''" and ?safe = "if safeNs = '''' then defaultSafeNamespace else safeNs"
  note api = cluster_api.axioms(1) [OF assms(1)]
  have i: "namespaceInject ?safe k spec ns w = (Inr res, w1)" and r: "restoreNamespace k ?ns ?safe w1 = (None, w2)"
    using assms(3,4) by (simp_all add: NewNamespaceDeletionInjector_def Let_def)
  from i show ?thesis
  proof (cases rule: cluster_api.namespaceInject_cases [OF assms(1), consumes 1, case_names Failed Deleted])
    case (Deleted x lj aj y ev)
    have w1: "st w1 (namespaceKey ?ns) = None" "st w1 (namespaceBackupKey ?safe ?ns) = Some y"
      using Deleted(8) by simp_all
    have la: "storedMap (clCodecs k) y ''labels'' = Inr (obLabels (snd x))"
      "storedMap (clCodecs k) y ''annotations'' = Inr (obAnnotations (snd x))"
      using assms(2) Deleted(5-7) by (auto simp: storedMap_def dataOf_def mget_def)
    from r obtain z where "st w2 (namespaceKey ?ns) = Some z" "snd z = snd (newObject (obLabels (snd x)) (obAnnotations (snd x)) (BNamespace False))"
      unfolding restoreNamespace_def Let_def
    proof (cases rule: cluster_api.onFound_cases [OF assms(1), consumes 1, case_names Failed Gone Found])
      case (Found cm v1)
      then have cm: "cm = y" using w1(2) by simp
      obtain q v2 where g: "kGet (cl k) (namespaceKey ?ns) v1 = (q, v2)" by (rule prod.exhaust)
      have q: "isl q" using kube_api.get_ok [OF api, of _ v1 _ v2] g Found(2) w1(1) by (cases q) auto
      then obtain e where e: "q = Inl e" by (cases q) auto
      have s2: "st v2 = st w1" using kube_api.get_err [OF api, OF g [unfolded e]] Found(2) by simp
      obtain c v3 where c: "kCreate (cl k) (namespaceKey ?ns)
          (newObject (obLabels (snd x)) (obAnnotations (snd x)) (BNamespace False)) v2 = (c, v3)" by (rule prod.exhaust)
      have c0: "c = None"
        using kube_api.create_exists [OF api, of "namespaceKey ?ns"
            "newObject (obLabels (snd x)) (obAnnotations (snd x)) (BNamespace False)" v2 _ v3]
          c s2 w1(1) Found(3) g e la cm
        by (cases c) (auto split: if_splits)
      obtain z where z: "st v3 = (st v2)(namespaceKey ?ns \<mapsto> z)"
        "snd z = snd (newObject (obLabels (snd x)) (obAnnotations (snd x)) (BNamespace False))"
        using kube_api.create_ok [OF api, OF c [unfolded c0]] by blast
      have "kDelete (cl k) (namespaceBackupKey ?safe ?ns) None v3 = (None, w2)"
        using Found(3) g e la cm c c0 by simp
      then have "st w2 (namespaceKey ?ns) = Some z" using kube_api.delete_ok [OF api] z(1) by fastforce
      then show thesis using that z(2) by blast
    qed (use w1(2) in simp_all)
    then show ?thesis using Deleted(4) w1(1) by auto
  qed simp
qed

end
