(* ===== verification/InjectLatency.thy ===== *)
theory InjectLatency
  imports Injectors Validation
begin

text \<open>
  Webhook latency (\<open>webhooklatency.go\<close>): a slow admission webhook is deployed as a Secret with its
  certificate, a Deployment, a Service and a webhook configuration, in this order, and taken down in
  the opposite one. The fault is in effect while the webhook configuration exists. The certificate
  (\<open>generateSelfSignedCert\<close>, calls into \<open>crypto/x509\<close>) and the text of a duration are parameters.
\<close>

record 'w latencyLib =
  llParams :: paramLib
  llDuration :: "duration \<Rightarrow> string"
  llCert :: "string \<Rightarrow> string \<Rightarrow> 'w \<Rightarrow> (goErr + string \<times> string \<times> string) \<times> 'w"

definition webhookLatencyImage :: string where
  "webhookLatencyImage = ''registry.k8s.io/e2e-test-images/agnhost:2.40''"

definition webhookLatencyPort :: int where
  "webhookLatencyPort = 8443"

definition webhookLatencyNamePrefix :: string where
  "webhookLatencyNamePrefix = ''chaos-webhook-latency-''"

definition defaultWebhookDelay :: duration where
  "defaultWebhookDelay = 25 * second"

definition sanitizeForK8s :: "string \<Rightarrow> string" where
  "sanitizeForK8s s =
     (let s1 = filter (\<lambda>c. c \<noteq> CHR '' '') (map (\<lambda>c. if c = CHR '','' then CHR ''-'' else c) (toLower s));
          s2 = trimRight (take 30 s1) ''-''
      in if s2 = '''' then ''default'' else s2)"

definition latencyName :: "injectionSpec \<Rightarrow> string" where
  "latencyName spec = webhookLatencyNamePrefix @ sanitizeForK8s (param spec ''resources'')"

definition latencySecretKey :: "string \<Rightarrow> string \<Rightarrow> objKey" where
  "latencySecretKey name ns = (''Secret'', ns, name @ ''-certs'')"

definition latencyDeployKey :: "string \<Rightarrow> string \<Rightarrow> objKey" where
  "latencyDeployKey name ns = (''Deployment'', ns, name)"

definition latencyServiceKey :: "string \<Rightarrow> string \<Rightarrow> objKey" where
  "latencyServiceKey name ns = (''Service'', ns, name)"

definition latencyConfigKey :: "string \<Rightarrow> objKey" where
  "latencyConfigKey name = (''ValidatingWebhookConfiguration'', '''', name)"

section \<open>Objects\<close>

definition latencyLabels :: "string \<Rightarrow> strmap" where
  "latencyLabels name = (ChaosLabels (injectionTypeName WebhookLatency))(''app'' \<mapsto> name)"

definition latencyServer :: "'w latencyLib \<Rightarrow> string \<Rightarrow> duration \<Rightarrow> objBody" where
  "latencyServer lib name delay =
     BServer [''app'' \<mapsto> name] 1
       \<lparr>ctName = ''webhook'', ctImage = webhookLatencyImage, ctCommand = [],
        ctArgs = [''webhook'', ''--delay='' @ llDuration lib delay, ''--port='' @ itoa webhookLatencyPort,
          ''--tls-cert-file=/etc/webhook/certs/tls.crt'', ''--tls-private-key-file=/etc/webhook/certs/tls.key'']\<rparr>
       [webhookLatencyPort] [(''certs'', ''/etc/webhook/certs'')] [(''certs'', name @ ''-certs'')]"

definition latencyConfig :: "string \<Rightarrow> string \<Rightarrow> string list \<Rightarrow> string list \<Rightarrow> string \<Rightarrow> objBody" where
  "latencyConfig name ns groups resources caPEM =
     BWebhooks [\<lparr>weName = name @ ''.chaos.operatorchaos.io'', wePolicy = Some ''Ignore'',
       weService = Some (name, ns, ''/validate''), weCABundle = caPEM, weOperations = [''CREATE'', ''UPDATE''],
       weGroups = groups, weVersions = [''*''], weResources = resources, weSideEffects = Some ''None'',
       weTimeout = Some 30, weReviewVersions = [''v1'']\<rparr>]"

text \<open>The objects in the order of their creation, each with its key and its Go type.\<close>

definition latencyObjects ::
  "'w latencyLib \<Rightarrow> injectionSpec \<Rightarrow> string \<Rightarrow> duration \<Rightarrow> string \<times> string \<times> string \<Rightarrow> (objKey \<times> string \<times> objBody) list" where
  "latencyObjects lib spec ns delay pems =
     (case pems of (certPEM, keyPEM, caPEM) \<Rightarrow>
       (let name = latencyName spec
        in [(latencySecretKey name ns, ''*v1.Secret'', BData [''tls.crt'' \<mapsto> certPEM, ''tls.key'' \<mapsto> keyPEM]),
            (latencyDeployKey name ns, ''*v1.Deployment'', latencyServer lib name delay),
            (latencyServiceKey name ns, ''*v1.Service'', BService [''app'' \<mapsto> name] [(443, webhookLatencyPort)]),
            (latencyConfigKey name, ''*v1.ValidatingWebhookConfiguration'',
              latencyConfig name ns (splitOn CHR '','' (param spec ''apiGroups''))
                (splitOn CHR '','' (param spec ''resources'')) caPEM)]))"

section \<open>Operations\<close>

text \<open>Every object is deleted even when an earlier deletion failed; the errors are joined.\<close>

fun deleteEach :: "'w cluster \<Rightarrow> (objKey \<times> string) list \<Rightarrow> goErr list \<Rightarrow> 'w \<Rightarrow> goErr option \<times> 'w" where
  "deleteEach k [] errs w =
     ((if errs = [] then None else Some (Errorf ''cleanup errors: %s'' (map AText errs))), w)"
| "deleteEach k ((key, msg) # rest) errs w =
     (case kDelete (cl k) key None w of
        (Some err, w1) \<Rightarrow>
          deleteEach k rest (if isNotFound err then errs else errs @ [Errorf msg [AText err]]) w1
      | (None, w1) \<Rightarrow> deleteEach k rest errs w1)"

definition cleanupResources :: "'w cluster \<Rightarrow> string \<Rightarrow> string \<Rightarrow> 'w \<Rightarrow> goErr option \<times> 'w" where
  "cleanupResources k name ns =
     deleteEach k
       [(latencyConfigKey name, ''deleting webhook config: %v''), (latencyServiceKey name ns, ''deleting service: %v''),
        (latencyDeployKey name ns, ''deleting deployment: %v''), (latencySecretKey name ns, ''deleting TLS secret: %v'')] []"

fun createEach ::
  "'w cluster \<Rightarrow> string \<Rightarrow> ('w \<Rightarrow> goErr option \<times> 'w) \<Rightarrow> ('w \<Rightarrow> 'a) \<Rightarrow> (objKey \<times> string \<times> objBody) list \<Rightarrow> 'w \<Rightarrow> (goErr + 'a) \<times> 'w" where
  "createEach k name undo result [] w = (Inr (result w), w)"
| "createEach k name undo result ((key, goType, body) # rest) w =
     (case kCreate (cl k) key (newObject (latencyLabels name) Map.empty body) w of
        (Some err, w1) \<Rightarrow>
          (Inl (Errorf ''creating %T %q: %w'' [AStr goType, AStr name, AErr err]), snd (undo w1))
      | (None, w1) \<Rightarrow> createEach k name undo result rest w1)"

definition latencyInject ::
  "'w latencyLib \<Rightarrow> 'w cluster \<Rightarrow> injectionSpec \<Rightarrow> string \<Rightarrow> 'w \<Rightarrow>
   (goErr + 'w cleanupFunc option \<times> injectionEvent list) \<times> 'w" where
  "latencyInject lib k spec ns w =
     (let name = latencyName spec
      in case (if param spec ''delay'' \<noteq> '''' then plParseDuration (llParams lib) (param spec ''delay'')
               else Inr defaultWebhookDelay) of
           Inl err \<Rightarrow> (Inl (Errorf ''parsing delay: %w'' [AErr err]), w)
         | Inr delay \<Rightarrow>
             (case kGet (cl k) (latencyDeployKey name ns) w of
                (Inr existing, w1) \<Rightarrow>
                  (Inl (Errorf ''WebhookLatency deployment %q already exists; clean up before re-injecting'' [AStr name]), w1)
              | (Inl err, w1) \<Rightarrow>
                  (case llCert lib name ns w1 of
                     (Inl err, w2) \<Rightarrow> (Inl (Errorf ''generating TLS certificate: %w'' [AErr err]), w2)
                   | (Inr pems, w2) \<Rightarrow>
                       createEach k name (cleanupResources k name ns)
                         (\<lambda>w3. (Some (cleanupResources k name ns),
                            [NewEvent (clNow k w3) WebhookLatency (keyText ns name) ''deployed''
                              [''delay'' \<mapsto> llDuration lib delay, ''resources'' \<mapsto> param spec ''resources'',
                               ''apiGroups'' \<mapsto> param spec ''apiGroups'']]))
                         (latencyObjects lib spec ns delay pems) w2)))"

definition latencyInjector :: "'w latencyLib \<Rightarrow> 'w cluster \<Rightarrow> 'w injector" where
  "latencyInjector lib k =
     \<lparr>inValidate = \<lambda>spec blast. validateWebhookLatencyParams (llParams lib) spec,
      inInject = latencyInject lib k,
      inRevert = \<lambda>spec ns. cleanupResources k (latencyName spec) ns\<rparr>"

declare split_paired_Ex [simp del] split_paired_All [simp del]

section \<open>The contract\<close>

text \<open>The certificate generator does not touch the cluster.\<close>

locale latency_api = cluster_api +
  fixes lib :: "'a latencyLib"
  assumes cert_frame: "st (snd (llCert lib name ns w)) = st w"

context cluster_api
begin

lemma delete_either:
  "kDelete (cl k) key None w = (r, w') \<Longrightarrow> st w' = st w \<or> st w' = (st w)(key := None)"
  using delete_ok [of key None w w'] delete_err [of key None w _ w'] by (cases r) auto

lemma deleteEach_shrinks:
  assumes "deleteEach k ds errs w = (r, w')"
  shows "(st w' key = st w key \<or> st w' key = None) \<and> (key \<notin> fst ` set ds \<longrightarrow> st w' key = st w key)"
  using assms
proof (induction ds arbitrary: errs w)
  case (Cons a ds)
  obtain d msg where a: "a = (d, msg)" by (cases a)
  obtain q w1 where q: "kDelete (cl k) d None w = (q, w1)" by (rule prod.exhaust)
  obtain errs' where rest: "deleteEach k ds errs' w1 = (r, w')"
    using Cons.prems a q by (cases q) auto
  show ?case using Cons.IH [OF rest] delete_either [OF q] by (cases "key = d") (auto simp: a)
qed simp

lemma deleteEach_gone:
  assumes "deleteEach k ds errs w = (None, w')" and "key \<in> fst ` set ds"
  shows "st w' key = None"
  using assms
proof (induction ds arbitrary: errs w)
  case (Cons a ds)
  obtain d msg where a: "a = (d, msg)" by (cases a)
  obtain q w1 where q: "kDelete (cl k) d None w = (q, w1)" by (rule prod.exhaust)
  have key: "key = d \<or> key \<in> fst ` set ds" using Cons.prems(2) by (simp add: a)
  have errs: "deleteEach k ds es v = (None, v') \<Longrightarrow> es = []" for es v v'
  proof (induction ds arbitrary: es v)
    case (Cons b ds)
    obtain key m where b: "b = (key, m)" by (cases b)
    obtain q' v1 where "kDelete (cl k) key None v = (q', v1)" by (rule prod.exhaust)
    then show ?case using Cons by (cases q') (auto simp: b split: if_splits)
  qed (simp split: if_splits)
  show ?case
  proof (cases q)
    case None
    then have rest: "deleteEach k ds errs w1 = (None, w')" using Cons.prems(1) a q by simp
    have "st w1 d = None" using delete_ok q None by fastforce
    then have "key = d \<Longrightarrow> ?thesis" using deleteEach_shrinks [OF rest, of d] by auto
    then show ?thesis using Cons.IH [OF rest] key by blast
  next
    case (Some e)
    then have nf: "isNotFound e" and rest: "deleteEach k ds errs w1 = (None, w')"
      using Cons.prems(1) a q errs by (auto split: if_splits)
    have "st w d = None" "st w1 = st w" using delete_notfound delete_err q Some nf by blast+
    then have "key = d \<Longrightarrow> ?thesis" using deleteEach_shrinks [OF rest, of d] by auto
    then show ?thesis using Cons.IH [OF rest] key by blast
  qed
qed simp

lemma createEach_failed:
  assumes "createEach k name undo result os w = (Inl e, w')"
  obtains v as where "w' = snd (undo v)" "e = Errorf ''creating %T %q: %w'' as"
    "\<And>key. st w key \<noteq> None \<Longrightarrow> st v key \<noteq> None" "os \<noteq> []"
    "\<And>key. key \<notin> fst ` set (butlast os) \<Longrightarrow> st v key = st w key"
  using assms
proof (induction os arbitrary: w thesis)
  case (Cons a os)
  obtain key ty body where a: "a = (key, ty, body)" by (cases a)
  obtain q w1 where q: "kCreate (cl k) key (newObject (latencyLabels name) Map.empty body) w = (q, w1)"
    by (rule prod.exhaust)
  show ?case
  proof (cases q)
    case (Some err)
    then have "st w1 = st w" using create_err q by blast
    then show ?thesis using Cons.prems a q Some by auto
  next
    case None
    then obtain y where y: "st w1 = (st w)(key \<mapsto> y)" using create_ok q by blast
    have rest: "createEach k name undo result os w1 = (Inl e, w')" using Cons.prems(2) a q None by simp
    show ?thesis
    proof (rule Cons.IH [OF _ rest])
      fix v as assume v: "w' = snd (undo v)" "e = Errorf ''creating %T %q: %w'' as"
        "\<And>key. st w1 key \<noteq> None \<Longrightarrow> st v key \<noteq> None" "os \<noteq> []"
        "\<And>key. key \<notin> fst ` set (butlast os) \<Longrightarrow> st v key = st w1 key"
      have up: "\<And>key. st w key \<noteq> None \<Longrightarrow> st v key \<noteq> None" using v(3) y by auto
      have same: "\<And>key. key \<notin> fst ` set (butlast (a # os)) \<Longrightarrow> st v key = st w key"
        using v(4,5) y by (auto simp: a)
      show thesis by (rule Cons.prems(1) [OF v(1,2) up _ same]) simp_all
    qed
  qed
qed simp

lemma createEach_done:
  assumes "createEach k name undo result os w = (Inr res, w')" and "distinct (map fst os)"
  shows "res = result w' \<and> (\<forall>key \<in> fst ` set os. st w key = None \<and> st w' key \<noteq> None) \<and>
    (\<forall>key. key \<notin> fst ` set os \<longrightarrow> st w' key = st w key)"
  using assms
proof (induction os arbitrary: w)
  case (Cons a os)
  obtain key ty body where a: "a = (key, ty, body)" by (cases a)
  obtain q w1 where q: "kCreate (cl k) key (newObject (latencyLabels name) Map.empty body) w = (q, w1)"
    by (rule prod.exhaust)
  have n: "q = None" and rest: "createEach k name undo result os w1 = (Inr res, w')"
    using Cons.prems(1) a q by (cases q; auto)+
  obtain y where y: "st w1 = (st w)(key \<mapsto> y)" "st w key = None" using create_ok q n by blast
  note ih = Cons.IH [OF rest]
  have k: "key \<notin> fst ` set os" "distinct (map fst os)" using Cons.prems(2) by (auto simp: a)
  have "st w' key \<noteq> None" using ih k y by auto
  moreover have "st w key' = None \<and> st w' key' \<noteq> None" if "key' \<in> fst ` set os" for key'
    using ih k(2) that y(1) k(1) by (metis fun_upd_other)
  ultimately show ?case using ih k y by (auto simp: a)
qed simp

end

lemma latency_keys:
  "fst ` set (latencyObjects lib spec ns delay pems) =
     {latencySecretKey (latencyName spec) ns, latencyDeployKey (latencyName spec) ns,
      latencyServiceKey (latencyName spec) ns, latencyConfigKey (latencyName spec)}"
  "distinct (map fst (latencyObjects lib spec ns delay pems))"
  "fst ` set (butlast (latencyObjects lib spec ns delay pems)) =
     {latencySecretKey (latencyName spec) ns, latencyDeployKey (latencyName spec) ns,
      latencyServiceKey (latencyName spec) ns}"
  by (cases pems; simp add: latencyObjects_def Let_def latencySecretKey_def latencyDeployKey_def
      latencyServiceKey_def latencyConfigKey_def; blast)+

context latency_api
begin

lemma latencyInject_cases [consumes 1, case_names Refused Failed Deployed]:
  assumes "latencyInject lib k spec ns w = (r, w')"
  obtains e where "r = Inl e" "st w' = st w" "\<And>as. e \<noteq> Errorf ''creating %T %q: %w'' as"
  | v as where "r = Inl (Errorf ''creating %T %q: %w'' as)" "w' = snd (cleanupResources k (latencyName spec) ns v)"
      "\<And>key. st w key \<noteq> None \<Longrightarrow> st v key \<noteq> None"
      "st v (latencyConfigKey (latencyName spec)) = st w (latencyConfigKey (latencyName spec))"
  | ev where "r = Inr (Some (cleanupResources k (latencyName spec) ns), ev)"
      "\<And>key. key \<in> {latencySecretKey (latencyName spec) ns, latencyDeployKey (latencyName spec) ns,
         latencyServiceKey (latencyName spec) ns, latencyConfigKey (latencyName spec)} \<Longrightarrow> st w key = None"
      "\<And>key. key \<notin> {latencySecretKey (latencyName spec) ns, latencyDeployKey (latencyName spec) ns,
         latencyServiceKey (latencyName spec) ns, latencyConfigKey (latencyName spec)} \<Longrightarrow> st w' key = st w key"
proof -
  let ?name = "latencyName spec"
  let ?delay = "if param spec ''delay'' \<noteq> '''' then plParseDuration (llParams lib) (param spec ''delay'')
               else Inr defaultWebhookDelay"
  obtain q w1 where g: "kGet (cl k) (latencyDeployKey ?name ns) w = (q, w1)" by (rule prod.exhaust)
  obtain c w2 where c: "llCert lib ?name ns w1 = (c, w2)" by (rule prod.exhaust)
  have s: "st w1 = st w" "st w2 = st w"
    using get_frame [of "latencyDeployKey ?name ns" w] cert_frame [of ?name ns w1] g c by simp_all
  show thesis
  proof (cases "\<exists>d e pems. ?delay = Inr d \<and> q = Inl e \<and> c = Inr pems")
    case False
    have "\<exists>e. r = Inl e \<and> st w' = st w \<and> (\<forall>as. e \<noteq> Errorf ''creating %T %q: %w'' as)"
    proof (cases ?delay)
      case (Inl e)
      then show ?thesis using assms by (auto simp: latencyInject_def Let_def)
    next
      case d: (Inr d)
      show ?thesis
      proof (cases q)
        case (Inr x)
        then show ?thesis using assms d g s by (auto simp: latencyInject_def Let_def)
      next
        case (Inl e)
        then obtain e' where "c = Inl e'" using False d by (cases c) auto
        then show ?thesis using assms d g s Inl c by (auto simp: latencyInject_def Let_def)
      qed
    qed
    with that(1) show thesis by blast
  next
    case True
    then obtain d e pems where ok: "?delay = Inr d" "q = Inl e" "c = Inr pems" by blast
    let ?os = "latencyObjects lib spec ns d pems"
    have d: "createEach k ?name (cleanupResources k ?name ns)
       (\<lambda>w3. (Some (cleanupResources k ?name ns),
          [NewEvent (clNow k w3) WebhookLatency (keyText ns ?name) ''deployed''
            [''delay'' \<mapsto> llDuration lib d, ''resources'' \<mapsto> param spec ''resources'',
             ''apiGroups'' \<mapsto> param spec ''apiGroups'']])) ?os w2 = (r, w')"
      using assms ok g c by (simp add: latencyInject_def Let_def)
    show thesis
    proof (cases r)
      case (Inl err)
      from createEach_failed [OF d [unfolded Inl]] obtain v as where
        v: "w' = snd (cleanupResources k ?name ns v)" "err = Errorf ''creating %T %q: %w'' as"
          "\<And>key. st w2 key \<noteq> None \<Longrightarrow> st v key \<noteq> None"
          "\<And>key. key \<notin> fst ` set (butlast ?os) \<Longrightarrow> st v key = st w2 key" by blast
      have "st v (latencyConfigKey ?name) = st w (latencyConfigKey ?name)"
        using v(4) s unfolding latency_keys
        by (simp add: latencyConfigKey_def latencySecretKey_def latencyDeployKey_def latencyServiceKey_def)
      then show thesis using that(2) [of as v] v Inl s by simp
    next
      case (Inr res)
      note all = createEach_done [OF d [unfolded Inr] latency_keys(2), unfolded latency_keys(1)]
      show thesis by (rule that(3)) (use all Inr s in auto)
    qed
  qed
qed

lemma cleanup_config:
  assumes "cleanupResources k name ns w = (r, w')"
  shows "(r = None \<longrightarrow> st w' (latencyConfigKey name) = None) \<and>
    (st w (latencyConfigKey name) = None \<longrightarrow> st w' (latencyConfigKey name) = None)"
  using deleteEach_gone [of _ "[]" w w' "latencyConfigKey name"] deleteEach_shrinks [of _ "[]" w r w' "latencyConfigKey name"] assms
  unfolding cleanupResources_def by fastforce

end

sublocale latency_api \<subseteq> latency: restoring_injector "latencyInjector lib k" spec ns
    "\<lambda>w. st w (latencyConfigKey (latencyName spec)) \<noteq> None" "cleanupResources k (latencyName spec) ns"
  for spec ns
proof
  fix w co ev w' assume "inInject (latencyInjector lib k) spec ns w = (Inr (co, ev), w')"
  then have "latencyInject lib k spec ns w = (Inr (co, ev), w')" by (simp add: latencyInjector_def)
  then show "co = Some (cleanupResources k (latencyName spec) ns)" by (cases rule: latencyInject_cases) simp_all
next
  fix w e w' assume i: "inInject (latencyInjector lib k) spec ns w = (Inl e, w')"
    and a: "st w' (latencyConfigKey (latencyName spec)) \<noteq> None"
  from i have "latencyInject lib k spec ns w = (Inl e, w')" by (simp add: latencyInjector_def)
  then show "st w (latencyConfigKey (latencyName spec)) \<noteq> None"
  proof (cases rule: latencyInject_cases)
    case (Failed v as)
    then show ?thesis
      using cleanup_config [of "latencyName spec" ns v "fst (cleanupResources k (latencyName spec) ns v)" w'] a
      by (auto simp: prod_eq_iff)
  qed (use a in simp_all)
qed (auto simp: latencyInjector_def dest: cleanup_config)

section \<open>Properties\<close>

text \<open>What an injection deploys, its cleanup takes down: after a successful cleanup the cluster is exactly what
  it was before the injection.\<close>

theorem latency_roundtrip:
  assumes "latency_api k st lib"
    and "inInject (latencyInjector lib k) spec ns w = (Inr (Some c, ev), w1)" and "c w1 = (None, w2)"
  shows "st w2 = st w"
proof -
  note api = latency_api.axioms(1) [OF assms(1)]
  let ?keys = "{latencySecretKey (latencyName spec) ns, latencyDeployKey (latencyName spec) ns,
         latencyServiceKey (latencyName spec) ns, latencyConfigKey (latencyName spec)}"
  have "latencyInject lib k spec ns w = (Inr (Some c, ev), w1)" using assms(2) by (simp add: latencyInjector_def)
  then show ?thesis
  proof (cases rule: latency_api.latencyInject_cases [OF assms(1), consumes 1, case_names Refused Failed Deployed])
    case (Deployed ev')
    then have c: "cleanupResources k (latencyName spec) ns w1 = (None, w2)" using assms(3) by simp
    note d = c [unfolded cleanupResources_def]
    show ?thesis
    proof (rule ext)
      fix key
      show "st w2 key = st w key"
      proof (cases "key \<in> ?keys")
        case True
        then have "st w2 key = None" by (intro cluster_api.deleteEach_gone [OF api, OF d]) auto
        then show ?thesis using Deployed(2) [OF True] by simp
      next
        case False
        then have "st w2 key = st w1 key"
          using cluster_api.deleteEach_shrinks [OF api, OF d, of key] by auto
        then show ?thesis using Deployed(3) [OF False] by simp
      qed
    qed
  qed simp_all
qed

text \<open>A failed injection is less careful: it cleans up by name. A Service that somebody else created under the name
  of the webhook server makes the injection fail, and is deleted by its cleanup.\<close>

theorem latency_failure_deletes_foreign:
  assumes "latency_api k st lib" and "st w (latencyServiceKey (latencyName spec) ns) = Some x"
    and "inInject (latencyInjector lib k) spec ns w = (Inl (Errorf ''creating %T %q: %w'' as), w')"
    and "\<And>v. fst (cleanupResources k (latencyName spec) ns v) = None"
  shows "st w' (latencyServiceKey (latencyName spec) ns) = None"
proof -
  note api = latency_api.axioms(1) [OF assms(1)]
  have "latencyInject lib k spec ns w = (Inl (Errorf ''creating %T %q: %w'' as), w')"
    using assms(3) by (simp add: latencyInjector_def)
  then show ?thesis
  proof (cases rule: latency_api.latencyInject_cases [OF assms(1), consumes 1, case_names Refused Failed Deployed])
    case (Failed v as')
    then have "cleanupResources k (latencyName spec) ns v = (None, w')" using assms(4) [of v] by (simp add: prod_eq_iff)
    from cluster_api.deleteEach_gone [OF api, OF this [unfolded cleanupResources_def]] show ?thesis by simp
  next
    case (Refused e)
    then show ?thesis by blast
  qed simp
qed

section \<open>An instance\<close>

definition latencyDemoLib :: "paramLib \<Rightarrow> (objKey, kobject) memWorld latencyLib" where
  "latencyDemoLib ps = \<lparr>llParams = ps, llDuration = \<lambda>d. itoa d @ ''ns'', llCert = \<lambda>name ns w. (Inr (''crt'', ''key'', ''ca''), w)\<rparr>"

interpretation memLatency: latency_api memCluster memObjs "latencyDemoLib ps" for ps
  by unfold_locales (simp add: latencyDemoLib_def)

end
