(* ===== verification/Registry.thy ===== *)
theory Registry
  imports CliRun InjectObjects InjectBackup InjectDrift InjectPods InjectOwner InjectClientFault InjectWebhook
    InjectNamespace InjectLatency InjectMutation
begin

text \<open>
  The registry of the command line (\<open>internal/cli/orchestrator.go\<close>): all twenty injectors over one
  cluster. What is proved here joins the parts: the registry knows every injection type and checks
  its parameters as \<open>ValidateInjectionParams\<close> does, every registered injector keeps the contract of
  its interface, and so a run over the registry leaves no fault behind silently.
\<close>

declare split_paired_Ex [simp del] split_paired_All [simp del]

section \<open>The registry\<close>

text \<open>One API server, seen by the injectors through typed objects (\<open>k\<close>), through unstructured objects
  (\<open>j\<close>) and through its pods (\<open>p\<close>).\<close>

definition registeredInjectors ::
  "'w cluster \<Rightarrow> 'w jsonCluster \<Rightarrow> 'w podApi \<Rightarrow> 'w latencyLib \<Rightarrow> (injectionType \<times> 'w injector) list" where
  "registeredInjectors k j p ll =
     [(PodKill, podKillInjector (llParams ll) p), (CRDMutation, mutationInjector (llParams ll) j),
      (ConfigDrift, configDriftInjector k), (NetworkPartition, networkInjector (llParams ll) k),
      (WebhookDisrupt, webhookInjector (llParams ll) k), (RBACRevoke, rbacInjector k),
      (FinalizerBlock, finalizerInjector k), (ClientFault, clientFaultInjector (llParams ll) k),
      (OwnerRefOrphan, orphanInjector k), (QuotaExhaustion, quotaInjector k),
      (WebhookLatency, latencyInjector ll k), (NamespaceDeletion, NewNamespaceDeletionInjector k ''''),
      (LabelStomping, labelStompInjector k), (SecretDeletion, secretDeletionInjector k),
      (DeploymentScaleZero, scaleZeroInjector k), (LeaderElectionDisrupt, leaseElectionInjector k),
      (ImageCorrupt, imageCorruptInjector k), (CrashLoopInject, crashLoopInjector k),
      (ResourceDeletion, resourceDeletionInjector k), (PDBBlock, pdbInjector k)]"

definition buildRegistry ::
  "'w cluster \<Rightarrow> 'w jsonCluster \<Rightarrow> 'w podApi \<Rightarrow> 'w latencyLib \<Rightarrow> 'w registry" where
  "buildRegistry k j p ll = fold (\<lambda>(t, i). Register t i) (registeredInjectors k j p ll) NewRegistry"


text \<open>Registering distinct types one after the other makes the registry the map of the pairs.\<close>

lemma map_of_Register [simp]: "map_of (Register t i r) = (map_of r)(t \<mapsto> i)"
proof -
  have "s \<noteq> t \<Longrightarrow> map_of (filter (\<lambda>p. fst p \<noteq> t) r) s = map_of r s" for s by (induction r) auto
  then show ?thesis unfolding Register_def by (intro ext) simp
qed

lemma map_of_registered: "map_of (fold (\<lambda>(t, i). Register t i) xs r) = map_of r ++ map_of (rev xs)"
  by (induction xs arbitrary: r) auto

lemma buildRegistry_get:
  "registryGet (buildRegistry k j p ll) t = Inr i \<longleftrightarrow> map_of (registeredInjectors k j p ll) t = Some i"
proof -
  have "distinct (map fst (registeredInjectors k j p ll))" by (simp add: registeredInjectors_def)
  then have "map_of (rev (registeredInjectors k j p ll)) = map_of (registeredInjectors k j p ll)"
    by (intro map_of_inject_set [THEN iffD2]) (simp_all add: rev_map [symmetric])
  then show ?thesis
    by (simp add: registryGet_def buildRegistry_def map_of_registered NewRegistry_def split: option.split)
qed


lemmas registered_simps = buildRegistry_get registeredInjectors_def podKillInjector_def mutationInjector_def
  configDriftInjector_def networkInjector_def webhookInjector_def rbacInjector_def finalizerInjector_def
  clientFaultInjector_def orphanInjector_def quotaInjector_def latencyInjector_def
  NewNamespaceDeletionInjector_def labelStompInjector_def secretDeletionInjector_def scaleZeroInjector_def
  leaseElectionInjector_def imageCorruptInjector_def crashLoopInjector_def resourceDeletionInjector_def pdbInjector_def

lemma registry_spec:
  "case registryGet (buildRegistry k j p ll) (injType spec) of
     Inl err \<Rightarrow> ValidateInjectionType (injType spec) \<noteq> None
   | Inr i \<Rightarrow> ValidateInjectionType (injType spec) = None \<and>
       (\<forall>blast. inValidate i spec blast = ValidateInjectionParams (llParams ll) spec blast)"
proof (cases "registryGet (buildRegistry k j p ll) (injType spec)")
  case (Inl err)
  then have "map_of (registeredInjectors k j p ll) (injType spec) = None"
    using buildRegistry_get [of k j p ll "injType spec"] by (cases "map_of (registeredInjectors k j p ll) (injType spec)") auto
  then have "injType spec \<notin> set validInjectionTypes"
    by (auto simp: registeredInjectors_def validInjectionTypes_def split: if_splits)
  then show ?thesis using Inl by (simp add: ValidateInjectionType_def failIf_def)
next
  case (Inr i)
  then have i: "map_of (registeredInjectors k j p ll) (injType spec) = Some i" by (simp add: buildRegistry_get)
  then have v: "ValidateInjectionType (injType spec) = None"
    unfolding registeredInjectors_def ValidateInjectionType_None by (auto simp: validInjectionTypes_def split: if_splits)
  have "inValidate i spec blast = ValidateInjectionParams (llParams ll) spec blast" for blast
    using i unfolding ValidateInjectionParams_def v option.case
    by (cases "injType spec") (auto simp: registered_simps Let_def)
  then show ?thesis using Inr v by simp
qed

text \<open>C16. The registry of the command line and the validator of the API know the same injection types, and
  check the parameters of each in the same way: for every type but \<open>OtherInjection\<close> an injector is registered,
  its \<open>Validate\<close> is the branch of \<open>ValidateInjectionParams\<close> for that type, and nothing else is registered.\<close>

theorem registry_agrees_with_validator:
  "case registryGet (buildRegistry k j p ll) (injType spec) of
     Inl err \<Rightarrow> ValidateInjectionType (injType spec) \<noteq> None
   | Inr i \<Rightarrow> ValidateInjectionType (injType spec) = None \<and>
       (\<forall>blast. inValidate i spec blast = ValidateInjectionParams (llParams ll) spec blast)"
  by (rule registry_spec)


lemma standard_buildRegistry: "standardRegistry (llParams ll) (buildRegistry k j p ll)"
  unfolding standardRegistry_def
proof (intro allI impI)
  fix t i spec blast
  assume "registryGet (buildRegistry k j p ll) t = Inr i" and "injType spec = t" and "inValidate i spec blast = None"
  then show "ValidateInjectionParams (llParams ll) spec blast = None"
    using registry_spec [where k = k and j = j and p = p and ll = ll and spec = spec] by auto
qed

section \<open>The contract of every registered injector\<close>

text \<open>When the fault of a specification is in effect. A killed pod is not a fault that lasts.\<close>

definition faultActive ::
  "'w cluster \<Rightarrow> 'w jsonCluster \<Rightarrow> ('w \<Rightarrow> objKey \<rightharpoonup> vobject) \<Rightarrow> ('w \<Rightarrow> objKey \<rightharpoonup> jobject) \<Rightarrow> injectionSpec \<Rightarrow> string \<Rightarrow> 'w \<Rightarrow> bool" where
  "faultActive k j st sj spec ns =
     (case injType spec of
        CRDMutation \<Rightarrow> mutationActive sj (mutationKey j spec ns)
      | ConfigDrift \<Rightarrow> rollbackPending st (driftKey spec ns)
      | NetworkPartition \<Rightarrow> networkActive k st spec ns
      | WebhookDisrupt \<Rightarrow> rollbackPending st (webhookKey spec (param spec ''webhookName''))
      | RBACRevoke \<Rightarrow> rbacActive st spec ns
      | FinalizerBlock \<Rightarrow> rollbackPending st (finalizerKey k spec ns)
      | ClientFault \<Rightarrow> clientFaultActive st spec ns
      | OwnerRefOrphan \<Rightarrow> rollbackPending st (orphanKey k spec ns)
      | QuotaExhaustion \<Rightarrow> quotaActive st spec ns
      | WebhookLatency \<Rightarrow> (\<lambda>w. st w (latencyConfigKey (latencyName spec)) \<noteq> None)
      | NamespaceDeletion \<Rightarrow> backupActive st (namespaceKey (param spec ''namespace''))
          (namespaceBackupKey defaultSafeNamespace (param spec ''namespace''))
      | LabelStomping \<Rightarrow> rollbackPending st (stompKey k spec ns)
      | SecretDeletion \<Rightarrow> backupActive st (secretKey (targetNamespace spec ns) (param spec ''name''))
          (secretKey (targetNamespace spec ns) (backupSecretName (param spec ''name'')))
      | DeploymentScaleZero \<Rightarrow> scaleZeroActive st spec ns
      | LeaderElectionDisrupt \<Rightarrow> backupActive st (leaseElectionKey ns (param spec ''name''))
          (''ConfigMap'', ns, backupLeaseName (param spec ''name''))
      | ImageCorrupt \<Rightarrow> imageCorruptActive st spec ns
      | CrashLoopInject \<Rightarrow> crashLoopActive st spec ns
      | ResourceDeletion \<Rightarrow> backupActive st
          (clKind k (param spec ''apiVersion'') (param spec ''kind''), targetNamespace spec ns, param spec ''name'')
          (secretKey (targetNamespace spec ns) (backupResourceName (param spec ''kind'') (param spec ''name'')))
      | PDBBlock \<Rightarrow> pdbActive st spec ns
      | _ \<Rightarrow> (\<lambda>w. False))"

context restoring_injector
begin

lemma contract: "fault_injector inj spec ns active"
  by (rule fault_injector_axioms)

end

locale chaos_cluster = latency_api k st lib + json: json_api j sj
  for k :: "'w cluster" and st :: "'w \<Rightarrow> objKey \<rightharpoonup> vobject" and lib :: "'w latencyLib"
    and j :: "'w jsonCluster" and sj :: "'w \<Rightarrow> objKey \<rightharpoonup> jobject"
begin

lemma podKill_contract: "fault_injector (podKillInjector ps p) spec ns (\<lambda>w. False)"
  by unfold_locales (auto simp: cleans_def split: option.split)

lemma registered_contract:
  assumes "registryGet (buildRegistry k j p lib) (injType spec) = Inr i"
    and "injType spec = WebhookDisrupt \<longrightarrow> param spec ''webhookName'' \<noteq> ''''"
  shows "fault_injector i spec ns (faultActive k j st sj spec ns)"
proof -
  note contracts = podKill_contract json.mutation.fault_injector_axioms configDrift.fault_injector_axioms
    network.fault_injector_axioms rbac.fault_injector_axioms finalizerBlock.fault_injector_axioms
    clientFault.fault_injector_axioms orphan.fault_injector_axioms quota.fault_injector_axioms
    latency.fault_injector_axioms namespaceDeletion.fault_injector_axioms [of "''''", simplified if_True simp_thms]
    labelStomp.fault_injector_axioms secretDeletion.fault_injector_axioms scaleZero.fault_injector_axioms
    leaseElection.fault_injector_axioms imageCorrupt.fault_injector_axioms crashLoop.fault_injector_axioms
    resourceDeletion.fault_injector_axioms pdb.fault_injector_axioms
  have webhook: "injType spec = WebhookDisrupt \<Longrightarrow> fault_injector (webhookInjector ps k) spec ns
      (rollbackPending st (webhookKey spec (param spec ''webhookName'')))" for ps
    using restoring_injector.contract [OF webhook_named] assms(2) by blast
  have "map_of (registeredInjectors k j p lib) (injType spec) = Some i" using assms(1) by (simp add: buildRegistry_get)
  then show ?thesis
    unfolding faultActive_def registeredInjectors_def
    by (cases "injType spec") (use contracts webhook in auto)
qed

end




section \<open>A cluster for all of them\<close>

text \<open>Typed objects, unstructured objects and the locks side by side.\<close>

type_synonym regWorld = "(objKey, kobject) memWorld \<times> (objKey, json) memWorld \<times> localLocks"

definition regCluster :: "regWorld cluster" where
  "regCluster = pairCluster memCluster"

definition regJson :: "regWorld jsonCluster" where
  "regJson = \<lparr>jc = partClient (\<lambda>w. fst (snd w)) (\<lambda>a w. (fst w, a, snd (snd w))) memClient, jcNow = memNow \<circ> fst,
     jcKind = \<lambda>a k. k, jcRollback = mutationDemoLib, jcParse = jcParse mutationDemoCluster\<rparr>"

definition regPods :: "regWorld podApi" where
  "regPods = \<lparr>paList = \<lambda>ns s w. (Inr [], w), paDelete = \<lambda>ns p w. (None, w), paShuffle = \<lambda>ps w. (ps, w),
     paNow = memNow \<circ> fst\<rparr>"

definition regLib :: "regWorld latencyLib" where
  "regLib = \<lparr>llParams = demoLib, llDuration = \<lambda>d. itoa d @ ''ns'', llCert = \<lambda>name ns w. (Inr (''crt'', ''key'', ''ca''), w)\<rparr>"

interpretation regChaos: chaos_cluster regCluster "memObjs \<circ> fst" regLib regJson "memObjs \<circ> (\<lambda>w. fst (snd w))"
proof (unfold chaos_cluster_def latency_api_def json_api_def latency_api_axioms_def, intro conjI allI)
  show "cluster_api regCluster (memObjs \<circ> fst)"
    unfolding regCluster_def by (rule pair_cluster_api [OF memCl.cluster_api_axioms])
  show "kube_api (jc regJson) (memObjs \<circ> (\<lambda>w. fst (snd w))) fst snd"
    unfolding regJson_def jsonCluster.simps by (rule part_kube_api [OF memApi.kube_api_axioms]) simp
  show "(memObjs \<circ> fst) (snd (llCert regLib name ns w)) = (memObjs \<circ> fst) w" for name ns and w :: regWorld
    by (simp add: regLib_def)
qed


section \<open>Witnesses\<close>

definition regDemoWorld :: regWorld where
  "regDemoWorld = (scaleDemoWorld, mutationDemoWorld, NewLocalExperimentLock)"

lemma regDemo_get: "registryGet (buildRegistry regCluster regJson regPods regLib) DeploymentScaleZero = Inr (scaleZeroInjector regCluster)"
  by (simp add: buildRegistry_get registeredInjectors_def)

lemma regDemo_active:
  "faultActive k j st sj scaleDemoSpec ns = scaleZeroActive st scaleDemoSpec ns"
  by (simp add: faultActive_def scaleDemoSpec_def)

lemma regDemo_inject:
  "\<exists>ev w1. inInject (scaleZeroInjector regCluster) scaleDemoSpec ''ns1'' regDemoWorld =
     (Inr (Some (scaleZeroRestore regCluster ''web'' ''ns1''), ev), w1) \<and>
     (\<exists>x. memObjs (fst w1) (''Deployment'', ''ns1'', ''web'') = Some x \<and>
        obAnnotations (snd x) originalReplicasAnnotation = Some (itoa 3))"
  by (simp add: scaleZeroInjector_def scaleZeroInject_def Let_def fetch_def finishInject_def memPatch_def
      regCluster_def pairCluster_def pairClient_def onFst_def regDemoWorld_def scaleDemoSpec_def scaleDemoWorld_def
      memGet_def mget_def memPut_def scaleDemoDeployment_def newObject_def mergeFrom_def setReplicas_def
      deployReplicas_def setAnnotation_def)

lemma regDemo_restore:
  assumes "memObjs (fst w) (''Deployment'', ns, name) = Some x"
    and "obAnnotations (snd x) originalReplicasAnnotation = Some (itoa 3)"
  shows "\<exists>w'. scaleZeroRestore regCluster name ns w = (None, w')"
proof -
  have a: "atoi (itoa 3) = Inr 3" by (simp add: atoi_itoa int64_max_def)
  show ?thesis using assms a
    by (simp add: scaleZeroRestore_def Let_def regCluster_def pairCluster_def pairClient_def onFst_def
        onFound_def wrapW_def memGet_def memPatch_def memPut_def)
qed



definition regSleep :: "duration \<Rightarrow> regWorld \<Rightarrow> regWorld" where
  "regSleep d w = ((fst w)\<lparr>memNow := memNow (fst w) + max d 0\<rparr>, snd w)"

definition regEnv :: "timestamp \<Rightarrow> regWorld cliEnv" where
  "regEnv deadline = \<lparr>ceStore = None, ceWriteFiles = \<lambda>rep w. w, ceMarshal = \<lambda>rep. Inr ''{}'',
     ceFormatStamp = \<lambda>t. ''20240101-000000'', ceFormatRFC3339 = \<lambda>t. ''2024-01-01T00:00:00Z'', ceMerge = concat,
     ceWait = \<lambda>d w. (deadline \<le> memNow (fst (regSleep d w)), regSleep d w), ceNow = memNow \<circ> fst\<rparr>"

definition regOb :: "regWorld obsEnv" where
  "regOb = \<lparr>obGet = \<lambda>a k n m w. (Inr (JObj []), w),
     obNestedString = \<lambda>j fs. ('''', False, None), obNestedSlice = \<lambda>j fs. ([], False, None),
     obNestedField = \<lambda>j fs. (JNull, False, None), obFormat = \<lambda>j. '''', obOwnerKinds = \<lambda>j. [],
     obNow = memNow \<circ> fst, obWaitTick = \<lambda>w. (False, regSleep (2 * second) w)\<rparr>"

definition regOrc :: "regWorld orchestrator" where
  "regOrc = buildOrchestrator (regEnv (86400 * second)) regOb (buildRegistry regCluster regJson regPods regLib)
     (\<lambda>op n d. onSnd (onSnd (localAcquire op n d))) (\<lambda>op n. onSnd (onSnd (localRenew op n)))
     (\<lambda>op n. onSnd (onSnd (localRelease op n))) []"

lemma reg_time: "clientKeeps (memNow \<circ> fst) regCluster"
  by (auto simp: clientKeeps_def regCluster_def pairCluster_def pairClient_def onFst_def mem_ops
      memList_def Let_def split: prod.split option.split)

lemma regClock: "run_clock regOrc cliDemoExp (86400 * second)"
  unfolding regOrc_def
proof (rule build_clock, goal_cases)
  case 1
  show ?case by (simp add: pollClock_def regOb_def regSleep_def second_def)
next
  case 2
  show ?case by (auto simp: envClock_def regEnv_def regSleep_def)
next
  case (3 w op n)
  then show ?case by (simp add: regEnv_def)
next
  case (4 i w c ev w' v)
  have t: "injType (spInjection (exSpec cliDemoExp)) = DeploymentScaleZero"
    by (simp add: cliDemoExp_def cliDemoSpec_def scaleDemoSpec_def)
  then have "i = scaleZeroInjector regCluster" using 4(1) regDemo_get by simp
  with 4(2) have "c = scaleZeroRestore regCluster (param (spInjection (exSpec cliDemoExp)) ''name'') (resolveNamespace cliDemoExp)"
    using regChaos.scaleZero.cleanup_restore [of "spInjection (exSpec cliDemoExp)" "resolveNamespace cliDemoExp" w "Some c" ev w']
    by (simp add: scaleZeroInjector_def)
  then show ?case using scaleZeroRestore_keeps [OF reg_time] by (simp add: regEnv_def)
qed



end
