(* ===== verification/Clean.thy ===== *)
theory Clean
  imports InjectDrift InjectWebhook InjectMutation
begin

text \<open>
  The emergency stop (\<open>internal/cli/clean.go\<close>): eleven scans that delete what carries the chaos label or
  an expired TTL, and restore what carries a rollback annotation. Every error is a warning, the scan
  goes on, and only successes are counted. The theorems say that nothing without a chaos mark is
  touched, and what the stop loses.
\<close>

declare split_paired_Ex [simp del] split_paired_All [simp del]

section \<open>Summary\<close>

record cleanSummary =
  csNetworkPolicies :: int
  csLeases :: int
  csClusterRoles :: int
  csRoleBindings :: int
  csTTLExpired :: int
  csWebhooksRestored :: int
  csRBACBindingsFixed :: int
  csFinalizersRemoved :: int
  csConfigDriftsFixed :: int
  csCRDMutationsFixed :: int
  csResultConfigMaps :: int

definition cleanTotal :: "cleanSummary \<Rightarrow> int" where
  "cleanTotal s = csNetworkPolicies s + csLeases s + csClusterRoles s + csRoleBindings s + csTTLExpired s +
     csWebhooksRestored s + csRBACBindingsFixed s + csFinalizersRemoved s + csConfigDriftsFixed s +
     csCRDMutationsFixed s + csResultConfigMaps s"

definition noSummary :: cleanSummary where
  "noSummary = \<lparr>csNetworkPolicies = 0, csLeases = 0, csClusterRoles = 0, csRoleBindings = 0, csTTLExpired = 0,
     csWebhooksRestored = 0, csRBACBindingsFixed = 0, csFinalizersRemoved = 0, csConfigDriftsFixed = 0,
     csCRDMutationsFixed = 0, csResultConfigMaps = 0\<rparr>"

section \<open>Scans\<close>

text \<open>What the stop asks of libraries: the rollback data of a CRDMutation (a map of any values), the effect of
  a merge patch of one field of \<open>spec\<close> on a typed object, and \<open>time.Parse\<close>.\<close>

record cleanLib =
  cnAny :: "(string \<times> json) list rollbackLib"
  cnPatchSpec :: "string \<Rightarrow> json \<Rightarrow> objBody \<Rightarrow> objBody"
  cnParseTime :: "string \<Rightarrow> timestamp option"

text \<open>\<open>client.InNamespace\<close>: the empty namespace stands for all of them.\<close>

definition inNamespace :: "string \<Rightarrow> string option" where
  "inNamespace ns = (if ns = '''' then None else Some ns)"

definition chaosSelector :: "strmap \<Rightarrow> bool" where
  "chaosSelector labels = (labels ManagedByLabel = Some ManagedByValue)"

fun scanEach :: "(objKey \<Rightarrow> vobject \<Rightarrow> 'w \<Rightarrow> bool \<times> 'w) \<Rightarrow> (objKey \<times> vobject) list \<Rightarrow> int \<Rightarrow> 'w \<Rightarrow> int \<times> 'w" where
  "scanEach f [] n w = (n, w)"
| "scanEach f ((key, x) # items) n w =
     (case f key x w of (cleaned, w1) \<Rightarrow> scanEach f items (if cleaned then n + 1 else n) w1)"

definition scanResources ::
  "'w cluster \<Rightarrow> string option \<Rightarrow> (strmap \<Rightarrow> bool) \<Rightarrow> (objKey \<Rightarrow> vobject \<Rightarrow> 'w \<Rightarrow> bool \<times> 'w) \<Rightarrow> string \<Rightarrow> 'w \<Rightarrow> int \<times> 'w" where
  "scanResources k nso p f kind w =
     (case clList k kind nso p w of
        (Inl err, w1) \<Rightarrow> (0, w1)
      | (Inr items, w1) \<Rightarrow> scanEach f items 0 w1)"

fun scanKinds :: "(string \<Rightarrow> 'w \<Rightarrow> int \<times> 'w) \<Rightarrow> string list \<Rightarrow> int \<Rightarrow> 'w \<Rightarrow> int \<times> 'w" where
  "scanKinds f [] n w = (n, w)"
| "scanKinds f (kind # kinds) n w = (case f kind w of (i, w1) \<Rightarrow> scanKinds f kinds (n + i) w1)"

definition succeeds :: "goErr option \<times> 'w \<Rightarrow> bool \<times> 'w" where
  "succeeds r = (fst r = None, snd r)"

section \<open>Deletions\<close>

definition deleteMatchingResources :: "'w cluster \<Rightarrow> string option \<Rightarrow> string \<Rightarrow> 'w \<Rightarrow> int \<times> 'w" where
  "deleteMatchingResources k nso kind =
     scanResources k nso chaosSelector (\<lambda>key x w. succeeds (kDelete (cl k) key None w)) kind"

definition cleanTTLExpired :: "'w cluster \<Rightarrow> cleanLib \<Rightarrow> string \<Rightarrow> 'w \<Rightarrow> int \<times> 'w" where
  "cleanTTLExpired k lib namespace =
     scanResources k (inNamespace namespace) (\<lambda>labels. True)
       (\<lambda>key x w. case obAnnotations (snd x) TTLAnnotationKey of
          None \<Rightarrow> (False, w)
        | Some expiryStr \<Rightarrow>
            if IsExpired (cnParseTime lib) (clNow k w) expiryStr then succeeds (kDelete (cl k) key None w)
            else (False, w)) ''NetworkPolicy''"

section \<open>Restores\<close>

definition cleanWebhook :: "'w cluster \<Rightarrow> objKey \<Rightarrow> vobject \<Rightarrow> 'w \<Rightarrow> bool \<times> 'w" where
  "cleanWebhook k key wc w =
     (case obAnnotations (snd wc) RollbackAnnotationKey of
        None \<Rightarrow> (False, w)
      | Some rollbackJSON \<Rightarrow>
          (case UnwrapRollbackData (cdData (clCodecs k)) rollbackJSON of
             Inl err \<Rightarrow> (False, w)
           | Inr policies \<Rightarrow>
               succeeds (kUpdate (cl k) key
                 (RemoveChaosMetadata (injectionTypeName WebhookDisrupt) (restorePolicies policies wc)) w)))"

definition cleanWebhookConfigurations :: "'w cluster \<Rightarrow> 'w \<Rightarrow> int \<times> 'w" where
  "cleanWebhookConfigurations k =
     scanResources k None (\<lambda>labels. True) (cleanWebhook k) ''ValidatingWebhookConfiguration''"

definition cleanBinding :: "'w cluster \<Rightarrow> objKey \<Rightarrow> vobject \<Rightarrow> 'w \<Rightarrow> bool \<times> 'w" where
  "cleanBinding k key x w =
     (case obAnnotations (snd x) RollbackAnnotationKey of
        None \<Rightarrow> (False, w)
      | Some rollbackJSON \<Rightarrow>
          (case UnwrapRollbackData (cdSubjects (clCodecs k)) rollbackJSON of
             Inl err \<Rightarrow> (False, w)
           | Inr originalSubjects \<Rightarrow>
               succeeds (kUpdate (cl k) key
                 (RemoveChaosMetadata (injectionTypeName RBACRevoke) (setBody (BSubjects originalSubjects) x)) w)))"

definition cleanRBACBindings :: "'w cluster \<Rightarrow> string \<Rightarrow> 'w \<Rightarrow> int \<times> 'w" where
  "cleanRBACBindings k namespace w =
     (case scanResources k None (\<lambda>labels. True) (cleanBinding k) ''ClusterRoleBinding'' w of
        (n, w1) \<Rightarrow>
          (case scanResources k (inNamespace namespace) (\<lambda>labels. True) (cleanBinding k) ''RoleBinding'' w1 of
             (m, w2) \<Rightarrow> (n + m, w2)))"

definition cleanFinalizerFromResource :: "'w cluster \<Rightarrow> objKey \<Rightarrow> vobject \<Rightarrow> 'w \<Rightarrow> bool \<times> 'w" where
  "cleanFinalizerFromResource k key x w =
     (case obAnnotations (snd x) RollbackAnnotationKey of
        None \<Rightarrow> (False, w)
      | Some rollbackJSON \<Rightarrow>
          (case UnwrapRollbackData (cdRollback (clCodecs k)) rollbackJSON of
             Inl err \<Rightarrow> (False, w)
           | Inr rollbackData \<Rightarrow>
               (case map_of rollbackData ''finalizer'' of
                  None \<Rightarrow> (False, w)
                | Some finalizerName \<Rightarrow>
                    succeeds (kUpdate (cl k) key
                      (RemoveChaosMetadata (injectionTypeName FinalizerBlock)
                        (setFinalizers (filter (\<lambda>f. f \<noteq> finalizerName) (obFinalizers (snd x))) x)) w))))"

definition cleanOrphanedFinalizers :: "'w cluster \<Rightarrow> string \<Rightarrow> 'w \<Rightarrow> int \<times> 'w" where
  "cleanOrphanedFinalizers k namespace =
     scanKinds (scanResources k (inNamespace namespace) (\<lambda>labels. True) (cleanFinalizerFromResource k))
       [''Deployment'', ''ConfigMap'', ''Secret'', ''Service'', ''StatefulSet'', ''DaemonSet'', ''Job''] 0"

text \<open>The rollback data of a ConfigDrift, and the entry it restores.\<close>

definition driftData :: "'w cluster \<Rightarrow> string \<Rightarrow> vobject \<Rightarrow> rollbackInfo option" where
  "driftData k resourceType x =
     (case obAnnotations (snd x) RollbackAnnotationKey of
        None \<Rightarrow> None
      | Some rollbackJSON \<Rightarrow>
          (case UnwrapRollbackData (cdRollback (clCodecs k)) rollbackJSON of
             Inl err \<Rightarrow> None
           | Inr info \<Rightarrow> if mget (map_of info) ''resourceType'' = resourceType then Some info else None))"

definition driftRestored :: "rollbackInfo \<Rightarrow> string \<Rightarrow> vobject \<Rightarrow> vobject" where
  "driftRestored info v x =
     RemoveChaosMetadata (injectionTypeName ConfigDrift)
       (setBody (BData (if mget (map_of info) ''keyExists'' = ''false''
          then (dataOf x)(mget (map_of info) ''key'' := None)
          else (dataOf x)(mget (map_of info) ''key'' \<mapsto> v))) x)"

definition cleanConfigMap :: "'w cluster \<Rightarrow> objKey \<Rightarrow> vobject \<Rightarrow> 'w \<Rightarrow> bool \<times> 'w" where
  "cleanConfigMap k key cm w =
     (case driftData k ''ConfigMap'' cm of
        None \<Rightarrow> (False, w)
      | Some info \<Rightarrow>
          succeeds (kUpdate (cl k) key (driftRestored info (mget (map_of info) ''originalValue'') cm) w))"

text \<open>The rollback Secret is deleted last, if it is still there; a failure is only a warning.\<close>

definition dropRollbackSecret :: "'w cluster \<Rightarrow> objKey \<Rightarrow> 'w \<Rightarrow> 'w" where
  "dropRollbackSecret k rbKey w =
     (case kGet (cl k) rbKey w of
        (Inl err, w1) \<Rightarrow> w1
      | (Inr rb, w1) \<Rightarrow> snd (kDelete (cl k) rbKey None w1))"

definition cleanSecret :: "'w cluster \<Rightarrow> objKey \<Rightarrow> vobject \<Rightarrow> 'w \<Rightarrow> bool \<times> 'w" where
  "cleanSecret k key s w =
     (case driftData k ''Secret'' s of
        None \<Rightarrow> (False, w)
      | Some info \<Rightarrow>
          (case map_of info ''rollbackSecretRef'' of
             None \<Rightarrow> succeeds (kUpdate (cl k) key (driftRestored info (mget (map_of info) ''originalValue'') s) w)
           | Some ref \<Rightarrow>
               (let rbKey = (''Secret'', fst (snd key), ref)
                in if mget (map_of info) ''keyExists'' = ''false'' then
                     (case succeeds (kUpdate (cl k) key (driftRestored info '''' s) w) of
                        (restored, w1) \<Rightarrow> (restored, dropRollbackSecret k rbKey w1))
                   else
                     (case kGet (cl k) rbKey w of
                        (Inl err, w1) \<Rightarrow> (False, w1)
                      | (Inr rb, w1) \<Rightarrow>
                          (case kUpdate (cl k) key
                              (driftRestored info (mget (dataOf rb) (mget (map_of info) ''key'')) s) w1 of
                             (Some err, w2) \<Rightarrow> (False, w2)
                           | (None, w2) \<Rightarrow> (True, dropRollbackSecret k rbKey w2))))))"

definition cleanConfigDrift :: "'w cluster \<Rightarrow> string \<Rightarrow> 'w \<Rightarrow> int \<times> 'w" where
  "cleanConfigDrift k namespace w =
     (case scanResources k (inNamespace namespace) (\<lambda>labels. True) (cleanConfigMap k) ''ConfigMap'' w of
        (n, w1) \<Rightarrow>
          (case scanResources k (inNamespace namespace) (\<lambda>labels. True) (cleanSecret k) ''Secret'' w1 of
             (m, w2) \<Rightarrow> (n + m, w2)))"

text \<open>The merge patch of a CRDMutation: the chaos metadata away, and the field of \<open>spec\<close> if the data name one.\<close>

definition crdRestore :: "cleanLib \<Rightarrow> (string \<times> json) list \<Rightarrow> vobject \<Rightarrow> vobject" where
  "crdRestore lib info x =
     RemoveChaosMetadata (injectionTypeName CRDMutation)
       (case map_of info ''field'' of
          Some (JStr f) \<Rightarrow>
            if f \<noteq> '''' then setBody (cnPatchSpec lib f (fieldOf info ''originalValue'') (obBody (snd x))) x else x
        | _ \<Rightarrow> x)"

definition cleanCRDMutationFromResource :: "'w cluster \<Rightarrow> cleanLib \<Rightarrow> objKey \<Rightarrow> vobject \<Rightarrow> 'w \<Rightarrow> bool \<times> 'w" where
  "cleanCRDMutationFromResource k lib key x w =
     (case obAnnotations (snd x) RollbackAnnotationKey of
        None \<Rightarrow> (False, w)
      | Some rollbackJSON \<Rightarrow>
          (case UnwrapRollbackData (cnAny lib) rollbackJSON of
             Inl err \<Rightarrow> (False, w)
           | Inr info \<Rightarrow>
               if map_of info ''apiVersion'' = None \<or> map_of info ''kind'' = None then (False, w)
               else succeeds (kPatch (cl k) key (crdRestore lib info) w)))"

definition cleanCRDMutations :: "'w cluster \<Rightarrow> cleanLib \<Rightarrow> string \<Rightarrow> 'w \<Rightarrow> int \<times> 'w" where
  "cleanCRDMutations k lib namespace =
     scanKinds (scanResources k (inNamespace namespace) (\<lambda>labels. True) (cleanCRDMutationFromResource k lib))
       [''Deployment'', ''ConfigMap'', ''Secret'', ''Service'', ''StatefulSet''] 0"

section \<open>The stop\<close>

definition runClean :: "'w cluster option \<Rightarrow> cleanLib \<Rightarrow> string \<Rightarrow> 'w \<Rightarrow> cleanSummary \<times> 'w" where
  "runClean k8sClient lib namespace w0 =
     (case k8sClient of
        None \<Rightarrow> (noSummary, w0)
      | Some k \<Rightarrow>
          (let nso = inNamespace namespace;
               (policies, w1) = deleteMatchingResources k nso ''NetworkPolicy'' w0;
               (leases, w2) = deleteMatchingResources k nso ''Lease'' w1;
               (roles, w3) = deleteMatchingResources k None ''ClusterRole'' w2;
               (bindings, w4) = deleteMatchingResources k nso ''RoleBinding'' w3;
               (expired, w5) = cleanTTLExpired k lib namespace w4;
               (webhooks, w6) = cleanWebhookConfigurations k w5;
               (fixed, w7) = cleanRBACBindings k namespace w6;
               (finalizers, w8) = cleanOrphanedFinalizers k namespace w7;
               (drifts, w9) = cleanConfigDrift k namespace w8;
               (mutations, w10) = cleanCRDMutations k lib namespace w9;
               (results, w11) = deleteMatchingResources k nso ''ConfigMap'' w10
           in (\<lparr>csNetworkPolicies = policies, csLeases = leases, csClusterRoles = roles, csRoleBindings = bindings,
                csTTLExpired = expired, csWebhooksRestored = webhooks, csRBACBindingsFixed = fixed,
                csFinalizersRemoved = finalizers, csConfigDriftsFixed = drifts, csCRDMutationsFixed = mutations,
                csResultConfigMaps = results\<rparr>, w11)))"

section \<open>What a stop touches\<close>

text \<open>
  An object has a chaos mark when it carries the chaos label, a rollback annotation or a TTL, or when it is
  the rollback Secret that the annotation of a Secret of its namespace refers to. \<open>cleaned\<close> relates the
  cluster before and after: an object is as it was, or it was marked and is deleted or has lost its
  rollback annotation. Nothing is created.
\<close>

definition marked :: "kobject \<Rightarrow> bool" where
  "marked d = (obAnnotations d RollbackAnnotationKey \<noteq> None \<or> obAnnotations d TTLAnnotationKey \<noteq> None \<or>
     chaosSelector (obLabels d))"

definition refersTo :: "'w cluster \<Rightarrow> (objKey \<rightharpoonup> vobject) \<Rightarrow> objKey \<Rightarrow> bool" where
  "refersTo k m key = (\<exists>name x s info. m (''Secret'', fst (snd key), name) = Some x \<and> fst key = ''Secret'' \<and>
     obAnnotations (snd x) RollbackAnnotationKey = Some s \<and>
     UnwrapRollbackData (cdRollback (clCodecs k)) s = Inr info \<and>
     map_of info ''rollbackSecretRef'' = Some (snd (snd key)))"

definition touchable :: "'w cluster \<Rightarrow> (objKey \<rightharpoonup> vobject) \<Rightarrow> objKey \<Rightarrow> bool" where
  "touchable k m key = (\<exists>x. m key = Some x \<and> (marked (snd x) \<or> refersTo k m key))"

definition cleaned :: "'w cluster \<Rightarrow> (objKey \<rightharpoonup> vobject) \<Rightarrow> (objKey \<rightharpoonup> vobject) \<Rightarrow> bool" where
  "cleaned k m m' = (\<forall>key. m' key = m key \<or>
     touchable k m key \<and> (\<forall>y. m' key = Some y \<longrightarrow> obAnnotations (snd y) RollbackAnnotationKey = None))"

lemma cleaned_refl [simp]: "cleaned k m m"
  by (simp add: cleaned_def)

lemma cleaned_refersTo: "cleaned k m m' \<Longrightarrow> refersTo k m' key \<Longrightarrow> refersTo k m key"
  unfolding refersTo_def cleaned_def by (metis option.distinct(1))

lemma cleaned_trans:
  assumes "cleaned k m m'" and "cleaned k m' m''"
  shows "cleaned k m m''"
  unfolding cleaned_def
proof
  fix key
  have touch: "touchable k m key" if "touchable k m' key" "m' key = m key"
    using that cleaned_refersTo [OF assms(1), of key] unfolding touchable_def by metis
  show "m'' key = m key \<or> touchable k m key \<and> (\<forall>y. m'' key = Some y \<longrightarrow> obAnnotations (snd y) RollbackAnnotationKey = None)"
    using assms touch unfolding cleaned_def by metis
qed

lemma cleaned_delete:
  "cleaned k m m' \<Longrightarrow> touchable k m key \<Longrightarrow> cleaned k m (m'(key := None))"
  by (simp add: cleaned_def)

lemma cleaned_write:
  "cleaned k m m' \<Longrightarrow> touchable k m key \<Longrightarrow> obAnnotations (snd y) RollbackAnnotationKey = None \<Longrightarrow>
   cleaned k m (m'(key \<mapsto> y))"
  by (simp add: cleaned_def)

lemma cleaned_present: "cleaned k m m' \<Longrightarrow> m' key = Some y \<Longrightarrow> \<exists>x. m key = Some x"
  unfolding cleaned_def touchable_def by metis

text \<open>What a scan has to show of its callback, for every object that the list call selected.\<close>

definition cleansItem ::
  "'w cluster \<Rightarrow> ('w \<Rightarrow> objKey \<rightharpoonup> vobject) \<Rightarrow> (strmap \<Rightarrow> bool) \<Rightarrow> string \<Rightarrow> (objKey \<Rightarrow> vobject \<Rightarrow> 'w \<Rightarrow> bool \<times> 'w) \<Rightarrow> bool" where
  "cleansItem k st p kind f =
     (\<forall>m key x w r w'. m key = Some x \<longrightarrow> fst key = kind \<longrightarrow> p (obLabels (snd x)) \<longrightarrow> cleaned k m (st w) \<longrightarrow>
        f key x w = (r, w') \<longrightarrow> cleaned k m (st w'))"

context cluster_api
begin

lemma clean_delete:
  assumes "kDelete (cl k) key None w = (r, w')" and "cleaned k m (st w)" and "touchable k m key"
  shows "cleaned k m (st w')"
  using delete_ok [of key None w w'] delete_err [of key None w _ w'] assms cleaned_delete [OF assms(2,3)]
  by (cases r) auto

lemma clean_update:
  assumes "kUpdate (cl k) key y w = (r, w')" and "cleaned k m (st w)" and "touchable k m key"
    and "obAnnotations (snd y) RollbackAnnotationKey = None"
  shows "cleaned k m (st w')"
proof (cases r)
  case None
  then obtain z where "snd z = snd y" "st w' = (st w)(key \<mapsto> z)" using update_ok assms(1) by blast
  then show ?thesis using cleaned_write [OF assms(2,3)] assms(4) by simp
next
  case (Some e)
  then show ?thesis using update_err assms(1,2) by simp
qed

lemma clean_patch:
  assumes "kPatch (cl k) key p w = (r, w')" and "cleaned k m (st w)" and "touchable k m key"
    and "\<And>y. obAnnotations (snd (p y)) RollbackAnnotationKey = None"
  shows "cleaned k m (st w')"
proof (cases r)
  case None
  then obtain y z where "snd z = snd (p y)" "st w' = (st w)(key \<mapsto> z)" using patch_ok assms(1) by blast
  then show ?thesis using cleaned_write [OF assms(2,3)] assms(4) by simp
next
  case (Some e)
  then show ?thesis using patch_err assms(1,2) by simp
qed

lemma scanEach_cleaned:
  assumes "cleansItem k st p kind f" and "scanEach f items n w = (i, w')" and "cleaned k m (st w)"
    and "\<And>key x. (key, x) \<in> set items \<Longrightarrow> m key = Some x \<and> fst key = kind \<and> p (obLabels (snd x))"
  shows "cleaned k m (st w')"
  using assms(2-4)
proof (induction items arbitrary: n w)
  case (Cons item items)
  obtain key x where item: "item = (key, x)" by (rule prod.exhaust)
  obtain b w1 where f: "f key x w = (b, w1)" by (rule prod.exhaust)
  have "m key = Some x \<and> fst key = kind \<and> p (obLabels (snd x))" by (rule Cons.prems(3)) (simp add: item)
  then have "cleaned k m (st w1)" using assms(1) Cons.prems(2) f unfolding cleansItem_def by blast
  moreover have "scanEach f items (if b then n + 1 else n) w1 = (i, w')" using Cons.prems(1) item f by simp
  ultimately show ?case using Cons.IH Cons.prems(3) by (meson list.set_intros(2))
qed simp

lemma scanResources_cleaned:
  assumes "cleansItem k st p kind f" and "scanResources k nso p f kind w = (i, w')"
  shows "cleaned k (st w) (st w')"
proof -
  obtain r w1 where l: "clList k kind nso p w = (r, w1)" by (rule prod.exhaust)
  show ?thesis
  proof (cases r)
    case (Inl e)
    then show ?thesis using assms(2) l list_err [of kind nso p w e w1] by (simp add: scanResources_def)
  next
    case (Inr items)
    have items: "st w1 = st w" "\<And>key x. (key, x) \<in> set items \<Longrightarrow> listed (st w) kind nso p key x"
      using list_ok [OF l [unfolded Inr]] by auto
    show ?thesis
      by (rule scanEach_cleaned [OF assms(1), of items 0 w1 i])
         (use assms(2) l Inr items in \<open>auto simp: scanResources_def listed_def\<close>)
  qed
qed

lemma scanKinds_cleaned:
  assumes "\<And>kind w i w'. kind \<in> set kinds \<Longrightarrow> f kind w = (i, w') \<Longrightarrow> cleaned k (st w) (st w')"
    and "scanKinds f kinds n w = (j, w')"
  shows "cleaned k (st w) (st w')"
  using assms
proof (induction kinds arbitrary: n w)
  case (Cons kind kinds)
  obtain i w1 where f: "f kind w = (i, w1)" by (rule prod.exhaust)
  have "cleaned k (st w) (st w1)" by (rule Cons.prems(1) [OF _ f]) simp
  moreover have "cleaned k (st w1) (st w')"
  proof (rule Cons.IH)
    show "cleaned k (st v) (st v')" if "kind' \<in> set kinds" "f kind' v = (i', v')" for kind' v i' v'
      using that by (intro Cons.prems(1) [of kind' v i' v']) simp_all
    show "scanKinds f kinds (n + i) w1 = (j, w')" using Cons.prems(2) f by simp
  qed
  ultimately show ?case by (rule cleaned_trans)
qed simp

end


lemma RemoveChaosMetadata_gone [simp]: "obAnnotations (snd (RemoveChaosMetadata t x)) RollbackAnnotationKey = None"
  by (simp add: RemoveChaosMetadata_def)

lemma touchable_marked:
  "m key = Some (v, d) \<Longrightarrow> obAnnotations d RollbackAnnotationKey = Some s \<Longrightarrow> touchable k m key"
  by (auto simp: touchable_def marked_def)

context cluster_api
begin

lemma deletes_item: "cleansItem k st chaosSelector kind (\<lambda>key x w. succeeds (kDelete (cl k) key None w))"
  unfolding cleansItem_def succeeds_def
  by (auto intro: clean_delete [OF prod.collapse [symmetric]] simp: touchable_def marked_def)

lemma ttl_item:
  "cleansItem k st (\<lambda>l. True) kind
     (\<lambda>key x w. case obAnnotations (snd x) TTLAnnotationKey of
          None \<Rightarrow> (False, w)
        | Some expiryStr \<Rightarrow>
            if IsExpired (cnParseTime lib) (clNow k w) expiryStr then succeeds (kDelete (cl k) key None w)
            else (False, w))"
  unfolding cleansItem_def succeeds_def
  by (auto intro: clean_delete [OF prod.collapse [symmetric]] simp: touchable_def marked_def
      split: option.splits if_splits)

lemma update_item:
  assumes "succeeds (kUpdate (cl k) key y w) = (r, w')" and "m key = Some (v, d)"
    and "obAnnotations d RollbackAnnotationKey = Some s" and "cleaned k m (st w)"
    and "obAnnotations (snd y) RollbackAnnotationKey = None"
  shows "cleaned k m (st w')"
proof -
  have "touchable k m key" using assms(2,3) by (rule touchable_marked)
  from clean_update [OF prod.collapse [symmetric] assms(4) this assms(5)] assms(1) show ?thesis
    by (auto simp: succeeds_def)
qed

lemma webhook_item: "cleansItem k st (\<lambda>l. True) kind (cleanWebhook k)"
  unfolding cleansItem_def cleanWebhook_def
  by (auto split: option.splits sum.splits elim!: update_item)

lemma binding_item: "cleansItem k st (\<lambda>l. True) kind (cleanBinding k)"
  unfolding cleansItem_def cleanBinding_def by (auto split: option.splits sum.splits elim!: update_item)

lemma finalizer_item: "cleansItem k st (\<lambda>l. True) kind (cleanFinalizerFromResource k)"
  unfolding cleansItem_def cleanFinalizerFromResource_def
  by (auto split: option.splits sum.splits elim!: update_item)

lemma crd_item: "cleansItem k st (\<lambda>l. True) kind (cleanCRDMutationFromResource k lib)"
  unfolding cleansItem_def cleanCRDMutationFromResource_def succeeds_def
  by (auto split: option.splits sum.splits if_splits intro!: clean_patch [OF prod.collapse [symmetric]]
      intro: touchable_marked simp: crdRestore_def)

lemma configMap_item: "cleansItem k st (\<lambda>l. True) kind (cleanConfigMap k)"
  unfolding cleansItem_def cleanConfigMap_def driftData_def
  by (auto split: option.splits sum.splits if_splits elim!: update_item simp: driftRestored_def)

end


context cluster_api
begin

lemma drop_cleaned:
  assumes "cleaned k m (st w)" and "refersTo k m rbKey"
  shows "cleaned k m (st (dropRollbackSecret k rbKey w))"
proof -
  obtain g w1 where g: "kGet (cl k) rbKey w = (g, w1)" by (rule prod.exhaust)
  show ?thesis
  proof (cases g)
    case (Inl e)
    then show ?thesis using g get_err [of rbKey w e w1] assms(1) by (simp add: dropRollbackSecret_def)
  next
    case (Inr rb)
    have g': "st w rbKey = Some rb" "st w1 = st w" using get_ok [OF g [unfolded Inr]] by simp_all
    have "touchable k m rbKey" using cleaned_present [OF assms(1) g'(1)] assms(2) by (auto simp: touchable_def)
    then have "cleaned k m (st (snd (kDelete (cl k) rbKey None w1)))"
      using clean_delete [OF prod.collapse [symmetric]] assms(1) g'(2) by simp
    then show ?thesis using g Inr by (simp add: dropRollbackSecret_def)
  qed
qed

lemma secret_item: "cleansItem k st (\<lambda>l. True) ''Secret'' (cleanSecret k)"
  unfolding cleansItem_def
proof (intro allI impI)
  fix m key x w r w'
  assume x: "m key = Some x" "fst key = ''Secret''" and m: "cleaned k m (st w)" and r: "cleanSecret k key x w = (r, w')"
  show "cleaned k m (st w')"
  proof (cases "driftData k ''Secret'' x")
    case None
    then show ?thesis using r m by (simp add: cleanSecret_def)
  next
    case (Some info)
    then obtain s where s: "obAnnotations (snd x) RollbackAnnotationKey = Some s"
      "UnwrapRollbackData (cdRollback (clCodecs k)) s = Inr info"
      by (auto simp: driftData_def split: option.splits sum.splits if_splits)
    have touch: "touchable k m key" using x(1) s(1) by (cases x) (auto intro: touchable_marked)
    have upd: "cleaned k m (st v')" if "kUpdate (cl k) key (driftRestored info u x) v = (q, v')" "cleaned k m (st v)" for u v q v'
      by (rule clean_update [OF that touch]) (simp add: driftRestored_def)
    show ?thesis
    proof (cases "map_of info ''rollbackSecretRef''")
      case None
      obtain q w1 where u: "kUpdate (cl k) key (driftRestored info (mget (map_of info) ''originalValue'') x) w = (q, w1)"
        by (rule prod.exhaust)
      then have "w' = w1" using r None Some by (simp add: cleanSecret_def succeeds_def)
      then show ?thesis using upd [OF u m] by simp
    next
      case (Some ref)
      let ?rb = "(''Secret'', fst (snd key), ref)"
      have ref: "refersTo k m ?rb"
        unfolding refersTo_def using x s Some
        by (intro exI [of _ "snd (snd key)"] exI [of _ x] exI [of _ s] exI [of _ info]) (cases key, simp)
      show ?thesis
      proof (cases "mget (map_of info) ''keyExists'' = ''false''")
        case True
        obtain q w1 where u: "kUpdate (cl k) key (driftRestored info '''' x) w = (q, w1)" by (rule prod.exhaust)
        then have "w' = dropRollbackSecret k ?rb w1"
          using r \<open>driftData k ''Secret'' x = Some info\<close> Some True by (simp add: cleanSecret_def succeeds_def Let_def)
        then show ?thesis using drop_cleaned [OF upd [OF u m] ref] by simp
      next
        case False
        obtain g w1 where g: "kGet (cl k) ?rb w = (g, w1)" by (rule prod.exhaust)
        have m1: "cleaned k m (st w1)" using g get_err [of ?rb w _ w1] get_ok [of ?rb w _ w1] m by (cases g) auto
        note d = r [unfolded cleanSecret_def \<open>driftData k ''Secret'' x = Some info\<close> option.case Some Let_def
            if_not_P [OF False] g prod.case]
        show ?thesis
        proof (cases g)
          case (Inl e)
          then show ?thesis using d m1 by simp
        next
          case (Inr rb)
          obtain q w2 where u: "kUpdate (cl k) key (driftRestored info (mget (dataOf rb) (mget (map_of info) ''key'')) x) w1 = (q, w2)"
            by (rule prod.exhaust)
          have "w' = w2 \<or> w' = dropRollbackSecret k ?rb w2" using d Inr u by (auto split: option.splits)
          then show ?thesis using upd [OF u m1] drop_cleaned [OF upd [OF u m1] ref] by blast
        qed
      qed
    qed
  qed
qed

lemma clean_steps:
  "deleteMatchingResources k nso kind v = (i, v') \<Longrightarrow> cleaned k (st v) (st v')"
  "cleanTTLExpired k lib namespace v = (i, v') \<Longrightarrow> cleaned k (st v) (st v')"
  "cleanWebhookConfigurations k v = (i, v') \<Longrightarrow> cleaned k (st v) (st v')"
  "cleanRBACBindings k namespace v = (i, v') \<Longrightarrow> cleaned k (st v) (st v')"
  "cleanOrphanedFinalizers k namespace v = (i, v') \<Longrightarrow> cleaned k (st v) (st v')"
  "cleanConfigDrift k namespace v = (i, v') \<Longrightarrow> cleaned k (st v) (st v')"
  "cleanCRDMutations k lib namespace v = (i, v') \<Longrightarrow> cleaned k (st v) (st v')"
proof -
  note scan = scanResources_cleaned
  show "deleteMatchingResources k nso kind v = (i, v') \<Longrightarrow> cleaned k (st v) (st v')"
    unfolding deleteMatchingResources_def by (rule scan [OF deletes_item])
  show "cleanTTLExpired k lib namespace v = (i, v') \<Longrightarrow> cleaned k (st v) (st v')"
    unfolding cleanTTLExpired_def by (rule scan [OF ttl_item])
  show "cleanWebhookConfigurations k v = (i, v') \<Longrightarrow> cleaned k (st v) (st v')"
    unfolding cleanWebhookConfigurations_def by (rule scan [OF webhook_item])
  show "cleanRBACBindings k namespace v = (i, v') \<Longrightarrow> cleaned k (st v) (st v')"
    unfolding cleanRBACBindings_def
    by (auto split: prod.splits dest!: scan [OF binding_item] intro: cleaned_trans)
  show "cleanOrphanedFinalizers k namespace v = (i, v') \<Longrightarrow> cleaned k (st v) (st v')"
    unfolding cleanOrphanedFinalizers_def by (rule scanKinds_cleaned [OF scan [OF finalizer_item]])
  show "cleanConfigDrift k namespace v = (i, v') \<Longrightarrow> cleaned k (st v) (st v')"
    unfolding cleanConfigDrift_def
    by (auto split: prod.splits dest!: scan [OF configMap_item] scan [OF secret_item] intro: cleaned_trans)
  show "cleanCRDMutations k lib namespace v = (i, v') \<Longrightarrow> cleaned k (st v) (st v')"
    unfolding cleanCRDMutations_def by (rule scanKinds_cleaned [OF scan [OF crd_item]])
qed

lemma runClean_cleaned: "cleaned k (st w) (st (snd (runClean (Some k) lib namespace w)))"
  unfolding runClean_def option.case Let_def
  by (auto split: prod.splits dest!: clean_steps)
     ((rule cleaned_trans, assumption)+, rule cleaned_refl)

end

section \<open>One object in a scan\<close>

text \<open>A callback writes its own object, and Secrets besides; so a scan meets an object as it was before.\<close>

definition touchesOwn :: "('w \<Rightarrow> objKey \<rightharpoonup> vobject) \<Rightarrow> (objKey \<Rightarrow> vobject \<Rightarrow> 'w \<Rightarrow> bool \<times> 'w) \<Rightarrow> bool" where
  "touchesOwn st f = (\<forall>key x w key'. key' \<noteq> key \<longrightarrow> fst key' \<noteq> ''Secret'' \<longrightarrow> st (snd (f key x w)) key' = st w key')"

lemma scanEach_at:
  assumes "touchesOwn st f" and "distinct (map fst items)" and "fst key \<noteq> ''Secret''" and "scanEach f items n w = (i, w')"
  shows "(key \<notin> fst ` set items \<longrightarrow> st w' key = st w key) \<and>
    (\<forall>x. (key, x) \<in> set items \<longrightarrow> (\<exists>v. st v key = st w key \<and> st w' key = st (snd (f key x v)) key))"
  using assms(2,4)
proof (induction items arbitrary: n w)
  case (Cons item items)
  obtain key0 x0 where item: "item = (key0, x0)" by (rule prod.exhaust)
  obtain b w1 where f: "f key0 x0 w = (b, w1)" by (rule prod.exhaust)
  have rest: "scanEach f items (if b then n + 1 else n) w1 = (i, w')" and d: "distinct (map fst items)" "key0 \<notin> fst ` set items"
    using Cons.prems item f by auto
  note IH = Cons.IH [OF d(1) rest]
  show ?case
  proof (cases "key = key0")
    case True
    then have "st w' key = st w1 key" using IH d(2) by blast
    then show ?thesis using True d(2) f item by (auto intro!: exI [of _ w] simp: image_iff)
  next
    case False
    then have "st w1 key = st w key" using assms(1,3) f unfolding touchesOwn_def by (metis snd_conv)
    then show ?thesis using IH False item by simp
  qed
qed simp

context cluster_api
begin

lemma scanResources_at:
  assumes "touchesOwn st f" and "fst key \<noteq> ''Secret''" and "scanResources k nso p f kind w = (i, w')"
  shows "fst key \<noteq> kind \<Longrightarrow> st w' key = st w key"
    and "listed (st w) kind nso p key x \<Longrightarrow> \<not> isl (fst (clList k kind nso p w)) \<Longrightarrow>
      \<exists>v. st v key = st w key \<and> st w' key = st (snd (f key x v)) key"
proof -
  obtain r w1 where l: "clList k kind nso p w = (r, w1)" by (rule prod.exhaust)
  have items: "st w1 = st w \<and> distinct (map fst items) \<and> (\<forall>key x. (key, x) \<in> set items \<longleftrightarrow> listed (st w) kind nso p key x) \<and>
      scanEach f items 0 w1 = (i, w')" if "r = Inr items" for items
    using list_ok [OF l [unfolded that]] assms(3) l that by (simp add: scanResources_def)
  show "st w' key = st w key" if "fst key \<noteq> kind"
  proof (cases r)
    case (Inl e)
    then show ?thesis using assms(3) l list_err [of kind nso p w e w1] by (simp add: scanResources_def)
  next
    case (Inr items)
    have "key \<notin> fst ` set items" using items [OF Inr] that by (auto simp: listed_def)
    then show ?thesis using scanEach_at [OF assms(1) _ assms(2), of items 0 w1 i w'] items [OF Inr] by simp
  qed
  show "\<exists>v. st v key = st w key \<and> st w' key = st (snd (f key x v)) key"
    if at: "listed (st w) kind nso p key x" "\<not> isl (fst (clList k kind nso p w))"
  proof -
    obtain its where r: "r = Inr its" using at(2) l by (cases r) auto
    then show ?thesis
      using scanEach_at [OF assms(1) _ assms(2), of its 0 w1 i w'] items [OF r] at(1) by simp
  qed
qed

lemma other_ops:
  "key' \<noteq> key \<Longrightarrow> st (snd (kUpdate (cl k) key y w)) key' = st w key'"
  "key' \<noteq> key \<Longrightarrow> st (snd (kDelete (cl k) key None w)) key' = st w key'"
  "key' \<noteq> key \<Longrightarrow> st (snd (kPatch (cl k) key p w)) key' = st w key'"
proof -
  show "key' \<noteq> key \<Longrightarrow> st (snd (kUpdate (cl k) key y w)) key' = st w key'" by (rule update_keeps_other)
  obtain r v where d: "kDelete (cl k) key None w = (r, v)" by (rule prod.exhaust)
  show "key' \<noteq> key \<Longrightarrow> st (snd (kDelete (cl k) key None w)) key' = st w key'"
    using d delete_ok [of key None w v] delete_err [of key None w _ v] by (cases r) auto
  obtain q u where q: "kPatch (cl k) key p w = (q, u)" by (rule prod.exhaust)
  show "key' \<noteq> key \<Longrightarrow> st (snd (kPatch (cl k) key p w)) key' = st w key'"
    using q patch_ok [of key p w u] patch_err [of key p w _ u] by (cases q) auto
qed

lemma drop_other: "fst key' \<noteq> ''Secret'' \<Longrightarrow> st (dropRollbackSecret k (''Secret'', n, m) w) key' = st w key'"
proof -
  assume "fst key' \<noteq> ''Secret''"
  then have "key' \<noteq> (''Secret'', n, m)" by auto
  moreover obtain g v where g: "kGet (cl k) (''Secret'', n, m) w = (g, v)" by (rule prod.exhaust)
  moreover have "st v = st w" using g get_ok get_err by (cases g) blast+
  ultimately show ?thesis by (cases g) (simp_all add: dropRollbackSecret_def other_ops)
qed

lemma own_items:
  "touchesOwn st (\<lambda>key x w. succeeds (kDelete (cl k) key None w))"
  "touchesOwn st (cleanWebhook k)" "touchesOwn st (cleanBinding k)" "touchesOwn st (cleanFinalizerFromResource k)"
  "touchesOwn st (cleanConfigMap k)" "touchesOwn st (cleanCRDMutationFromResource k lib)"
  unfolding touchesOwn_def succeeds_def cleanWebhook_def cleanBinding_def cleanFinalizerFromResource_def cleanConfigMap_def
    cleanCRDMutationFromResource_def
  by (auto simp: other_ops split: option.split sum.split)

lemma own_ttl:
  "touchesOwn st (\<lambda>key x w. case obAnnotations (snd x) TTLAnnotationKey of
      None \<Rightarrow> (False, w)
    | Some expiryStr \<Rightarrow>
        if IsExpired (cnParseTime lib) (clNow k w) expiryStr then succeeds (kDelete (cl k) key None w) else (False, w))"
  unfolding touchesOwn_def succeeds_def by (auto simp: other_ops split: option.split)

lemma own_secret: "touchesOwn st (cleanSecret k)"
  unfolding touchesOwn_def
proof (intro allI impI)
  fix key x w and key' :: objKey assume other: "key' \<noteq> key" "fst key' \<noteq> ''Secret''"
  have g: "st v = st u" if "kGet (cl k) rk u = (r, v)" for rk u r v using that get_ok get_err by (cases r) blast+
  have u: "st v key' = st u key'" if "kUpdate (cl k) key y u = (r, v)" for y u r v
    using other_ops(1) [OF other(1), of y u] that by simp
  show "st (snd (cleanSecret k key x w)) key' = st w key'"
    unfolding cleanSecret_def succeeds_def Let_def
    using other_ops(1) [OF other(1)] drop_other [OF other(2)]
    by (auto split: option.split sum.split prod.split dest!: g u)
qed

lemma scanKinds_other:
  assumes "touchesOwn st f" and "fst key \<noteq> ''Secret''" and "fst key \<notin> set kinds"
    and "scanKinds (scanResources k nso p f) kinds n w = (i, w')"
  shows "st w' key = st w key"
  using assms(3,4)
proof (induction kinds arbitrary: n w)
  case (Cons kind kinds)
  obtain a w1 where a: "scanResources k nso p f kind w = (a, w1)" by (rule prod.exhaust)
  then have "st w1 key = st w key" using scanResources_at(1) [OF assms(1,2) a] Cons.prems(1) by simp
  moreover have "st w' key = st w1 key" using Cons.IH [of "n + a" w1] Cons.prems a by simp
  ultimately show ?case by simp
qed simp

text \<open>The scans of the stop, and what each leaves alone.\<close>

lemma runClean_split:
  assumes "runClean (Some k) lib namespace w = (summary, w')"
  obtains w3 n w4 w6 m w7 where
    "\<forall>key. fst key \<notin> {''NetworkPolicy'', ''Lease'', ''ClusterRole'', ''Secret''} \<longrightarrow> st w3 key = st w key"
    "deleteMatchingResources k (inNamespace namespace) ''RoleBinding'' w3 = (n, w4)"
    "cleaned k (st w4) (st w')"
    "\<forall>key. fst key \<notin> {''NetworkPolicy'', ''Secret'', ''ValidatingWebhookConfiguration''} \<longrightarrow> st w6 key = st w4 key"
    "scanResources k None (\<lambda>l. True) (cleanBinding k) ''ClusterRoleBinding'' w6 = (m, w7)"
    "\<forall>key. fst key = ''ClusterRoleBinding'' \<longrightarrow> st w' key = st w7 key"
    "dom (st w3) \<subseteq> dom (st w)" "dom (st w6) \<subseteq> dom (st w)"
proof -
  have del: "deleteMatchingResources k nso kind v = (i, v') \<Longrightarrow> fst key \<noteq> ''Secret'' \<Longrightarrow> fst key \<noteq> kind \<Longrightarrow> st v' key = st v key"
    for nso kind v i v' key
    unfolding deleteMatchingResources_def by (rule scanResources_at(1) [OF own_items(1)])
  note own = scanResources_at(1)
  have ttl: "cleanTTLExpired k lib namespace v = (i, v') \<Longrightarrow> fst key \<notin> {''Secret'', ''NetworkPolicy''} \<Longrightarrow> st v' key = st v key"
    for v i v' key unfolding cleanTTLExpired_def by (rule own [OF own_ttl]) auto
  have web: "cleanWebhookConfigurations k v = (i, v') \<Longrightarrow> fst key \<notin> {''Secret'', ''ValidatingWebhookConfiguration''} \<Longrightarrow>
      st v' key = st v key" for v i v' key unfolding cleanWebhookConfigurations_def by (rule own [OF own_items(2)]) auto
  have fin: "cleanOrphanedFinalizers k namespace v = (i, v') \<Longrightarrow> fst key = ''ClusterRoleBinding'' \<Longrightarrow> st v' key = st v key"
    for v i v' key unfolding cleanOrphanedFinalizers_def by (erule scanKinds_other [OF own_items(4), rotated 2]) simp_all
  have crd: "cleanCRDMutations k lib namespace v = (i, v') \<Longrightarrow> fst key = ''ClusterRoleBinding'' \<Longrightarrow> st v' key = st v key"
    for v i v' key unfolding cleanCRDMutations_def by (erule scanKinds_other [OF own_items(6), rotated 2]) simp_all
  have drift: "cleanConfigDrift k namespace v = (i, v') \<Longrightarrow> fst key = ''ClusterRoleBinding'' \<Longrightarrow> st v' key = st v key"
    for v i v' key unfolding cleanConfigDrift_def
    by (auto split: prod.splits dest!: own [OF own_items(5), of key, rotated] own [OF own_secret, of key, rotated])
  obtain n1 w1 n2 w2 n3 w3 n4 w4 where s1: "deleteMatchingResources k (inNamespace namespace) ''NetworkPolicy'' w = (n1, w1)"
    "deleteMatchingResources k (inNamespace namespace) ''Lease'' w1 = (n2, w2)"
    "deleteMatchingResources k None ''ClusterRole'' w2 = (n3, w3)"
    and s4: "deleteMatchingResources k (inNamespace namespace) ''RoleBinding'' w3 = (n4, w4)" by (metis surj_pair)
  obtain n5 w5 n6 w6 n7 w7 n8 w8 where s5: "cleanTTLExpired k lib namespace w4 = (n5, w5)"
    "cleanWebhookConfigurations k w5 = (n6, w6)"
    and s7: "scanResources k None (\<lambda>l. True) (cleanBinding k) ''ClusterRoleBinding'' w6 = (n7, w7)"
    and s8: "scanResources k (inNamespace namespace) (\<lambda>l. True) (cleanBinding k) ''RoleBinding'' w7 = (n8, w8)"
    by (metis surj_pair)
  obtain n9 w9 n10 w10 n11 w11 n12 w12 where s9: "cleanOrphanedFinalizers k namespace w8 = (n9, w9)"
    "cleanConfigDrift k namespace w9 = (n10, w10)" "cleanCRDMutations k lib namespace w10 = (n11, w11)"
    "deleteMatchingResources k (inNamespace namespace) ''ConfigMap'' w11 = (n12, w12)" by (metis surj_pair)
  have s6: "cleanRBACBindings k namespace w6 = (n7 + n8, w8)" using s7 s8 by (simp add: cleanRBACBindings_def)
  have w': "w' = w12" using assms s1 s4 s5 s6 s9 by (simp add: runClean_def Let_def)
  show thesis
  proof (rule that [OF _ s4 _ _ s7])
    show "\<forall>key. fst key \<notin> {''NetworkPolicy'', ''Lease'', ''ClusterRole'', ''Secret''} \<longrightarrow> st w3 key = st w key"
      using del [OF s1(1)] del [OF s1(2)] del [OF s1(3)] by simp
    show "\<forall>key. fst key \<notin> {''NetworkPolicy'', ''Secret'', ''ValidatingWebhookConfiguration''} \<longrightarrow> st w6 key = st w4 key"
      using ttl [OF s5(1)] web [OF s5(2)] by simp
    show "\<forall>key. fst key = ''ClusterRoleBinding'' \<longrightarrow> st w' key = st w7 key"
      using own [OF own_items(3) _ s8] fin [OF s9(1)] drift [OF s9(2)] crd [OF s9(3)] del [OF s9(4)] w' by simp
    note later = clean_steps(2) [OF s5(1)] clean_steps(3) [OF s5(2)] clean_steps(4) [OF s6] clean_steps(5) [OF s9(1)]
      clean_steps(6) [OF s9(2)] clean_steps(7) [OF s9(3)] clean_steps(1) [OF s9(4)]
    show "cleaned k (st w4) (st w')"
      unfolding w' by ((rule cleaned_trans, rule later)+, rule cleaned_refl)
    note first = clean_steps(1) [OF s1(1)] clean_steps(1) [OF s1(2)] clean_steps(1) [OF s1(3)]
    have three: "cleaned k (st w) (st w3)" by ((rule cleaned_trans, rule first)+, rule cleaned_refl)
    moreover have "cleaned k (st w3) (st w6)"
      by (rule cleaned_trans [OF clean_steps(1) [OF s4]], rule cleaned_trans [OF later(1,2)])
    ultimately have six: "cleaned k (st w) (st w6)" by (rule cleaned_trans)
    show "dom (st w3) \<subseteq> dom (st w)" "dom (st w6) \<subseteq> dom (st w)"
      using cleaned_present [OF three] cleaned_present [OF six] by blast+
  qed
qed

end

section \<open>Properties\<close>

text \<open>C9. An emergency stop touches nothing without a chaos mark: whatever object of the cluster is not as it was
  after \<open>runClean\<close> existed before and carried the chaos label, a rollback annotation or a TTL, or was the
  rollback Secret that another Secret refers to; it is deleted or has lost its rollback annotation.
  This holds whatever calls fail.\<close>

theorem clean_touches_only_marked:
  assumes "cluster_api k st" and "runClean (Some k) lib namespace w = (summary, w')" and "st w' key \<noteq> st w key"
  shows "\<exists>x. st w key = Some x \<and> (marked (snd x) \<or> refersTo k (st w) key) \<and>
    (\<forall>y. st w' key = Some y \<longrightarrow> obAnnotations (snd y) RollbackAnnotationKey = None)"
proof -
  have "cleaned k (st w) (st w')" using cluster_api.runClean_cleaned [OF assms(1), of w lib namespace] assms(2) by simp
  then show ?thesis using assms(3) unfolding cleaned_def touchable_def by blast
qed


text \<open>Calls that do not fail: every list of finitely many objects succeeds, and a write of the object at hand
  succeeds as long as the object is the one that was read.\<close>

definition callsSucceed :: "'w cluster \<Rightarrow> ('w \<Rightarrow> objKey \<rightharpoonup> vobject) \<Rightarrow> objKey \<Rightarrow> bool" where
  "callsSucceed k st key = ((\<forall>kind nso p w. finite (dom (st w)) \<longrightarrow> \<not> isl (fst (clList k kind nso p w))) \<and>
     (\<forall>w x. st w key = Some x \<longrightarrow> fst (kDelete (cl k) key None w) = None) \<and>
     (\<forall>w x y. st w key = Some x \<longrightarrow> fst y = fst x \<longrightarrow> fst (kUpdate (cl k) key y w) = None))"

lemma revoked_binding_after_clean:
  assumes "cluster_api k st" and "rollback_codec (cdSubjects (clCodecs k))"
    and "key = (param spec ''bindingType'', if param spec ''bindingType'' = ''RoleBinding'' then ns else '''',
      param spec ''bindingName'')"
    and "st w key = Some x" and "chaosFree x" and "obBody (snd x) = BSubjects ss"
    and "inInject (rbacInjector k) spec ns w = (Inr res, w1)"
    and "callsSucceed k st key" and "finite (dom (st w))" and "namespace = '''' \<or> namespace = ns"
    and "runClean (Some k) lib namespace w1 = (summary, w2)"
  shows "if param spec ''bindingType'' = ''RoleBinding'' then st w2 key = None
    else \<exists>z. st w2 key = Some z \<and> snd z = snd x"
proof -
  note state = cluster_api.injectBinding_state [OF assms(1)]
  note d = rbacInjector_def injector.simps rbacInject_def Let_def
  have calls: "finite (dom (st v)) \<Longrightarrow> \<not> isl (fst (clList k kind nso p v))" "st v key = Some u \<Longrightarrow> fst (kDelete (cl k) key None v) = None"
    "st v key = Some u \<Longrightarrow> fst y = fst u \<Longrightarrow> fst (kUpdate (cl k) key y v) = None" for kind nso p v u y
    using assms(8) unfolding callsSucceed_def by blast+
  have inject: "\<exists>d e1 e2 e3. injectBinding k (fst key) (fst (snd key)) (snd (snd key)) d e1 e2 e3 w = (Inr res, w1)"
    and kinds: "fst key \<in> {''ClusterRoleBinding'', ''RoleBinding''}"
    using assms(7) by (auto simp: d assms(3) split: if_splits)
  then obtain y s where s: "WrapRollbackData (cdSubjects (clCodecs k)) ss = Inr s"
    and w1: "st w1 = (st w)(key \<mapsto> y)"
    and y: "snd y = snd (setBody (BSubjects []) (ApplyChaosMetadata s (injectionTypeName RBACRevoke) x))"
  proof -
    from inject obtain e e1 e2 e3 where i: "injectBinding k (fst key) (fst (snd key)) (snd (snd key)) e e1 e2 e3 w = (Inr res, w1)"
      by blast
    show thesis using state [OF i] assms(4,6) that by (auto simp: bindingSubjects_def)
  qed
  have label: "chaosSelector (obLabels (snd y))"
    using y by (simp add: chaosSelector_def ApplyChaosMetadata_def ChaosLabels_def setLabels_def setBody_def)
  have note1: "obAnnotations (snd y) RollbackAnnotationKey = Some s" using y by simp
  obtain w3 n w4 w6 m w7 where st3: "\<forall>key. fst key \<notin> {''NetworkPolicy'', ''Lease'', ''ClusterRole'', ''Secret''} \<longrightarrow> st w3 key = st w1 key"
    and del: "deleteMatchingResources k (inNamespace namespace) ''RoleBinding'' w3 = (n, w4)"
    and later: "cleaned k (st w4) (st w2)"
    and st6: "\<forall>key. fst key \<notin> {''NetworkPolicy'', ''Secret'', ''ValidatingWebhookConfiguration''} \<longrightarrow> st w6 key = st w4 key"
    and crb: "scanResources k None (\<lambda>l. True) (cleanBinding k) ''ClusterRoleBinding'' w6 = (m, w7)"
    and st7: "\<forall>key. fst key = ''ClusterRoleBinding'' \<longrightarrow> st w2 key = st w7 key"
    and dom: "dom (st w3) \<subseteq> dom (st w1)" "dom (st w6) \<subseteq> dom (st w1)"
    by (rule cluster_api.runClean_split [OF assms(1), OF assms(11)])
  have fin: "finite (dom (st w3))" "finite (dom (st w6))"
    using finite_subset [OF dom(1)] finite_subset [OF dom(2)] assms(9) w1 by simp_all
  have y3: "st w3 key = Some y" using st3 kinds w1 by auto
  have ns: "fst key \<noteq> ''Secret''" using kinds by auto
  note own = cluster_api.own_items [OF assms(1)]
  show ?thesis
  proof (cases "param spec ''bindingType'' = ''RoleBinding''")
    case True
    then have k: "fst key = ''RoleBinding''" "inNamespace namespace = None \<or> inNamespace namespace = Some (fst (snd key))"
      using assms(3,10) by (auto simp: inNamespace_def)
    then have "listed (st w3) ''RoleBinding'' (inNamespace namespace) chaosSelector key y"
      using y3 label by (auto simp: listed_def)
    from cluster_api.scanResources_at(2) [OF assms(1), OF own(1) ns del [unfolded deleteMatchingResources_def] this calls(1) [OF fin(1)]]
    obtain v where v: "st v key = Some y" "st w4 key = st (snd (kDelete (cl k) key None v)) key"
      using y3 by (auto simp: succeeds_def)
    have "kDelete (cl k) key None v = (None, snd (kDelete (cl k) key None v))"
      using calls(2) [OF v(1)] by (metis prod.collapse)
    then have "st w4 key = None"
      using kube_api.delete_ok [OF cluster_api.axioms(1) [OF assms(1)]] v(2) by (metis fun_upd_same)
    then have "st w2 key = None" using cleaned_present [OF later, of key] by (metis option.distinct(1) option.exhaust)
    then show ?thesis using True by simp
  next
    case False
    then have k: "fst key = ''ClusterRoleBinding''" using kinds assms(3) by auto
    have "st w4 key = Some y"
      using cluster_api.scanResources_at(1) [OF assms(1), OF own(1) ns del [unfolded deleteMatchingResources_def]] k y3 by simp
    then have y6: "st w6 key = Some y" using st6 k by simp
    then have "listed (st w6) ''ClusterRoleBinding'' None (\<lambda>l. True) key y" using k by (simp add: listed_def)
    from cluster_api.scanResources_at(2) [OF assms(1), OF own(3) ns crb this calls(1) [OF fin(2)]]
    obtain v where v: "st v key = Some y" "st w7 key = st (snd (cleanBinding k key y v)) key" using y6 by auto
    let ?new = "RemoveChaosMetadata (injectionTypeName RBACRevoke) (setBody (BSubjects ss) y)"
    have u: "UnwrapRollbackData (cdSubjects (clCodecs k)) s = Inr ss" by (rule rollback_codec.unwrap_wrap [OF assms(2) s])
    have "fst ?new = fst y" by (simp add: RemoveChaosMetadata_def setLabels_def setAnnotations_def setBody_def)
    then have "kUpdate (cl k) key ?new v = (None, snd (kUpdate (cl k) key ?new v))"
      using calls(3) [OF v(1)] by (metis prod.collapse)
    then obtain z where z: "snd z = snd ?new" "st (snd (kUpdate (cl k) key ?new v)) key = Some z"
      using kube_api.update_ok [OF cluster_api.axioms(1) [OF assms(1)]] by (metis fun_upd_same)
    have "st w2 key = Some z" using st7 k v(2) z(2) note1 u by (simp add: cleanBinding_def succeeds_def)
    moreover have "snd ?new = (snd x)\<lparr>obBody := BSubjects ss, obFinalizers := obFinalizers (snd x)\<rparr>"
      using y by (subst chaos_undo [OF assms(5) refl, where r = s and t = "injectionTypeName RBACRevoke"]) simp_all
    ultimately show ?thesis using False z(1) assms(6) by auto
  qed
qed

text \<open>C36. What an emergency stop restores and what it destroys: a ClusterRoleBinding whose subjects were revoked
  gets them back, exactly as it was before the injection. A RoleBinding carries the chaos label as well, the
  stop deletes what carries it before it looks for bindings to restore, and so the RoleBinding is gone
  with the record of its subjects.\<close>

theorem clean_after_revocation:
  assumes "cluster_api k st" and "rollback_codec (cdSubjects (clCodecs k))"
    and "key = (param spec ''bindingType'', if param spec ''bindingType'' = ''RoleBinding'' then ns else '''',
      param spec ''bindingName'')"
    and "st w key = Some x" and "chaosFree x" and "obBody (snd x) = BSubjects ss"
    and "inInject (rbacInjector k) spec ns w = (Inr res, w1)"
    and "callsSucceed k st key" and "finite (dom (st w))" and "namespace = '''' \<or> namespace = ns"
    and "runClean (Some k) lib namespace w1 = (summary, w2)"
  shows "if param spec ''bindingType'' = ''RoleBinding'' then st w2 key = None
    else \<exists>z. st w2 key = Some z \<and> snd z = snd x"
  by (rule revoked_binding_after_clean [OF assms])


text \<open>A CRDMutation whose target is given as a path leaves rollback data without a \<open>field\<close>. The stop takes them
  for handled: it removes the rollback annotation, leaves the mutated value, and counts a success.\<close>

theorem clean_drops_path_mutation:
  assumes "cluster_api k st" and "param spec ''field'' = ''''"
    and "obAnnotations (snd x) RollbackAnnotationKey = Some s"
    and "UnwrapRollbackData (cnAny lib) s = Inr (rollbackFields spec path v)"
    and "cleanCRDMutationFromResource k lib key x w = (True, w')"
  shows "\<exists>y z. st w key = Some y \<and> st w' key = Some z \<and> obBody (snd z) = obBody (snd y) \<and>
    obAnnotations (snd z) RollbackAnnotationKey = None"
proof -
  have "kPatch (cl k) key (crdRestore lib (rollbackFields spec path v)) w = (None, w')"
    using assms(3-5) by (simp add: cleanCRDMutationFromResource_def rollbackFields_def succeeds_def prod_eq_iff)
  from kube_api.patch_ok [OF cluster_api.axioms(1) [OF assms(1)], OF this] obtain y z where
    "st w key = Some y" "snd z = snd (crdRestore lib (rollbackFields spec path v) y)" "st w' = (st w)(key \<mapsto> z)" by blast
  then show ?thesis using assms(2)
    by (intro exI [of _ y] exI [of _ z]) (simp add: crdRestore_def rollbackFields_def RemoveChaosMetadata_simps)
qed

text \<open>Whether the drifted key of a Secret existed is recorded in the rollback Secret, not in the annotation, where the
  stop looks for it: a key that was not there before is set to the empty value instead of being removed.\<close>

theorem clean_keeps_injected_key:
  assumes "cluster_api k st" and "obAnnotations (snd x) RollbackAnnotationKey = Some s"
    and "UnwrapRollbackData (cdRollback (clCodecs k)) s =
      Inr [(''resourceType'', ''Secret''), (''key'', dataKey), (''rollbackSecretRef'', ref)]"
    and "cleanSecret k key x w = (True, w')" and "snd (snd key) \<noteq> ref" and "fst key = ''Secret''"
  shows "\<exists>z. st w' key = Some z \<and> dataOf z dataKey \<noteq> None"
proof -
  note api = cluster_api.axioms(1) [OF assms(1)]
  let ?info = "[(''resourceType'', ''Secret''), (''key'', dataKey), (''rollbackSecretRef'', ref)]"
  let ?rb = "(''Secret'', fst (snd key), ref)"
  have i: "driftData k ''Secret'' x = Some ?info" using assms(2,3) by (simp add: driftData_def mget_def)
  obtain rb w1 where g: "kGet (cl k) ?rb w = (Inr rb, w1)"
    using assms(4) i by (auto simp: cleanSecret_def Let_def mget_def split: prod.splits sum.splits)
  let ?new = "driftRestored ?info (mget (dataOf rb) dataKey) x"
  obtain w2 where u: "kUpdate (cl k) key ?new w1 = (None, w2)" "w' = dropRollbackSecret k ?rb w2"
    using assms(4) i g by (auto simp: cleanSecret_def Let_def mget_def split: prod.splits option.splits)
  from kube_api.update_ok [OF api, OF u(1)] obtain z where z: "snd z = snd ?new" "st w2 key = Some z" by auto
  have "?rb \<noteq> key" using assms(5) by (cases key) auto
  then have "st w' key = st w2 key"
  proof -
    obtain g v where "kGet (cl k) ?rb w2 = (g, v)" by (rule prod.exhaust)
    then show ?thesis using kube_api.get_frame [OF api, of ?rb w2] cluster_api.other_ops(2) [OF assms(1), of key ?rb] \<open>?rb \<noteq> key\<close> u(2)
      by (cases g) (auto simp: dropRollbackSecret_def)
  qed
  moreover have "dataOf z dataKey \<noteq> None"
    using z(1) by (simp add: driftRestored_def mget_def dataOf_def RemoveChaosMetadata_simps setBody_def)
  ultimately show ?thesis using z(2) by simp
qed


section \<open>Witnesses\<close>

definition cleanDemoSubjects :: "subject list" where
  "cleanDemoSubjects = [Subject ''ServiceAccount'' '''' ''sa'' ''ns1'']"

definition cleanDemoCodec :: "subject list rollbackLib" where
  "cleanDemoCodec = \<lparr>rlMarshal = \<lambda>i. if i = cleanDemoSubjects then Inr ''s'' else Inl noCodec,
     rlUnmarshal = \<lambda>s. Inr cleanDemoSubjects, rlHash = \<lambda>s. ''h'',
     rlEncode = \<lambda>p. if p = (''s'', ''h'') then Inr ''e'' else Inl noCodec, rlDecode = \<lambda>s. Inr (Some ''s'', ''h'')\<rparr>"

definition cleanDemoCluster :: "(objKey, kobject) memWorld cluster" where
  "cleanDemoCluster = memCluster\<lparr>clCodecs := demoCodecs\<lparr>cdSubjects := cleanDemoCodec\<rparr>\<rparr>"

definition cleanDemoLib :: cleanLib where
  "cleanDemoLib = \<lparr>cnAny = mutationDemoLib, cnPatchSpec = \<lambda>f v b. b, cnParseTime = \<lambda>s. None\<rparr>"

definition cleanDemoSpec :: injectionSpec where
  "cleanDemoSpec = \<lparr>injType = RBACRevoke, injParams = [''bindingType'' \<mapsto> ''RoleBinding'', ''bindingName'' \<mapsto> ''edit''],
     injCount = 1, injTTL = 0, injDanger = DangerLevelHigh\<rparr>"

definition cleanDemoWorld :: "(objKey, kobject) memWorld" where
  "cleanDemoWorld = \<lparr>memObjs = [(''RoleBinding'', ''ns1'', ''edit'') \<mapsto> newObject Map.empty Map.empty (BSubjects cleanDemoSubjects)],
     memNext = 1, memNow = 0\<rparr>"

lemma cleanDemo_api: "cluster_api cleanDemoCluster memObjs"
  using memCl.cluster_api_axioms
  unfolding cleanDemoCluster_def cluster_api_def cluster_api_axioms_def by simp

lemma cleanDemo_inject:
  "\<exists>res w1. inInject (rbacInjector cleanDemoCluster) cleanDemoSpec ''ns1'' cleanDemoWorld = (Inr res, w1) \<and>
     memObjs w1 (''RoleBinding'', ''ns1'', ''edit'') \<noteq> None"
  by (simp add: rbacInjector_def rbacInject_def injectBinding_def Let_def fetch_def finishInject_def mem_ops
      cleanDemoCluster_def cleanDemoSpec_def cleanDemoWorld_def mget_def bindingSubjects_def newObject_def
      WrapRollbackData_def cleanDemoCodec_def maxRollbackDataSize_def setBody_def ApplyChaosMetadata_def setLabels_def
      setAnnotations_def)

lemma cleanDemo_calls: "callsSucceed cleanDemoCluster memObjs key"
proof -
  have "finite {key. \<exists>x. listed (memObjs w) kind nso p key x}" if "finite (dom (memObjs w))" for kind nso p w
    by (rule finite_subset [OF _ that]) (auto simp: listed_def)
  then show ?thesis
    by (auto simp: callsSucceed_def cleanDemoCluster_def memList_def Let_def mem_ops)
qed

lemma cleanDemo_start:
  "memObjs cleanDemoWorld (''RoleBinding'', ''ns1'', ''edit'') = Some (newObject Map.empty Map.empty (BSubjects cleanDemoSubjects))"
  "chaosFree (newObject Map.empty Map.empty (BSubjects cleanDemoSubjects))"
  "obBody (snd (newObject Map.empty Map.empty (BSubjects cleanDemoSubjects))) = BSubjects cleanDemoSubjects"
  "finite (dom (memObjs cleanDemoWorld))" "rollback_codec (cdSubjects (clCodecs cleanDemoCluster))"
  "(''RoleBinding'', ''ns1'', ''edit'') = (param cleanDemoSpec ''bindingType'',
      if param cleanDemoSpec ''bindingType'' = ''RoleBinding'' then ''ns1'' else '''', param cleanDemoSpec ''bindingName'')"
  "param cleanDemoSpec ''bindingType'' = ''RoleBinding''"
proof -
  show "rollback_codec (cdSubjects (clCodecs cleanDemoCluster))"
    by unfold_locales (auto simp: cleanDemoCluster_def cleanDemoCodec_def split: if_splits)
qed (simp_all add: cleanDemoWorld_def chaosFree_def newObject_def cleanDemoSpec_def mget_def)

theorem clean_after_revocation_witness:
  "\<exists>res w1 summary w2. inInject (rbacInjector cleanDemoCluster) cleanDemoSpec ''ns1'' cleanDemoWorld = (Inr res, w1) \<and>
     runClean (Some cleanDemoCluster) cleanDemoLib ''ns1'' w1 = (summary, w2) \<and>
     memObjs w2 (''RoleBinding'', ''ns1'', ''edit'') = None"
proof -
  obtain res w1 where i: "inInject (rbacInjector cleanDemoCluster) cleanDemoSpec ''ns1'' cleanDemoWorld = (Inr res, w1)"
    using cleanDemo_inject by blast
  obtain summary w2 where c: "runClean (Some cleanDemoCluster) cleanDemoLib ''ns1'' w1 = (summary, w2)" by (rule prod.exhaust)
  note s = cleanDemo_start
  have "memObjs w2 (''RoleBinding'', ''ns1'', ''edit'') = None"
    using clean_after_revocation [OF cleanDemo_api s(5,6,1-3) i cleanDemo_calls s(4) disjI2 c] s(7) by simp
  with i c show ?thesis by blast
qed

theorem clean_touches_only_marked_witness:
  "\<exists>res w1 x. inInject (rbacInjector cleanDemoCluster) cleanDemoSpec ''ns1'' cleanDemoWorld = (Inr res, w1) \<and>
     memObjs w1 (''RoleBinding'', ''ns1'', ''edit'') = Some x \<and>
     (marked (snd x) \<or> refersTo cleanDemoCluster (memObjs w1) (''RoleBinding'', ''ns1'', ''edit''))"
proof -
  obtain res w1 where i: "inInject (rbacInjector cleanDemoCluster) cleanDemoSpec ''ns1'' cleanDemoWorld = (Inr res, w1)"
    and p: "memObjs w1 (''RoleBinding'', ''ns1'', ''edit'') \<noteq> None"
    using cleanDemo_inject by blast
  obtain summary w2 where c: "runClean (Some cleanDemoCluster) cleanDemoLib ''ns1'' w1 = (summary, w2)" by (rule prod.exhaust)
  note s = cleanDemo_start
  have "memObjs w2 (''RoleBinding'', ''ns1'', ''edit'') = None"
    using revoked_binding_after_clean [OF cleanDemo_api s(5,6,1-3) i cleanDemo_calls s(4) disjI2 c] s(7) by simp
  with p have "memObjs w2 (''RoleBinding'', ''ns1'', ''edit'') \<noteq> memObjs w1 (''RoleBinding'', ''ns1'', ''edit'')" by metis
  then show ?thesis
    using clean_touches_only_marked [OF cleanDemo_api c, of "(''RoleBinding'', ''ns1'', ''edit'')"] i by blast
qed

end
