(* ===== verification/Olm.thy ===== *)
theory Olm
  imports InjectMutation
begin

text \<open>
  The client of the Operator Lifecycle Manager (\<open>pkg/olm\<close>): the channels of a package, the switch of a
  subscription to a channel, and the loop that watches an upgrade until it has succeeded or failed.
  The objects are unstructured, as in \<open>InjectMutation\<close>. The watch loop sends its statuses to a channel
  whose reader takes all of them, so its result is their list; \<open>tick\<close> is the \<open>select\<close> between the
  ticker and the end of the context.
\<close>

section \<open>Unstructured objects\<close>

text \<open>\<open>unstructured.NestedFieldNoCopy\<close>: an error where the path meets a value that is no object.\<close>

fun nestedJson :: "string list \<Rightarrow> json \<Rightarrow> goErr + json option" where
  "nestedJson [] j = Inr (Some j)"
| "nestedJson (f # fs) j =
     (case j of
        JNull \<Rightarrow> Inr None
      | JObj kvs \<Rightarrow> (case map_of kvs f of None \<Rightarrow> Inr None | Some v \<Rightarrow> nestedJson fs v)
      | _ \<Rightarrow> Inl (ApiOther ''accessor error''))"

definition nestedString :: "string list \<Rightarrow> json \<Rightarrow> goErr + string option" where
  "nestedString fs j =
     (case nestedJson fs j of
        Inl err \<Rightarrow> Inl err
      | Inr None \<Rightarrow> Inr None
      | Inr (Some (JStr s)) \<Rightarrow> Inr (Some s)
      | Inr (Some _) \<Rightarrow> Inl (ApiOther ''accessor error''))"

text \<open>The string, or the empty one where it is absent or the read fails.\<close>

definition stringOr :: "goErr + string option \<Rightarrow> string" where
  "stringOr r = (case r of Inr (Some s) \<Rightarrow> s | _ \<Rightarrow> '''')"

definition stringField :: "json \<Rightarrow> string \<Rightarrow> string" where
  "stringField j f = (case fieldOf (jsonFields j) f of JStr s \<Rightarrow> s | _ \<Rightarrow> '''')"

definition getSubscriptionStatus :: "json \<Rightarrow> string \<times> string" where
  "getSubscriptionStatus obj =
     (let status = fieldOf (jsonFields obj) ''status''
      in (stringField status ''installedCSV'', stringField status ''currentCSV''))"

definition getSubscriptionInstallPlanRef :: "json \<Rightarrow> string \<times> string" where
  "getSubscriptionInstallPlanRef obj =
     (case nestedJson [''status'', ''installPlanRef''] obj of
        Inr (Some (JObj kvs)) \<Rightarrow> (stringField (JObj kvs) ''name'', stringField (JObj kvs) ''namespace'')
      | _ \<Rightarrow> ('''', ''''))"

definition getCSVPhase :: "json \<Rightarrow> string" where
  "getCSVPhase obj = stringOr (nestedString [''status'', ''phase''] obj)"

definition getInstallPlanPhase :: "json \<Rightarrow> string" where
  "getInstallPlanPhase obj = stringOr (nestedString [''status'', ''phase''] obj)"

definition getInstallPlanApproval :: "json \<Rightarrow> string" where
  "getInstallPlanApproval obj = stringOr (nestedString [''spec'', ''approval''] obj)"

definition getSubscriptionChannel :: "json \<Rightarrow> goErr + string" where
  "getSubscriptionChannel obj =
     (case nestedString [''spec'', ''channel''] obj of
        Inr (Some channel) \<Rightarrow> Inr channel
      | _ \<Rightarrow> Inl (Errorf ''subscription spec.channel not found'' []))"

record channelInfo =
  ciName :: string
  ciHeadVersion :: string
  ciCSVName :: string

definition channelOf :: "json \<Rightarrow> channelInfo option" where
  "channelOf j =
     (case j of
        JObj _ \<Rightarrow> Some \<lparr>ciName = stringField j ''name'',
          ciHeadVersion = stringField (fieldOf (jsonFields j) ''currentCSVDesc'') ''version'',
          ciCSVName = stringField j ''currentCSV''\<rparr>
      | _ \<Rightarrow> None)"

definition getPackageChannels :: "json \<Rightarrow> goErr + channelInfo list" where
  "getPackageChannels obj =
     (case nestedJson [''status'', ''channels''] obj of
        Inl err \<Rightarrow> Inl err
      | Inr None \<Rightarrow> Inr []
      | Inr (Some (JArr chs)) \<Rightarrow> Inr (List.map_filter channelOf chs)
      | Inr (Some _) \<Rightarrow> Inl (ApiOther ''accessor error''))"

section \<open>The client\<close>

type_synonym 'w olmClient = "('w, objKey, jobject) kclient"

definition subscriptionKey :: "string \<Rightarrow> string \<Rightarrow> objKey" where
  "subscriptionKey ns operator = (''Subscription'', ns, operator)"

definition Discover ::
  "'w olmClient \<Rightarrow> string \<Rightarrow> string \<Rightarrow> 'w \<Rightarrow> (goErr + channelInfo list) \<times> 'w" where
  "Discover k operator ns w =
     (case kGet k (''PackageManifest'', ns, operator) w of
        (Inl err, w1) \<Rightarrow>
          (Inl (Errorf ''getting PackageManifest %s/%s: %w'' [AStr ns, AStr operator, AErr err]), w1)
      | (Inr pm, w1) \<Rightarrow>
          (case getPackageChannels (snd pm) of
             Inl err \<Rightarrow> (Inl (Errorf ''extracting channels: %w'' [AErr err]), w1)
           | Inr channels \<Rightarrow> (Inr channels, w1)))"

definition channelPatch :: "string \<Rightarrow> json" where
  "channelPatch channel = JObj [(''spec'', JObj [(''channel'', JStr channel)])]"

definition PatchChannel ::
  "'w olmClient \<Rightarrow> string \<Rightarrow> string \<Rightarrow> string \<Rightarrow> 'w \<Rightarrow> goErr option \<times> 'w" where
  "PatchChannel k operator ns channel w =
     (case kGet k (subscriptionKey ns operator) w of
        (Inl err, w1) \<Rightarrow>
          (Some (Errorf ''getting Subscription %s/%s: %w'' [AStr ns, AStr operator, AErr err]), w1)
      | (Inr sub, w1) \<Rightarrow>
          (case kPatch k (subscriptionKey ns operator) (applyPatch (channelPatch channel)) w1 of
             (Some err, w2) \<Rightarrow>
               (Some (Errorf ''patching Subscription channel to %s: %w'' [AStr channel, AErr err]), w2)
           | (None, w2) \<Rightarrow> (None, w2)))"

definition GetCurrentVersion ::
  "'w olmClient \<Rightarrow> string \<Rightarrow> string \<Rightarrow> 'w \<Rightarrow> (goErr + string) \<times> 'w" where
  "GetCurrentVersion k operator ns w =
     (case kGet k (subscriptionKey ns operator) w of
        (Inl err, w1) \<Rightarrow>
          (Inl (Errorf ''getting Subscription %s/%s: %w'' [AStr ns, AStr operator, AErr err]), w1)
      | (Inr sub, w1) \<Rightarrow> (Inr (fst (getSubscriptionStatus (snd sub))), w1))"

section \<open>The watch loop\<close>

datatype upgradePhase =
    UpgradePending | UpgradeInstallPlanCreated | UpgradeInstallPlanApproved | UpgradeInstalling
  | UpgradeSucceeded | UpgradeFailed | UpgradeOther string

record upgradeStatus =
  usPhase :: upgradePhase
  usSubscription :: string
  usChannel :: string
  usInstallPlan :: string
  usInstallPlanApproval :: string
  usCurrentCSV :: string
  usInstalledCSV :: string
  usMessage :: message

definition zeroStatus :: upgradeStatus where
  "zeroStatus = \<lparr>usPhase = UpgradeOther '''', usSubscription = '''', usChannel = '''', usInstallPlan = '''',
     usInstallPlanApproval = '''', usCurrentCSV = '''', usInstalledCSV = '''', usMessage = Msg '''' []\<rparr>"

text \<open>
  The result of a stage of one round: the statuses that were sent, and how it goes on. The state that
  the rounds share is whether the install plan has been seen complete, and its name.
\<close>

datatype watchNext = WatchAgain bool string | WatchDone | WatchCSV string

type_synonym 'w watchStage = "upgradeStatus list \<times> watchNext \<times> 'w"

definition watchCSV ::
  "'w olmClient \<Rightarrow> string \<Rightarrow> string \<Rightarrow> upgradeStatus \<Rightarrow> string \<Rightarrow> 'w \<Rightarrow> 'w watchStage" where
  "watchCSV k operator ns base plan w =
     (let current = usCurrentCSV base;
          say = (\<lambda>phase msg. base\<lparr>usPhase := phase, usInstallPlan := plan, usMessage := msg\<rparr>)
      in case kGet k (''ClusterServiceVersion'', ns, current) w of
        (Inl err, w1) \<Rightarrow>
          ([say UpgradeInstalling (Msg ''waiting for CSV %s'' [AStr current])], WatchAgain True plan, w1)
      | (Inr csv, w1) \<Rightarrow>
          (let csvPhase = getCSVPhase (snd csv) in
           if csvPhase = ''Succeeded'' then
             (let (finalInstalled, w2) =
                (if usInstalledCSV base \<noteq> current then
                   (case kGet k (subscriptionKey ns operator) w1 of
                      (Inl err, w2) \<Rightarrow> (usInstalledCSV base, w2)
                    | (Inr freshSub, w2) \<Rightarrow> (fst (getSubscriptionStatus (snd freshSub)), w2))
                 else (usInstalledCSV base, w1))
              in ([(say UpgradeSucceeded (Msg ''CSV %s Succeeded'' [AStr current]))
                     \<lparr>usInstalledCSV := finalInstalled\<rparr>], WatchDone, w2))
           else if csvPhase = ''Failed'' then
             ([say UpgradeFailed (Msg ''CSV %s Failed'' [AStr current])], WatchDone, w1)
           else
             ([say UpgradeInstalling (Msg ''CSV %s phase: %s'' [AStr current, AStr csvPhase])],
              WatchAgain True plan, w1)))"

definition watchInstallPlan ::
  "'w olmClient \<Rightarrow> string \<Rightarrow> json \<Rightarrow> upgradeStatus \<Rightarrow> string \<Rightarrow> 'w \<Rightarrow> 'w watchStage" where
  "watchInstallPlan k ns sub base plan w =
     (let (ipName, ipNS0) = getSubscriptionInstallPlanRef sub
      in if ipName = '''' then
           ([base\<lparr>usPhase := UpgradePending, usMessage := Msg ''waiting for InstallPlan'' []\<rparr>],
            WatchAgain False plan, w)
         else
           (let ipNS = (if ipNS0 = '''' then ns else ipNS0);
                say = (\<lambda>phase msg. base\<lparr>usPhase := phase, usInstallPlan := ipName, usMessage := msg\<rparr>);
                created = say UpgradeInstallPlanCreated (Msg ''InstallPlan created: %s'' [AStr ipName])
            in case kGet k (''InstallPlan'', ipNS, ipName) w of
              (Inl err, w1) \<Rightarrow> ([created], WatchAgain False ipName, w1)
            | (Inr ip, w1) \<Rightarrow>
                (let approval = getInstallPlanApproval (snd ip);
                     ipPhase = getInstallPlanPhase (snd ip)
                 in if approval = ''Manual'' \<and> ipPhase \<noteq> ''Complete'' then
                      ([created, (say UpgradeInstallPlanCreated
                          (Msg ''InstallPlan requires manual approval'' []))
                          \<lparr>usInstallPlanApproval := ''Manual''\<rparr>], WatchAgain False ipName, w1)
                    else if ipPhase = ''Complete'' then
                      ([created, (say UpgradeInstallPlanApproved (Msg ''InstallPlan complete'' []))
                          \<lparr>usInstallPlanApproval := approval\<rparr>], WatchCSV ipName, w1)
                    else if ipPhase = ''Failed'' then
                      ([created, say UpgradeFailed (Msg ''InstallPlan %s failed'' [AStr ipName])],
                       WatchDone, w1)
                    else
                      ([created, say UpgradeInstallPlanCreated
                          (Msg ''InstallPlan %s phase: %s'' [AStr ipName, AStr ipPhase])],
                       WatchAgain False ipName, w1))))"

text \<open>One round of the loop, after a tick.\<close>

definition watchRound ::
  "'w olmClient \<Rightarrow> string \<Rightarrow> string \<Rightarrow> string \<Rightarrow> bool \<Rightarrow> string \<Rightarrow> 'w \<Rightarrow> 'w watchStage" where
  "watchRound k operator ns initialInstalled seen plan w =
     (case kGet k (subscriptionKey ns operator) w of
        (Inl err, w1) \<Rightarrow> ([], WatchAgain seen plan, w1)
      | (Inr sub, w1) \<Rightarrow>
          (let (installed, current) = getSubscriptionStatus (snd sub)
           in case getSubscriptionChannel (snd sub) of
             Inl err \<Rightarrow> ([], WatchAgain seen plan, w1)
           | Inr channel \<Rightarrow>
               (let base = zeroStatus\<lparr>usSubscription := operator, usChannel := channel,
                      usInstalledCSV := installed\<rparr>
                in if current = initialInstalled \<or> current = '''' then
                     ([base\<lparr>usPhase := UpgradePending,
                         usMessage := Msg ''waiting for new CSV version'' []\<rparr>],
                      WatchAgain seen plan, w1)
                   else
                     (let base1 = base\<lparr>usCurrentCSV := current\<rparr>
                      in if seen then watchCSV k operator ns base1 plan w1
                         else case watchInstallPlan k ns (snd sub) base1 plan w1 of
                           (ss, WatchCSV ipName, w2) \<Rightarrow>
                             (case watchCSV k operator ns base1 ipName w2 of
                                (ss', next', w3) \<Rightarrow> (ss @ ss', next', w3))
                         | r \<Rightarrow> r))))"

partial_function (option) watchLoop ::
  "'w olmClient \<Rightarrow> ('w \<Rightarrow> bool \<times> 'w) \<Rightarrow> string \<Rightarrow> string \<Rightarrow> string \<Rightarrow> bool \<Rightarrow> string \<Rightarrow> 'w \<Rightarrow>
   (upgradeStatus list \<times> 'w) option" where
  "watchLoop k tick operator ns initialInstalled seen plan w =
     (case tick w of (ticked, w1) \<Rightarrow>
        if \<not> ticked then Some ([], w1)
        else case watchRound k operator ns initialInstalled seen plan w1 of (ss, next', w2) \<Rightarrow>
          (case next' of
             WatchAgain seen' plan' \<Rightarrow>
               Option.bind (watchLoop k tick operator ns initialInstalled seen' plan' w2)
                 (\<lambda>r. Some (ss @ fst r, snd r))
           | WatchDone \<Rightarrow> Some (ss, w2)
           | WatchCSV _ \<Rightarrow> Some (ss, w2)))"

declare watchLoop.simps [code]

definition WatchUpgrade ::
  "'w olmClient \<Rightarrow> ('w \<Rightarrow> bool \<times> 'w) \<Rightarrow> string \<Rightarrow> string \<Rightarrow> 'w \<Rightarrow>
   ((goErr + upgradeStatus list) \<times> 'w) option" where
  "WatchUpgrade k tick operator ns w =
     (case kGet k (subscriptionKey ns operator) w of
        (Inl err, w1) \<Rightarrow>
          Some (Inl (Errorf ''getting Subscription %s/%s: %w'' [AStr ns, AStr operator, AErr err]), w1)
      | (Inr sub, w1) \<Rightarrow>
          map_option (\<lambda>(ss, w2). (Inr ss, w2))
            (watchLoop k tick operator ns (fst (getSubscriptionStatus (snd sub))) False '''' w1))"

section \<open>What the watch promises\<close>

definition terminalPhase :: "upgradePhase \<Rightarrow> bool" where
  "terminalPhase p \<longleftrightarrow> p = UpgradeSucceeded \<or> p = UpgradeFailed"

lemma terminalPhase_simps [simp]:
  "terminalPhase UpgradeSucceeded" "terminalPhase UpgradeFailed" "\<not> terminalPhase UpgradePending"
  "\<not> terminalPhase UpgradeInstallPlanCreated" "\<not> terminalPhase UpgradeInstallPlanApproved"
  "\<not> terminalPhase UpgradeInstalling"
  by (simp_all add: terminalPhase_def)

abbreviation running :: "upgradeStatus list \<Rightarrow> bool" where
  "running \<equiv> list_all (\<lambda>s. \<not> terminalPhase (usPhase s))"

text \<open>The subscription has a version that was not installed at first; and this version has succeeded.\<close>

definition movedTo ::
  "(objKey \<rightharpoonup> jobject) \<Rightarrow> string \<Rightarrow> string \<Rightarrow> string \<Rightarrow> string \<Rightarrow> bool" where
  "movedTo m operator ns initial current \<longleftrightarrow> current \<noteq> initial \<and> current \<noteq> '''' \<and>
     (\<exists>sub. m (subscriptionKey ns operator) = Some sub \<and> snd (getSubscriptionStatus (snd sub)) = current)"

definition upgradedTo ::
  "(objKey \<rightharpoonup> jobject) \<Rightarrow> string \<Rightarrow> string \<Rightarrow> string \<Rightarrow> string \<Rightarrow> bool" where
  "upgradedTo m operator ns initial current \<longleftrightarrow> movedTo m operator ns initial current \<and>
     (\<exists>csv. m (''ClusterServiceVersion'', ns, current) = Some csv \<and> getCSVPhase (snd csv) = ''Succeeded'')"

text \<open>
  A watch: a client that obeys the laws of the API, and a ticker under a context that ends. Between
  two ticks the cluster may change; what it does then is the invariant \<open>I\<close> of the lemmas.
\<close>

locale upgrade_watch = kube_api k st fst snd
  for k :: "'w olmClient" and st :: "'w \<Rightarrow> objKey \<rightharpoonup> jobject" +
  fixes tick :: "'w \<Rightarrow> bool \<times> 'w"
    and remaining :: "'w \<Rightarrow> nat"
  assumes tick_less: "tick w = (True, w') \<Longrightarrow> remaining w' < remaining w"
    and get_remaining: "remaining (snd (kGet k key w)) \<le> remaining w"
begin

lemma get_cases [consumes 1, case_names Failed Found]:
  assumes "kGet k key w = (r, w')"
  obtains e where "r = Inl e" "st w' = st w" "remaining w' \<le> remaining w"
  | x where "r = Inr x" "st w key = Some x" "st w' = st w" "remaining w' \<le> remaining w"
proof -
  have rem: "remaining w' \<le> remaining w" using get_remaining[of key w] assms by simp
  show thesis
  proof (cases r)
    case (Inl e)
    show thesis by (rule that(1)) (use assms Inl get_err[of key w e w'] rem in auto)
  next
    case (Inr x)
    show thesis by (rule that(2)) (use assms Inr get_ok[of key w x w'] rem in auto)
  qed
qed

definition stageOK where
  "stageOK operator ns initial w ss nx w' \<longleftrightarrow>
     st w' = st w \<and> remaining w' \<le> remaining w \<and>
     (case nx of WatchDone \<Rightarrow> ss \<noteq> [] \<and> running (butlast ss) | _ \<Rightarrow> running ss) \<and>
     (\<forall>s\<in>set ss. (usPhase s \<noteq> UpgradePending \<longrightarrow> (\<exists>c. movedTo (st w) operator ns initial c)) \<and>
        (usPhase s = UpgradeSucceeded \<longrightarrow> upgradedTo (st w) operator ns initial (usCurrentCSV s)))"

lemma watchCSV_OK:
  assumes "watchCSV k operator ns base plan w = (ss, nx, w')"
    and "movedTo (st w) operator ns initial (usCurrentCSV base)"
  shows "stageOK operator ns initial w ss nx w' \<and> (\<forall>p. nx \<noteq> WatchCSV p)"
proof -
  let ?key = "(''ClusterServiceVersion'', ns, usCurrentCSV base)"
  obtain r w1 where g: "kGet k ?key w = (r, w1)" by fastforce
  from g show ?thesis
  proof (cases rule: get_cases)
    case (Failed e)
    then show ?thesis using assms g by (auto simp: watchCSV_def Let_def stageOK_def)
  next
    case (Found csv)
    obtain r2 w2 where g2: "kGet k (subscriptionKey ns operator) w1 = (r2, w2)" by fastforce
    then have w2: "st w2 = st w1 \<and> remaining w2 \<le> remaining w1" by (cases rule: get_cases) auto
    show ?thesis
    proof (cases "getCSVPhase (snd csv) = ''Succeeded''")
      case True
      then have "upgradedTo (st w) operator ns initial (usCurrentCSV base)"
        using Found assms(2) by (auto simp: upgradedTo_def)
      then show ?thesis
        using assms g g2 w2 Found True
        by (auto simp: watchCSV_def Let_def stageOK_def split: if_splits sum.splits)
    next
      case False
      then show ?thesis
        using assms g Found by (auto simp: watchCSV_def Let_def stageOK_def split: if_splits)
    qed
  qed
qed

lemma watchInstallPlan_OK:
  assumes "watchInstallPlan k ns sub base plan w = (ss, nx, w')"
    and "movedTo (st w) operator ns initial c"
  shows "stageOK operator ns initial w ss nx w' \<and> (\<forall>s\<in>set ss. usPhase s \<noteq> UpgradeSucceeded)"
proof -
  obtain ipName ipNS where ref: "getSubscriptionInstallPlanRef sub = (ipName, ipNS)" by fastforce
  let ?key = "(''InstallPlan'', if ipNS = '''' then ns else ipNS, ipName)"
  obtain r w1 where g: "kGet k ?key w = (r, w1)" by fastforce
  from g show ?thesis
  proof (cases rule: get_cases)
    case (Failed e)
    then show ?thesis
      using assms g ref by (auto simp: watchInstallPlan_def Let_def stageOK_def split: if_splits)
  next
    case (Found ip)
    then show ?thesis
      using assms g ref by (auto simp: watchInstallPlan_def Let_def stageOK_def split: if_splits)
  qed
qed

lemma stageOK_append:
  assumes "stageOK operator ns initial w ss nx w1" and "running ss"
    and "stageOK operator ns initial w1 ss' nx' w2"
  shows "stageOK operator ns initial w (ss @ ss') nx' w2"
  using assms by (auto simp: stageOK_def butlast_append split: watchNext.splits)

lemma watchRound_OK:
  assumes "watchRound k operator ns initial seen plan w = (ss, nx, w')"
  shows "stageOK operator ns initial w ss nx w' \<and> (\<forall>p. nx \<noteq> WatchCSV p)"
proof -
  obtain r w1 where g: "kGet k (subscriptionKey ns operator) w = (r, w1)" by fastforce
  from g show ?thesis
  proof (cases rule: get_cases)
    case (Failed e)
    then show ?thesis using assms g by (auto simp: watchRound_def stageOK_def)
  next
    case (Found sub)
    obtain installed current where status: "getSubscriptionStatus (snd sub) = (installed, current)"
      by fastforce
    show ?thesis
    proof (cases "getSubscriptionChannel (snd sub)")
      case (Inl e)
      then show ?thesis using assms g Found status by (auto simp: watchRound_def stageOK_def)
    next
      case (Inr channel)
      define base where "base = zeroStatus\<lparr>usSubscription := operator, usChannel := channel,
          usInstalledCSV := installed, usCurrentCSV := current\<rparr>"
      show ?thesis
      proof (cases "current = initial \<or> current = ''''")
        case True
        then show ?thesis
          using assms g Found status Inr by (auto simp: watchRound_def stageOK_def Let_def)
      next
        case False
        then have moved: "movedTo (st w1) operator ns initial current"
          using Found status by (auto simp: movedTo_def)
        have shift: "stageOK operator ns initial w1 ss nx w' \<Longrightarrow> stageOK operator ns initial w ss nx w'"
          using Found by (auto simp: stageOK_def)
        show ?thesis
        proof (cases seen)
          case True
          then have "watchCSV k operator ns base plan w1 = (ss, nx, w')"
            using assms g Found status Inr False by (simp add: watchRound_def base_def Let_def)
          from watchCSV_OK[OF this] moved shift show ?thesis by (simp add: base_def)
        next
          case unseen: False
          obtain ss1 nx1 w2 where plan: "watchInstallPlan k ns (snd sub) base plan w1 = (ss1, nx1, w2)"
            by (metis prod_cases3)
          from watchInstallPlan_OK[OF plan moved]
          have ok: "stageOK operator ns initial w1 ss1 nx1 w2" by blast
          show ?thesis
          proof (cases "\<exists>p. nx1 = WatchCSV p")
            case True
            then obtain p where p: "nx1 = WatchCSV p" ..
            obtain ss2 nx2 w3 where csv: "watchCSV k operator ns base p w2 = (ss2, nx2, w3)"
              by (metis prod_cases3)
            have res: "ss = ss1 @ ss2" "nx = nx2" "w' = w3"
              using assms g Found status Inr False unseen plan p csv
              by (simp_all add: watchRound_def base_def Let_def)
            have "movedTo (st w2) operator ns initial (usCurrentCSV base)"
              using moved ok by (simp add: stageOK_def base_def)
            from watchCSV_OK[OF csv this]
            have "stageOK operator ns initial w2 ss2 nx2 w3 \<and> (\<forall>p. nx2 \<noteq> WatchCSV p)" .
            moreover have "running ss1" using ok p by (simp add: stageOK_def)
            ultimately show ?thesis
              using stageOK_append[OF ok] shift unfolding res by blast
          next
            case other: False
            then have "ss = ss1" "nx = nx1" "w' = w2"
              using assms g Found status Inr False unseen plan
              by (auto simp: watchRound_def base_def Let_def split: watchNext.splits)
            then show ?thesis using ok shift other by blast
          qed
        qed
      qed
    qed
  qed
qed

lemma watchLoop_result:
  assumes "\<forall>w w' b. tick w = (b, w') \<longrightarrow> I (st w) \<longrightarrow> I (st w')" and "I (st w)"
  shows "\<exists>ss w'. watchLoop k tick operator ns initial seen plan w = Some (ss, w') \<and> I (st w') \<and>
     running (butlast ss) \<and>
     (\<forall>s\<in>set ss. (usPhase s \<noteq> UpgradePending \<longrightarrow> (\<exists>m c. I m \<and> movedTo m operator ns initial c)) \<and>
        (usPhase s = UpgradeSucceeded \<longrightarrow> (\<exists>m. I m \<and> upgradedTo m operator ns initial (usCurrentCSV s))))"
  using assms(2)
proof (induction "remaining w" arbitrary: w seen plan rule: less_induct)
  case less
  obtain b w1 where t: "tick w = (b, w1)" by fastforce
  with less.prems assms(1) have I1: "I (st w1)" by blast
  show ?case
  proof (cases b)
    case False
    then show ?thesis using t I1 by (simp add: watchLoop.simps)
  next
    case True
    obtain ss nx w2 where round: "watchRound k operator ns initial seen plan w1 = (ss, nx, w2)"
      by (metis prod_cases3)
    note ok = watchRound_OK[OF round]
    then have rem: "remaining w2 < remaining w" and I2: "I (st w2)"
      using tick_less[of w w1] t True I1 by (auto simp: stageOK_def)
    show ?thesis
    proof (cases nx)
      case (WatchAgain seen' plan')
      from less.hyps[OF rem I2, of seen' plan'] obtain ss' w3 where IH:
          "watchLoop k tick operator ns initial seen' plan' w2 = Some (ss', w3)" "I (st w3)"
          "running (butlast ss')" "\<forall>s\<in>set ss'.
            (usPhase s \<noteq> UpgradePending \<longrightarrow> (\<exists>m c. I m \<and> movedTo m operator ns initial c)) \<and>
            (usPhase s = UpgradeSucceeded \<longrightarrow>
               (\<exists>m. I m \<and> upgradedTo m operator ns initial (usCurrentCSV s)))"
        by blast
      have "watchLoop k tick operator ns initial seen plan w = Some (ss @ ss', w3)"
        using t True round WatchAgain IH(1) by (subst watchLoop.simps) simp
      moreover have "running (butlast (ss @ ss'))"
        using ok IH(3) WatchAgain by (auto simp: stageOK_def butlast_append list_all_iff dest: in_set_butlastD)
      ultimately show ?thesis
        using IH(2,4) ok I1 by (auto simp: stageOK_def)
    next
      case WatchDone
      then have "watchLoop k tick operator ns initial seen plan w = Some (ss, w2)"
        using t True round by (subst watchLoop.simps) simp
      then show ?thesis using ok I1 I2 WatchDone by (auto simp: stageOK_def)
    next
      case (WatchCSV p)
      with ok show ?thesis by blast
    qed
  qed
qed

end


text \<open>The in-memory server watched until a deadline, with a tick every second.\<close>

definition demoTick :: "timestamp \<Rightarrow> (objKey, json) memWorld \<Rightarrow> bool \<times> (objKey, json) memWorld" where
  "demoTick deadline w =
     (if memNow w < deadline then (True, w\<lparr>memNow := memNow w + second\<rparr>) else (False, w))"

interpretation memWatch: upgrade_watch memClient memObjs "demoTick deadline"
    "\<lambda>w. nat (deadline - memNow w)" for deadline
proof unfold_locales
  show "nat (deadline - memNow w') < nat (deadline - memNow w)"
    if "demoTick deadline w = (True, w')" for w w'
    using that by (auto simp: demoTick_def second_def split: if_splits)
  show "nat (deadline - memNow (snd (kGet memClient key w))) \<le> nat (deadline - memNow w)" for key w
    by (simp add: memGet_def split: option.split)
qed

text \<open>C40. Watching an upgrade ends with its context, and it reports at most one terminal status, as the
  last. Success is reported only if, in a state that the cluster reached during the watch, the
  subscription's current version differs from the one installed at the start and has succeeded.\<close>

theorem watch_upgrade_sound:
  assumes "upgrade_watch k st tick remaining"
    and "\<And>w w' b. tick w = (b, w') \<Longrightarrow> I (st w) \<Longrightarrow> I (st w')" and "I (st w)"
    and "st w (subscriptionKey ns operator) = Some sub"
  shows "\<exists>r w'. WatchUpgrade k tick operator ns w = Some (r, w') \<and> I (st w') \<and>
     (\<forall>ss. r = Inr ss \<longrightarrow> running (butlast ss) \<and>
        (\<forall>s\<in>set ss. usPhase s = UpgradeSucceeded \<longrightarrow>
           (\<exists>m. I m \<and> upgradedTo m operator ns (fst (getSubscriptionStatus (snd sub)))
              (usCurrentCSV s))))"
proof -
  obtain r w1 where g: "kGet k (subscriptionKey ns operator) w = (r, w1)" by fastforce
  from upgrade_watch.get_cases[OF assms(1) g] show ?thesis
  proof cases
    case (1 e)
    then show ?thesis using g assms(3) by (simp add: WatchUpgrade_def)
  next
    case (2 x)
    then have x: "x = sub" "I (st w1)" using assms(3,4) by simp_all
    from upgrade_watch.watchLoop_result[OF assms(1), where I = I and w = w1 and operator = operator
        and ns = ns and initial = "fst (getSubscriptionStatus (snd sub))" and seen = False and plan = "''''",
        OF _ x(2)] assms(2)
    obtain ss w2 where "watchLoop k tick operator ns (fst (getSubscriptionStatus (snd sub))) False ''''
          w1 = Some (ss, w2)" "I (st w2)" "running (butlast ss)"
        "\<forall>s\<in>set ss. usPhase s = UpgradeSucceeded \<longrightarrow>
           (\<exists>m. I m \<and> upgradedTo m operator ns (fst (getSubscriptionStatus (snd sub)))
              (usCurrentCSV s))"
      by blast
    then show ?thesis using g 2 x by (auto simp: WatchUpgrade_def)
  qed
qed

definition demoSubscription :: "string \<Rightarrow> string \<Rightarrow> json" where
  "demoSubscription installed current =
     JObj [(''spec'', JObj [(''channel'', JStr ''stable'')]),
           (''status'', JObj [(''installedCSV'', JStr installed), (''currentCSV'', JStr current),
              (''installPlanRef'', JObj [(''name'', JStr ''plan'')])])]"

definition demoUpgradeWorld :: "(objKey, json) memWorld" where
  "demoUpgradeWorld = \<lparr>memObjs =
     [subscriptionKey ''ns'' ''op'' \<mapsto> (0, demoSubscription ''v1'' ''v2''),
      (''InstallPlan'', ''ns'', ''plan'') \<mapsto> (1, JObj [(''status'', JObj [(''phase'', JStr ''Complete'')])]),
      (''ClusterServiceVersion'', ''ns'', ''v2'') \<mapsto>
        (2, JObj [(''status'', JObj [(''phase'', JStr ''Succeeded'')])])],
     memNext = 3, memNow = 0\<rparr>"

theorem watch_upgrade_sound_witness:
  "\<exists>r w'. WatchUpgrade memClient (demoTick second) ''op'' ''ns'' demoUpgradeWorld = Some (r, w') \<and>
     memObjs w' = memObjs demoUpgradeWorld \<and>
     (\<forall>ss. r = Inr ss \<longrightarrow> running (butlast ss) \<and>
        (\<forall>s\<in>set ss. usPhase s = UpgradeSucceeded \<longrightarrow>
           (\<exists>m. m = memObjs demoUpgradeWorld \<and>
              upgradedTo m ''op'' ''ns'' ''v1'' (usCurrentCSV s))))"
proof -
  have "memObjs w' = memObjs w" if "demoTick second w = (b, w')" for w w' b
    using that by (auto simp: demoTick_def split: if_splits)
  then have keeps: "memObjs w' = memObjs demoUpgradeWorld"
    if "demoTick second w = (b, w')" "memObjs w = memObjs demoUpgradeWorld" for w w' b
    using that by metis
  have sub: "memObjs demoUpgradeWorld (subscriptionKey ''ns'' ''op'') =
      Some (0, demoSubscription ''v1'' ''v2'')"
    by (simp add: demoUpgradeWorld_def subscriptionKey_def)
  have "fst (getSubscriptionStatus (snd (0::nat, demoSubscription ''v1'' ''v2''))) = ''v1''"
    by (simp add: getSubscriptionStatus_def stringField_def demoSubscription_def fieldOf_def)
  then show ?thesis
    using watch_upgrade_sound[of memClient memObjs "demoTick second" "\<lambda>w. nat (second - memNow w)"
      "\<lambda>m. m = memObjs demoUpgradeWorld" demoUpgradeWorld, OF memWatch.upgrade_watch_axioms keeps refl sub]
    by (simp only:)
qed

lemma demo_upgrade_succeeds:
  "map_option (map_sum id (map usPhase) \<circ> fst) (WatchUpgrade memClient (demoTick second) ''op'' ''ns'' demoUpgradeWorld) =
     Some (Inr [UpgradeInstallPlanCreated, UpgradeInstallPlanApproved, UpgradeSucceeded])"
  by code_simp

text \<open>
  A version that is installed already is never reported: the watch compares with the version that
  is installed when it starts. A hop that is repeated after its upgrade has finished waits until
  its context ends.
\<close>

lemma finished_upgrade_never_succeeds:
  assumes "upgrade_watch k st tick remaining"
    and "\<And>w w' b. tick w = (b, w') \<Longrightarrow> st w' (subscriptionKey ns operator) = st w (subscriptionKey ns operator)"
    and "st w (subscriptionKey ns operator) = Some sub"
    and "getSubscriptionStatus (snd sub) = (v, v)"
    and "WatchUpgrade k tick operator ns w = Some (Inr ss, w')"
  shows "\<forall>s\<in>set ss. usPhase s = UpgradePending"
proof -
  let ?I = "\<lambda>m. m (subscriptionKey ns operator) = Some sub"
  obtain r w1 where g: "kGet k (subscriptionKey ns operator) w = (r, w1)" by fastforce
  from upgrade_watch.get_cases[OF assms(1) g] show ?thesis
  proof cases
    case (1 e)
    then show ?thesis using g assms(5) by (simp add: WatchUpgrade_def)
  next
    case (2 x)
    then have "?I (st w1)" using assms(3) by simp
    from upgrade_watch.watchLoop_result[OF assms(1), where I = ?I and w = w1 and operator = operator
        and ns = ns and initial = v and seen = False and plan = "''''", OF _ this] assms(2)
    obtain ss' w2 where loop: "watchLoop k tick operator ns v False '''' w1 = Some (ss', w2)"
        "\<forall>s\<in>set ss'. usPhase s \<noteq> UpgradePending \<longrightarrow> (\<exists>m c. ?I m \<and> movedTo m operator ns v c)"
      by fastforce
    moreover have "\<not> movedTo m operator ns v c" if "?I m" for m c
      using that assms(4) by (auto simp: movedTo_def)
    ultimately show ?thesis using assms(3-5) g 2 by (auto simp: WatchUpgrade_def)
  qed
qed

text \<open>A switch of the channel that succeeds leaves the channel in the subscription, and changes no other object.\<close>

lemma PatchChannel_ok:
  assumes "kube_api k st fst snd" and "PatchChannel k operator ns channel w = (None, w')"
  shows "\<exists>x y. st w (subscriptionKey ns operator) = Some x \<and>
     snd y = mergePatch (snd x) (channelPatch channel) \<and>
     st w' = (st w)(subscriptionKey ns operator \<mapsto> y)"
proof -
  obtain r w1 where g: "kGet k (subscriptionKey ns operator) w = (r, w1)" by fastforce
  then obtain x where x: "r = Inr x"
      "kPatch k (subscriptionKey ns operator) (applyPatch (channelPatch channel)) w1 = (None, w')"
    using assms(2) by (auto simp: PatchChannel_def split: sum.splits option.splits prod.splits)
  then have "st w (subscriptionKey ns operator) = Some x" "st w1 = st w"
    using kube_api.get_ok[OF assms(1)] g by blast+
  with kube_api.patch_ok[OF assms(1) x(2)] show ?thesis by (auto simp: applyPatch_def)
qed

lemma PatchChannel_err:
  assumes "kube_api k st fst snd" and "PatchChannel k operator ns channel w = (Some e, w')"
  shows "st w' = st w"
proof -
  obtain r w1 where g: "kGet k (subscriptionKey ns operator) w = (r, w1)" by fastforce
  then have "st w1 = st w"
    using kube_api.get_ok[OF assms(1)] kube_api.get_err[OF assms(1)] by (cases r) blast+
  then show ?thesis
    using assms(2) g kube_api.patch_err[OF assms(1)]
    by (auto simp: PatchChannel_def split: sum.splits option.splits prod.splits)
qed

lemma patched_channel: "getSubscriptionChannel (mergePatch j (channelPatch channel)) = Inr channel"
  by (simp add: getSubscriptionChannel_def nestedString_def channelPatch_def setField_def)


end
