(* ===== verification/Sequencer.thy ===== *)
theory Sequencer
  imports Knowledge "HOL-Library.While_Combinator"
begin

text \<open>
  The order of the steps of an upgrade (\<open>pkg/upgrade/sequencer.go\<close>): the edges declared by
  \<open>dependsOn\<close> and inferred from the dependency graph, Kahn's algorithm with ties broken by the
  original position, cycles broken by dropping edges, and the health gates between components. A map
  of the code that is read with its zero value is a function. The loops over the queue and over the
  cycles are \<open>while_option\<close> and a partial function, with the value \<open>None\<close> when they do not end.
\<close>

section \<open>Steps and edges\<close>

record upStep =
  upName :: string
  upType :: string
  upDependsOn :: "string list"
  upComponent :: string
  upKnowledgeRef :: string
  upSynthetic :: bool

record sequencerOptions =
  soInjectHealthGates :: bool
  soAutoInferDeps :: bool
  soOperators :: "string list"

type_synonym adjacency = "string \<Rightarrow> string list"
type_synonym degrees = "string \<Rightarrow> int"

text \<open>The positions by name; of two steps of one name the later counts.\<close>

definition nameIndex :: "upStep list \<Rightarrow> string \<rightharpoonup> nat" where
  "nameIndex steps = fold (\<lambda>(i, s) m. m(upName s \<mapsto> i)) (enumerate 0 steps) Map.empty"

definition positionOf :: "upStep list \<Rightarrow> string \<Rightarrow> nat" where
  "positionOf steps name = (case nameIndex steps name of None \<Rightarrow> 0 | Some i \<Rightarrow> i)"

definition stepMap :: "upStep list \<Rightarrow> string \<rightharpoonup> upStep" where
  "stepMap steps = fold (\<lambda>s m. m(upName s \<mapsto> s)) steps Map.empty"

definition addStepEdge :: "string \<times> string \<Rightarrow> adjacency \<times> degrees \<Rightarrow> adjacency \<times> degrees" where
  "addStepEdge e ad =
     (case ad of (adj, inDegree) \<Rightarrow>
        if snd e \<in> set (adj (fst e)) then (adj, inDegree)
        else (adj(fst e := adj (fst e) @ [snd e]), inDegree(snd e := inDegree (snd e) + 1)))"

definition explicitEdges :: "upStep list \<Rightarrow> (string \<times> string) list" where
  "explicitEdges steps =
     concat (map (\<lambda>s. map (\<lambda>dep. (dep, upName s)) (upDependsOn s)) steps)"

definition componentDependsOn :: "dependencyGraph \<Rightarrow> string list \<Rightarrow> string \<Rightarrow> string \<Rightarrow> bool" where
  "componentDependsOn graph operators compA compB =
     list_ex (\<lambda>opn. list_ex (\<lambda>dep. rfComponent (rcRef dep) = compB)
        (DirectDependents graph \<lparr>rfOperator = opn, rfComponent = compA\<rparr>)) operators"

definition inferredEdges ::
  "dependencyGraph \<Rightarrow> string list \<Rightarrow> upStep list \<Rightarrow> (string \<times> string) list" where
  "inferredEdges graph operators steps =
     concat (map (\<lambda>(i, stepA).
         if upComponent stepA = '''' \<or> upDependsOn stepA \<noteq> [] then []
         else map (\<lambda>(j, stepB). (upName stepA, upName stepB))
           (filter (\<lambda>(j, stepB).
                \<not> (i = j \<or> upComponent stepB = '''' \<or> upComponent stepA = upComponent stepB \<or>
                   upDependsOn stepB \<noteq> []) \<and>
                componentDependsOn graph operators (upComponent stepA) (upComponent stepB))
              (enumerate 0 steps)))
       (enumerate 0 steps))"

definition sequenceEdges ::
  "upStep list \<Rightarrow> dependencyGraph option \<Rightarrow> sequencerOptions \<Rightarrow> (string \<times> string) list" where
  "sequenceEdges steps graph opts =
     explicitEdges steps @
     (case graph of
        Some g \<Rightarrow> if soAutoInferDeps opts then inferredEdges g (soOperators opts) steps else []
      | None \<Rightarrow> [])"

section \<open>Kahn's algorithm\<close>

text \<open>One pass. The state is the queue, the remaining degrees and the result so far.\<close>

definition bestIndex :: "(string \<Rightarrow> nat) \<Rightarrow> string list \<Rightarrow> nat" where
  "bestIndex pos queue =
     fold (\<lambda>i best. if pos (queue ! i) < pos (queue ! best) then i else best) [1..<length queue] 0"

definition visitNeighbor :: "string \<Rightarrow> string list \<times> degrees \<Rightarrow> string list \<times> degrees" where
  "visitNeighbor n qd =
     (case qd of (queue, d) \<Rightarrow>
        let d' = d(n := d n - 1) in (if d' n = 0 then queue @ [n] else queue, d'))"

definition zeroStep :: upStep where
  "zeroStep = \<lparr>upName = '''', upType = '''', upDependsOn = [], upComponent = '''',
     upKnowledgeRef = '''', upSynthetic = False\<rparr>"

definition kahnStep ::
  "(string \<Rightarrow> nat) \<Rightarrow> (string \<rightharpoonup> upStep) \<Rightarrow> adjacency \<Rightarrow>
   string list \<times> degrees \<times> upStep list \<Rightarrow> string list \<times> degrees \<times> upStep list" where
  "kahnStep pos smap adj st =
     (case st of (queue, d, result) \<Rightarrow>
        let bestIdx = bestIndex pos queue;
            current = queue ! bestIdx;
            (queue', d') = fold visitNeighbor (adj current)
              (take bestIdx queue @ drop (bestIdx + 1) queue, d)
        in (queue', d', result @ [case smap current of Some s \<Rightarrow> s | None \<Rightarrow> zeroStep]))"

definition runKahn :: "upStep list \<Rightarrow> adjacency \<Rightarrow> degrees \<Rightarrow> upStep list option" where
  "runKahn steps adj deg =
     map_option (\<lambda>(_, _, result). result)
       (while_option (\<lambda>(queue, _, _). queue \<noteq> [])
          (kahnStep (positionOf steps) (stepMap steps) adj)
          (map upName (filter (\<lambda>s. deg (upName s) = 0) steps), deg, []))"

text \<open>A pass that does not reach every step has met a cycle: one edge is dropped.\<close>

fun joinNames :: "string list \<Rightarrow> string" where
  "joinNames [] = ''''"
| "joinNames [n] = n"
| "joinNames (n # m # ns) = n @ '', '' @ joinNames (m # ns)"

definition highestMember :: "(string \<Rightarrow> nat) \<Rightarrow> string list \<Rightarrow> string" where
  "highestMember pos members =
     snd (fold (\<lambda>name best. if int (pos name) > fst best then (int (pos name), name) else best)
        members (- 1, ''''))"

fun dropEdgeTo :: "string \<Rightarrow> string list \<Rightarrow> adjacency \<times> degrees \<Rightarrow> adjacency \<times> degrees" where
  "dropEdgeTo highest [] ad = ad"
| "dropEdgeTo highest (src # members) (adj, deg) =
     (if highest \<in> set (adj src)
      then (adj(src := remove1 highest (adj src)), deg(highest := deg highest - 1))
      else dropEdgeTo highest members (adj, deg))"

definition cycleMembers :: "upStep list \<Rightarrow> upStep list \<Rightarrow> string list" where
  "cycleMembers steps result =
     map upName (filter (\<lambda>s. upName s \<notin> upName ` set result) steps)"

definition breakCycle :: "upStep list \<Rightarrow> upStep list \<Rightarrow> adjacency \<times> degrees \<Rightarrow> adjacency \<times> degrees" where
  "breakCycle steps result ad =
     (let members = cycleMembers steps result
      in dropEdgeTo (highestMember (positionOf steps) members) members ad)"

partial_function (option) kahnLoop ::
  "upStep list \<Rightarrow> adjacency \<times> degrees \<Rightarrow> message list \<Rightarrow> (upStep list \<times> message list) option" where
  "kahnLoop steps ad warnings =
     Option.bind (runKahn steps (fst ad) (snd ad))
       (\<lambda>result.
          if length result = length steps then Some (result, warnings)
          else kahnLoop steps (breakCycle steps result ad)
            (warnings @ [Msg ''cycle detected among steps: %s''
               [AStr (joinNames (cycleMembers steps result))]]))"


declare kahnLoop.simps [code]

definition kahnSort :: "upStep list \<Rightarrow> adjacency \<Rightarrow> degrees \<Rightarrow> (upStep list \<times> message list) option" where
  "kahnSort steps adj inDegree = kahnLoop steps (adj, inDegree) []"

section \<open>Health gates\<close>

definition healthGate :: "upStep \<Rightarrow> upStep" where
  "healthGate prev = \<lparr>upName = ''health-check-'' @ upComponent prev, upType = ''validate-version'',
     upDependsOn = [], upComponent = upComponent prev, upKnowledgeRef = '''', upSynthetic = True\<rparr>"

definition gateBetween :: "upStep \<Rightarrow> upStep \<Rightarrow> upStep list" where
  "gateBetween prev cur =
     (if upComponent prev \<noteq> '''' \<and> upComponent cur \<noteq> '''' \<and> upComponent prev \<noteq> upComponent cur
      then [healthGate prev] else [])"

fun injectHealthGates :: "upStep list \<Rightarrow> upStep list" where
  "injectHealthGates (prev # cur # steps) =
     prev # gateBetween prev cur @ injectHealthGates (cur # steps)"
| "injectHealthGates steps = steps"

section \<open>The sequencer\<close>

definition unknownDependency :: "upStep list \<Rightarrow> goErr option" where
  "unknownDependency steps =
     firstErr (concat (map (\<lambda>s. map (\<lambda>dep.
         failIf (nameIndex steps dep = None)
           (Errorf ''step %q depends on unknown step %q'' [AStr (upName s), AStr dep]))
       (upDependsOn s)) steps))"

definition Sequence ::
  "upStep list \<Rightarrow> dependencyGraph option \<Rightarrow> sequencerOptions \<Rightarrow>
   (goErr + upStep list \<times> message list) option" where
  "Sequence steps graph opts =
     (if steps = [] then Some (Inr ([], []))
      else case unknownDependency steps of
        Some err \<Rightarrow> Some (Inl err)
      | None \<Rightarrow>
          let (adj, inDegree) = fold addStepEdge (sequenceEdges steps graph opts) (\<lambda>_. [], \<lambda>_. 0)
          in map_option (\<lambda>(ordered, warnings).
               Inr (if soInjectHealthGates opts then injectHealthGates ordered else ordered, warnings))
             (kahnSort steps adj inDegree))"

section \<open>Lookups by name\<close>

text \<open>The names of the steps of a playbook are distinct; the lookups by name then invert the list.\<close>

abbreviation stepNames :: "upStep list \<Rightarrow> string list" where
  "stepNames steps \<equiv> map upName steps"

lemma fold_names_notin:
  "k \<notin> f ` set xs \<Longrightarrow> fold (\<lambda>x m. m(f x \<mapsto> g x)) xs m k = m k"
  by (induction xs arbitrary: m) auto

lemma fold_names_dom: "dom (fold (\<lambda>x m. m(f x \<mapsto> g x)) xs m) = dom m \<union> f ` set xs"
  by (induction xs arbitrary: m) auto

lemma fold_names_in:
  "distinct (map f xs) \<Longrightarrow> x \<in> set xs \<Longrightarrow> fold (\<lambda>x m. m(f x \<mapsto> g x)) xs m (f x) = Some (g x)"
  by (induction xs arbitrary: m) (auto simp: fold_names_notin)

lemma nameIndex_alt:
  "nameIndex steps = fold (\<lambda>x m. m(upName (snd x) \<mapsto> fst x)) (enumerate 0 steps) Map.empty"
proof -
  have "(\<lambda>(i, s) m. m(upName s \<mapsto> i)) =
      (\<lambda>(x :: nat \<times> upStep) m. m(upName (snd x) \<mapsto> fst x))"
    by (intro ext) (simp split: prod.split)
  then show ?thesis by (simp only: nameIndex_def)
qed

lemma names_enumerate: "map (\<lambda>x. upName (snd x)) (enumerate k steps) = stepNames steps"
  by (induction steps arbitrary: k) auto

lemma nameIndex_None [simp]: "nameIndex steps n = None \<longleftrightarrow> n \<notin> set (stepNames steps)"
proof -
  have "dom (nameIndex steps) = (\<lambda>x. upName (snd x)) ` set (enumerate 0 steps)"
    by (simp add: nameIndex_alt fold_names_dom)
  also have "\<dots> = set (stepNames steps)"
    using names_enumerate[of 0 steps] by (metis list.set_map)
  finally show ?thesis by (metis domIff)
qed

lemma positionOf_nth:
  assumes "distinct (stepNames steps)" and "i < length steps"
  shows "positionOf steps (upName (steps ! i)) = i"
proof -
  have "(i, steps ! i) \<in> set (enumerate 0 steps)"
    using assms(2) by (simp add: enumerate_eq_zip in_set_zip) (rule exI[of _ i], simp)
  moreover have "distinct (map (\<lambda>x. upName (snd x)) (enumerate 0 steps))"
    using assms(1) by (simp add: names_enumerate)
  ultimately have "nameIndex steps (upName (snd (i, steps ! i))) = Some (fst (i, steps ! i))"
    unfolding nameIndex_alt by (intro fold_names_in)
  then show ?thesis by (simp add: positionOf_def)
qed

lemma stepMap_in:
  "distinct (stepNames steps) \<Longrightarrow> s \<in> set steps \<Longrightarrow> stepMap steps (upName s) = Some s"
  unfolding stepMap_def by (rule fold_names_in)

lemma stepMap_name:
  assumes "distinct (stepNames steps)" and "n \<in> set (stepNames steps)"
  obtains s where "stepMap steps n = Some s" "upName s = n" "s \<in> set steps"
  using assms stepMap_in by (auto simp del: list.set_map simp: set_map)

section \<open>The edges\<close>

text \<open>
  Adjacency lists without repetition between the names \<open>N\<close>, and the number of predecessors as the
  degree.
\<close>

definition graphOK :: "string set \<Rightarrow> adjacency \<times> degrees \<Rightarrow> bool" where
  "graphOK N ad \<longleftrightarrow>
     (\<forall>n. distinct (fst ad n) \<and> set (fst ad n) \<subseteq> N \<and> (n \<notin> N \<longrightarrow> fst ad n = [])) \<and>
     (\<forall>n. snd ad n = int (card {m \<in> N. n \<in> set (fst ad m)}))"

definition edgeRel :: "adjacency \<Rightarrow> (string \<times> string) set" where
  "edgeRel adj = {(m, n). n \<in> set (adj m)}"

lemma edgeRel_iff [simp]: "(m, n) \<in> edgeRel adj \<longleftrightarrow> n \<in> set (adj m)"
  by (simp add: edgeRel_def)

lemma graphOK_empty: "graphOK N (\<lambda>_. [], \<lambda>_. 0)"
  by (simp add: graphOK_def)

lemma edgeRel_empty [simp]: "edgeRel (\<lambda>_. []) = {}"
  by (auto simp: edgeRel_def)

lemma graphOK_addStepEdge:
  assumes "graphOK N ad" and "finite N" and "fst e \<in> N" and "snd e \<in> N"
  shows "graphOK N (addStepEdge e ad) \<and>
         edgeRel (fst (addStepEdge e ad)) = insert e (edgeRel (fst ad))"
proof -
  obtain adj deg where ad: "ad = (adj, deg)" by fastforce
  obtain a b where e: "e = (a, b)" by fastforce
  show ?thesis
  proof (cases "b \<in> set (adj a)")
    case True
    then show ?thesis using assms(1) by (auto simp: ad e addStepEdge_def edgeRel_def)
  next
    case False
    let ?adj = "adj(a := adj a @ [b])" and ?deg = "deg(b := deg b + 1)"
    have new: "addStepEdge e ad = (?adj, ?deg)"
      using False by (simp add: ad e addStepEdge_def)
    have "{m \<in> N. n \<in> set (?adj m)} =
        (if n = b then insert a {m \<in> N. n \<in> set (adj m)} else {m \<in> N. n \<in> set (adj m)})" for n
      using assms(3) by (auto simp: e)
    then have "?deg n = int (card {m \<in> N. n \<in> set (?adj m)})" for n
      using assms(1,2) False by (auto simp: ad graphOK_def)
    moreover have "distinct (?adj n) \<and> set (?adj n) \<subseteq> N \<and> (n \<notin> N \<longrightarrow> ?adj n = [])" for n
      using assms(1,3,4) False by (auto simp: ad e graphOK_def)
    ultimately have "graphOK N (?adj, ?deg)"
      unfolding graphOK_def fst_conv snd_conv by blast
    moreover have "edgeRel ?adj = insert e (edgeRel adj)"
      by (auto simp: e set_eq_iff split: if_splits)
    ultimately show ?thesis unfolding new by (simp add: ad)
  qed
qed

lemma graphOK_fold:
  assumes "finite N" and "set es \<subseteq> N \<times> N" and "graphOK N ad"
  shows "graphOK N (fold addStepEdge es ad) \<and>
         edgeRel (fst (fold addStepEdge es ad)) = edgeRel (fst ad) \<union> set es"
  using assms(2,3)
proof (induction es arbitrary: ad)
  case Nil
  then show ?case by simp
next
  case (Cons e es)
  then have "graphOK N (addStepEdge e ad) \<and>
      edgeRel (fst (addStepEdge e ad)) = insert e (edgeRel (fst ad))"
    using assms(1) by (intro graphOK_addStepEdge) auto
  with Cons show ?case by auto
qed


section \<open>One pass\<close>

lemma bestIndex_min:
  assumes "queue \<noteq> []"
  shows "bestIndex pos queue < length queue \<and>
         (\<forall>i<length queue. pos (queue ! bestIndex pos queue) \<le> pos (queue ! i))"
proof -
  let ?f = "\<lambda>i best. if pos (queue ! i) < pos (queue ! best) then i else best"
  have "k \<le> length queue \<Longrightarrow> 0 < k \<Longrightarrow> fold ?f [1..<k] 0 < k \<and>
      (\<forall>i<k. pos (queue ! fold ?f [1..<k] 0) \<le> pos (queue ! i))" for k
  proof (induction k)
    case 0
    then show ?case by simp
  next
    case (Suc k)
    show ?case
    proof (cases "k = 0")
      case True
      then show ?thesis by simp
    next
      case False
      with Suc show ?thesis by (auto simp: less_Suc_eq)
    qed
  qed
  from this[of "length queue"] assms show ?thesis by (simp add: bestIndex_def)
qed

lemma visit_fold:
  "distinct ns \<Longrightarrow> fold visitNeighbor ns (queue, d) =
     (queue @ filter (\<lambda>n. d n = 1) ns, \<lambda>n. if n \<in> set ns then d n - 1 else d n)"
proof (induction ns arbitrary: queue d)
  case Nil
  then show ?case by simp
next
  case (Cons n ns)
  have "filter (\<lambda>m. (d(n := d n - 1)) m = 1) ns = filter (\<lambda>m. d m = 1) ns"
    using Cons.prems by (intro filter_cong) auto
  with Cons show ?case by (auto simp: visitNeighbor_def Let_def)
qed

text \<open>
  The order of a list of names: each after all its predecessors. The invariant of the loop: the names
  of the result and of the queue are distinct, they are exactly those with no predecessor outside the
  result, and the result is in order.
\<close>

definition inOrder :: "adjacency \<Rightarrow> string list \<Rightarrow> bool" where
  "inOrder adj ns \<longleftrightarrow> (\<forall>i<length ns. \<forall>m. ns ! i \<in> set (adj m) \<longrightarrow> m \<in> set (take i ns))"

lemma inOrder_Nil [simp]: "inOrder adj []"
  by (simp add: inOrder_def)

lemma inOrder_snoc:
  "inOrder adj (ns @ [n]) \<longleftrightarrow> inOrder adj ns \<and> (\<forall>m. n \<in> set (adj m) \<longrightarrow> m \<in> set ns)"
  by (auto simp: inOrder_def nth_append less_Suc_eq)

definition kahnInv ::
  "upStep list \<Rightarrow> adjacency \<Rightarrow> string list \<times> degrees \<times> upStep list \<Rightarrow> bool" where
  "kahnInv steps adj st \<longleftrightarrow> (case st of (queue, d, result) \<Rightarrow>
     distinct (stepNames result @ queue) \<and>
     set result \<subseteq> set steps \<and> set queue \<subseteq> set (stepNames steps) \<and>
     (\<forall>n. d n = int (card {m \<in> set (stepNames steps) - set (stepNames result). n \<in> set (adj m)})) \<and>
     (\<forall>n \<in> set (stepNames steps). d n = 0 \<longleftrightarrow> n \<in> set (stepNames result @ queue)) \<and>
     inOrder adj (stepNames result))"

lemma kahnStep_eq:
  assumes "queue \<noteq> []" and "distinct (adj c)" and "c = queue ! bestIndex pos queue"
    and "rest = take (bestIndex pos queue) queue @ drop (bestIndex pos queue + 1) queue"
  shows "kahnStep pos smap adj (queue, d, result) =
     (rest @ filter (\<lambda>n. d n = 1) (adj c), \<lambda>n. if n \<in> set (adj c) then d n - 1 else d n,
      result @ [case smap c of Some s \<Rightarrow> s | None \<Rightarrow> zeroStep])"
  using assms by (simp add: kahnStep_def Let_def visit_fold)


lemma pick_split:
  assumes "i < length xs"
  shows "mset xs = add_mset (xs ! i) (mset (take i xs @ drop (i + 1) xs))"
  using assms by (metis Suc_eq_plus1 id_take_nth_drop mset.simps(2) mset_append union_mset_add_mset_right)

lemma zero_degree:
  assumes "graphOK (set (stepNames steps)) (adj, deg)" and "kahnInv steps adj (queue, d, result)"
  shows "d n = 0 \<longleftrightarrow> (\<forall>m. n \<in> set (adj m) \<longrightarrow> m \<in> set (stepNames result))"
proof -
  have "m \<in> set (stepNames steps)" if "n \<in> set (adj m)" for m
    using assms(1) that by (fastforce simp: graphOK_def)
  moreover have "d n = 0 \<longleftrightarrow>
      {m \<in> set (stepNames steps) - set (stepNames result). n \<in> set (adj m)} = {}"
    using assms(2) by (simp add: kahnInv_def)
  ultimately show ?thesis by blast
qed

lemma kahnInv_step:
  assumes names: "distinct (stepNames steps)" and graph: "graphOK (set (stepNames steps)) (adj, deg)"
    and inv: "kahnInv steps adj (queue, d, result)" and queue: "queue \<noteq> []"
  shows "kahnInv steps adj (kahnStep pos (stepMap steps) adj (queue, d, result))"
proof -
  let ?N = "set (stepNames steps)" and ?P = "set (stepNames result)"
  define c where "c = queue ! bestIndex pos queue"
  define rest where "rest = take (bestIndex pos queue) queue @ drop (bestIndex pos queue + 1) queue"
  let ?new = "filter (\<lambda>n. d n = 1) (adj c)" and ?d = "\<lambda>n. if n \<in> set (adj c) then d n - 1 else d n"
  have split: "mset queue = add_mset c (mset rest)"
    unfolding c_def rest_def using bestIndex_min[OF queue] by (intro pick_split) simp
  then have setq: "set queue = insert c (set rest)"
    by (metis set_mset_mset set_mset_add_mset_insert)
  have dist: "distinct (stepNames result @ queue)" using inv by (simp add: kahnInv_def)
  then have "distinct (stepNames result @ c # rest)"
    using split by (metis mset.simps(2) mset_append mset_eq_imp_distinct_iff)
  then have distinct: "distinct rest" "c \<notin> set rest" "c \<notin> ?P" "?P \<inter> set rest = {}"
    "distinct (stepNames result)" by auto
  have cN: "c \<in> ?N" using inv setq by (auto simp: kahnInv_def)
  then obtain s where s: "stepMap steps c = Some s" "upName s = c" "s \<in> set steps"
    using stepMap_name[OF names] by metis
  have zeros: "d n = 0 \<longleftrightarrow> n \<in> ?P \<union> set queue" if "n \<in> ?N" for n
    using inv that unfolding kahnInv_def prod.case set_append by blast
  have pos: "0 < d n" if "n \<in> set (adj c)" for n
  proof -
    have "d n \<noteq> 0" using zero_degree[OF graph inv, of n] that distinct(3) by auto
    moreover have "0 \<le> d n" using inv by (simp add: kahnInv_def)
    ultimately show ?thesis by simp
  qed
  have adjN: "set (adj c) \<subseteq> ?N" "distinct (adj c)" using graph by (auto simp: graphOK_def)
  have later: "n \<notin> ?P \<union> set queue" if "n \<in> set (adj c)" for n
    using pos[OF that] zeros[of n] that adjN(1) by auto
  have deg: "?d n = int (card {m \<in> ?N - insert c ?P. n \<in> set (adj m)})" for n
  proof -
    have "d n = int (card {m \<in> ?N - ?P. n \<in> set (adj m)})" using inv by (simp add: kahnInv_def)
    moreover have "{m \<in> ?N - ?P. n \<in> set (adj m)} = (if n \<in> set (adj c)
        then insert c {m \<in> ?N - insert c ?P. n \<in> set (adj m)}
        else {m \<in> ?N - insert c ?P. n \<in> set (adj m)})"
      using cN distinct(3) by auto
    ultimately show ?thesis by simp
  qed
  have zeros': "?d n = 0 \<longleftrightarrow> n \<in> insert c ?P \<union> set rest \<union> set ?new" if "n \<in> ?N" for n
    using zeros[OF that] pos[of n] later[of n] unfolding setq
    by (cases "n \<in> set (adj c)") auto
  have order: "inOrder adj (stepNames result @ [c])"
    using inv zero_degree[OF graph inv, of c] zeros[OF cN] setq
    by (auto simp: inOrder_snoc kahnInv_def)
  have step: "kahnStep pos (stepMap steps) adj (queue, d, result) = (rest @ ?new, ?d, result @ [s])"
    using kahnStep_eq[where queue = queue and adj = adj and c = c and pos = pos and rest = rest,
        OF queue adjN(2) c_def rest_def] s(1) by simp
  have names': "set (stepNames (result @ [s])) = insert c ?P" "stepNames (result @ [s]) = stepNames result @ [c]"
    using s(2) by simp_all
  have "distinct (stepNames (result @ [s]) @ rest @ ?new)"
    using distinct adjN(2) later setq by (auto simp: s(2))
  moreover have "set (result @ [s]) \<subseteq> set steps" using inv s(3) by (simp add: kahnInv_def)
  moreover have "set (rest @ ?new) \<subseteq> ?N"
    using inv setq adjN(1) unfolding kahnInv_def prod.case by auto
  moreover have "\<forall>n\<in>?N. ?d n = 0 \<longleftrightarrow> n \<in> set (stepNames (result @ [s]) @ rest @ ?new)"
    using zeros' unfolding set_append names'(1) by blast
  ultimately show ?thesis
    unfolding step kahnInv_def prod.case names'(1) using deg order unfolding names'(2) by blast
qed


lemma kahnInv_init:
  assumes "distinct (stepNames steps)" and "graphOK (set (stepNames steps)) (adj, deg)"
  shows "kahnInv steps adj (map upName (filter (\<lambda>s. deg (upName s) = 0) steps), deg, [])"
proof -
  have "distinct (map upName (filter (\<lambda>s. deg (upName s) = 0) steps))"
    using assms(1) by (rule distinct_map_filter)
  moreover have "\<forall>n\<in>set (stepNames steps). deg n = 0 \<longleftrightarrow>
      n \<in> set (map upName (filter (\<lambda>s. deg (upName s) = 0) steps))" by auto
  moreover have "deg n = int (card {m \<in> set (stepNames steps). n \<in> set (adj m)})" for n
    using assms(2) by (simp add: graphOK_def)
  ultimately show ?thesis by (auto simp: kahnInv_def)
qed

text \<open>The pass ends, since every round puts a step of the list into the result.\<close>

lemma kahnInv_length:
  assumes "kahnInv steps adj (queue, d, result)"
  shows "length result + length queue \<le> length steps"
proof -
  have dist: "distinct (stepNames result @ queue)"
    and sub: "set (stepNames result @ queue) \<subseteq> set (stepNames steps)"
    using assms by (auto simp: kahnInv_def)
  have "length (stepNames result @ queue) \<le> card (set (stepNames steps))"
    using card_mono[OF _ sub] distinct_card[OF dist] by simp
  also have "\<dots> \<le> length steps" using card_length[of "stepNames steps"] by simp
  finally show ?thesis by simp
qed

lemma kahnStep_length: "length (snd (snd (kahnStep pos smap adj st))) = Suc (length (snd (snd st)))"
  by (simp add: kahnStep_def Let_def split: prod.split)

lemma runKahn_inv:
  assumes names: "distinct (stepNames steps)" and graph: "graphOK (set (stepNames steps)) (adj, deg)"
  obtains d result where "runKahn steps adj deg = Some result" "kahnInv steps adj ([], d, result)"
proof -
  let ?b = "\<lambda>(queue, _, _). queue \<noteq> []"
    and ?c = "kahnStep (positionOf steps) (stepMap steps) adj"
    and ?s = "(map upName (filter (\<lambda>s. deg (upName s) = 0) steps), deg, [])"
  have step: "kahnInv steps adj (?c st)" if "kahnInv steps adj st" "?b st" for st
    using that kahnInv_step[OF names graph] by (cases st) auto
  have "\<exists>t. while_option ?b ?c ?s = Some t"
  proof (rule measure_while_option_Some[where P = "kahnInv steps adj"
        and f = "\<lambda>st. length steps - length (snd (snd st))"])
    fix st assume st: "kahnInv steps adj st" "?b st"
    obtain queue d result where eq: "st = (queue, d, result)" by (cases st)
    then have "length (snd (snd st)) < length steps"
      using kahnInv_length[of steps adj queue d result] st by (cases queue) auto
    with step[OF st] show "kahnInv steps adj (?c st) \<and>
        length steps - length (snd (snd (?c st))) < length steps - length (snd (snd st))"
      by (simp add: kahnStep_length)
  qed (rule kahnInv_init[OF names graph])
  then obtain t where t: "while_option ?b ?c ?s = Some t" ..
  have "kahnInv steps adj t"
    using while_option_rule[of "kahnInv steps adj", OF step t kahnInv_init[OF names graph]] .
  moreover have "\<not> ?b t" using while_option_stop[OF t] .
  ultimately show ?thesis
    using that[of "snd (snd t)" "fst (snd t)"] t by (auto simp: runKahn_def split: prod.splits)
qed


section \<open>The result of a pass\<close>

lemma kahnInv_complete:
  assumes "distinct (stepNames steps)" and "kahnInv steps adj ([], d, result)"
    and "length result = length steps"
  shows "mset result = mset steps" and "inOrder adj (stepNames result)"
proof -
  have "distinct result" "set result \<subseteq> set steps" "distinct steps"
    using assms(1,2) by (auto simp: kahnInv_def distinct_map)
  moreover from this have "card (set result) = card (set steps)"
    using assms(3) by (metis distinct_card)
  ultimately have "set result = set steps" by (metis card_subset_eq finite_set)
  with \<open>distinct result\<close> \<open>distinct steps\<close> show "mset result = mset steps"
    by (metis set_eq_iff_mset_eq_distinct)
  show "inOrder adj (stepNames result)" using assms(2) by (simp add: kahnInv_def)
qed

lemma kahnInv_stuck:
  assumes "graphOK (set (stepNames steps)) (adj, deg)" and "kahnInv steps adj ([], d, result)"
    and "n \<in> set (cycleMembers steps result)"
  obtains m where "m \<in> set (cycleMembers steps result)" "n \<in> set (adj m)"
proof -
  have members: "set (cycleMembers steps result) = set (stepNames steps) - set (stepNames result)"
    by (auto simp: cycleMembers_def)
  then have "d n \<noteq> 0" using assms(2,3) unfolding kahnInv_def prod.case by auto
  then obtain m where m: "n \<in> set (adj m)" "m \<notin> set (stepNames result)"
    using zero_degree[OF assms(1,2), of n] by blast
  then have "m \<in> set (stepNames steps)" using assms(1) by (fastforce simp: graphOK_def)
  with m members that show ?thesis by blast
qed

lemma cycleMembers_incomplete:
  assumes "distinct (stepNames steps)" and "kahnInv steps adj ([], d, result)"
    and "length result \<noteq> length steps"
  shows "cycleMembers steps result \<noteq> []"
proof
  assume none: "cycleMembers steps result = []"
  have "set (stepNames steps) \<subseteq> set (stepNames result)"
    using none by (auto simp: cycleMembers_def filter_empty_conv)
  then have "card (set (stepNames steps)) \<le> card (set (stepNames result))"
    by (intro card_mono) auto
  moreover have "distinct (stepNames result)" using assms(2) by (simp add: kahnInv_def)
  ultimately have "length steps \<le> length result"
    using assms(1) by (metis distinct_card length_map)
  with kahnInv_length[OF assms(2)] assms(3) show False by simp
qed

section \<open>Breaking a cycle\<close>

lemma highestMember_in: "members \<noteq> [] \<Longrightarrow> highestMember pos members \<in> set members"
proof -
  let ?f = "\<lambda>name best. if int (pos name) > fst best then (int (pos name), name) else best"
  have inv: "snd (fold ?f ms b) = snd b \<or> snd (fold ?f ms b) \<in> set ms" for ms and b :: "int \<times> string"
  proof (induction ms arbitrary: b)
    case Nil
    then show ?case by simp
  next
    case (Cons m ms)
    show ?case
      using Cons.IH[of "(int (pos m), m)"] Cons.IH[of b]
      by (cases "int (pos m) > fst b") auto
  qed
  assume "members \<noteq> []"
  then obtain m ms where "members = m # ms" by (cases members) auto
  then show ?thesis using inv[of ms "(int (pos m), m)"] by (auto simp: highestMember_def)
qed

lemma dropEdgeTo_cases:
  assumes "src0 \<in> set members" and "h \<in> set (adj src0)"
  obtains src where "src \<in> set members" "h \<in> set (adj src)"
    "dropEdgeTo h members (adj, deg) = (adj(src := remove1 h (adj src)), deg(h := deg h - 1))"
  using assms(1)
proof (induction members arbitrary: thesis)
  case Nil
  then show ?case by simp
next
  case (Cons m ms)
  show ?case
  proof (cases "h \<in> set (adj m)")
    case True
    then show ?thesis by (intro Cons.prems(1)[of m]) (simp_all add: fun_upd_def)
  next
    case False
    then have "src0 \<in> set ms" using Cons.prems(2) assms(2) by auto
    then show ?thesis using Cons.IH Cons.prems(1) False by auto
  qed
qed

lemma graphOK_remove:
  assumes "graphOK N (adj, deg)" and "finite N" and "h \<in> set (adj src)"
  shows "graphOK N (adj(src := remove1 h (adj src)), deg(h := deg h - 1))"
    and "edgeRel (adj(src := remove1 h (adj src))) = edgeRel adj - {(src, h)}"
proof -
  let ?adj = "adj(src := remove1 h (adj src))" and ?deg = "deg(h := deg h - 1)"
  have dist: "distinct (adj n)" for n using assms(1) by (simp add: graphOK_def)
  have srcN: "src \<in> N" using assms(1,3) by (auto simp: graphOK_def)
  have deg: "deg n = int (card {m \<in> N. n \<in> set (adj m)})" for n
    using assms(1) by (simp add: graphOK_def)
  have "{m \<in> N. h \<in> set (adj m)} = insert src {m \<in> N. h \<in> set (?adj m)}"
    and "src \<notin> {m \<in> N. h \<in> set (?adj m)}"
    using srcN assms(3) dist[of src] by auto
  with deg[of h] assms(2) have "deg h - 1 = int (card {m \<in> N. h \<in> set (?adj m)})"
    by (simp only: card_insert_disjoint finite_Collect_conjI) simp
  moreover have "{m \<in> N. n \<in> set (adj m)} = {m \<in> N. n \<in> set (?adj m)}" if "n \<noteq> h" for n
    using that dist[of src] by auto
  ultimately have "?deg n = int (card {m \<in> N. n \<in> set (?adj m)})" for n
    using deg[of n] by (cases "n = h") simp_all
  moreover have "distinct (?adj n) \<and> set (?adj n) \<subseteq> N \<and> (n \<notin> N \<longrightarrow> ?adj n = [])" for n
    using assms(1) srcN dist by (auto simp: graphOK_def)
  ultimately show "graphOK N (?adj, ?deg)" unfolding graphOK_def fst_conv snd_conv by blast
  show "edgeRel ?adj = edgeRel adj - {(src, h)}"
    using dist assms(3) by (auto simp: set_eq_iff split: if_splits)
qed


lemma breakCycle_edge:
  assumes names: "distinct (stepNames steps)" and graph: "graphOK (set (stepNames steps)) (adj, deg)"
    and inv: "kahnInv steps adj ([], d, result)" and stuck: "length result \<noteq> length steps"
  obtains e where "e \<in> edgeRel adj"
    "graphOK (set (stepNames steps)) (breakCycle steps result (adj, deg))"
    "edgeRel (fst (breakCycle steps result (adj, deg))) = edgeRel adj - {e}"
proof -
  let ?ms = "cycleMembers steps result"
  let ?h = "highestMember (positionOf steps) ?ms"
  have "?h \<in> set ?ms" using cycleMembers_incomplete[OF names inv stuck] by (rule highestMember_in)
  then obtain m where "m \<in> set ?ms" "?h \<in> set (adj m)"
    using kahnInv_stuck[OF graph inv] by blast
  then obtain src where src: "?h \<in> set (adj src)"
      "dropEdgeTo ?h ?ms (adj, deg) = (adj(src := remove1 ?h (adj src)), deg(?h := deg ?h - 1))"
    by (rule dropEdgeTo_cases)
  with graphOK_remove[OF graph _ src(1)] that[of "(src, ?h)"] show ?thesis
    by (simp add: breakCycle_def Let_def)
qed

section \<open>Cycles\<close>

text \<open>A list that holds all names in order witnesses that there is no cycle.\<close>

lemma inOrder_acyclic:
  assumes "inOrder adj ns" and "\<And>m. set (adj m) \<subseteq> set ns"
  shows "acyclic (edgeRel adj)"
proof -
  let ?at = "\<lambda>n. LEAST i. i < length ns \<and> ns ! i = n"
  have "?at m < ?at n" if "n \<in> set (adj m)" for m n
  proof -
    have "\<exists>i. i < length ns \<and> ns ! i = n" using assms(2) that by (metis in_set_conv_nth subsetD)
    then have n: "?at n < length ns \<and> ns ! ?at n = n" by (rule LeastI_ex)
    then have "m \<in> set (take (?at n) ns)" using assms(1) that by (auto simp: inOrder_def)
    then obtain j where "j < ?at n" "j < length ns" "ns ! j = m"
      by (auto simp: in_set_conv_nth)
    then have "?at m \<le> j" by (intro Least_le) simp
    with \<open>j < ?at n\<close> show ?thesis by simp
  qed
  then have "edgeRel adj \<subseteq> measure ?at" by (auto simp: edgeRel_def)
  then show ?thesis by (meson wf_acyclic wf_measure wf_subset)
qed

lemma acyclic_complete:
  assumes names: "distinct (stepNames steps)" and graph: "graphOK (set (stepNames steps)) (adj, deg)"
    and inv: "kahnInv steps adj ([], d, result)" and acyclic: "acyclic (edgeRel adj)"
  shows "length result = length steps"
proof (rule ccontr)
  let ?ms = "set (cycleMembers steps result)" and ?N = "set (stepNames steps)"
  assume "length result \<noteq> length steps"
  then obtain n where n: "n \<in> ?ms"
    using cycleMembers_incomplete[OF names inv] by (meson hd_in_set)
  have "edgeRel adj \<subseteq> ?N \<times> ?N" using graph by (fastforce simp: graphOK_def edgeRel_def)
  then have "finite (edgeRel adj)" by (rule finite_subset) simp
  then have "wf (edgeRel adj)" using acyclic by (rule finite_acyclic_wf)
  then obtain z where "z \<in> ?ms" "\<And>m. (m, z) \<in> edgeRel adj \<Longrightarrow> m \<notin> ?ms"
    using n by (metis wfE_min)
  then show False using kahnInv_stuck[OF graph inv, of z] by auto
qed

section \<open>Sorting\<close>

lemma kahnLoop_result:
  assumes "distinct (stepNames steps)" and "graphOK (set (stepNames steps)) ad"
  shows "\<exists>result warned adj'. kahnLoop steps ad ws = Some (result, ws @ warned) \<and>
     mset result = mset steps \<and> inOrder adj' (stepNames result) \<and>
     edgeRel adj' \<subseteq> edgeRel (fst ad) \<and> (warned = [] \<longrightarrow> adj' = fst ad) \<and>
     (warned = [] \<longleftrightarrow> acyclic (edgeRel (fst ad)))"
  using assms(2)
proof (induction "card (edgeRel (fst ad))" arbitrary: ad ws rule: less_induct)
  case less
  obtain adj deg where ad: "ad = (adj, deg)" by fastforce
  let ?N = "set (stepNames steps)"
  have graph: "graphOK ?N (adj, deg)" using less.prems ad by simp
  obtain d result where run: "runKahn steps adj deg = Some result"
      and inv: "kahnInv steps adj ([], d, result)"
    using runKahn_inv[OF assms(1) graph] .
  show ?case
  proof (cases "length result = length steps")
    case True
    note complete = kahnInv_complete[OF assms(1) inv True]
    have "set (stepNames result) = ?N" using complete(1) by (metis mset_eq_setD list.set_map)
    then have "acyclic (edgeRel adj)"
      using graph by (intro inOrder_acyclic[OF complete(2)]) (simp add: graphOK_def)
    with True run complete show ?thesis
      by (intro exI[of _ result] exI[of _ "[]"] exI[of _ adj]) (simp add: ad kahnLoop.simps)
  next
    case False
    let ?ad = "breakCycle steps result (adj, deg)"
    let ?w = "Msg ''cycle detected among steps: %s'' [AStr (joinNames (cycleMembers steps result))]"
    obtain e where e: "e \<in> edgeRel adj" "graphOK ?N ?ad" "edgeRel (fst ?ad) = edgeRel adj - {e}"
      using breakCycle_edge[OF assms(1) graph inv False] .
    have "edgeRel adj \<subseteq> ?N \<times> ?N" using graph by (fastforce simp: graphOK_def edgeRel_def)
    then have "finite (edgeRel adj)" by (rule finite_subset) simp
    then have "card (edgeRel (fst ?ad)) < card (edgeRel (fst ad))"
      unfolding e(3) ad fst_conv using e(1) by (rule card_Diff1_less)
    from less.hyps[OF this e(2), of "ws @ [?w]"] obtain result' warned adj' where r:
        "kahnLoop steps ?ad (ws @ [?w]) = Some (result', (ws @ [?w]) @ warned)"
        "mset result' = mset steps" "inOrder adj' (stepNames result')"
        "edgeRel adj' \<subseteq> edgeRel (fst ?ad)" by blast
    have "\<not> acyclic (edgeRel adj)" using acyclic_complete[OF assms(1) graph inv] False by blast
    moreover have "kahnLoop steps ad ws = Some (result', ws @ ?w # warned)"
      using r(1) False run by (simp add: ad kahnLoop.simps[of steps "(adj, deg)"])
    ultimately show ?thesis
      using r(2-4) e(3) by (intro exI[of _ result'] exI[of _ "?w # warned"] exI[of _ adj']) (auto simp: ad)
  qed
qed


section \<open>Steps that are in order already\<close>

text \<open>Ties go to the lower position, so a list in order is its own result.\<close>

lemma kahnStep_next:
  assumes names: "distinct (stepNames steps)" and graph: "graphOK (set (stepNames steps)) (adj, deg)"
    and inv: "kahnInv steps adj (queue, d, result)" and queue: "queue \<noteq> []"
    and order: "inOrder adj (stepNames steps)" and sofar: "stepNames result = take k (stepNames steps)"
  shows "k < length steps \<and> queue ! bestIndex (positionOf steps) queue = upName (steps ! k)"
proof -
  let ?pos = "positionOf steps"
  let ?c = "queue ! bestIndex ?pos queue"
  note best = bestIndex_min[OF queue, of ?pos]
  have "?c \<in> set queue" using best by simp
  then have c: "?c \<in> set (stepNames steps)" "?c \<notin> set (take k (stepNames steps))"
    using inv unfolding kahnInv_def prod.case sofar by auto
  then obtain j where j: "j < length steps" "?c = upName (steps ! j)"
    by (auto simp: in_set_conv_nth)
  have "k \<le> j"
  proof (rule ccontr)
    assume "\<not> k \<le> j"
    then have "take k (stepNames steps) ! j \<in> set (take k (stepNames steps))"
      using j(1) by (intro nth_mem) simp
    with c(2) j \<open>\<not> k \<le> j\<close> show False by simp
  qed
  with j(1) have k: "k < length steps" by simp
  let ?n = "stepNames steps ! k"
  have "\<forall>m. ?n \<in> set (adj m) \<longrightarrow> m \<in> set (stepNames result)"
    using order k unfolding inOrder_def sofar by simp
  then have "d ?n = 0" using zero_degree[OF graph inv] by blast
  moreover have "?n \<in> set (stepNames steps)" using k by (intro nth_mem) simp
  ultimately have "?n \<in> set (stepNames result) \<union> set queue"
    using inv unfolding kahnInv_def prod.case set_append by blast
  moreover have "?n \<notin> set (take k (stepNames steps))"
    using names k by (metis id_take_nth_drop distinct_append length_map list.set_intros(1)
        disjoint_iff)
  ultimately have "?n \<in> set queue" unfolding sofar by blast
  then obtain i where "i < length queue" "queue ! i = ?n" by (auto simp: in_set_conv_nth)
  then have "?pos ?c \<le> ?pos ?n" using best by metis
  then have "j \<le> k" using positionOf_nth[OF names] j k by simp
  with \<open>k \<le> j\<close> j k show ?thesis by simp
qed

lemma runKahn_ordered:
  assumes names: "distinct (stepNames steps)" and graph: "graphOK (set (stepNames steps)) (adj, deg)"
    and order: "inOrder adj (stepNames steps)"
  shows "runKahn steps adj deg = Some steps"
proof -
  let ?b = "\<lambda>(queue, _, _). queue \<noteq> []"
    and ?c = "kahnStep (positionOf steps) (stepMap steps) adj"
    and ?s = "(map upName (filter (\<lambda>s. deg (upName s) = 0) steps), deg, [])"
    and ?I = "\<lambda>(queue, d, result). kahnInv steps adj (queue, d, result) \<and>
       (\<exists>k. stepNames result = take k (stepNames steps))"
  have step: "?I (?c st)" if I: "?I st" "?b st" for st
  proof -
    obtain queue d result where st: "st = (queue, d, result)" by (cases st)
    with I obtain k where inv: "kahnInv steps adj (queue, d, result)" and queue: "queue \<noteq> []"
      and k: "stepNames result = take k (stepNames steps)" by auto
    note nxt = kahnStep_next[OF names graph inv queue order k]
    then have "stepMap steps (queue ! bestIndex (positionOf steps) queue) = Some (steps ! k)"
      using stepMap_in[OF names] by simp
    then have "stepNames (snd (snd (?c st))) = take (Suc k) (stepNames steps)"
      using nxt k by (simp add: st kahnStep_def Let_def take_Suc_conv_app_nth split: prod.split)
    with kahnInv_step[OF names graph inv queue, of "positionOf steps"] show ?thesis
      by (auto simp: st split: prod.splits)
  qed
  obtain d result where run: "runKahn steps adj deg = Some result"
      and inv: "kahnInv steps adj ([], d, result)"
    using runKahn_inv[OF names graph] .
  then obtain t where t: "while_option ?b ?c ?s = Some t" "snd (snd t) = result"
    by (auto simp: runKahn_def)
  have "?I ?s" using kahnInv_init[OF names graph] by auto
  from while_option_rule[of ?I, OF step t(1) this] t(2)
  obtain k where k: "stepNames result = take k (stepNames steps)" by (auto split: prod.splits)
  have "length steps \<le> k"
  proof (rule ccontr)
    assume "\<not> length steps \<le> k"
    then have "\<forall>m. stepNames steps ! k \<in> set (adj m) \<longrightarrow> m \<in> set (stepNames result)"
      using order unfolding inOrder_def k by simp
    then have "d (stepNames steps ! k) = 0" using zero_degree[OF graph inv] by blast
    moreover have "stepNames steps ! k \<in> set (stepNames steps)"
      using \<open>\<not> length steps \<le> k\<close> by (intro nth_mem) simp
    ultimately have "stepNames steps ! k \<in> set (take k (stepNames steps))"
      using inv unfolding kahnInv_def prod.case append_Nil2 k by blast
    moreover have "stepNames steps ! k \<notin> set (take k (stepNames steps))"
      using names \<open>\<not> length steps \<le> k\<close> by (metis id_take_nth_drop distinct_append length_map
          list.set_intros(1) disjoint_iff not_le)
    ultimately show False by blast
  qed
  then have "stepNames result = stepNames steps" using k by simp
  moreover have "set result \<subseteq> set steps" using inv by (simp add: kahnInv_def)
  ultimately have "result = steps"
    using names by (intro map_inj_on[of upName]) (auto simp: distinct_map Un_absorb1)
  with run show ?thesis by simp
qed


section \<open>The order of a sequence\<close>

definition comesBefore :: "string list \<Rightarrow> string \<Rightarrow> string \<Rightarrow> bool" where
  "comesBefore ns m n \<longleftrightarrow> m \<in> set (takeWhile (\<lambda>x. x \<noteq> n) ns)"

lemma comesBefore_nth:
  assumes "distinct ns" and "i < length ns"
  shows "comesBefore ns m (ns ! i) \<longleftrightarrow> m \<in> set (take i ns)"
proof -
  have "takeWhile (\<lambda>x. x \<noteq> ns ! i) ns = take i ns"
    using assms by (intro takeWhile_eq_take_P_nth) (auto simp: nth_eq_iff_index_eq)
  then show ?thesis by (simp add: comesBefore_def)
qed

lemma inOrder_comesBefore:
  assumes "distinct ns" and "\<And>m. set (adj m) \<subseteq> set ns"
  shows "inOrder adj ns \<longleftrightarrow> (\<forall>(m, n) \<in> edgeRel adj. comesBefore ns m n)"
proof
  assume order: "inOrder adj ns"
  have "comesBefore ns m n" if n: "n \<in> set (adj m)" for m n
  proof -
    from n assms(2) obtain i where i: "i < length ns" "ns ! i = n" by (metis in_set_conv_nth subsetD)
    then have "m \<in> set (take i ns)" using order n by (auto simp: inOrder_def)
    with comesBefore_nth[OF assms(1) i(1)] i(2) show ?thesis by simp
  qed
  then show "\<forall>(m, n) \<in> edgeRel adj. comesBefore ns m n" by auto
next
  assume "\<forall>(m, n) \<in> edgeRel adj. comesBefore ns m n"
  then show "inOrder adj ns"
    using comesBefore_nth[OF assms(1)] by (fastforce simp: inOrder_def)
qed

lemma inferredEdges_names:
  "set (inferredEdges g ops steps) \<subseteq> set (stepNames steps) \<times> set (stepNames steps)"
proof
  fix e
  have sub: "s \<in> set steps" if "(i, s) \<in> set (enumerate 0 steps)" for i :: nat and s
    using that by (auto simp: enumerate_eq_zip dest: set_zip_rightD)
  assume "e \<in> set (inferredEdges g ops steps)"
  then obtain i a j b where "e = (upName a, upName b)"
      "(i, a) \<in> set (enumerate 0 steps)" "(j, b) \<in> set (enumerate 0 steps)"
    by (auto simp: inferredEdges_def split: if_splits)
  then show "e \<in> set (stepNames steps) \<times> set (stepNames steps)" using sub by auto
qed

lemma sequenceEdges_names:
  assumes "\<forall>s\<in>set steps. set (upDependsOn s) \<subseteq> set (stepNames steps)"
  shows "set (sequenceEdges steps graph opts) \<subseteq> set (stepNames steps) \<times> set (stepNames steps)"
proof -
  have "set (explicitEdges steps) \<subseteq> set (stepNames steps) \<times> set (stepNames steps)"
    using assms by (auto simp: explicitEdges_def)
  moreover have "set (case graph of
        Some g \<Rightarrow> if soAutoInferDeps opts then inferredEdges g (soOperators opts) steps else []
      | None \<Rightarrow> []) \<subseteq> set (stepNames steps) \<times> set (stepNames steps)"
  proof (cases graph)
    case (Some g)
    then show ?thesis
      using inferredEdges_names[of g "soOperators opts" steps]
      by (cases "soAutoInferDeps opts") simp_all
  qed simp
  ultimately show ?thesis unfolding sequenceEdges_def set_append by blast
qed

lemma unknownDependency_None:
  "unknownDependency steps = None \<longleftrightarrow>
     (\<forall>s\<in>set steps. set (upDependsOn s) \<subseteq> set (stepNames steps))"
proof -
  have "unknownDependency steps = None \<longleftrightarrow> (\<forall>s\<in>set steps. \<forall>dep\<in>set (upDependsOn s).
      failIf (nameIndex steps dep = None)
        (Errorf ''step %q depends on unknown step %q'' [AStr (upName s), AStr dep]) = None)"
    by (simp add: unknownDependency_def firstErr_None_iff)
  also have "\<dots> \<longleftrightarrow> (\<forall>s\<in>set steps. \<forall>dep\<in>set (upDependsOn s). dep \<in> set (stepNames steps))"
    by (simp add: failIf_def)
  finally show ?thesis by blast
qed

lemma Sequence_eq:
  assumes known: "\<forall>s\<in>set steps. set (upDependsOn s) \<subseteq> set (stepNames steps)"
  obtains ad where "graphOK (set (stepNames steps)) ad"
    "edgeRel (fst ad) = set (sequenceEdges steps graph opts)"
    "steps \<noteq> [] \<Longrightarrow> Sequence steps graph opts = map_option (\<lambda>(ordered, warnings).
       Inr (if soInjectHealthGates opts then injectHealthGates ordered else ordered, warnings))
         (kahnLoop steps ad [])"
proof -
  let ?ad = "fold addStepEdge (sequenceEdges steps graph opts) (\<lambda>_. [], \<lambda>_. 0)"
  have "graphOK (set (stepNames steps)) ?ad \<and>
      edgeRel (fst ?ad) = edgeRel (fst (\<lambda>_::string. [] :: string list, \<lambda>_::string. 0::int)) \<union>
        set (sequenceEdges steps graph opts)"
    using sequenceEdges_names[OF known] graphOK_empty by (intro graphOK_fold) auto
  moreover have "steps \<noteq> [] \<Longrightarrow> Sequence steps graph opts = map_option (\<lambda>(ordered, warnings).
       Inr (if soInjectHealthGates opts then injectHealthGates ordered else ordered, warnings))
         (kahnLoop steps ?ad [])"
  proof -
    assume "steps \<noteq> []"
    moreover have "unknownDependency steps = None" using known by (simp only: unknownDependency_None)
    ultimately show ?thesis by (simp add: Sequence_def kahnSort_def split: prod.split)
  qed
  ultimately show ?thesis using that[of ?ad] by simp
qed

text \<open>With distinct step names and known dependencies the sequencer returns, whatever the
  graph: its result holds each step once, it warns exactly if the edges have a cycle, and without a
  warning every step comes after all the steps it depends on.\<close>

lemma Sequence_result:
  assumes "distinct (stepNames steps)"
    and "\<forall>s\<in>set steps. set (upDependsOn s) \<subseteq> set (stepNames steps)"
  shows "\<exists>ordered warnings.
     Sequence steps graph opts = Some (Inr
       (if soInjectHealthGates opts then injectHealthGates ordered else ordered, warnings)) \<and>
     mset ordered = mset steps \<and>
     (warnings = [] \<longleftrightarrow> acyclic (set (sequenceEdges steps graph opts))) \<and>
     (warnings = [] \<longrightarrow>
        (\<forall>(m, n) \<in> set (sequenceEdges steps graph opts). comesBefore (stepNames ordered) m n))"
proof (cases "steps = []")
  case True
  then have "sequenceEdges steps graph opts = []"
    by (simp add: sequenceEdges_def explicitEdges_def inferredEdges_def split: option.split)
  with True show ?thesis by (simp add: Sequence_def acyclic_def)
next
  case False
  obtain ad where ad: "graphOK (set (stepNames steps)) ad"
      "edgeRel (fst ad) = set (sequenceEdges steps graph opts)"
      "Sequence steps graph opts = map_option (\<lambda>(ordered, warnings).
         Inr (if soInjectHealthGates opts then injectHealthGates ordered else ordered, warnings))
           (kahnLoop steps ad [])"
    by (rule Sequence_eq[OF assms(2), of graph opts]) (use False in simp)
  obtain result warned adj' where r: "kahnLoop steps ad [] = Some (result, warned)"
      "mset result = mset steps" "inOrder adj' (stepNames result)"
      "warned = [] \<longrightarrow> adj' = fst ad" "warned = [] \<longleftrightarrow> acyclic (edgeRel (fst ad))"
    using kahnLoop_result[OF assms(1) ad(1), of "[]"] by auto
  have names: "mset (stepNames result) = mset (stepNames steps)" using r(2) by simp
  then have dist: "distinct (stepNames result)"
    and same: "set (stepNames result) = set (stepNames steps)"
    using assms(1) by (metis mset_eq_imp_distinct_iff, metis mset_eq_setD)
  have "set (fst ad m) \<subseteq> set (stepNames result)" for m
    using ad(1) unfolding same graphOK_def by blast
  note order = inOrder_comesBefore[OF dist this]
  have "warned = [] \<longrightarrow> inOrder (fst ad) (stepNames result)"
    using r(3,4) by (cases "warned = []") simp_all
  then have "warned = [] \<longrightarrow>
      (\<forall>(m, n) \<in> edgeRel (fst ad). comesBefore (stepNames result) m n)"
    unfolding order .
  with r ad(2,3) show ?thesis by auto
qed

text \<open>C37. Steps that are listed in a valid order stay as they are: the sequencer moves no step without
  need.\<close>

theorem sequence_keeps_order:
  assumes "distinct (stepNames steps)"
    and "\<forall>(m, n) \<in> set (sequenceEdges steps graph opts). comesBefore (stepNames steps) m n"
  shows "Sequence steps graph opts =
     Some (Inr (if soInjectHealthGates opts then injectHealthGates steps else steps, []))"
proof (cases "steps = []")
  case True
  then show ?thesis by (simp add: Sequence_def)
next
  case False
  have "dep \<in> set (stepNames steps)" if "s \<in> set steps" "dep \<in> set (upDependsOn s)" for s dep
  proof -
    have "(dep, upName s) \<in> set (sequenceEdges steps graph opts)"
      using that unfolding sequenceEdges_def explicitEdges_def by auto
    with assms(2) have "comesBefore (stepNames steps) dep (upName s)" by blast
    then show ?thesis unfolding comesBefore_def by (rule set_takeWhileD[THEN conjunct1])
  qed
  then have known: "\<forall>s\<in>set steps. set (upDependsOn s) \<subseteq> set (stepNames steps)" by blast
  obtain ad where ad: "graphOK (set (stepNames steps)) ad"
      "edgeRel (fst ad) = set (sequenceEdges steps graph opts)"
      "Sequence steps graph opts = map_option (\<lambda>(ordered, warnings).
         Inr (if soInjectHealthGates opts then injectHealthGates ordered else ordered, warnings))
           (kahnLoop steps ad [])"
    by (rule Sequence_eq[OF known, of graph opts]) (use False in simp)
  have "set (fst ad m) \<subseteq> set (stepNames steps)" for m
    using ad(1) unfolding graphOK_def by blast
  note order = inOrder_comesBefore[OF assms(1) this]
  have "inOrder (fst ad) (stepNames steps)" unfolding order ad(2) by (rule assms(2))
  then have "runKahn steps (fst ad) (snd ad) = Some steps"
    using ad(1) by (intro runKahn_ordered[OF assms(1)]) simp_all
  then show ?thesis by (simp add: ad(3) kahnLoop.simps)
qed


section \<open>Examples and limits\<close>

definition demoStep :: "string \<Rightarrow> string list \<Rightarrow> upStep" where
  "demoStep name deps = \<lparr>upName = name, upType = ''kubectl'', upDependsOn = deps,
     upComponent = name, upKnowledgeRef = '''', upSynthetic = False\<rparr>"

definition plainOptions :: sequencerOptions where
  "plainOptions = \<lparr>soInjectHealthGates = False, soAutoInferDeps = False, soOperators = []\<rparr>"

lemma Sequence_result_example:
  "\<exists>ordered warnings.
     Sequence [demoStep ''b'' [''a''], demoStep ''a'' []] None plainOptions = Some (Inr
       (if soInjectHealthGates plainOptions then injectHealthGates ordered else ordered, warnings)) \<and>
     mset ordered = mset [demoStep ''b'' [''a''], demoStep ''a'' []] \<and>
     (warnings = [] \<longleftrightarrow>
        acyclic (set (sequenceEdges [demoStep ''b'' [''a''], demoStep ''a'' []] None plainOptions))) \<and>
     (warnings = [] \<longrightarrow>
        (\<forall>(m, n) \<in> set (sequenceEdges [demoStep ''b'' [''a''], demoStep ''a'' []] None plainOptions).
           comesBefore (stepNames ordered) m n))"
  by (rule Sequence_result) (simp_all add: demoStep_def)

theorem sequence_keeps_order_witness:
  "Sequence [demoStep ''a'' [], demoStep ''c'' [], demoStep ''b'' [''a'']] None plainOptions =
     Some (Inr ([demoStep ''a'' [], demoStep ''c'' [], demoStep ''b'' [''a'']], []))"
  using sequence_keeps_order[of "[demoStep ''a'' [], demoStep ''c'' [], demoStep ''b'' [''a'']]"
      None plainOptions]
  by (simp add: demoStep_def plainOptions_def sequenceEdges_def explicitEdges_def comesBefore_def)

lemma sequence_reorders:
  "Sequence [demoStep ''b'' [''a''], demoStep ''a'' []] None plainOptions =
     Some (Inr ([demoStep ''a'' [], demoStep ''b'' [''a'']], []))"
  by code_simp

text \<open>
  The edge that is dropped to break a cycle need not be on it. Here \<open>a\<close> and \<open>b\<close> form the cycle, \<open>c\<close>
  only depends on \<open>b\<close> and nothing depends on \<open>c\<close>; \<open>c\<close> has the highest position of the steps that the
  first pass leaves, so its edge is dropped and it runs before \<open>b\<close>.
\<close>

definition cycleSteps :: "upStep list" where
  "cycleSteps = [demoStep ''b'' [''a'', ''z''], demoStep ''a'' [''b''], demoStep ''c'' [''b''],
     demoStep ''z'' []]"

lemma cycle_break_drops_sound_edge:
  "Sequence cycleSteps None plainOptions = Some (Inr
     ([demoStep ''a'' [''b''], demoStep ''c'' [''b''], demoStep ''z'' [],
       demoStep ''b'' [''a'', ''z'']],
      [Msg ''cycle detected among steps: %s'' [AStr ''b, a, c''],
       Msg ''cycle detected among steps: %s'' [AStr ''b, a'']])) \<and>
   (\<forall>n. (''c'', n) \<notin> set (sequenceEdges cycleSteps None plainOptions))"
proof
  show "\<forall>n. (''c'', n) \<notin> set (sequenceEdges cycleSteps None plainOptions)"
    by (simp add: cycleSteps_def demoStep_def sequenceEdges_def explicitEdges_def)
qed code_simp

text \<open>
  Nothing in the sequencer rejects two steps of one name (the comment at its index announces it). A
  step with a dependency is put into the queue once, so the result is never as long as the list; with
  no step left to blame, the loop repeats itself and does not end.
\<close>

lemma kahnLoop_repeats:
  assumes "runKahn steps (fst ad) (snd ad) = Some result" and "length result \<noteq> length steps"
    and "breakCycle steps result ad = ad"
  shows "kahnLoop steps ad ws = None"
proof -
  have "s = steps \<longrightarrow> a = ad \<longrightarrow> False" if "kahnLoop s a w = Some y" for s a w y
    using that
  proof (rule kahnLoop.raw_induct[rotated, where P = "\<lambda>s a _ _. s = steps \<longrightarrow> a = ad \<longrightarrow> False"])
    fix loop s a w y
    let ?w = "w @ [Msg ''cycle detected among steps: %s'' [AStr (joinNames (cycleMembers s result))]]"
    assume hyp: "\<And>s a w y. loop s a w = Some y \<Longrightarrow> s = steps \<longrightarrow> a = ad \<longrightarrow> False"
      and body: "Option.bind (runKahn s (fst a) (snd a)) (\<lambda>result.
          if length result = length s then Some (result, w)
          else loop s (breakCycle s result a) (w @ [Msg ''cycle detected among steps: %s''
            [AStr (joinNames (cycleMembers s result))]])) = Some y"
    show "s = steps \<longrightarrow> a = ad \<longrightarrow> False"
    proof (intro impI)
      assume "s = steps" "a = ad"
      with body have "loop steps ad ?w = Some y" by (simp add: assms)
      with hyp show False by blast
    qed
  qed
  then show ?thesis by (cases "kahnLoop steps ad ws") blast+
qed

lemma sequence_duplicate_never_returns:
  "Sequence [demoStep ''a'' [], demoStep ''b'' [''a''], demoStep ''b'' [''a'']] None plainOptions = None"
proof -
  let ?steps = "[demoStep ''a'' [], demoStep ''b'' [''a''], demoStep ''b'' [''a'']]"
  let ?ad = "fold addStepEdge (sequenceEdges ?steps None plainOptions) (\<lambda>_. [], \<lambda>_. 0)"
  let ?r = "[demoStep ''a'' [], demoStep ''b'' [''a'']]"
  have "runKahn ?steps (fst ?ad) (snd ?ad) = Some ?r" by code_simp
  moreover have "cycleMembers ?steps ?r = []" by code_simp
  then have "breakCycle ?steps ?r ?ad = ?ad" by (simp add: breakCycle_def)
  ultimately have "kahnLoop ?steps ?ad [] = None" by (intro kahnLoop_repeats) simp_all
  moreover have "unknownDependency ?steps = None" by code_simp
  ultimately show ?thesis by (simp add: Sequence_def kahnSort_def split: prod.split)
qed

section \<open>Health gates\<close>

lemma injectHealthGates_steps:
  "filter (\<lambda>s. \<not> upSynthetic s) (injectHealthGates steps) = filter (\<lambda>s. \<not> upSynthetic s) steps"
  by (induction steps rule: injectHealthGates.induct) (auto simp: gateBetween_def healthGate_def)

lemma injectHealthGates_Cons: "\<exists>rest. injectHealthGates (s # steps) = s # rest"
  by (cases steps) auto

lemma injectHealthGates_gated:
  "successively (\<lambda>prev cur. gateBetween prev cur \<noteq> [] \<longrightarrow> upSynthetic prev) (injectHealthGates steps)"
proof (induction steps rule: injectHealthGates.induct)
  case (1 prev cur steps)
  moreover obtain rest where "injectHealthGates (cur # steps) = cur # rest"
    using injectHealthGates_Cons by blast
  ultimately show ?case by (auto simp: gateBetween_def healthGate_def)
qed simp_all


end
