(* ===== verification/Playbook.thy ===== *)
theory Playbook
  imports Sequencer
begin

text \<open>
  Playbooks for upgrades and chaos runs (\<open>internal/cli/upgrade\<close>): the data of a playbook and its
  defaults (\<open>types.go\<close>, \<open>playbook.go\<close>), its validation, and the reordering of its steps by the
  sequencer (\<open>internal/cli/playbook.go\<close>). Reading and decoding the file is input; the model starts with
  the decoded playbook.
\<close>

section \<open>Data\<close>

record verifyCondition =
  vfType :: string
  vfAPIVersion :: string
  vfKind :: string
  vfNamespace :: string
  vfLabelSelector :: string

record playbookStep =
  psName :: string
  psType :: string
  psKnowledgeDir :: string
  psCommands :: "string list"
  psVerify :: "verifyCondition option"
  psDescription :: string
  psAutoCheck :: string
  psExperiments :: "string list"
  psKnowledge :: string
  psDependsOn :: "string list"
  psPathRef :: string
  psSynthetic :: bool

record versionRef =
  vrKnowledgeDir :: string
  vrVersion :: string

record hop =
  hpChannel :: string
  hpMaxWait :: duration

record upgradePath =
  utName :: string
  utOperator :: string
  utNamespace :: string
  utHops :: "hop list"
  utDependsOn :: "string list"

record rollbackConfig =
  rgEnabled :: bool
  rgSnapshotCRDs :: bool
  rgMaxRollbackWait :: duration

record upgradeSpec =
  ugSource :: versionRef
  ugTarget :: versionRef
  ugPath :: "upgradePath option"
  ugPaths :: "upgradePath list"
  ugRollback :: "rollbackConfig option"
  ugSteps :: "playbookStep list"

record chaosSpec =
  cpKnowledgeDir :: string
  cpSteps :: "playbookStep list"

record playbookMetadata =
  pmName :: string
  pmDescription :: string

record playbookSpec =
  pbAPIVersion :: string
  pbKind :: string
  pbMetadata :: playbookMetadata
  pbUpgrade :: "upgradeSpec option"
  pbChaos :: "chaosSpec option"

definition Steps :: "playbookSpec \<Rightarrow> playbookStep list" where
  "Steps pb =
     (case pbUpgrade pb of
        Some u \<Rightarrow> ugSteps u
      | None \<Rightarrow> (case pbChaos pb of Some c \<Rightarrow> cpSteps c | None \<Rightarrow> []))"

definition DefaultMaxWait :: duration where
  "DefaultMaxWait = 20 * 60 * second"

text \<open>What \<open>LoadPlaybook\<close> does with the decoded file: the single path becomes the list, and hops
  without a bound get the default one.\<close>

definition singlePath :: "upgradeSpec \<Rightarrow> upgradeSpec" where
  "singlePath u =
     (case ugPath u of
        Some p \<Rightarrow> if ugPaths u = [] then u\<lparr>ugPaths := [p], ugPath := None\<rparr> else u
      | None \<Rightarrow> u)"

definition defaultWaits :: "upgradeSpec \<Rightarrow> upgradeSpec" where
  "defaultWaits u = u\<lparr>ugPaths := map (\<lambda>p. p\<lparr>utHops := map
     (\<lambda>h. if hpMaxWait h = 0 then h\<lparr>hpMaxWait := DefaultMaxWait\<rparr> else h) (utHops p)\<rparr>) (ugPaths u)\<rparr>"

definition LoadPlaybook :: "playbookSpec \<Rightarrow> playbookSpec" where
  "LoadPlaybook pb = pb\<lparr>pbUpgrade := map_option (defaultWaits \<circ> singlePath) (pbUpgrade pb)\<rparr>"

definition HasShellCommands :: "playbookSpec \<Rightarrow> bool" where
  "HasShellCommands pb = list_ex (\<lambda>s. psType s = ''kubectl'' \<and> psCommands s \<noteq> []) (Steps pb)"

section \<open>Validation\<close>

definition validStepTypes :: "string list" where
  "validStepTypes = [''validate-version'', ''kubectl'', ''manual'', ''olm'', ''chaos'']"

fun validatePaths :: "int \<Rightarrow> upgradePath list \<Rightarrow> message list" where
  "validatePaths i [] = []"
| "validatePaths i (p # paths) =
     errIf (utOperator p = '''') (Msg ''upgrade.paths[%d].operator is required'' [AInt i])
   @ errIf (utNamespace p = '''') (Msg ''upgrade.paths[%d].namespace is required'' [AInt i])
   @ errIf (utHops p = []) (Msg ''upgrade.paths[%d].hops must have at least one entry'' [AInt i])
   @ validatePaths (i + 1) paths"

definition validateUpgrade :: "playbookSpec \<Rightarrow> message list" where
  "validateUpgrade pb =
     (case pbUpgrade pb of
        None \<Rightarrow> [Msg ''upgrade spec is required'' []]
      | Some u \<Rightarrow>
          errIf (vrKnowledgeDir (ugSource u) = '''') (Msg ''upgrade.source.knowledgeDir is required'' [])
        @ errIf (vrVersion (ugSource u) = '''') (Msg ''upgrade.source.version is required'' [])
        @ errIf (vrKnowledgeDir (ugTarget u) = '''') (Msg ''upgrade.target.knowledgeDir is required'' [])
        @ errIf (vrVersion (ugTarget u) = '''') (Msg ''upgrade.target.version is required'' [])
        @ (if list_ex (\<lambda>s. psType s = ''olm'') (ugSteps u) then
             if ugPaths u = [] then [Msg ''upgrade.paths is required when using olm steps'' []]
             else validatePaths 0 (ugPaths u)
           else [])
        @ (if 1 < length (ugPaths u) then
             map (\<lambda>s. Msg ''step %q: pathRef is required when multiple paths are defined''
                    [AStr (psName s)])
               (filter (\<lambda>s. psType s = ''olm'' \<and> psPathRef s = '''') (ugSteps u))
           else [])
        @ errIf (ugSteps u = []) (Msg ''upgrade.steps must have at least one step'' []))"

definition validateChaos :: "playbookSpec \<Rightarrow> message list" where
  "validateChaos pb =
     (case pbChaos pb of
        None \<Rightarrow> [Msg ''chaos spec is required'' []]
      | Some c \<Rightarrow>
          errIf (cpKnowledgeDir c = '''') (Msg ''chaos.knowledgeDir is required'' [])
        @ errIf (cpSteps c = []) (Msg ''chaos.steps must have at least one step'' []))"

definition validateStepDeps :: "playbookStep list \<Rightarrow> string set \<Rightarrow> playbookStep \<Rightarrow> message list" where
  "validateStepDeps steps seen s =
     map (\<lambda>dep. Msg ''step %q: dependsOn references non-existent step %q'' [AStr (psName s), AStr dep])
       (filter (\<lambda>dep. dep \<notin> seen \<and> \<not> list_ex (\<lambda>other. psName other = dep) steps) (psDependsOn s))"

fun validateStepsFrom ::
  "playbookStep list \<Rightarrow> int \<Rightarrow> string set \<Rightarrow> playbookStep list \<Rightarrow> message list" where
  "validateStepsFrom steps i seen [] = []"
| "validateStepsFrom steps i seen (s # ss) =
     (if psName s = '''' then
        Msg ''step %d: name is required'' [AInt i] # validateStepsFrom steps (i + 1) seen ss
      else
        errIf (psName s \<in> seen) (Msg ''duplicate step name: %q'' [AStr (psName s)])
      @ errIf (psType s \<notin> set validStepTypes)
          (Msg ''step %q: unknown step type %q'' [AStr (psName s), AStr (psType s)])
      @ validateStepDeps steps (insert (psName s) seen) s
      @ validateStepsFrom steps (i + 1) (insert (psName s) seen) ss)"

definition validateSteps :: "playbookStep list \<Rightarrow> message list" where
  "validateSteps steps = validateStepsFrom steps 0 {} steps"

definition ValidatePlaybook :: "playbookSpec \<Rightarrow> message list" where
  "ValidatePlaybook pb =
     (let errs =
        errIf (pbAPIVersion pb \<noteq> '''' \<and> pbAPIVersion pb \<noteq> ''chaos.operatorchaos.io/v1alpha1'')
          (Msg ''unsupported apiVersion %q (expected chaos.operatorchaos.io/v1alpha1)''
             [AStr (pbAPIVersion pb)])
      @ errIf (pmName (pbMetadata pb) = '''') (Msg ''metadata.name is required'' [])
      @ errIf (pmDescription (pbMetadata pb) = '''') (Msg ''metadata.description is required'' [])
      in if pbKind pb = ''UpgradePlaybook'' \<or> pbKind pb = '''' then
           errs @ validateUpgrade pb @ validateSteps (Steps pb)
         else if pbKind pb = ''ChaosPlaybook'' then
           errs @ validateChaos pb @ validateSteps (Steps pb)
         else errs @ [Msg ''unknown kind %q (expected UpgradePlaybook or ChaosPlaybook)''
                [AStr (pbKind pb)]])"

section \<open>Reordering\<close>

definition hasDependsOn :: "playbookStep list \<Rightarrow> bool" where
  "hasDependsOn steps = list_ex (\<lambda>s. psDependsOn s \<noteq> []) steps"

definition toSequencerStep :: "playbookStep \<Rightarrow> upStep" where
  "toSequencerStep s = \<lparr>upName = psName s, upType = psType s, upDependsOn = psDependsOn s,
     upComponent = '''', upKnowledgeRef = '''', upSynthetic = psSynthetic s\<rparr>"

definition stepByName :: "playbookStep list \<Rightarrow> string \<rightharpoonup> playbookStep" where
  "stepByName steps = fold (\<lambda>s m. m(psName s \<mapsto> s)) steps Map.empty"

definition syntheticStep :: "upStep \<Rightarrow> playbookStep" where
  "syntheticStep ss = \<lparr>psName = upName ss, psType = upType ss, psKnowledgeDir = '''', psCommands = [],
     psVerify = None, psDescription = '''', psAutoCheck = '''', psExperiments = [], psKnowledge = '''',
     psDependsOn = [], psPathRef = '''', psSynthetic = True\<rparr>"

definition noSequencerOptions :: sequencerOptions where
  "noSequencerOptions = \<lparr>soInjectHealthGates = False, soAutoInferDeps = False, soOperators = []\<rparr>"

definition setSteps :: "playbookStep list \<Rightarrow> playbookSpec \<Rightarrow> playbookSpec" where
  "setSteps steps pb =
     (case pbUpgrade pb of
        Some u \<Rightarrow> pb\<lparr>pbUpgrade := Some (u\<lparr>ugSteps := steps\<rparr>)\<rparr>
      | None \<Rightarrow> (case pbChaos pb of
          Some c \<Rightarrow> pb\<lparr>pbChaos := Some (c\<lparr>cpSteps := steps\<rparr>)\<rparr>
        | None \<Rightarrow> pb))"

text \<open>The reordered playbook and the warnings that are printed; \<open>None\<close> when the sequencer does not
  return.\<close>

definition applySequencer :: "playbookSpec \<Rightarrow> (goErr + playbookSpec \<times> message list) option" where
  "applySequencer pb =
     (let steps = Steps pb in
      map_option (\<lambda>r. case r of
          Inl err \<Rightarrow> Inl err
        | Inr (ordered, warnings) \<Rightarrow>
            Inr (setSteps (map (\<lambda>ss. case stepByName steps (upName ss) of
                     Some original \<Rightarrow> original | None \<Rightarrow> syntheticStep ss) ordered) pb, warnings))
        (Sequence (map toSequencerStep steps) None noSequencerOptions))"

text \<open>The commands apply the sequencer only when some step declares a dependency.\<close>

definition sequencePlaybook :: "playbookSpec \<Rightarrow> (goErr + playbookSpec \<times> message list) option" where
  "sequencePlaybook pb =
     (if hasDependsOn (Steps pb)
      then map_option (map_sum (\<lambda>err. Errorf ''sequencing steps: %w'' [AErr err]) id) (applySequencer pb)
      else Some (Inr (pb, [])))"

section \<open>The knowledge of a step\<close>

definition firstIndex :: "('a \<Rightarrow> bool) \<Rightarrow> 'a list \<Rightarrow> int" where
  "firstIndex P xs = (if list_ex P xs then int (length (takeWhile (\<lambda>x. \<not> P x) xs)) else - 1)"

definition lastIndex :: "('a \<Rightarrow> bool) \<Rightarrow> 'a list \<Rightarrow> int" where
  "lastIndex P xs = fold (\<lambda>(i, x) best. if P x then int i else best) (enumerate 0 xs) (- 1)"

definition ResolveKnowledgeDir :: "playbookStep \<Rightarrow> playbookSpec \<Rightarrow> string" where
  "ResolveKnowledgeDir step pb =
     (if psKnowledgeDir step \<noteq> '''' then psKnowledgeDir step
      else case pbChaos pb of
        Some c \<Rightarrow> cpKnowledgeDir c
      | None \<Rightarrow> (case pbUpgrade pb of
          None \<Rightarrow> ''''
        | Some u \<Rightarrow>
            (let firstOLM = firstIndex (\<lambda>s. psType s = ''olm'') (Steps pb);
                 lastOLM = lastIndex (\<lambda>s. psType s = ''olm'') (Steps pb);
                 stepIndex = lastIndex (\<lambda>s. psName s = psName step) (Steps pb)
             in if firstOLM < 0 then vrKnowledgeDir (ugTarget u)
                else if stepIndex > lastOLM then vrKnowledgeDir (ugTarget u)
                else if stepIndex < firstOLM then vrKnowledgeDir (ugSource u)
                else vrKnowledgeDir (ugTarget u))))"

section \<open>What validation accepts\<close>

definition wfSteps :: "playbookStep list \<Rightarrow> bool" where
  "wfSteps steps \<longleftrightarrow> distinct (map psName steps) \<and>
     (\<forall>s\<in>set steps. psName s \<noteq> '''' \<and> psType s \<in> set validStepTypes \<and>
        set (psDependsOn s) \<subseteq> psName ` set steps)"

definition wfUpgrade :: "upgradeSpec \<Rightarrow> bool" where
  "wfUpgrade u \<longleftrightarrow>
     vrKnowledgeDir (ugSource u) \<noteq> '''' \<and> vrVersion (ugSource u) \<noteq> '''' \<and>
     vrKnowledgeDir (ugTarget u) \<noteq> '''' \<and> vrVersion (ugTarget u) \<noteq> '''' \<and> ugSteps u \<noteq> [] \<and>
     (\<forall>s\<in>set (ugSteps u). psType s = ''olm'' \<longrightarrow> ugPaths u \<noteq> [] \<and>
        (\<forall>p\<in>set (ugPaths u). utOperator p \<noteq> '''' \<and> utNamespace p \<noteq> '''' \<and> utHops p \<noteq> []) \<and>
        (1 < length (ugPaths u) \<longrightarrow> psPathRef s \<noteq> ''''))"

definition wfPlaybook :: "playbookSpec \<Rightarrow> bool" where
  "wfPlaybook pb \<longleftrightarrow>
     (pbAPIVersion pb = '''' \<or> pbAPIVersion pb = ''chaos.operatorchaos.io/v1alpha1'') \<and>
     pmName (pbMetadata pb) \<noteq> '''' \<and> pmDescription (pbMetadata pb) \<noteq> '''' \<and> wfSteps (Steps pb) \<and>
     (case pbKind pb = ''ChaosPlaybook'' of
        True \<Rightarrow> (\<exists>c. pbChaos pb = Some c \<and> cpKnowledgeDir c \<noteq> '''' \<and> cpSteps c \<noteq> [])
      | False \<Rightarrow> (pbKind pb = ''UpgradePlaybook'' \<or> pbKind pb = '''') \<and>
          (\<exists>u. pbUpgrade pb = Some u \<and> wfUpgrade u))"

lemma validatePaths_Nil:
  "validatePaths i paths = [] \<longleftrightarrow>
     (\<forall>p\<in>set paths. utOperator p \<noteq> '''' \<and> utNamespace p \<noteq> '''' \<and> utHops p \<noteq> [])"
  by (induction paths arbitrary: i) auto

lemma validateUpgrade_Nil:
  "validateUpgrade pb = [] \<longleftrightarrow> (\<exists>u. pbUpgrade pb = Some u \<and> wfUpgrade u)"
proof (cases "pbUpgrade pb")
  case None
  then show ?thesis by (simp add: validateUpgrade_def)
next
  case (Some u)
  have olm: "list_ex (\<lambda>s. psType s = ''olm'') (ugSteps u) \<longleftrightarrow> (\<exists>s\<in>set (ugSteps u). psType s = ''olm'')"
    by (simp add: list_ex_iff)
  show ?thesis
    using Some by (auto simp: validateUpgrade_def wfUpgrade_def olm validatePaths_Nil filter_empty_conv)
qed

lemma validateStepDeps_Nil:
  "seen \<subseteq> psName ` set steps \<Longrightarrow>
     validateStepDeps steps seen s = [] \<longleftrightarrow> set (psDependsOn s) \<subseteq> psName ` set steps"
  by (auto simp: validateStepDeps_def filter_empty_conv list_ex_iff)

lemma validateStepsFrom_Nil:
  assumes "set ss \<subseteq> set steps" and "seen \<subseteq> psName ` set steps"
  shows "validateStepsFrom steps i seen ss = [] \<longleftrightarrow>
     distinct (map psName ss) \<and> psName ` set ss \<inter> seen = {} \<and>
     (\<forall>s\<in>set ss. psName s \<noteq> '''' \<and> psType s \<in> set validStepTypes \<and>
        set (psDependsOn s) \<subseteq> psName ` set steps)"
  using assms
proof (induction ss arbitrary: i seen)
  case Nil
  then show ?case by simp
next
  case (Cons s ss)
  then have sub: "set ss \<subseteq> set steps" "insert (psName s) seen \<subseteq> psName ` set steps" by auto
  show ?case
    using Cons.IH[OF sub, of "i + 1"] validateStepDeps_Nil[OF sub(2), of s]
    by (cases "psName s = ''''") auto
qed

text \<open>C39. Validation accepts a playbook exactly if it is well-formed: known version and kind, metadata,
  the parts that its kind needs, paths for its OLM steps, and steps with distinct names, known types
  and dependencies on each other only.\<close>

theorem ValidatePlaybook_iff: "(ValidatePlaybook pb = []) = wfPlaybook pb"
proof -
  have "validateSteps (Steps pb) = [] \<longleftrightarrow> wfSteps (Steps pb)"
    using validateStepsFrom_Nil[of "Steps pb" "Steps pb" "{}" 0]
    by (simp add: validateSteps_def wfSteps_def)
  moreover have "validateChaos pb = [] \<longleftrightarrow>
      (\<exists>c. pbChaos pb = Some c \<and> cpKnowledgeDir c \<noteq> '''' \<and> cpSteps c \<noteq> [])"
    by (auto simp: validateChaos_def split: option.split)
  ultimately show ?thesis
    by (auto simp: ValidatePlaybook_def wfPlaybook_def Let_def validateUpgrade_Nil split: bool.split)
qed

lemma accepted_steps: "ValidatePlaybook pb = [] \<Longrightarrow> wfSteps (Steps pb)"
proof -
  assume "ValidatePlaybook pb = []"
  then have "validateSteps (Steps pb) = []"
    by (auto simp: ValidatePlaybook_def Let_def split: if_splits)
  then show ?thesis
    using validateStepsFrom_Nil[of "Steps pb" "Steps pb" "{}" 0]
    by (simp add: validateSteps_def wfSteps_def)
qed

section \<open>The order of an accepted playbook\<close>

definition dependencyEdges :: "playbookStep list \<Rightarrow> (string \<times> string) list" where
  "dependencyEdges steps = concat (map (\<lambda>s. map (\<lambda>dep. (dep, psName s)) (psDependsOn s)) steps)"

lemma toSequencerStep_names [simp]: "map upName (map toSequencerStep steps) = map psName steps"
  by (simp add: toSequencerStep_def comp_def)

lemma sequenceEdges_playbook:
  "sequenceEdges (map toSequencerStep steps) None noSequencerOptions = dependencyEdges steps"
  by (simp add: sequenceEdges_def explicitEdges_def dependencyEdges_def toSequencerStep_def comp_def)

lemma Steps_setSteps:
  "pbUpgrade pb \<noteq> None \<or> pbChaos pb \<noteq> None \<Longrightarrow> Steps (setSteps steps pb) = steps"
  "setSteps a (setSteps b pb) = setSteps a pb"
  by (auto simp: Steps_def setSteps_def split: option.split)

lemma stepByName_in: "distinct (map psName steps) \<Longrightarrow> s \<in> set steps \<Longrightarrow> stepByName steps (psName s) = Some s"
  unfolding stepByName_def by (rule fold_names_in)

lemma reorder_steps:
  assumes "distinct (map psName steps)" and "mset ordered = mset (map toSequencerStep steps)"
    and "steps' = map (\<lambda>ss. case stepByName steps (upName ss) of
           Some original \<Rightarrow> original | None \<Rightarrow> syntheticStep ss) ordered"
  shows "mset steps' = mset steps" and "map psName steps' = map upName ordered"
proof -
  let ?f = "\<lambda>ss. case stepByName steps (upName ss) of
      Some original \<Rightarrow> original | None \<Rightarrow> syntheticStep ss"
  have f: "?f (toSequencerStep s) = s" if "s \<in> set steps" for s
    using stepByName_in[OF assms(1) that] by (simp add: toSequencerStep_def)
  have "mset steps' = image_mset ?f (mset (map toSequencerStep steps))"
    by (simp only: assms(3) mset_map assms(2))
  also have "\<dots> = mset (map (\<lambda>s. ?f (toSequencerStep s)) steps)"
    by (simp add: image_mset.compositionality comp_def)
  also have "map (\<lambda>s. ?f (toSequencerStep s)) steps = steps"
    using f by (simp add: map_idI)
  finally show "mset steps' = mset steps" .
  have "set ordered = set (map toSequencerStep steps)" using assms(2) by (metis mset_eq_setD)
  then have "psName (?f ss) = upName ss" if "ss \<in> set ordered" for ss
  proof -
    from that \<open>set ordered = set (map toSequencerStep steps)\<close>
    obtain s where s: "s \<in> set steps" "ss = toSequencerStep s" by auto
    then have "?f ss = s" using f[OF s(1)] unfolding s(2) by blast
    then show ?thesis using s(2) by (simp add: toSequencerStep_def)
  qed
  then show "map psName steps' = map upName ordered" using assms(3) by simp
qed

text \<open>C38. Sequencing an accepted playbook returns and keeps the playbook but for the order of its steps:
  each step occurs once, there is a warning exactly if the dependencies have a cycle, and without one
  every step comes after all the steps it depends on.\<close>

theorem accepted_playbook_sequenced:
  assumes "ValidatePlaybook pb = []"
  shows "\<exists>pb' warnings. sequencePlaybook pb = Some (Inr (pb', warnings)) \<and>
     mset (Steps pb') = mset (Steps pb) \<and> setSteps [] pb' = setSteps [] pb \<and>
     (warnings = [] \<longleftrightarrow> acyclic (set (dependencyEdges (Steps pb)))) \<and>
     (warnings = [] \<longrightarrow> (\<forall>(m, n) \<in> set (dependencyEdges (Steps pb)).
        comesBefore (map psName (Steps pb')) m n))"
proof (cases "hasDependsOn (Steps pb)")
  case False
  then have "dependencyEdges (Steps pb) = []"
    by (auto simp: hasDependsOn_def dependencyEdges_def list_ex_iff)
  with False show ?thesis by (simp add: sequencePlaybook_def acyclic_def)
next
  case True
  let ?steps = "Steps pb" and ?seq = "map toSequencerStep (Steps pb)"
  note wf = accepted_steps[OF assms]
  have parts: "pbUpgrade pb \<noteq> None \<or> pbChaos pb \<noteq> None"
    using True by (auto simp: hasDependsOn_def Steps_def split: option.splits)
  have names: "distinct (map upName ?seq)" and known:
      "\<forall>s\<in>set ?seq. set (upDependsOn s) \<subseteq> set (map upName ?seq)"
    using wf unfolding toSequencerStep_names by (auto simp: wfSteps_def toSequencerStep_def)
  from Sequence_result[OF this, of None noSequencerOptions] obtain ordered warnings where r:
      "Sequence ?seq None noSequencerOptions = Some (Inr (ordered, warnings))"
      "mset ordered = mset ?seq" "warnings = [] \<longleftrightarrow> acyclic (set (dependencyEdges ?steps))"
      "warnings = [] \<longrightarrow>
         (\<forall>(m, n) \<in> set (dependencyEdges ?steps). comesBefore (map upName ordered) m n)"
    unfolding sequenceEdges_playbook by (auto simp: noSequencerOptions_def)
  define steps' where "steps' = map (\<lambda>ss. case stepByName ?steps (upName ss) of
      Some original \<Rightarrow> original | None \<Rightarrow> syntheticStep ss) ordered"
  note re = reorder_steps[OF _ r(2) steps'_def]
  have "sequencePlaybook pb = Some (Inr (setSteps steps' pb, warnings))"
    using True r(1) by (simp add: sequencePlaybook_def applySequencer_def steps'_def)
  moreover have "distinct (map psName ?steps)" using wf by (simp add: wfSteps_def)
  ultimately show ?thesis
    using r(3,4) re Steps_setSteps(1)[OF parts] Steps_setSteps(2)[of "[]" steps' pb]
    by (intro exI[of _ "setSteps steps' pb"] exI[of _ warnings]) simp
qed


definition demoPlaybookStep :: "string \<Rightarrow> string \<Rightarrow> string list \<Rightarrow> playbookStep" where
  "demoPlaybookStep name type deps = \<lparr>psName = name, psType = type, psKnowledgeDir = '''', psCommands = [],
     psVerify = None, psDescription = '''', psAutoCheck = '''', psExperiments = [], psKnowledge = '''',
     psDependsOn = deps, psPathRef = '''', psSynthetic = False\<rparr>"

definition demoUpgrade :: "hop list \<Rightarrow> playbookStep list \<Rightarrow> upgradeSpec" where
  "demoUpgrade hops steps = \<lparr>ugSource = \<lparr>vrKnowledgeDir = ''k1'', vrVersion = ''1''\<rparr>,
     ugTarget = \<lparr>vrKnowledgeDir = ''k2'', vrVersion = ''2''\<rparr>, ugPath = None,
     ugPaths = [\<lparr>utName = '''', utOperator = ''op'', utNamespace = ''ns'', utHops = hops, utDependsOn = []\<rparr>],
     ugRollback = None, ugSteps = steps\<rparr>"

definition demoPlaybook :: "hop list \<Rightarrow> playbookStep list \<Rightarrow> playbookSpec" where
  "demoPlaybook hops steps = \<lparr>pbAPIVersion = '''', pbKind = ''UpgradePlaybook'',
     pbMetadata = \<lparr>pmName = ''demo'', pmDescription = ''d''\<rparr>, pbUpgrade = Some (demoUpgrade hops steps),
     pbChaos = None\<rparr>"

lemmas demo_playbook_defs = demoPlaybook_def demoUpgrade_def demoPlaybookStep_def

definition demoHops :: "hop list" where
  "demoHops = [\<lparr>hpChannel = ''stable-1'', hpMaxWait = second\<rparr>, \<lparr>hpChannel = ''stable-2'', hpMaxWait = second\<rparr>]"

definition sequencedPlaybook :: playbookSpec where
  "sequencedPlaybook = demoPlaybook demoHops
     [demoPlaybookStep ''check'' ''validate-version'' [''upgrade''], demoPlaybookStep ''upgrade'' ''olm'' []]"

theorem accepted_playbook_sequenced_witness:
  "\<exists>pb' warnings. sequencePlaybook sequencedPlaybook = Some (Inr (pb', warnings)) \<and>
     mset (Steps pb') = mset (Steps sequencedPlaybook) \<and>
     setSteps [] pb' = setSteps [] sequencedPlaybook \<and>
     (warnings = [] \<longleftrightarrow> acyclic (set (dependencyEdges (Steps sequencedPlaybook)))) \<and>
     (warnings = [] \<longrightarrow> (\<forall>(m, n) \<in> set (dependencyEdges (Steps sequencedPlaybook)).
        comesBefore (map psName (Steps pb')) m n))"
proof (rule accepted_playbook_sequenced)
  show "ValidatePlaybook sequencedPlaybook = []" by code_simp
qed

text \<open>
  The steps that run are those of the upgrade part whenever there is one; validation goes by the kind.
  A chaos playbook with an upgrade part is accepted although its upgrade part is not checked, and runs
  the steps of that part, here an OLM step without any path.
\<close>

definition mixedPlaybook :: playbookSpec where
  "mixedPlaybook = (demoPlaybook demoHops [])\<lparr>pbKind := ''ChaosPlaybook'',
     pbChaos := Some \<lparr>cpKnowledgeDir = ''k'', cpSteps = [demoPlaybookStep ''test'' ''chaos'' []]\<rparr>,
     pbUpgrade := Some ((demoUpgrade demoHops [demoPlaybookStep ''upgrade'' ''olm'' []])
       \<lparr>ugPaths := []\<rparr>)\<rparr>"

lemma chaos_playbook_runs_upgrade:
  "ValidatePlaybook mixedPlaybook = [] \<and> map psName (Steps mixedPlaybook) = [''upgrade''] \<and>
   validateUpgrade mixedPlaybook \<noteq> []"
  by code_simp

text \<open>Loading fills in the waits and keeps the steps.\<close>

lemma LoadPlaybook_Steps [simp]: "Steps (LoadPlaybook pb) = Steps pb"
  by (auto simp: LoadPlaybook_def Steps_def defaultWaits_def singlePath_def split: option.split)

lemma LoadPlaybook_waits:
  assumes "pbUpgrade (LoadPlaybook pb) = Some u" and "p \<in> set (ugPaths u)" and "h \<in> set (utHops p)"
  shows "hpMaxWait h \<noteq> 0"
proof -
  obtain z where "u = defaultWaits z" using assms(1) by (auto simp: LoadPlaybook_def)
  then show ?thesis
    using assms(2,3) by (auto simp: defaultWaits_def DefaultMaxWait_def second_def)
qed


end
