(* ===== verification/Spec2Isabelle.thy ===== *)
theory Spec2Isabelle
  imports ReconcilerProps JsonWf Registry Clean Olm Playbook
begin

text \<open>
  A model of Operator Chaos, a framework that injects faults into a Kubernetes cluster,
  watches the operator under test recover, and judges the recovery. This theory imports the
  development; the properties of each part stand in the theory of the part.

  \<^bold>\<open>The program and its parts\<close>

  An experiment (\<open>api/v1alpha1/types.go\<close>) names a target, an injection with its parameters, a
  blast radius, steady-state checks and a hypothesis. It is run in one of two ways:

  \<^item> by the controller (\<open>internal/controller/reconciler.go\<close>), a state machine over the phases of
    the persisted resource, one step per reconcile;
  \<^item> from the command line (\<open>Orchestrator.Run\<close> in \<open>pkg/orchestrator/lifecycle.go\<close>), in one
    process from validation to report.

  Both use the same engines: the injectors (\<open>pkg/injection\<close>), the observer and the reconciliation
  checker (\<open>pkg/observer\<close>), the evaluator (\<open>pkg/evaluator\<close>), the knowledge of the operator
  (\<open>pkg/model\<close>), the lock and the safety checks (\<open>pkg/safety\<close>).

  \<^bold>\<open>Theories\<close>

  \<^item> \<open>Prelude\<close>: errors with their format strings and arguments, strings and bytes, maps with the
    Go defaults, duration constants, generic lemmas, the collections of simplification rules.
    \<open>Strconv\<close>: decimal conversion of integers.
  \<^item> \<open>ApiTypes\<close> (\<open>types.go\<close>), \<open>Safety\<close> (\<open>blastradius.go\<close>), \<open>Names\<close> and \<open>Validation\<close> with
    \<open>ValidationProps\<close> (\<open>pkg/injection/validate.go\<close>).
  \<^item> \<open>KubeClient\<close>: the client of the Kubernetes API as a record of operations, the laws that the
    code relies on as the locale \<open>kube_api\<close>, and an in-memory server that obeys them.
  \<^item> \<open>ExpLock\<close> (\<open>mutex.go\<close>, locale \<open>experiment_lock\<close>) and \<open>LeaseLock\<close> (\<open>lease.go\<close>).
  \<^item> \<open>Knowledge\<close> (\<open>pkg/model\<close>), \<open>Observer\<close> (\<open>pkg/observer\<close>), \<open>Evaluator\<close> (\<open>pkg/evaluator\<close>),
    \<open>Report\<close> (\<open>pkg/reporter\<close>).
  \<^item> \<open>Reconciler\<close>, \<open>ReconcilerSafety\<close>, \<open>ReconcilerProps\<close>: the controller, its invariants by rule
    induction over reachable states, and its properties.
  \<^item> \<open>Rollback\<close> (\<open>pkg/safety/rollback.go\<close>, \<open>ttl.go\<close>), \<open>Cluster\<close> (the objects of the cluster and the
    laws of the client over them, locale \<open>cluster_api\<close>) and \<open>Injectors\<close> (the interface of
    \<open>pkg/injection\<close>, locale \<open>fault_injector\<close>).
  \<^item> The twenty injectors of \<open>pkg/injection\<close>: \<open>InjectDeployment\<close> (scaling, images, commands),
    \<open>InjectObjects\<close> (quota, network policy, disruption budget), \<open>InjectBackup\<close> (Secret, Lease,
    resource), \<open>InjectMeta\<close>, \<open>InjectDrift\<close> and \<open>InjectOwner\<close> (labels, finalizers, subjects, data,
    owners), \<open>InjectPods\<close>, \<open>InjectClientFault\<close>, \<open>InjectWebhook\<close>, \<open>InjectNamespace\<close>,
    \<open>InjectLatency\<close>, \<open>InjectMutation\<close> with \<open>JsonWf\<close> (the stored objects stay well-formed).
  \<^item> \<open>Registry\<close>: the registry that the command line builds, its contract (locale \<open>chaos_cluster\<close>),
    and the run over it. \<open>Clean\<close> (\<open>internal/cli/clean.go\<close>): the emergency stop.
  \<^item> \<open>Sequencer\<close> (\<open>pkg/upgrade/sequencer.go\<close>): the order of the steps of an upgrade.
  \<^item> \<open>Orchestrator\<close>, \<open>OrchestratorProps\<close>, \<open>CliRun\<close>: the command line, the contract of its engines
    (locales \<open>orchestration\<close> and \<open>run_clock\<close>), its assembly and its properties.

  \<^bold>\<open>How the code is represented\<close>

  A struct is a record, an enum a datatype with a constructor for every declared constant and one
  for any other string, a Go error a value of \<open>goErr\<close> (format and arguments, so \<open>errors.Is\<close> and
  wrapping are visible; single quotes in messages are left out), a fallible operation a sum with the
  error on the left. State is passed explicitly: every operation that calls a client, a
  clock or a lock takes a world and returns the world after it. The controller's handlers are
  written in the state monad. Durations and times are integers of nanoseconds; the lease
  duration is computed with its conversion to 32 bits. Maps whose iteration order Go leaves open
  are lists in any order, and the theorems about them hold for every order. A goroutine
  group is the interleaving of its effects (a parameter).

  \<^bold>\<open>Contracts\<close>

  \<open>kube_api\<close>: a read changes nothing, create needs absence, update and delete need the version that
  was read, an error means no effect. \<open>experiment_lock\<close>: acquire, renew and release act on the holder
  only, and a lock is taken over only when it has expired; it is interpreted for the in-process
  lock and for Leases over every \<open>kube_api\<close>. \<open>fault_injector\<close>: what an injector promises about its
  fault; an injector is a \<open>sublocale\<close> of \<open>cluster_api\<close>. \<open>orchestration\<close>: only the injector changes
  whether the fault is active. \<open>run_clock\<close>: time passes and a context has a deadline. Each
  locale is interpreted on the definitions of the model.

  \<^bold>\<open>What is shown\<close>

  For the controller: at most one injection in every reachable state, no active fault without the
  finalizer, no post-check before the revert, refinement of the abstract phase machine, a run that
  completes. For the command line: no fault is left behind silently, the lock is released, a run
  returns, what validation accepts is bounded. For the emergency stop: it touches only what the program
  has marked, and which faults it does not undo. For the sequencer: it returns, keeps every step, and
  puts each after its dependencies when there is no cycle. For the lock: exclusion and no racing reclaims. For the
  evaluator: the verdict as an independent specification, and independence of interleaving. For
  knowledge: the validator accepts exactly the well-formed models, and the graph holds exactly the declared
  dependencies. For validation: what an accepted injection can no longer do. For rollback and
  injectors: round trips. Several properties record behaviour that the code has and does not intend;
  they are the ones of kind error.

  \<^bold>\<open>Partiality\<close>

  Three loops of a run are partial functions with value \<open>None\<close> when they do not end: the polling loop of
  the reconciliation checker, the retry loop of the revert at the TTL, and so \<open>Run\<close>. That they
  return is proved from a clock that advances (\<open>pollClock\<close>) and a context with a deadline
  (\<open>run_clock\<close>). The loops of the sequencer are a \<open>while_option\<close> and a partial function; they return for
  distinct names, and do not for some lists with a repeated name. No definition uses fuel except the decoder of the demonstration codec, which gets
  the length of its input.

  \<^bold>\<open>Parameters\<close>

  The API client, JSON, YAML and XML codecs, SHA-256, label selectors, certificates, the effect of a
  patch on a typed specification, \<open>time.ParseDuration\<close>, \<open>time.Parse\<close> and time formatting, the clock and
  the scheduler are parameters. The law of deletion speaks of objects that no finalizer holds back. Their laws are stated in locales or as
  hypotheses, and the witnesses instantiate them.

  \<^bold>\<open>Not modelled\<close>

  The dashboard, the generators under \<open>hack\<close>, deep copies and generated code; the flag handling and
  printing of the commands and the loading of files; the HTML and Markdown reports (text templates);
  \<open>pkg/olm\<close>, the upgrade playbooks of \<open>internal/cli/upgrade\<close> and the snapshots of \<open>pkg/upgrade\<close>
  (sequences of calls to OLM and shell commands), \<open>pkg/diff\<close> and \<open>pkg/generate\<close> (schema comparison
  and templates), \<open>pkg/analyzer\<close> (source analysis); the SDK (\<open>pkg/sdk\<close>, \<open>pkg/chaostransport\<close>) and
  the fuzzing helpers. They are glue, input and output, or work on third-party data models.
\<close>

end
